(* ===== verification/Prelude.thy ===== *)
theory Prelude
  imports Main "HOL-Library.Word"
begin

text \<open>
  Shared vocabulary of the development: the rule collections, the byte-string functions of
  Go's \<^verbatim>\<open>strings\<close>, \<^verbatim>\<open>bytes\<close> and \<^verbatim>\<open>strconv\<close> packages that the program calls, the outcome
  of a Go call (a value, an error or a panic) and the generic lemmas on them that the
  component theories use.
\<close>

section \<open>Rule collections\<close>

named_theorems op_defs \<open>definitions of the operations of a component\<close>
named_theorems inv_intros \<open>one-step preservation lemmas of invariants\<close>
named_theorems env_simps \<open>projections of environment records used in evaluation\<close>

section \<open>Strings and byte slices\<close>

text \<open>A Go string and a Go byte slice are both a sequence of bytes.\<close>

type_synonym bytes = string

text \<open>\<^verbatim>\<open>strings.HasPrefix\<close> and, through it, \<^verbatim>\<open>strings.Contains\<close>.\<close>

fun has_prefix :: "bytes \<Rightarrow> bytes \<Rightarrow> bool" where
  "has_prefix s [] = True"
| "has_prefix [] (p # ps) = False"
| "has_prefix (c # s) (p # ps) = (c = p \<and> has_prefix s ps)"

fun go_contains :: "bytes \<Rightarrow> bytes \<Rightarrow> bool" where
  "go_contains [] sub = (sub = [])"
| "go_contains (c # s) sub = (has_prefix (c # s) sub \<or> go_contains s sub)"

text \<open>
  \<^verbatim>\<open>strings.ReplaceAll\<close> and \<^verbatim>\<open>bytes.ReplaceAll\<close>: non-overlapping occurrences from the left.
  The program only replaces non-empty patterns; for the empty pattern, where Go inserts the
  replacement around every rune, the input is returned.
\<close>

function replace_all :: "bytes \<Rightarrow> bytes \<Rightarrow> bytes \<Rightarrow> bytes" where
  "replace_all [] old new = []"
| "replace_all (c # s) old new =
     (if old \<noteq> [] \<and> has_prefix (c # s) old
      then new @ replace_all (drop (length old) (c # s)) old new
      else c # replace_all s old new)"
  by pat_completeness auto
termination
  by (relation "measure (\<lambda>(s, old, new). length s)") (auto simp: length_greater_0_conv)

text \<open>\<^verbatim>\<open>strings.Split(s, sep)\<close> for a one-byte separator.\<close>

fun go_split :: "char \<Rightarrow> bytes \<Rightarrow> bytes list" where
  "go_split sep [] = [[]]"
| "go_split sep (c # s) =
     (if c = sep then [] # go_split sep s
      else (case go_split sep s of [] \<Rightarrow> [[c]] | p # ps \<Rightarrow> (c # p) # ps))"

text \<open>
  The verb \<open>%q\<close> of \<^verbatim>\<open>fmt\<close>: \<^verbatim>\<open>strconv.Quote\<close>. Bytes from 128 on belong to multi-byte runes;
  a printable rune is copied as it stands.
\<close>

definition hex_digit :: "nat \<Rightarrow> char" where
  "hex_digit n = (''0123456789abcdef'' ! (n mod 16))"

definition quote_char :: "char \<Rightarrow> bytes" where
  "quote_char c =
     (let n = of_char c :: nat in
      if n = 34 then [char_of (92::nat), c]
      else if n = 92 then [c, c]
      else if n = 7 then [char_of (92::nat), CHR ''a'']
      else if n = 8 then [char_of (92::nat), CHR ''b'']
      else if n = 12 then [char_of (92::nat), CHR ''f'']
      else if n = 10 then [char_of (92::nat), CHR ''n'']
      else if n = 13 then [char_of (92::nat), CHR ''r'']
      else if n = 9 then [char_of (92::nat), CHR ''t'']
      else if n = 11 then [char_of (92::nat), CHR ''v'']
      else if n < 32 \<or> n = 127
        then [char_of (92::nat), CHR ''x'', hex_digit (n div 16), hex_digit n]
      else [c])"

definition go_quote :: "bytes \<Rightarrow> bytes" where
  "go_quote s = CHR 0x22 # concat (map quote_char s) @ [CHR 0x22]"

section \<open>Outcomes of a Go call\<close>

text \<open>
  A Go function returns a value, returns a non-nil error, or panics. Every early return and
  every panic of the source is a branch of the model.
\<close>

datatype ('e, 'a) outcome = Ret 'a | Err 'e | Panic string

fun bind_outcome :: "('e, 'a) outcome \<Rightarrow> ('a \<Rightarrow> ('e, 'b) outcome) \<Rightarrow> ('e, 'b) outcome" where
  "bind_outcome (Ret a) f = f a"
| "bind_outcome (Err e) f = Err e"
| "bind_outcome (Panic m) f = Panic m"

lemma bind_outcome_Ret: "bind_outcome r f = Ret y \<longleftrightarrow> (\<exists>x. r = Ret x \<and> f x = Ret y)"
  by (cases r) simp_all

section \<open>Transition systems\<close>

text \<open>
  The interface between a step relation and the invariants proved of it: an invariant is kept
  by every step, and then by every run. A second, stronger invariant may use the first.
\<close>

locale step_invariant =
  fixes step :: "'s \<Rightarrow> 's \<Rightarrow> bool"
    and inv :: "'s \<Rightarrow> bool"
  assumes step_inv: "step s t \<Longrightarrow> inv s \<Longrightarrow> inv t"
begin

lemma steps_inv: "step\<^sup>*\<^sup>* s t \<Longrightarrow> inv s \<Longrightarrow> inv t"
  by (induction rule: rtranclp_induct) (auto intro: step_inv)

lemma run_inv: "step\<^sup>*\<^sup>* s t \<Longrightarrow> inv s \<Longrightarrow> step t u \<Longrightarrow> inv u"
  by (blast intro: steps_inv step_inv)

end

section \<open>Lemmas\<close>

lemma has_prefix_iff: "has_prefix s p \<longleftrightarrow> (\<exists>t. s = p @ t)"
  by (induction s p rule: has_prefix.induct) auto

lemma has_prefix_take: "has_prefix s p \<longleftrightarrow> take (length p) s = p"
  by (induction s p rule: has_prefix.induct) auto

lemma go_contains_iff: "go_contains s sub \<longleftrightarrow> (\<exists>a b. s = a @ sub @ b)"
proof (induction s)
  case Nil
  show ?case by auto
next
  case (Cons c s)
  have "(\<exists>a b. c # s = a @ sub @ b) \<longleftrightarrow>
      (\<exists>b. c # s = sub @ b) \<or> (\<exists>a b. s = a @ sub @ b)"
    by (metis append_Cons append_Nil list.exhaust list.inject)
  then show ?case
    using Cons.IH by (simp add: has_prefix_iff)
qed

lemma go_contains_append_left: "go_contains s sub \<Longrightarrow> go_contains (t @ s) sub"
  by (auto simp: go_contains_iff) (metis append_assoc)

lemma replace_all_no_occurrence: "\<not> go_contains s old \<Longrightarrow> replace_all s old new = s"
  by (induction s) auto

lemma replace_all_prefix [simp]:
  assumes "old \<noteq> []"
  shows "replace_all (old @ s) old new = new @ replace_all s old new"
proof -
  obtain c t where old: "old = c # t" using assms by (cases old) auto
  have "has_prefix (old @ s) old" by (auto simp: has_prefix_iff)
  then show ?thesis
    using assms by (simp add: old)
qed

lemma go_split_not_Nil [simp]: "go_split sep s \<noteq> []"
  by (induction s) (auto split: list.splits)

lemma go_split_no_sep: "sep \<notin> set s \<Longrightarrow> go_split sep s = [s]"
  by (induction s) auto

lemma go_split_append:
  "sep \<notin> set s \<Longrightarrow> go_split sep (s @ sep # t) = s # go_split sep t"
  by (induction s) auto

lemma go_split_pieces: "p \<in> set (go_split sep s) \<Longrightarrow> sep \<notin> set p"
  by (induction s arbitrary: p) (auto split: if_splits list.splits)

lemma length_go_split: "length (go_split sep s) = Suc (count_list s sep)"
  by (induction s) (auto split: list.splits)

lemma bind_outcome_Ret_iff:
  "bind_outcome m f = Ret b \<longleftrightarrow> (\<exists>a. m = Ret a \<and> f a = Ret b)"
  by (cases m) auto

lemma bind_outcome_assoc:
  "bind_outcome (bind_outcome m f) g = bind_outcome m (\<lambda>a. bind_outcome (f a) g)"
  by (cases m) auto

end
