(* ===== verification/ApiMachinery.thy ===== *)
theory ApiMachinery
  imports Prelude
begin

text \<open>
  The parts of \<^verbatim>\<open>k8s.io/apimachinery\<close> and \<^verbatim>\<open>k8s.io/apiserver/pkg/admission\<close> (vendored under
  \<^verbatim>\<open>src/vendor\<close>) that the webhook's own code reads or builds: group/version identifiers, the
  \<^verbatim>\<open>metav1.Status\<close> of an API error, Go's error values with \<^verbatim>\<open>errors.As\<close>, the constructors
  and classifiers of \<^verbatim>\<open>api/errors\<close>, the attributes record of an admission request, and the
  construction of the Forbidden error from it. The lemmas state what the webhook relies on:
  classification of constructed errors and transparency of wrapping.
\<close>

section \<open>Group, version, kind and resource\<close>

record GroupResource =
  gr_Group :: string
  gr_Resource :: string

record GroupVersionResource =
  gvr_Group :: string
  gvr_Version :: string
  gvr_Resource :: string

record GroupKind =
  gk_Group :: string
  gk_Kind :: string

record GroupVersionKind =
  gvk_Group :: string
  gvk_Version :: string
  gvk_Kind :: string

definition GroupResource_Empty :: "GroupResource \<Rightarrow> bool" where
  "GroupResource_Empty gr \<longleftrightarrow> length (gr_Group gr) = 0 \<and> length (gr_Resource gr) = 0"

definition GroupResource_String :: "GroupResource \<Rightarrow> string" where
  "GroupResource_String gr =
     (if length (gr_Group gr) = 0 then gr_Resource gr
      else gr_Resource gr @ ''.'' @ gr_Group gr)"

definition gvr_GroupResource :: "GroupVersionResource \<Rightarrow> GroupResource" where
  "gvr_GroupResource gvr = \<lparr>gr_Group = gvr_Group gvr, gr_Resource = gvr_Resource gvr\<rparr>"

definition gvk_GroupKind :: "GroupVersionKind \<Rightarrow> GroupKind" where
  "gvk_GroupKind gvk = \<lparr>gk_Group = gvk_Group gvk, gk_Kind = gvk_Kind gvk\<rparr>"

section \<open>API status and Go errors\<close>

record StatusCause =
  cause_Type :: string
  cause_Message :: string
  cause_Field :: string

record StatusDetails =
  details_Name :: string
  details_Group :: string
  details_Kind :: string
  details_UID :: string
  details_Causes :: "StatusCause list"
  details_RetryAfterSeconds :: "32 word"

record Status =
  status_Status :: string
  status_Message :: string
  status_Reason :: string
  status_Details :: "StatusDetails option"
  status_Code :: "32 word"

text \<open>
  The dynamic type of a non-nil Go \<^verbatim>\<open>error\<close>, as far as the program inspects it: a plain
  string error, an error that wraps one other (\<^verbatim>\<open>Unwrap() error\<close>) or several
  (\<^verbatim>\<open>Unwrap() []error\<close>), the API machinery's \<^verbatim>\<open>*StatusError\<close> and its \<^verbatim>\<open>*notRegisteredErr\<close>.
  A nil error is \<open>None\<close>.
\<close>

datatype goerror =
    ErrorString string
  | WrapError string goerror
  | JoinError string "goerror list"
  | StatusError Status
  | NotRegisteredErr string

type_synonym 'a result = "(goerror, 'a) outcome"

text \<open>The method \<^verbatim>\<open>Error()\<close>.\<close>

fun error_Error :: "goerror \<Rightarrow> string" where
  "error_Error (ErrorString m) = m"
| "error_Error (WrapError m e) = m"
| "error_Error (JoinError m es) = m"
| "error_Error (StatusError st) = status_Message st"
| "error_Error (NotRegisteredErr m) = m"

text \<open>\<^verbatim>\<open>errors.As(err, &statusErr)\<close>: depth-first through the tree of wrapped errors.\<close>

fun errors_As :: "goerror \<Rightarrow> Status option"
  and errors_As_list :: "goerror list \<Rightarrow> Status option" where
  "errors_As (ErrorString m) = None"
| "errors_As (NotRegisteredErr m) = None"
| "errors_As (StatusError st) = Some st"
| "errors_As (WrapError m e) = errors_As e"
| "errors_As (JoinError m es) = errors_As_list es"
| "errors_As_list [] = None"
| "errors_As_list (e # es) =
     (case errors_As e of Some st \<Rightarrow> Some st | None \<Rightarrow> errors_As_list es)"

definition IsNotRegisteredError :: "goerror option \<Rightarrow> bool" where
  "IsNotRegisteredError err =
     (case err of Some (NotRegisteredErr m) \<Rightarrow> True | _ \<Rightarrow> False)"

section \<open>The package api/errors\<close>

definition StatusReasonUnknown :: string where "StatusReasonUnknown = ''''"
definition StatusReasonForbidden :: string where "StatusReasonForbidden = ''Forbidden''"
definition StatusReasonNotFound :: string where "StatusReasonNotFound = ''NotFound''"
definition StatusReasonInvalid :: string where "StatusReasonInvalid = ''Invalid''"
definition StatusReasonAlreadyExists :: string where
  "StatusReasonAlreadyExists = ''AlreadyExists''"

definition knownReasons :: "string list" where
  "knownReasons =
     [''Unauthorized'', StatusReasonForbidden, StatusReasonNotFound, StatusReasonAlreadyExists,
      ''Conflict'', ''Gone'', StatusReasonInvalid, ''ServerTimeout'', ''Timeout'',
      ''TooManyRequests'', ''BadRequest'', ''MethodNotAllowed'', ''NotAcceptable'',
      ''RequestEntityTooLarge'', ''UnsupportedMediaType'', ''InternalError'', ''Expired'',
      ''ServiceUnavailable'']"

definition reasonAndCodeForError :: "goerror option \<Rightarrow> string \<times> 32 word" where
  "reasonAndCodeForError err =
     (case err of
        None \<Rightarrow> (StatusReasonUnknown, 0)
      | Some e \<Rightarrow>
          (case errors_As e of
             Some st \<Rightarrow> (status_Reason st, status_Code st)
           | None \<Rightarrow> (StatusReasonUnknown, 0)))"

definition IsNotFound :: "goerror option \<Rightarrow> bool" where
  "IsNotFound err =
     (let (reason, code) = reasonAndCodeForError err
      in if reason = StatusReasonNotFound then True
         else if reason \<notin> set knownReasons \<and> code = 404 then True
         else False)"

definition IsForbidden :: "goerror option \<Rightarrow> bool" where
  "IsForbidden err =
     (let (reason, code) = reasonAndCodeForError err
      in if reason = StatusReasonForbidden then True
         else if reason \<notin> set knownReasons \<and> code = 403 then True
         else False)"

definition details_of :: "GroupResource \<Rightarrow> string \<Rightarrow> StatusDetails" where
  "details_of qualifiedResource name =
     \<lparr>details_Name = name, details_Group = gr_Group qualifiedResource,
      details_Kind = gr_Resource qualifiedResource, details_UID = '''',
      details_Causes = [], details_RetryAfterSeconds = 0\<rparr>"

definition NewNotFound :: "GroupResource \<Rightarrow> string \<Rightarrow> goerror" where
  "NewNotFound qualifiedResource name = StatusError
     \<lparr>status_Status = ''Failure'',
      status_Message = GroupResource_String qualifiedResource @ '' '' @ go_quote name @ '' not found'',
      status_Reason = StatusReasonNotFound,
      status_Details = Some (details_of qualifiedResource name),
      status_Code = 404\<rparr>"

definition NewAlreadyExists :: "GroupResource \<Rightarrow> string \<Rightarrow> goerror" where
  "NewAlreadyExists qualifiedResource name = StatusError
     \<lparr>status_Status = ''Failure'',
      status_Message =
        GroupResource_String qualifiedResource @ '' '' @ go_quote name @ '' already exists'',
      status_Reason = StatusReasonAlreadyExists,
      status_Details = Some (details_of qualifiedResource name),
      status_Code = 409\<rparr>"

definition errors_NewForbidden :: "GroupResource \<Rightarrow> string \<Rightarrow> goerror \<Rightarrow> goerror" where
  "errors_NewForbidden qualifiedResource name err =
     (let message =
        (if GroupResource_Empty qualifiedResource then ''forbidden: '' @ error_Error err
         else if name = '''' then
           GroupResource_String qualifiedResource @ '' is forbidden: '' @ error_Error err
         else
           GroupResource_String qualifiedResource @ '' '' @ go_quote name @ '' is forbidden: ''
             @ error_Error err)
      in StatusError
        \<lparr>status_Status = ''Failure'', status_Message = message,
         status_Reason = StatusReasonForbidden,
         status_Details = Some (details_of qualifiedResource name),
         status_Code = 403\<rparr>)"

section \<open>Admission attributes\<close>

text \<open>\<^verbatim>\<open>user.DefaultInfo\<close>; a nil \<^verbatim>\<open>Extra\<close> map is \<open>None\<close>.\<close>

record UserInfo =
  user_Name :: string
  user_UID :: string
  user_Groups :: "string list"
  user_Extra :: "(string \<rightharpoonup> string list) option"

text \<open>
  \<^verbatim>\<open>attributesRecord\<close>; a nil \<^verbatim>\<open>runtime.Object\<close> is \<open>None\<close>. The annotation map and the
  reinvocation context start empty and are written by validators only.
\<close>

record 'obj Attributes =
  attr_kind :: GroupVersionKind
  attr_namespace :: string
  attr_name :: string
  attr_resource :: GroupVersionResource
  attr_subresource :: string
  attr_operation :: string
  attr_options :: "'obj option"
  attr_dryRun :: bool
  attr_object :: "'obj option"
  attr_oldObject :: "'obj option"
  attr_userInfo :: UserInfo

definition NewAttributesRecord ::
  "'obj option \<Rightarrow> 'obj option \<Rightarrow> GroupVersionKind \<Rightarrow> string \<Rightarrow> string \<Rightarrow> GroupVersionResource \<Rightarrow>
   string \<Rightarrow> string \<Rightarrow> 'obj option \<Rightarrow> bool \<Rightarrow> UserInfo \<Rightarrow> 'obj Attributes" where
  "NewAttributesRecord object oldObject kind namespace name resource subresource operation
     operationOptions dryRun userInfo =
     \<lparr>attr_kind = kind, attr_namespace = namespace, attr_name = name, attr_resource = resource,
      attr_subresource = subresource, attr_operation = operation,
      attr_options = operationOptions, attr_dryRun = dryRun, attr_object = object,
      attr_oldObject = oldObject, attr_userInfo = userInfo\<rparr>"

text \<open>
  What \<^verbatim>\<open>meta.Accessor\<close> gives access to, or its error for an object without metadata.
\<close>

record accessor =
  acc_Name :: string
  acc_GenerateName :: string
  acc_Namespace :: string
  acc_ResourceVersion :: string
  acc_Labels :: "string \<rightharpoonup> string"

definition extractResourceName ::
  "('obj \<Rightarrow> goerror + accessor) \<Rightarrow> 'obj Attributes \<Rightarrow> string \<times> GroupResource" where
  "extractResourceName Accessor a =
     (let resource = gvr_GroupResource (attr_resource a)
      in if length (attr_name a) > 0 then (attr_name a, resource)
         else case attr_object a of
            None \<Rightarrow> (''Unknown'', resource)
          | Some obj \<Rightarrow>
              (case Accessor obj of
                 Inr acc \<Rightarrow>
                   (if length (acc_Name acc) > 0 then (acc_Name acc, resource)
                    else if length (acc_GenerateName acc) > 0 then (acc_GenerateName acc, resource)
                    else (''Unknown'', resource))
               | Inl err \<Rightarrow> (''Unknown/errorGettingName'', resource)))"

definition NewForbidden ::
  "('obj \<Rightarrow> goerror + accessor) \<Rightarrow> 'obj Attributes \<Rightarrow> goerror \<Rightarrow> goerror" where
  "NewForbidden Accessor a internalError =
     (if IsForbidden (Some internalError) then internalError
      else let (name, resource) = extractResourceName Accessor a
           in errors_NewForbidden resource name internalError)"

section \<open>Lemmas\<close>

lemmas reason_defs = StatusReasonUnknown_def StatusReasonForbidden_def StatusReasonNotFound_def
  StatusReasonInvalid_def StatusReasonAlreadyExists_def knownReasons_def

lemma StatusReasonUnknown_not_known: "StatusReasonUnknown \<notin> set knownReasons"
  by (simp add: reason_defs)

lemma IsNotFound_nil [simp]: "\<not> IsNotFound None"
  by (simp add: IsNotFound_def reasonAndCodeForError_def reason_defs)

lemma IsNotFound_NewNotFound [simp]: "IsNotFound (Some (NewNotFound gr n))"
  by (simp add: IsNotFound_def reasonAndCodeForError_def NewNotFound_def)

lemma IsNotFound_wrap [simp]: "IsNotFound (Some (WrapError m e)) = IsNotFound (Some e)"
  by (simp add: IsNotFound_def reasonAndCodeForError_def)

lemma IsNotFound_ErrorString [simp]: "\<not> IsNotFound (Some (ErrorString m))"
  by (simp add: IsNotFound_def reasonAndCodeForError_def reason_defs)

lemma errors_As_NewForbidden: "\<exists>st. errors_As (errors_NewForbidden gr n e) = Some st \<and>
    status_Reason st = StatusReasonForbidden \<and> status_Code st = 403"
  by (simp add: errors_NewForbidden_def Let_def)

lemma IsForbidden_errors_NewForbidden [simp]: "IsForbidden (Some (errors_NewForbidden gr n e))"
  by (simp add: IsForbidden_def reasonAndCodeForError_def errors_NewForbidden_def Let_def)

lemma IsForbidden_NewForbidden [simp]: "IsForbidden (Some (NewForbidden acc a e))"
  by (simp add: NewForbidden_def split: prod.splits)

lemma errors_As_list_append:
  "errors_As_list (xs @ ys) =
     (case errors_As_list xs of Some st \<Rightarrow> Some st | None \<Rightarrow> errors_As_list ys)"
  by (induction xs) (auto split: option.splits)

end
