(* ===== verification/Validator.thy ===== *)
theory Validator
  imports ApiMachinery
begin

text \<open>
  The composite validator of \<^verbatim>\<open>pkg/validator/multi.go\<close>. A validator is what
  \<^verbatim>\<open>admission.ValidationInterface\<close> asks for: \<^verbatim>\<open>Handles\<close> on an operation and \<^verbatim>\<open>Validate\<close> on
  the attributes of a request. \<^verbatim>\<open>Validate\<close> may read and change the state of the process
  (informer caches, audit annotations, metrics), so it maps a state to the returned error
  and the next state; which validators run, and in which order, is then visible.
  The lemmas show that the composite runs exactly the handling validators, in order, up to
  the first error, and that composites nest without changing the decision.
\<close>

section \<open>Definitions\<close>

record ('obj, 's) ValidationInterface =
  vi_Handles :: "string \<Rightarrow> bool"
  vi_Validate :: "'obj Attributes \<Rightarrow> 's \<Rightarrow> goerror option \<times> 's"

fun multi_Handles :: "('obj, 's) ValidationInterface list \<Rightarrow> string \<Rightarrow> bool" where
  "multi_Handles [] operation = False"
| "multi_Handles (v # validators) operation =
     (if vi_Handles v operation then True else multi_Handles validators operation)"

fun multi_Validate ::
  "('obj, 's) ValidationInterface list \<Rightarrow> 'obj Attributes \<Rightarrow> 's \<Rightarrow> goerror option \<times> 's" where
  "multi_Validate [] a s = (None, s)"
| "multi_Validate (v # validators) a s =
     (if \<not> vi_Handles v (attr_operation a) then multi_Validate validators a s
      else case vi_Validate v a s of
          (Some err, s') \<Rightarrow> (Some err, s')
        | (None, s') \<Rightarrow> multi_Validate validators a s')"

definition NewMulti ::
  "('obj, 's) ValidationInterface list \<Rightarrow> ('obj, 's) ValidationInterface" where
  "NewMulti validators =
     \<lparr>vi_Handles = multi_Handles validators, vi_Validate = multi_Validate validators\<rparr>"

section \<open>Lemmas\<close>

lemma multi_Handles_iff:
  "multi_Handles validators operation \<longleftrightarrow> (\<exists>v \<in> set validators. vi_Handles v operation)"
  by (induction validators) auto

lemma multi_Validate_filter:
  "multi_Validate validators a s =
     multi_Validate (filter (\<lambda>v. vi_Handles v (attr_operation a)) validators) a s"
  by (induction validators arbitrary: s) (auto split: prod.splits option.splits)

lemma multi_Validate_append:
  "multi_Validate (vs @ ws) a s =
     (case multi_Validate vs a s of
        (Some err, s') \<Rightarrow> (Some err, s')
      | (None, s') \<Rightarrow> multi_Validate ws a s')"
  by (induction vs arbitrary: s) (auto split: prod.splits option.splits)

lemma multi_Validate_unhandled:
  "\<not> multi_Handles validators (attr_operation a) \<Longrightarrow> multi_Validate validators a s = (None, s)"
  by (induction validators) (auto split: if_splits)

lemma multi_Validate_NewMulti:
  "multi_Validate (NewMulti vs # ws) a s = multi_Validate (vs @ ws) a s"
proof (cases "multi_Handles vs (attr_operation a)")
  case True
  then show ?thesis
    by (simp add: NewMulti_def multi_Validate_append)
next
  case False
  then show ?thesis
    by (simp add: NewMulti_def multi_Validate_append multi_Validate_unhandled)
qed

lemma multi_Validate_rejects:
  assumes "multi_Validate validators a s = (Some err, s')"
  shows "\<exists>pre v post s1. validators = pre @ v # post \<and> vi_Handles v (attr_operation a) \<and>
    multi_Validate pre a s = (None, s1) \<and> vi_Validate v a s1 = (Some err, s')"
  using assms
proof (induction validators arbitrary: s)
  case Nil
  then show ?case by simp
next
  case (Cons v vs)
  obtain r s2 where v: "vi_Validate v a s = (r, s2)" by fastforce
  show ?case
  proof (cases "vi_Handles v (attr_operation a)")
    case False
    with Cons.prems Cons.IH [of s] obtain pre w post s1 where
      "vs = pre @ w # post" "vi_Handles w (attr_operation a)"
      "multi_Validate pre a s = (None, s1)" "vi_Validate w a s1 = (Some err, s')"
      by auto
    with False show ?thesis
      by (intro exI [of _ "v # pre"] exI [of _ w] exI [of _ post] exI [of _ s1]) auto
  next
    case True
    show ?thesis
    proof (cases r)
      case (Some e)
      with True v Cons.prems show ?thesis
        by (intro exI [of _ "[]"] exI [of _ v] exI [of _ vs] exI [of _ s]) auto
    next
      case None
      with True v Cons.prems Cons.IH [of s2] obtain pre w post s1 where
        "vs = pre @ w # post" "vi_Handles w (attr_operation a)"
        "multi_Validate pre a s2 = (None, s1)" "vi_Validate w a s1 = (Some err, s')"
        by auto
      with True v None show ?thesis
        by (intro exI [of _ "v # pre"] exI [of _ w] exI [of _ post] exI [of _ s1]) auto
    qed
  qed
qed

section \<open>Properties\<close>

text \<open>
  The composite rejects with an error exactly when some validator that handles the
  operation returns that error, in the state left by the validators before it, all of which
  admitted the request; the validators after it are not consulted.
\<close>

lemma multi_first_error:
  "vi_Validate (NewMulti validators) a s = (Some err, s') \<longleftrightarrow>
     (\<exists>pre v post s1. validators = pre @ v # post \<and> vi_Handles v (attr_operation a) \<and>
        multi_Validate pre a s = (None, s1) \<and> vi_Validate v a s1 = (Some err, s'))"
proof
  assume "vi_Validate (NewMulti validators) a s = (Some err, s')"
  then show "\<exists>pre v post s1. validators = pre @ v # post \<and> vi_Handles v (attr_operation a) \<and>
      multi_Validate pre a s = (None, s1) \<and> vi_Validate v a s1 = (Some err, s')"
    by (intro multi_Validate_rejects) (simp add: NewMulti_def)
next
  assume "\<exists>pre v post s1. validators = pre @ v # post \<and> vi_Handles v (attr_operation a) \<and>
      multi_Validate pre a s = (None, s1) \<and> vi_Validate v a s1 = (Some err, s')"
  then show "vi_Validate (NewMulti validators) a s = (Some err, s')"
    by (auto simp: NewMulti_def multi_Validate_append)
qed

text \<open>
  Composites nest: validating with a composite of composites decides, and changes the
  state, as one composite of all the validators in order, and handles the same operations.
\<close>

lemma multi_nest:
  "vi_Validate (NewMulti [NewMulti vs, NewMulti ws]) a s = vi_Validate (NewMulti (vs @ ws)) a s \<and>
   vi_Handles (NewMulti [NewMulti vs, NewMulti ws]) operation =
     vi_Handles (NewMulti (vs @ ws)) operation"
proof -
  have "multi_Validate [NewMulti vs, NewMulti ws] a s = multi_Validate (vs @ [NewMulti ws]) a s"
    by (rule multi_Validate_NewMulti)
  also have "\<dots> = multi_Validate (vs @ ws) a s"
    using multi_Validate_NewMulti [of ws "[]" a]
    by (auto simp only: multi_Validate_append append_Nil2 split: prod.splits option.splits)
  finally show ?thesis
    by (auto simp: NewMulti_def multi_Handles_iff)
qed

end
