(* ===== verification/Plugin.thy ===== *)
theory Plugin
  imports Validator
begin

text \<open>
  The admission plugin of
  \<^verbatim>\<open>pkg/controller/admissionregistration.x-k8s.io/v1alpha1/plugin.go\<close>: it lets requests for
  the policy resources themselves pass, waits up to a second for the policy evaluator to
  have synced, and otherwise delegates to the evaluator. The wait is
  \<^verbatim>\<open>wait.PollImmediateWithContext\<close> of the vendored \<^verbatim>\<open>apimachinery\<close>: the goroutine behind its
  channel sends a number of ticks and closes the channel when its timer fires. A run of the
  wait is therefore a finite list of ticks, each with the state of the process when it is
  received, and one final event: the channel is closed, or the caller's context is done.
  Ticks that find no receiver are dropped by the source, so any list of ticks may occur.
  The lemmas give the decision of the plugin on every branch and show that it fails closed.
\<close>

section \<open>The wait\<close>

datatype wait_end = Closed | CtxDone

type_synonym 's wait_run = "'s list \<times> wait_end \<times> 's"

definition ErrWaitTimeout :: goerror where
  "ErrWaitTimeout = WrapError ''timed out waiting for the condition''
     (ErrorString ''timed out waiting for the condition'')"

text \<open>
  The condition returns the error, if any, and whether it is satisfied. The result is the
  error of the wait and the state in which it returned.
\<close>

fun waitForWithContext ::
  "('s \<Rightarrow> goerror option \<times> bool) \<Rightarrow> 's wait_run \<Rightarrow> goerror option \<times> 's" where
  "waitForWithContext fn (s # ticks, e, t) =
     (case fn s of
        (Some err, ok) \<Rightarrow> (Some err, s)
      | (None, ok) \<Rightarrow> if ok then (None, s) else waitForWithContext fn (ticks, e, t))"
| "waitForWithContext fn ([], Closed, t) =
     (case fn t of
        (Some err, ok) \<Rightarrow> (Some err, t)
      | (None, ok) \<Rightarrow> if ok then (None, t) else (Some ErrWaitTimeout, t))"
| "waitForWithContext fn ([], CtxDone, t) = (Some ErrWaitTimeout, t)"

text \<open>
  \<^verbatim>\<open>poll\<close> with \<^verbatim>\<open>immediate = true\<close>, which is what \<^verbatim>\<open>PollImmediateWithContext\<close> calls. The
  flag \<open>fin\<close> says whether the context is already done when the first check has failed.
\<close>

definition PollImmediateWithContext ::
  "('s \<Rightarrow> goerror option \<times> bool) \<Rightarrow> bool \<Rightarrow> 's wait_run \<Rightarrow> 's \<Rightarrow> goerror option \<times> 's" where
  "PollImmediateWithContext condition fin run s =
     (case condition s of
        (Some err, ok) \<Rightarrow> (Some err, s)
      | (None, ok) \<Rightarrow>
          if ok then (None, s)
          else if fin then (Some ErrWaitTimeout, s)
          else waitForWithContext condition run)"

section \<open>The plugin\<close>

text \<open>
  The evaluator is the \<^verbatim>\<open>CELPolicyEvaluator\<close> interface; \<open>wait_env\<close> gives the run of the wait
  that starts in a state, and whether the caller's context is already done.
\<close>

record ('obj, 's) celAdmissionPlugin =
  ev_HasSynced :: "'s \<Rightarrow> bool"
  ev_Validate :: "'obj Attributes \<Rightarrow> 's \<Rightarrow> goerror option \<times> 's"
  wait_env :: "'s \<Rightarrow> bool \<times> 's wait_run"
  obj_Accessor :: "'obj \<Rightarrow> goerror + accessor"

definition isPolicyResource :: "'obj Attributes \<Rightarrow> bool" where
  "isPolicyResource attr =
     (let gvk = attr_resource attr in
      if gvr_Group gvk = ''admissionregistration.k8s.io'' \<or>
         gvr_Group gvk = ''admissionregistration.x-k8s.io''
      then
        if gvr_Resource gvk = ''validatingadmissionpolicies'' \<or>
           gvr_Resource gvk = ''validatingadmissionpolicybindings''
        then True else False
      else False)"

definition plugin_HasSynced :: "('obj, 's) celAdmissionPlugin \<Rightarrow> 's \<Rightarrow> bool" where
  "plugin_HasSynced c s = ev_HasSynced c s"

definition plugin_Handles :: "('obj, 's) celAdmissionPlugin \<Rightarrow> string \<Rightarrow> bool" where
  "plugin_Handles c operation = True"

definition notReady :: "('obj, 's) celAdmissionPlugin \<Rightarrow> 'obj Attributes \<Rightarrow> goerror" where
  "notReady c a =
     NewForbidden (obj_Accessor c) a (ErrorString ''not yet ready to handle request'')"

definition plugin_Validate ::
  "('obj, 's) celAdmissionPlugin \<Rightarrow> 'obj Attributes \<Rightarrow> 's \<Rightarrow> goerror option \<times> 's" where
  "plugin_Validate c a s =
     (if isPolicyResource a then (None, s)
      else
        let (fin, run) = wait_env c s in
        (case PollImmediateWithContext (\<lambda>t. (None, plugin_HasSynced c t)) fin run s of
           (Some err, s') \<Rightarrow> (Some (notReady c a), s')
         | (None, s') \<Rightarrow> ev_Validate c a s'))"

definition NewPlugin :: "('obj, 's) celAdmissionPlugin \<Rightarrow> ('obj, 's) ValidationInterface" where
  "NewPlugin c = \<lparr>vi_Handles = plugin_Handles c, vi_Validate = plugin_Validate c\<rparr>"

section \<open>Lemmas\<close>

text \<open>The states in which a wait checks its condition.\<close>

fun wait_states :: "'s wait_run \<Rightarrow> 's list" where
  "wait_states (ticks, Closed, t) = ticks @ [t]"
| "wait_states (ticks, CtxDone, t) = ticks"

lemma wait_states_Cons [simp]: "wait_states (s # ticks, e, t) = s # wait_states (ticks, e, t)"
  by (cases e) auto

lemma waitFor_success:
  "fst (waitForWithContext (\<lambda>t. (None, P t)) run) = None \<longleftrightarrow> (\<exists>t \<in> set (wait_states run). P t)"
  by (induction "\<lambda>t. (None :: goerror option, P t)" run rule: waitForWithContext.induct) auto

lemma waitFor_success_state:
  "waitForWithContext (\<lambda>t. (None, P t)) run = (None, s') \<Longrightarrow> P s' \<and> s' \<in> set (wait_states run)"
  by (induction "\<lambda>t. (None :: goerror option, P t)" run rule: waitForWithContext.induct)
    (auto split: if_splits)

lemma poll_success_iff:
  "fst (PollImmediateWithContext (\<lambda>t. (None, P t)) fin run s) = None \<longleftrightarrow>
     P s \<or> (\<not> fin \<and> (\<exists>t \<in> set (wait_states run). P t))"
  by (auto simp: PollImmediateWithContext_def waitFor_success)

lemma poll_success_state:
  "PollImmediateWithContext (\<lambda>t. (None, P t)) fin run s = (None, s') \<Longrightarrow> P s'"
  by (auto simp: PollImmediateWithContext_def dest: waitFor_success_state split: if_splits)

lemma isPolicyResource_iff:
  "isPolicyResource a \<longleftrightarrow>
     gvr_Group (attr_resource a) \<in> {''admissionregistration.k8s.io'', ''admissionregistration.x-k8s.io''} \<and>
     gvr_Resource (attr_resource a) \<in> {''validatingadmissionpolicies'', ''validatingadmissionpolicybindings''}"
  by (auto simp: isPolicyResource_def Let_def)

lemma notReady_forbidden: "IsForbidden (Some (notReady c a))"
  by (simp add: notReady_def)

lemma poll_success_witness:
  assumes "PollImmediateWithContext (\<lambda>t. (None, P t)) fin run s = (None, s')"
  shows "s' = s \<or> s' \<in> set (wait_states run)"
  using assms
  by (auto simp: PollImmediateWithContext_def dest: waitFor_success_state split: if_splits)

lemma plugin_Validate_policy [simp]: "isPolicyResource a \<Longrightarrow> plugin_Validate c a s = (None, s)"
  by (simp add: plugin_Validate_def)

lemma plugin_admits:
  assumes "\<not> isPolicyResource a" and "vi_Validate (NewPlugin c) a s = (None, s')"
  shows "\<exists>s1. ev_HasSynced c s1 \<and> ev_Validate c a s1 = (None, s')"
proof -
  obtain fin run where env: "wait_env c s = (fin, run)" by (rule prod.exhaust)
  let ?poll = "PollImmediateWithContext (\<lambda>t. (None, plugin_HasSynced c t)) fin run s"
  obtain s1 where poll: "?poll = (None, s1)" and ev: "ev_Validate c a s1 = (None, s')"
    using assms env
    by (auto simp: NewPlugin_def plugin_Validate_def split: prod.splits option.splits)
  have "plugin_HasSynced c s1" using poll by (rule poll_success_state)
  then show ?thesis using ev by (auto simp: plugin_HasSynced_def)
qed

section \<open>Properties\<close>

text \<open>
  The plugin fails closed: a request for anything but the policy resources is admitted
  only if the evaluator, in a state in which it had synced, admitted it.
\<close>

lemma plugin_fail_closed:
  assumes "\<not> (gvr_Group (attr_resource a) \<in> {''admissionregistration.k8s.io'', ''admissionregistration.x-k8s.io''} \<and>
      gvr_Resource (attr_resource a) \<in> {''validatingadmissionpolicies'', ''validatingadmissionpolicybindings''})"
    and "vi_Validate (NewPlugin c) a s = (None, s')"
  shows "\<exists>s1. ev_HasSynced c s1 \<and> ev_Validate c a s1 = (None, s')"
  using assms plugin_admits by (simp add: isPolicyResource_iff)

text \<open>
  C22. While the evaluator does not sync, neither at once nor at any moment the wait checks,
  every request but those for the policy resources is refused as Forbidden with code 403,
  and the policy resources can still be changed.
\<close>

theorem plugin_not_synced:
  assumes "\<not> ev_HasSynced c s" and "\<forall>t \<in> set (wait_states (snd (wait_env c s))). \<not> ev_HasSynced c t"
  shows "fst (vi_Validate (NewPlugin c) a s) =
    (if isPolicyResource a then None else Some (notReady c a)) \<and>
    reasonAndCodeForError (Some (notReady c a)) = (StatusReasonForbidden, 403)"
proof -
  obtain fin run where env: "wait_env c s = (fin, run)" by (rule prod.exhaust)
  have "fst (PollImmediateWithContext (\<lambda>t. (None, ev_HasSynced c t)) fin run s) \<noteq> None"
    using assms env by (simp add: poll_success_iff)
  then have decision: "fst (vi_Validate (NewPlugin c) a s) =
      (if isPolicyResource a then None else Some (notReady c a))"
    using env
    by (auto simp: NewPlugin_def plugin_Validate_def plugin_HasSynced_def
        split: prod.splits option.splits)
  have "\<not> IsForbidden (Some (ErrorString ''not yet ready to handle request''))"
    by (simp add: IsForbidden_def reasonAndCodeForError_def reason_defs)
  then have "reasonAndCodeForError (Some (notReady c a)) = (StatusReasonForbidden, 403)"
    by (simp add: notReady_def NewForbidden_def errors_NewForbidden_def Let_def
        reasonAndCodeForError_def split: prod.splits)
  then show ?thesis using decision by simp
qed

text \<open>
  A wait whose channel is closed by its timer succeeds exactly when the condition held at
  the start, at one of the ticks it received, or when the channel was closed.
\<close>

lemma poll_closed_iff:
  "(fst (PollImmediateWithContext (\<lambda>t. (None, P t)) False (ticks, Closed, t1) s) = None) =
     (\<exists>t \<in> set (s # ticks @ [t1]). P t)"
  by (auto simp: poll_success_iff)

section \<open>Witnesses\<close>

text \<open>
  A plugin whose evaluator syncs when the process clock reaches three and refuses everything
  but deletions.
\<close>

definition example_plugin :: "(string, nat) celAdmissionPlugin" where
  "example_plugin =
     \<lparr>ev_HasSynced = (\<lambda>s. 3 \<le> s),
      ev_Validate = (\<lambda>a s. (if attr_operation a = ''DELETE'' then None
        else Some (ErrorString ''denied''), Suc s)),
      wait_env = (\<lambda>s. (False, ([s + 1, s + 2], Closed, s + 2))),
      obj_Accessor = (\<lambda>obj. Inl (ErrorString ''object does not implement the Object interfaces''))\<rparr>"

definition example_attrs :: "string \<Rightarrow> string \<Rightarrow> string Attributes" where
  "example_attrs grp operation = NewAttributesRecord None None
     \<lparr>gvk_Group = grp, gvk_Version = ''v1'', gvk_Kind = ''Pod''\<rparr> ''default'' ''p''
     \<lparr>gvr_Group = grp, gvr_Version = ''v1'', gvr_Resource = ''pods''\<rparr> '''' operation None False
     \<lparr>user_Name = ''alice'', user_UID = '''', user_Groups = [], user_Extra = None\<rparr>"

lemmas example_plugin_simps = example_plugin_def example_attrs_def NewAttributesRecord_def
  isPolicyResource_def NewPlugin_def plugin_Validate_def plugin_HasSynced_def
  PollImmediateWithContext_def

theorem plugin_not_synced_witness:
  "fst (vi_Validate (NewPlugin example_plugin) (example_attrs '''' ''CREATE'') 0) =
     Some (notReady example_plugin (example_attrs '''' ''CREATE''))"
proof -
  have s: "\<not> ev_HasSynced example_plugin 0"
    by (simp add: example_plugin_def)
  have w: "\<forall>t \<in> set (wait_states (snd (wait_env example_plugin 0))). \<not> ev_HasSynced example_plugin t"
    by (simp add: example_plugin_def)
  show ?thesis
    using plugin_not_synced [OF s w, of "example_attrs '''' ''CREATE''"]
    by (simp add: example_attrs_def NewAttributesRecord_def isPolicyResource_def)
qed

end
