(* ===== verification/Webhook.thy ===== *)
theory Webhook
  imports Validator
begin

text \<open>
  The request side of \<^verbatim>\<open>pkg/webhook/server.go\<close>: parsing an HTTP request into an
  \<^verbatim>\<open>AdmissionReview\<close>, decoding the objects it carries, consulting the validator, and
  writing the response. The JSON codec and the scheme's object decoder are fields of the
  webhook record; everything between them is defined here, branch by branch. The process
  state is threaded through the validator. The lemmas describe every outcome of the handler.
\<close>

section \<open>HTTP\<close>

text \<open>\<^verbatim>\<open>Header.Get\<close> gives the empty string for an absent header.\<close>

record http_Request =
  req_ContentType :: string
  req_Body :: bytes

record ResponseWriter =
  rw_header :: "string \<rightharpoonup> string"
  rw_status :: "nat option"
  rw_body :: bytes

definition new_ResponseWriter :: ResponseWriter where
  "new_ResponseWriter = \<lparr>rw_header = Map.empty, rw_status = None, rw_body = []\<rparr>"

definition rw_Set :: "string \<Rightarrow> string \<Rightarrow> ResponseWriter \<Rightarrow> ResponseWriter" where
  "rw_Set k v w = w\<lparr>rw_header := (rw_header w)(k \<mapsto> v)\<rparr>"

text \<open>The first status wins; writing without a status sends 200.\<close>

definition rw_WriteHeader :: "nat \<Rightarrow> ResponseWriter \<Rightarrow> ResponseWriter" where
  "rw_WriteHeader code w =
     (case rw_status w of None \<Rightarrow> w\<lparr>rw_status := Some code\<rparr> | Some _ \<Rightarrow> w)"

definition rw_Write :: "bytes \<Rightarrow> ResponseWriter \<Rightarrow> ResponseWriter" where
  "rw_Write b w = (let w1 = rw_WriteHeader 200 w in w1\<lparr>rw_body := rw_body w1 @ b\<rparr>)"

definition http_Error :: "string \<Rightarrow> nat \<Rightarrow> ResponseWriter \<Rightarrow> ResponseWriter" where
  "http_Error msg code w =
     rw_Write (msg @ [CHR 0x0A])
       (rw_WriteHeader code
         (rw_Set ''X-Content-Type-Options'' ''nosniff''
           (rw_Set ''Content-Type'' ''text/plain; charset=utf-8'' w)))"

section \<open>The admission review\<close>

record AuthUserInfo =
  au_Username :: string
  au_UID :: string
  au_Groups :: "string list"
  au_Extra :: "(string \<rightharpoonup> string list) option"

record AdmissionRequest =
  rq_UID :: string
  rq_Kind :: GroupVersionKind
  rq_Resource :: GroupVersionResource
  rq_SubResource :: string
  rq_RequestKind :: "GroupVersionKind option"
  rq_RequestResource :: "GroupVersionResource option"
  rq_RequestSubResource :: string
  rq_Name :: string
  rq_Namespace :: string
  rq_Operation :: string
  rq_UserInfo :: AuthUserInfo
  rq_Object :: bytes
  rq_OldObject :: bytes
  rq_DryRun :: "bool option"
  rq_Options :: bytes

record AdmissionResponse =
  rs_UID :: string
  rs_Allowed :: bool
  rs_Result :: "Status option"

record AdmissionReview =
  rv_Kind :: string
  rv_APIVersion :: string
  rv_Request :: "AdmissionRequest option"
  rv_Response :: "AdmissionResponse option"

text \<open>
  The struct \<^verbatim>\<open>webhook\<close> with the codecs it calls: \<^verbatim>\<open>decoder.Decode(raw, nil, nil)\<close> returns
  the object, the kind found in the data and an error, each possibly nil.
\<close>

record ('obj, 's) webhook =
  wh_validator :: "('obj, 's) ValidationInterface"
  wh_Decode :: "bytes \<Rightarrow> 'obj option \<times> GroupVersionKind option \<times> goerror option"
  wh_UnmarshalReview :: "bytes \<Rightarrow> goerror + AdmissionReview"
  wh_UnmarshalUnstructured :: "bytes \<Rightarrow> goerror + 'obj"
  wh_MarshalReview :: "AdmissionReview \<Rightarrow> goerror + bytes"
  wh_addr :: string
  wh_certFile :: string
  wh_keyFile :: string

section \<open>Operations\<close>

definition parseRequest :: "('obj, 's) webhook \<Rightarrow> http_Request \<Rightarrow> goerror + AdmissionRequest" where
  "parseRequest wh r =
     (if req_ContentType r \<noteq> ''application/json'' then
        Inl (ErrorString (''Content-Type: '' @ go_quote (req_ContentType r) @ '' should be '' @
          go_quote ''application/json''))
      else if length (req_Body r) = 0 then
        Inl (ErrorString ''admission request body is empty'')
      else case wh_UnmarshalReview wh (req_Body r) of
          Inl err \<Rightarrow> Inl (ErrorString (''could not parse admission review request: '' @ error_Error err))
        | Inr a \<Rightarrow>
            (case rv_Request a of
               None \<Rightarrow> Inl (ErrorString
                 (''admission review can'' @ [CHR 0x27] @ ''t be used: Request field is nil''))
             | Some request \<Rightarrow> Inr request))"

definition gvk_String :: "GroupVersionKind \<Rightarrow> string" where
  "gvk_String gvk = gvk_Group gvk @ ''/'' @ gvk_Version gvk @ '', Kind='' @ gvk_Kind gvk"

definition unexpectedGVK :: "GroupVersionKind option \<Rightarrow> GroupVersionKind \<Rightarrow> goerror" where
  "unexpectedGVK gvk kind = ErrorString (''unexpected GVK '' @
     (case gvk of None \<Rightarrow> ''<nil>'' | Some g \<Rightarrow> gvk_String g) @ ''. Expected '' @ gvk_String kind)"

text \<open>
  The decoding block, which the handler runs for the old object and then for the object:
  the failure is the error and the HTTP status reported for it; an empty raw value is nil.
\<close>

definition decodeObject ::
  "('obj, 's) webhook \<Rightarrow> GroupVersionKind \<Rightarrow> bytes \<Rightarrow> (goerror \<times> nat) + 'obj option" where
  "decodeObject wh kind raw =
     (if length raw > 0 then
        (case wh_Decode wh raw of
           (obj, gvk, err) \<Rightarrow>
             if gvk = None \<or> gvk \<noteq> Some kind then Inl (unexpectedGVK gvk kind, 400)
             else if err \<noteq> None \<and> IsNotRegisteredError err then
               (case wh_UnmarshalUnstructured wh raw of
                  Inl e \<Rightarrow> Inl (e, 500)
                | Inr u \<Rightarrow> Inr (Some u))
             else (case err of Some e \<Rightarrow> Inl (e, 400) | None \<Rightarrow> Inr obj))
      else Inr None)"

definition convertExtra :: "(string \<rightharpoonup> string list) option \<Rightarrow> (string \<rightharpoonup> string list) option" where
  "convertExtra input =
     (case input of
        None \<Rightarrow> None
      | Some m \<Rightarrow> Some (\<lambda>k. case m k of None \<Rightarrow> None | Some v \<Rightarrow> Some (fold (\<lambda>x converted. converted @ [x]) v [])))"

definition requestAttributes ::
  "AdmissionRequest \<Rightarrow> 'obj option \<Rightarrow> 'obj option \<Rightarrow> 'obj Attributes" where
  "requestAttributes r object oldObject =
     NewAttributesRecord object oldObject (rq_Kind r) (rq_Namespace r) (rq_Name r)
       \<lparr>gvr_Group = gvr_Group (rq_Resource r), gvr_Version = gvr_Version (rq_Resource r),
        gvr_Resource = gvr_Resource (rq_Resource r)\<rparr>
       (rq_SubResource r) (rq_Operation r) None False
       \<lparr>user_Name = au_Username (rq_UserInfo r), user_UID = au_UID (rq_UserInfo r),
        user_Groups = au_Groups (rq_UserInfo r), user_Extra = convertExtra (au_Extra (rq_UserInfo r))\<rparr>"

text \<open>
  The body of the \<^verbatim>\<open>if wh.validator.Handles(...)\<close> statement: either a failure that ends the
  handler, or the validator's verdict.
\<close>

definition validateRequest ::
  "('obj, 's) webhook \<Rightarrow> AdmissionRequest \<Rightarrow> 's \<Rightarrow> ((goerror \<times> nat) + goerror option) \<times> 's" where
  "validateRequest wh r s =
     (if vi_Handles (wh_validator wh) (rq_Operation r) then
        (case decodeObject wh (rq_Kind r) (rq_OldObject r) of
           Inl f \<Rightarrow> (Inl f, s)
         | Inr oldObject \<Rightarrow>
             (case decodeObject wh (rq_Kind r) (rq_Object r) of
                Inl f \<Rightarrow> (Inl f, s)
              | Inr object \<Rightarrow>
                  (case vi_Validate (wh_validator wh) (requestAttributes r object oldObject) s of
                     (err, s') \<Rightarrow> (Inr err, s'))))
      else (Inr None, s))"

definition reviewResponse :: "string \<Rightarrow> goerror option \<Rightarrow> AdmissionReview" where
  "reviewResponse uid err =
     (let allowed = (err = None);
          code0 = (case err of None \<Rightarrow> 202 | Some e \<Rightarrow> 403) :: 32 word;
          message0 = (case err of None \<Rightarrow> ''valid'' | Some e \<Rightarrow> error_Error e);
          statusErr = (case err of None \<Rightarrow> None | Some e \<Rightarrow> errors_As e);
          reason = (case statusErr of Some st \<Rightarrow> status_Reason st | None \<Rightarrow> StatusReasonUnknown);
          message = (case statusErr of Some st \<Rightarrow> status_Message st | None \<Rightarrow> message0);
          code = (case statusErr of Some st \<Rightarrow> status_Code st | None \<Rightarrow> code0)
      in \<lparr>rv_Kind = ''AdmissionReview'', rv_APIVersion = ''admission.k8s.io/v1'',
          rv_Request = None,
          rv_Response = Some
            \<lparr>rs_UID = uid, rs_Allowed = allowed,
             rs_Result = Some \<lparr>status_Status = '''', status_Message = message,
               status_Reason = reason, status_Details = None, status_Code = code\<rparr>\<rparr>\<rparr>)"

definition handleHealth :: "http_Request \<Rightarrow> ResponseWriter \<Rightarrow> ResponseWriter" where
  "handleHealth req w = rw_Write ''OK'' w"

definition handleWebhookValidate ::
  "('obj, 's) webhook \<Rightarrow> http_Request \<Rightarrow> ResponseWriter \<Rightarrow> 's \<Rightarrow> ResponseWriter \<times> 's" where
  "handleWebhookValidate wh req w s =
     (case parseRequest wh req of
        Inl err \<Rightarrow> (http_Error (error_Error err) 400 w, s)
      | Inr request \<Rightarrow>
          (case validateRequest wh request s of
             (Inl (err, status), s') \<Rightarrow> (http_Error (error_Error err) status w, s')
           | (Inr err, s') \<Rightarrow>
               (case wh_MarshalReview wh (reviewResponse (rq_UID request) err) of
                  Inl merr \<Rightarrow> (http_Error (error_Error merr) 500 w, s')
                | Inr out \<Rightarrow> (rw_Write out (rw_Set ''Content-Type'' ''application/json'' w), s'))))"

section \<open>Lemmas\<close>

lemma http_Error_new:
  "rw_status (http_Error m code new_ResponseWriter) = Some code"
  "rw_body (http_Error m code new_ResponseWriter) = m @ [CHR 0x0A]"
  "rw_header (http_Error m code new_ResponseWriter) ''Content-Type'' = Some ''text/plain; charset=utf-8''"
  by (simp_all add: http_Error_def rw_Set_def rw_WriteHeader_def rw_Write_def new_ResponseWriter_def)

lemma rw_Write_json:
  "rw_status (rw_Write b (rw_Set k v new_ResponseWriter)) = Some 200"
  "rw_body (rw_Write b (rw_Set k v new_ResponseWriter)) = b"
  "rw_header (rw_Write b (rw_Set k v new_ResponseWriter)) k = Some v"
  by (simp_all add: rw_Set_def rw_WriteHeader_def rw_Write_def new_ResponseWriter_def)

lemmas writer_simps = http_Error_new rw_Write_json

lemma convertExtra_id: "convertExtra e = e"
proof -
  have "fold (\<lambda>x converted. converted @ [x]) v acc = acc @ v" for v acc :: "string list"
    by (induction v arbitrary: acc) auto
  then show ?thesis
    by (auto simp: convertExtra_def fun_eq_iff split: option.splits)
qed

lemma decodeObject_status:
  "decodeObject wh kind raw = Inl (e, code) \<Longrightarrow> code = 400 \<or> code = 500"
  by (auto simp: decodeObject_def split: if_splits prod.splits sum.splits option.splits)

lemma decodeObject_kind:
  "decodeObject wh kind raw = Inr obj \<Longrightarrow> raw \<noteq> [] \<Longrightarrow>
     \<exists>o' err. wh_Decode wh raw = (o', Some kind, err)"
  by (auto simp: decodeObject_def split: if_splits prod.splits sum.splits option.splits)

lemma reviewResponse_fields:
  "\<exists>st. rv_Response (reviewResponse uid err) =
     Some \<lparr>rs_UID = uid, rs_Allowed = (err = None), rs_Result = Some st\<rparr>"
  by (simp add: reviewResponse_def Let_def)

lemma validateRequest_failure:
  "validateRequest wh r s = (Inl (e, code), s') \<Longrightarrow> s' = s \<and> (code = 400 \<or> code = 500)"
  by (auto simp: validateRequest_def dest: decodeObject_status
      split: if_splits sum.splits prod.splits)

lemma validateRequest_verdict:
  assumes "validateRequest wh r s = (Inr err, s')"
    and "vi_Handles (wh_validator wh) (rq_Operation r)"
  shows "\<exists>object oldObject.
    decodeObject wh (rq_Kind r) (rq_Object r) = Inr object \<and>
    decodeObject wh (rq_Kind r) (rq_OldObject r) = Inr oldObject \<and>
    vi_Validate (wh_validator wh) (requestAttributes r object oldObject) s = (err, s')"
  using assms
  by (auto simp: validateRequest_def split: sum.splits prod.splits)

lemma validateRequest_unhandled:
  "\<not> vi_Handles (wh_validator wh) (rq_Operation r) \<Longrightarrow> validateRequest wh r s = (Inr None, s)"
  by (simp add: validateRequest_def)

text \<open>A response with status 200 is the encoded review of the verdict.\<close>

lemma handle_ok:
  assumes "handleWebhookValidate wh req new_ResponseWriter s = (w, s')" and "rw_status w = Some 200"
  shows "\<exists>r err. parseRequest wh req = Inr r \<and> validateRequest wh r s = (Inr err, s') \<and>
    wh_MarshalReview wh (reviewResponse (rq_UID r) err) = Inr (rw_body w) \<and>
    rw_header w ''Content-Type'' = Some ''application/json''"
  using assms
  by (auto simp: handleWebhookValidate_def writer_simps dest: validateRequest_failure
      split: sum.splits prod.splits)

lemma handle_status:
  assumes "handleWebhookValidate wh req new_ResponseWriter s = (w, s')"
  shows "rw_status w \<in> {Some 200, Some 400, Some 500}"
  using assms
  by (auto simp: handleWebhookValidate_def writer_simps dest!: validateRequest_failure
      split: sum.splits prod.splits)

lemma handle_bad_request:
  assumes "handleWebhookValidate wh req new_ResponseWriter s = (w, s')" and "rw_status w = Some 400"
  shows "s' = s"
  using assms
  by (auto simp: handleWebhookValidate_def writer_simps dest: validateRequest_failure
      split: sum.splits prod.splits)

lemma allowed_verdict:
  assumes codec: "\<And>rv out. wh_MarshalReview wh rv = Inr out \<Longrightarrow>
      read out = map_option (\<lambda>rs. (rs_UID rs, rs_Allowed rs)) (rv_Response rv)"
    and handle: "handleWebhookValidate wh req new_ResponseWriter s = (w, s')"
    and ok: "rw_status w = Some 200"
    and allowed: "read (rw_body w) = Some (uid, True)"
  shows "\<exists>r. parseRequest wh req = Inr r \<and> rq_UID r = uid \<and>
    (if vi_Handles (wh_validator wh) (rq_Operation r) then
       \<exists>object oldObject.
         decodeObject wh (rq_Kind r) (rq_Object r) = Inr object \<and>
         decodeObject wh (rq_Kind r) (rq_OldObject r) = Inr oldObject \<and>
         vi_Validate (wh_validator wh) (requestAttributes r object oldObject) s = (None, s')
     else s' = s)"
proof -
  obtain r err where r: "parseRequest wh req = Inr r"
    and v: "validateRequest wh r s = (Inr err, s')"
    and out: "wh_MarshalReview wh (reviewResponse (rq_UID r) err) = Inr (rw_body w)"
    using handle_ok [OF handle ok] by blast
  obtain st where "rv_Response (reviewResponse (rq_UID r) err) =
      Some \<lparr>rs_UID = rq_UID r, rs_Allowed = (err = None), rs_Result = Some st\<rparr>"
    using reviewResponse_fields by blast
  with codec [OF out] allowed have uid: "rq_UID r = uid" and err: "err = None"
    by auto
  show ?thesis
  proof (cases "vi_Handles (wh_validator wh) (rq_Operation r)")
    case True
    with validateRequest_verdict [OF v] r uid err show ?thesis by auto
  next
    case False
    with validateRequest_unhandled [of wh r s] v r uid show ?thesis by auto
  qed
qed

section \<open>Properties\<close>

text \<open>
  C7. Soundness of the webhook: when the body of a 200 response reads as "allowed" for a
  request id, the request body was a well-formed review with that id, and either the
  validator does not handle its operation, or the validator admitted it: on attributes made
  from the request, with an object and an old object that were decoded under the very kind
  the request announces. The assumption is that the encoded review can be read back.
\<close>

theorem webhook_allow_sound:
  assumes codec: "\<And>rv out. wh_MarshalReview wh rv = Inr out \<Longrightarrow>
      read out = map_option (\<lambda>rs. (rs_UID rs, rs_Allowed rs)) (rv_Response rv)"
    and handle: "handleWebhookValidate wh req new_ResponseWriter s = (w, s')"
    and ok: "rw_status w = Some 200"
    and allowed: "read (rw_body w) = Some (uid, True)"
  shows "\<exists>r. parseRequest wh req = Inr r \<and> rq_UID r = uid \<and>
    (if vi_Handles (wh_validator wh) (rq_Operation r) then
       \<exists>object oldObject.
         decodeObject wh (rq_Kind r) (rq_Object r) = Inr object \<and>
         decodeObject wh (rq_Kind r) (rq_OldObject r) = Inr oldObject \<and>
         vi_Validate (wh_validator wh) (requestAttributes r object oldObject) s = (None, s')
     else s' = s)"
  using assms by (rule allowed_verdict)

text \<open>
  Every request is answered with exactly one of the statuses 200, 400 and 500, and a
  request answered with 400 has not reached the validator: the process state is unchanged.
\<close>

lemma webhook_status:
  "rw_status (fst (handleWebhookValidate wh req new_ResponseWriter s)) \<in> {Some 200, Some 400, Some 500} \<and>
   (rw_status (fst (handleWebhookValidate wh req new_ResponseWriter s)) = Some 400 \<longrightarrow>
      snd (handleWebhookValidate wh req new_ResponseWriter s) = s)"
proof -
  obtain w s' where h: "handleWebhookValidate wh req new_ResponseWriter s = (w, s')"
    by (rule prod.exhaust)
  then show ?thesis
    using handle_status [OF h] handle_bad_request [OF h] by simp
qed

text \<open>
  C23. A verdict is delivered: when the request parses, its objects decode and the review can
  be encoded, the client gets status 200 and the encoding of a review that carries the
  request's id, is "allowed" exactly if the validator returned no error, and otherwise has
  the reason, message and code of the first API status in the tree of the error, or the
  error's text with code 403 if there is none.
\<close>

theorem webhook_verdict_delivered:
  assumes "parseRequest wh req = Inr r"
    and "vi_Handles (wh_validator wh) (rq_Operation r)"
    and "decodeObject wh (rq_Kind r) (rq_Object r) = Inr object"
    and "decodeObject wh (rq_Kind r) (rq_OldObject r) = Inr oldObject"
    and "vi_Validate (wh_validator wh) (requestAttributes r object oldObject) s = (err, s')"
    and "wh_MarshalReview wh (reviewResponse (rq_UID r) err) = Inr out"
  shows "rw_status (fst (handleWebhookValidate wh req new_ResponseWriter s)) = Some 200 \<and>
    rw_body (fst (handleWebhookValidate wh req new_ResponseWriter s)) = out \<and>
    snd (handleWebhookValidate wh req new_ResponseWriter s) = s' \<and>
    (\<exists>rs st. rv_Response (reviewResponse (rq_UID r) err) = Some rs \<and> rs_UID rs = rq_UID r \<and>
       rs_Result rs = Some st \<and>
       (case err of
          None \<Rightarrow> rs_Allowed rs \<and> status_Code st = 202
        | Some e \<Rightarrow> \<not> rs_Allowed rs \<and>
            (case errors_As e of
               Some est \<Rightarrow> status_Reason st = status_Reason est \<and>
                 status_Message st = status_Message est \<and> status_Code st = status_Code est
             | None \<Rightarrow> status_Message st = error_Error e \<and> status_Code st = 403)))"
  using assms
  by (auto simp: handleWebhookValidate_def validateRequest_def writer_simps
      reviewResponse_def Let_def split: option.splits)

text \<open>
  The verdict does not depend on the request's \<^verbatim>\<open>dryRun\<close> flag or its options: the
  validator is told that every request is a real one without options.
\<close>

lemma webhook_ignores_dryRun:
  "validateRequest wh (r\<lparr>rq_DryRun := d, rq_Options := opts\<rparr>) s = validateRequest wh r s \<and>
   attr_dryRun (requestAttributes r object oldObject) = False"
  by (auto simp: validateRequest_def requestAttributes_def NewAttributesRecord_def
      split: sum.splits)

section \<open>Witnesses\<close>

text \<open>
  A webhook over objects that are their raw bytes, of kind Pod, with a codec that keeps the
  id and the verdict, and a validator that refuses the creation of anything named "bad".
\<close>

definition example_pod :: GroupVersionKind where
  "example_pod = \<lparr>gvk_Group = '''', gvk_Version = ''v1'', gvk_Kind = ''Pod''\<rparr>"

definition example_request :: "string \<Rightarrow> AdmissionRequest" where
  "example_request name =
     \<lparr>rq_UID = ''u1'', rq_Kind = example_pod,
      rq_Resource = \<lparr>gvr_Group = '''', gvr_Version = ''v1'', gvr_Resource = ''pods''\<rparr>,
      rq_SubResource = '''', rq_RequestKind = None, rq_RequestResource = None,
      rq_RequestSubResource = '''', rq_Name = name, rq_Namespace = ''default'',
      rq_Operation = ''CREATE'',
      rq_UserInfo = \<lparr>au_Username = ''alice'', au_UID = '''', au_Groups = [], au_Extra = None\<rparr>,
      rq_Object = ''{}'', rq_OldObject = '''', rq_DryRun = None, rq_Options = ''''\<rparr>"

definition example_marshal :: "AdmissionReview \<Rightarrow> goerror + bytes" where
  "example_marshal rv =
     (case rv_Response rv of
        None \<Rightarrow> Inr []
      | Some rs \<Rightarrow> Inr ((if rs_Allowed rs then CHR ''t'' else CHR ''f'') # rs_UID rs))"

fun example_read :: "bytes \<Rightarrow> (string \<times> bool) option" where
  "example_read [] = None"
| "example_read (c # uid) = Some (uid, c = CHR ''t'')"

definition example_webhook :: "(bytes, nat) webhook" where
  "example_webhook =
     \<lparr>wh_validator = NewMulti [\<lparr>vi_Handles = (\<lambda>operation. True),
        vi_Validate = (\<lambda>a n. (if attr_name a = ''bad'' then Some (ErrorString ''denied'') else None, Suc n))\<rparr>],
      wh_Decode = (\<lambda>raw. (Some raw, Some example_pod, None)),
      wh_UnmarshalReview = (\<lambda>b. Inr \<lparr>rv_Kind = ''AdmissionReview'', rv_APIVersion = ''admission.k8s.io/v1'',
        rv_Request = Some (example_request b), rv_Response = None\<rparr>),
      wh_UnmarshalUnstructured = Inr,
      wh_MarshalReview = example_marshal,
      wh_addr = '':443'', wh_certFile = ''tls.crt'', wh_keyFile = ''tls.key''\<rparr>"

definition example_post :: "string \<Rightarrow> string \<Rightarrow> http_Request" where
  "example_post ct body = \<lparr>req_ContentType = ct, req_Body = body\<rparr>"

lemmas example_webhook_simps = example_webhook_def example_post_def example_request_def
  example_pod_def example_marshal_def handleWebhookValidate_def parseRequest_def
  validateRequest_def decodeObject_def reviewResponse_def requestAttributes_def
  NewAttributesRecord_def NewMulti_def rw_Write_def rw_Set_def rw_WriteHeader_def
  http_Error_def new_ResponseWriter_def

lemma example_read_marshal:
  "example_marshal rv = Inr out \<Longrightarrow>
     example_read out = map_option (\<lambda>rs. (rs_UID rs, rs_Allowed rs)) (rv_Response rv)"
  by (auto simp: example_marshal_def split: option.splits)

theorem webhook_allow_sound_witness:
  "rw_body (fst (handleWebhookValidate example_webhook (example_post ''application/json'' ''good'')
     new_ResponseWriter 0)) = ''tu1'' \<and>
   (\<exists>r. parseRequest example_webhook (example_post ''application/json'' ''good'') = Inr r \<and> rq_UID r = ''u1'')"
proof -
  let ?h = "handleWebhookValidate example_webhook (example_post ''application/json'' ''good'') new_ResponseWriter 0"
  have c: "\<And>rv out. wh_MarshalReview example_webhook rv = Inr out \<Longrightarrow>
      example_read out = map_option (\<lambda>rs. (rs_UID rs, rs_Allowed rs)) (rv_Response rv)"
    by (simp add: example_webhook_def example_read_marshal)
  have h: "?h = (fst ?h, snd ?h)" by simp
  have ok: "rw_status (fst ?h) = Some 200" and body: "rw_body (fst ?h) = ''tu1''"
    by (simp_all add: example_webhook_simps)
  from body have a: "example_read (rw_body (fst ?h)) = Some (''u1'', True)" by simp
  show ?thesis
    using webhook_allow_sound [of example_webhook example_read, OF c h ok a] body by auto
qed

theorem webhook_verdict_delivered_witness:
  "rw_body (fst (handleWebhookValidate example_webhook (example_post ''application/json'' ''bad'')
     new_ResponseWriter 0)) = ''fu1''"
proof -
  let ?a = "requestAttributes (example_request ''bad'') (Some ''{}'') (None :: bytes option)"
  have p: "parseRequest example_webhook (example_post ''application/json'' ''bad'') =
      Inr (example_request ''bad'')"
    by (simp add: example_webhook_simps)
  have h: "vi_Handles (wh_validator example_webhook) (rq_Operation (example_request ''bad''))"
    by (simp add: example_webhook_simps)
  have d: "decodeObject example_webhook (rq_Kind (example_request ''bad''))
      (rq_Object (example_request ''bad'')) = Inr (Some ''{}'')"
    by (simp add: example_webhook_simps)
  have e: "decodeObject example_webhook (rq_Kind (example_request ''bad''))
      (rq_OldObject (example_request ''bad'')) = Inr None"
    by (simp add: example_webhook_simps)
  have v: "vi_Validate (wh_validator example_webhook) ?a 0 = (Some (ErrorString ''denied''), 1)"
    by (simp add: example_webhook_simps)
  have m: "wh_MarshalReview example_webhook
      (reviewResponse (rq_UID (example_request ''bad'')) (Some (ErrorString ''denied''))) = Inr ''fu1''"
    by (simp add: example_webhook_simps)
  show ?thesis
    using webhook_verdict_delivered [OF p h d e v m] by simp
qed

end
