(* ===== verification/Server.thy ===== *)
theory Server
  imports Webhook
begin

text \<open>
  The server side of \<^verbatim>\<open>pkg/webhook/server.go\<close>: the file watcher \<^verbatim>\<open>notifyChanges\<close> and the
  life cycle \<^verbatim>\<open>Run\<close> of the HTTPS server, with its goroutines, channels and wait group.
  \<^verbatim>\<open>Run\<close> is a step relation: one rule per branch of its \<^verbatim>\<open>select\<close>, per step of the goroutines
  it starts, and per action of the environment. The error channel of a server is unbuffered,
  so a server goroutine that has an error to report stays blocked until \<^verbatim>\<open>Run\<close> receives it.
  The lemmas show the invariant that ties the wait group to the goroutines and what it means
  for the ways in which \<^verbatim>\<open>Run\<close> can return.
\<close>

section \<open>The file watcher\<close>

text \<open>The struct \<^verbatim>\<open>info\<close>: a zero time is \<open>None\<close>.\<close>

record file_info =
  fi_modTime :: "int option"
  fi_err :: string

text \<open>\<^verbatim>\<open>os.Stat\<close> at one moment: the modification time of a path, or the error.\<close>

type_synonym stat = "string \<Rightarrow> goerror + int"

definition info_of :: "goerror + int \<Rightarrow> file_info" where
  "info_of r =
     (case r of
        Inl err \<Rightarrow> \<lparr>fi_modTime = None, fi_err = error_Error err\<rparr>
      | Inr t \<Rightarrow> \<lparr>fi_modTime = Some t, fi_err = ''''\<rparr>)"

text \<open>
  The closure \<^verbatim>\<open>getInfos\<close> declares its own map \<^verbatim>\<open>res\<close>, writes the entries into the captured
  map \<^verbatim>\<open>infos\<close> and returns \<^verbatim>\<open>res\<close>. The first component is the captured map afterwards.
\<close>

fun getInfos_loop :: "stat \<Rightarrow> string list \<Rightarrow> (string \<rightharpoonup> file_info) \<Rightarrow> (string \<rightharpoonup> file_info)" where
  "getInfos_loop stat [] infos = infos"
| "getInfos_loop stat (v # paths) infos =
     getInfos_loop stat paths (infos(v \<mapsto> info_of (stat v)))"

definition getInfos ::
  "stat \<Rightarrow> string list \<Rightarrow> (string \<rightharpoonup> file_info) \<Rightarrow> (string \<rightharpoonup> file_info) \<times> (string \<rightharpoonup> file_info)" where
  "getInfos stat paths infos =
     (let res = Map.empty; infos' = getInfos_loop stat paths infos in (infos', res))"

record watch_state =
  ws_infos :: "string \<rightharpoonup> file_info"
  ws_lastInfos :: "string \<rightharpoonup> file_info"

definition notifyChanges_start :: "stat \<Rightarrow> string list \<Rightarrow> watch_state" where
  "notifyChanges_start stat paths =
     (let (infos, lastInfos) = getInfos stat paths Map.empty
      in \<lparr>ws_infos = infos, ws_lastInfos = lastInfos\<rparr>)"

text \<open>One expiry of the two-second timer: the new state, and whether a change is announced.\<close>

definition notifyChanges_tick :: "string list \<Rightarrow> stat \<Rightarrow> watch_state \<Rightarrow> watch_state \<times> bool" where
  "notifyChanges_tick paths stat ws =
     (let (infos, newInfos) = getInfos stat paths (ws_infos ws)
      in if ws_lastInfos ws = newInfos then (ws\<lparr>ws_infos := infos\<rparr>, False)
         else (\<lparr>ws_infos = infos, ws_lastInfos = newInfos\<rparr>, True))"

fun notifyChanges_run :: "string list \<Rightarrow> stat list \<Rightarrow> watch_state \<Rightarrow> watch_state \<times> bool list" where
  "notifyChanges_run paths [] ws = (ws, [])"
| "notifyChanges_run paths (stat # stats) ws =
     (let (ws1, ev) = notifyChanges_tick paths stat ws;
          (ws2, evs) = notifyChanges_run paths stats ws1
      in (ws2, ev # evs))"

definition notifyChanges :: "string list \<Rightarrow> stat \<Rightarrow> stat list \<Rightarrow> watch_state \<times> bool list" where
  "notifyChanges paths stat stats = notifyChanges_run paths stats (notifyChanges_start stat paths)"

section \<open>The server life cycle\<close>

text \<open>
  A server goroutine is in \<^verbatim>\<open>ListenAndServeTLS\<close>, blocked on \<^verbatim>\<open>errChan <- err\<close>, past it (with the
  deferred \<^verbatim>\<open>close\<close> and \<^verbatim>\<open>wg.Done\<close> still to run), or finished.
\<close>

datatype server = Serving | Sending goerror | Sent | Stopped

text \<open>The branch of the \<^verbatim>\<open>select\<close> that left the loop.\<close>

datatype exit = ByContext | ByServer | ByWatch

text \<open>
  \<^verbatim>\<open>Run\<close> is in its loop, or blocked in the deferred \<^verbatim>\<open>wg.Wait\<close> (the deferred \<^verbatim>\<open>cancelWatches\<close>
  and \<^verbatim>\<open>wg.Done\<close> have run), or has returned.
\<close>

datatype run_pc = Select | Waiting exit | Returned exit

record run_state =
  run_ctxErr :: "goerror option"
  run_at :: run_pc
  run_serverError :: "goerror option"
  run_servers :: "server list"
  run_current :: nat
  run_closed :: "nat set"
  run_watchOpen :: bool
  run_shutdowns :: nat
  run_wg :: nat

definition context_Canceled :: goerror where
  "context_Canceled = ErrorString ''context canceled''"

definition context_DeadlineExceeded :: goerror where
  "context_DeadlineExceeded = ErrorString ''context deadline exceeded''"

text \<open>After \<^verbatim>\<open>wg.Add(1)\<close>, starting the watcher and the first \<^verbatim>\<open>launchServer\<close>.\<close>

definition run_init :: run_state where
  "run_init = \<lparr>run_ctxErr = None, run_at = Select, run_serverError = None,
     run_servers = [Serving], run_current = 0, run_closed = {}, run_watchOpen = True,
     run_shutdowns = 0, run_wg = 2\<rparr>"

definition launchServer :: "run_state \<Rightarrow> run_state" where
  "launchServer s = s\<lparr>run_servers := run_servers s @ [Serving],
     run_current := length (run_servers s), run_wg := run_wg s + 1\<rparr>"

text \<open>\<^verbatim>\<open>break loop\<close>, and the deferred calls up to \<^verbatim>\<open>wg.Wait\<close>.\<close>

definition break_loop :: "exit \<Rightarrow> goerror \<Rightarrow> run_state \<Rightarrow> run_state" where
  "break_loop x err s = s\<lparr>run_serverError := Some err, run_at := Waiting x, run_wg := run_wg s - 1\<rparr>"

text \<open>
  The parameter \<open>changes\<close> says whether the watcher ever announces a change. The rules are, in
  order: the caller cancels the context; \<^verbatim>\<open>ListenAndServeTLS\<close> of some server returns; the
  three branches of the \<^verbatim>\<open>select\<close> (with the two outcomes of reading the watch channel); the
  watcher leaves when its context is done; a server goroutine and a shutdown goroutine end;
  the wait group reaches zero.
\<close>

inductive run_step :: "bool \<Rightarrow> run_state \<Rightarrow> run_state \<Rightarrow> bool" for changes where
  cancel: "run_ctxErr s = None \<Longrightarrow> err \<in> {context_Canceled, context_DeadlineExceeded} \<Longrightarrow>
    run_step changes s (s\<lparr>run_ctxErr := Some err\<rparr>)"
| serve_returns: "i < length (run_servers s) \<Longrightarrow> run_servers s ! i = Serving \<Longrightarrow>
    run_step changes s (s\<lparr>run_servers := (run_servers s)[i := Sending err]\<rparr>)"
| ctx_done: "run_at s = Select \<Longrightarrow> run_ctxErr s = Some err \<Longrightarrow>
    run_step changes s (break_loop ByContext err
      (s\<lparr>run_closed := insert (run_current s) (run_closed s)\<rparr>))"
| server_error: "run_at s = Select \<Longrightarrow> run_servers s ! run_current s = Sending err \<Longrightarrow>
    run_step changes s (break_loop ByServer err
      (s\<lparr>run_servers := (run_servers s)[run_current s := Sent]\<rparr>))"
| watch_closed: "run_at s = Select \<Longrightarrow> \<not> run_watchOpen s \<Longrightarrow> run_ctxErr s = Some err \<Longrightarrow>
    run_step changes s (break_loop ByWatch err s)"
| tls_changed: "run_at s = Select \<Longrightarrow> run_watchOpen s \<Longrightarrow> changes \<Longrightarrow>
    run_step changes s (launchServer
      (s\<lparr>run_shutdowns := run_shutdowns s + 1, run_wg := run_wg s + 1\<rparr>))"
| watcher_exits: "run_watchOpen s \<Longrightarrow> run_ctxErr s \<noteq> None \<or> run_at s \<noteq> Select \<Longrightarrow>
    run_step changes s (s\<lparr>run_watchOpen := False\<rparr>)"
| server_ends: "i < length (run_servers s) \<Longrightarrow> run_servers s ! i = Sent \<Longrightarrow>
    run_step changes s (s\<lparr>run_servers := (run_servers s)[i := Stopped], run_wg := run_wg s - 1\<rparr>)"
| shutdown_ends: "0 < run_shutdowns s \<Longrightarrow>
    run_step changes s (s\<lparr>run_shutdowns := run_shutdowns s - 1, run_wg := run_wg s - 1\<rparr>)"
| return: "run_at s = Waiting x \<Longrightarrow> run_wg s = 0 \<Longrightarrow>
    run_step changes s (s\<lparr>run_at := Returned x\<rparr>)"

section \<open>Lemmas\<close>

lemma getInfos_loop_eq:
  "getInfos_loop stat paths infos =
     (\<lambda>p. if p \<in> set paths then Some (info_of (stat p)) else infos p)"
  by (induction paths arbitrary: infos) (auto simp: fun_eq_iff)

lemma notifyChanges_tick_quiet:
  assumes "ws_lastInfos ws = Map.empty"
  shows "notifyChanges_tick paths stat ws = (ws\<lparr>ws_infos := getInfos_loop stat paths (ws_infos ws)\<rparr>, False)"
  using assms by (simp add: notifyChanges_tick_def getInfos_def Let_def)

lemma notifyChanges_run_quiet:
  assumes "ws_lastInfos ws = Map.empty"
  shows "snd (notifyChanges_run paths stats ws) = replicate (length stats) False \<and>
    ws_infos (fst (notifyChanges_run paths stats ws)) =
      fold (\<lambda>stat. getInfos_loop stat paths) stats (ws_infos ws)"
  using assms
proof (induction stats arbitrary: ws)
  case Nil
  show ?case by simp
next
  case (Cons stat stats)
  let ?ws = "ws\<lparr>ws_infos := getInfos_loop stat paths (ws_infos ws)\<rparr>"
  have "ws_lastInfos ?ws = Map.empty" using Cons.prems by simp
  from Cons.IH [OF this] Cons.prems show ?case
    by (simp add: notifyChanges_tick_quiet Let_def split_beta)
qed

lemma fold_getInfos_last:
  "stats \<noteq> [] \<Longrightarrow> p \<in> set paths \<Longrightarrow>
     fold (\<lambda>stat. getInfos_loop stat paths) stats infos p = Some (info_of (last stats p))"
  by (induction stats arbitrary: infos) (auto simp: getInfos_loop_eq)

text \<open>The servers that still hold the wait group.\<close>

fun live :: "server list \<Rightarrow> nat" where
  "live [] = 0"
| "live (v # servers) = (if v = Stopped then 0 else 1) + live servers"

text \<open>
  The wait group counts \<^verbatim>\<open>Run\<close> itself while it is in the loop, the unfinished server
  goroutines and the pending shutdowns; the current server is the last one; and the only
  server that can be past its blocking send is the current one, after \<^verbatim>\<open>Run\<close> left the loop by
  receiving its error.
\<close>

definition run_inv :: "run_state \<Rightarrow> bool" where
  "run_inv s \<longleftrightarrow>
     run_wg s = (if run_at s = Select then 1 else 0) + live (run_servers s) + run_shutdowns s \<and>
     run_servers s \<noteq> [] \<and> run_current s = length (run_servers s) - 1 \<and>
     (\<forall>i < length (run_servers s). run_servers s ! i \<in> {Sent, Stopped} \<longrightarrow>
        i = run_current s \<and> run_at s \<in> {Waiting ByServer, Returned ByServer}) \<and>
     (run_at s \<noteq> Select \<longrightarrow> run_serverError s \<noteq> None)"

lemma live_append [simp]: "live (xs @ ys) = live xs + live ys"
  by (induction xs) auto

lemma live_zero: "live xs = 0 \<longleftrightarrow> (\<forall>x \<in> set xs. x = Stopped)"
  by (induction xs) auto

lemma live_update_eq:
  "i < length xs \<Longrightarrow> xs ! i \<noteq> Stopped \<Longrightarrow> v \<noteq> Stopped \<Longrightarrow> live (xs[i := v]) = live xs"
proof (induction xs arbitrary: i)
  case (Cons x xs)
  then show ?case by (cases i) auto
qed simp

lemma live_update_Stopped:
  "i < length xs \<Longrightarrow> xs ! i \<noteq> Stopped \<Longrightarrow> Suc (live (xs[i := Stopped])) = live xs"
proof (induction xs arbitrary: i)
  case (Cons x xs)
  then show ?case by (cases i) auto
qed simp

lemma live_pos: "i < length xs \<Longrightarrow> xs ! i \<noteq> Stopped \<Longrightarrow> 0 < live xs"
  using live_zero [of xs] by (metis nth_mem gr0I)

lemma run_inv_init: "run_inv run_init"
  by (simp add: run_inv_def run_init_def)

lemma run_inv_step:
  assumes "run_step changes s t" and "run_inv s"
  shows "run_inv t"
  using assms
proof (induction rule: run_step.induct)
  case (cancel s err)
  then show ?case by (auto simp: run_inv_def)
next
  case (serve_returns i s err)
  then show ?case
    by (auto simp: run_inv_def live_update_eq nth_list_update)
next
  case (ctx_done s err)
  then show ?case by (auto simp: run_inv_def break_loop_def)
next
  case (server_error s err)
  then have "run_current s < length (run_servers s)"
    by (auto simp: run_inv_def)
  with server_error show ?case
    by (auto simp: run_inv_def break_loop_def live_update_eq nth_list_update)
next
  case (watch_closed s err)
  then show ?case by (auto simp: run_inv_def break_loop_def)
next
  case (tls_changed s)
  then show ?case
    by (auto simp: run_inv_def launchServer_def nth_append less_Suc_eq)
next
  case (watcher_exits s)
  then show ?case by (auto simp: run_inv_def)
next
  case (server_ends i s)
  then have "Suc (live ((run_servers s)[i := Stopped])) = live (run_servers s)"
    by (intro live_update_Stopped) auto
  with server_ends show ?case
    by (auto simp: run_inv_def nth_list_update)
next
  case (shutdown_ends s)
  then show ?case by (auto simp: run_inv_def)
next
  case (return s x)
  then show ?case by (auto simp: run_inv_def)
qed

interpretation run: step_invariant "run_step changes" run_inv for changes
  by unfold_locales (rule run_inv_step)

lemma reachable_run_inv: "(run_step changes)\<^sup>*\<^sup>* run_init s \<Longrightarrow> run_inv s"
  by (rule run.steps_inv [OF _ run_inv_init])

lemma run_inv_wg_pos:
  assumes "run_inv s" and "run_at s \<notin> {Waiting ByServer, Returned ByServer}"
  shows "0 < run_wg s"
proof -
  have "run_servers s ! run_current s \<noteq> Stopped" and "run_current s < length (run_servers s)"
    using assms by (auto simp: run_inv_def)
  then have "0 < live (run_servers s)" by (intro live_pos)
  then show ?thesis using assms by (simp add: run_inv_def)
qed

lemma run_inv_all_stopped:
  assumes "run_inv s" and "run_wg s = 0"
  shows "run_servers s = [Stopped]"
proof -
  have stopped: "\<forall>i < length (run_servers s). run_servers s ! i = Stopped"
    and len: "run_servers s \<noteq> []"
    using assms by (auto simp: run_inv_def live_zero)
  have "\<forall>i < length (run_servers s). i = run_current s"
    using assms stopped by (auto simp: run_inv_def)
  then have "length (run_servers s) = 1"
    using len by (cases "run_servers s") (auto, metis One_nat_def Suc_less_eq length_greater_0_conv zero_less_Suc zero_neq_one)
  then show ?thesis using stopped by (cases "run_servers s") auto
qed

text \<open>Once \<^verbatim>\<open>Run\<close> waits after any other branch than a server's error, it waits for ever.\<close>

lemma run_stuck_step:
  assumes "run_step changes s t" and "run_inv s" and "run_at s = Waiting x" and "x \<noteq> ByServer"
  shows "run_at t = Waiting x"
  using assms
proof (cases rule: run_step.cases)
  case (return y)
  have "0 < run_wg s" using assms by (intro run_inv_wg_pos) auto
  with return show ?thesis by simp
qed (auto simp: launchServer_def)

lemma run_returned_inv:
  assumes "(run_step changes)\<^sup>*\<^sup>* run_init s" and "run_at s = Returned x"
  shows "x = ByServer \<and> length (run_servers s) = 1"
  using assms
proof (induction arbitrary: x rule: rtranclp_induct)
  case base
  then show ?case by (simp add: run_init_def)
next
  case (step s t)
  have inv: "run_inv s" using step.hyps(1) by (rule reachable_run_inv)
  from step.hyps(2) show ?case
  proof (cases rule: run_step.cases)
    case (return y)
    then have "run_servers s = [Stopped]" using inv by (intro run_inv_all_stopped)
    moreover have "y = ByServer"
      using return inv run_inv_wg_pos [OF inv] by (cases y) auto
    ultimately show ?thesis using return step.prems by simp
  qed (use step in \<open>auto simp: break_loop_def launchServer_def\<close>)
qed

section \<open>Properties\<close>

text \<open>
  C37. The watcher never announces a change: over any history of the certificate and key
  files, no expiry of its timer reports one, although the map it captures does follow the
  files. So the server is never restarted with new TLS files.
\<close>

theorem notifyChanges_never_fires:
  "snd (notifyChanges paths stat0 stats) = replicate (length stats) False \<and>
   ws_infos (fst (notifyChanges paths stat0 stats)) =
     fold (\<lambda>stat. getInfos_loop stat paths) (stat0 # stats) Map.empty"
proof -
  have "ws_lastInfos (notifyChanges_start stat0 paths) = Map.empty"
    by (simp add: notifyChanges_start_def getInfos_def Let_def)
  from notifyChanges_run_quiet [OF this] show ?thesis
    by (simp add: notifyChanges_def notifyChanges_start_def getInfos_def Let_def)
qed

text \<open>
  The only way for \<^verbatim>\<open>Run\<close> to return is that the first and only server it started reported
  an error of its own, and then the returned error is not nil. In particular it never
  returns after a cancelled context or after a restart.
\<close>

lemma run_returns_only_on_server_error:
  assumes "(run_step changes)\<^sup>*\<^sup>* run_init s" and "run_at s = Returned x"
  shows "x = ByServer \<and> length (run_servers s) = 1 \<and> run_serverError s \<noteq> None"
  using run_returned_inv [OF assms] reachable_run_inv [OF assms(1)] assms(2)
  by (auto simp: run_inv_def)

text \<open>
  C35. Cancelling the context hangs the server: once \<^verbatim>\<open>Run\<close> has taken the branch of the
  cancelled context, or of the closed watch channel, it waits for its wait group in every
  later state, because the goroutine of the closed server blocks on a channel nobody reads.
\<close>

theorem run_context_hangs:
  assumes "(run_step changes)\<^sup>*\<^sup>* run_init s" and "run_at s = Waiting x" and "x \<noteq> ByServer"
    and "(run_step changes)\<^sup>*\<^sup>* s t"
  shows "run_at t = Waiting x \<and> 0 < run_wg t"
proof -
  from assms(4) have "run_inv t \<and> run_at t = Waiting x"
  proof (induction rule: rtranclp_induct)
    case base
    then show ?case using assms reachable_run_inv by blast
  next
    case (step t u)
    then show ?case using run_stuck_step assms(3) run_inv_step by blast
  qed
  then show ?thesis using run_inv_wg_pos assms(3) by auto
qed

section \<open>Witnesses\<close>

definition example_cancelled :: run_state where
  "example_cancelled = break_loop ByContext context_Canceled
     (run_init\<lparr>run_ctxErr := Some context_Canceled, run_closed := {0}\<rparr>)"

lemma example_cancelled_reachable: "(run_step False)\<^sup>*\<^sup>* run_init example_cancelled"
proof -
  let ?s1 = "run_init\<lparr>run_ctxErr := Some context_Canceled\<rparr>"
  have 1: "run_step False run_init ?s1"
    by (rule run_step.cancel) (simp_all add: run_init_def)
  have 2: "run_step False ?s1 example_cancelled"
    using run_step.ctx_done [of ?s1 context_Canceled False] by (simp add: run_init_def example_cancelled_def)
  from 1 2 show ?thesis
    by (meson rtranclp.rtrancl_into_rtrancl rtranclp.rtrancl_refl)
qed

theorem run_context_hangs_witness:
  "run_at (example_cancelled\<lparr>run_servers := [Sending (ErrorString ''http: Server closed'')]\<rparr>) =
     Waiting ByContext \<and>
   0 < run_wg (example_cancelled\<lparr>run_servers := [Sending (ErrorString ''http: Server closed'')]\<rparr>)"
proof -
  have w: "run_at example_cancelled = Waiting ByContext"
    by (simp add: example_cancelled_def break_loop_def)
  have n: "ByContext \<noteq> ByServer" by simp
  have "run_step False example_cancelled
      (example_cancelled\<lparr>run_servers := [Sending (ErrorString ''http: Server closed'')]\<rparr>)"
    using run_step.serve_returns [of 0 example_cancelled False "ErrorString ''http: Server closed''"]
    by (simp add: example_cancelled_def break_loop_def run_init_def)
  then show ?thesis
    using run_context_hangs [OF example_cancelled_reachable w n] by blast
qed

end
