(* ===== verification/SchemaResolver.thy ===== *)
theory SchemaResolver
  imports ApiMachinery
begin

text \<open>
  The caching schema resolver of \<^verbatim>\<open>pkg/controller/schemaresolver/resolver.go\<close>. The state is
  the cache; discovery (the embedded \<^verbatim>\<open>ClientDiscoveryResolver\<close>, which asks the API server) is
  an argument of the operations. \<^verbatim>\<open>ResolveSchema\<close> looks the kind up under the read lock and, on
  a miss, fills the cache under the write lock: the two critical sections are separate
  definitions, so that calls can interleave between them. The lemmas show that the cache is
  transparent while discovery is stable, in any interleaving, and what it serves when
  discovery changes.
\<close>

section \<open>Definitions\<close>

record 'sc cacheEntry =
  ce_error :: "goerror option"
  ce_schema :: "'sc option"

type_synonym 'sc schemaCache = "GroupVersionKind \<rightharpoonup> 'sc cacheEntry"

type_synonym 'sc discovery = "GroupVersionKind \<Rightarrow> 'sc option \<times> goerror option"

definition resolver_New :: "'sc schemaCache" where
  "resolver_New = Map.empty"

text \<open>A missing key yields the zero entry, with \<^verbatim>\<open>exists = false\<close>.\<close>

definition resolveSchemaFromCache ::
  "GroupVersionKind \<Rightarrow> 'sc schemaCache \<Rightarrow> bool \<times> 'sc option \<times> goerror option" where
  "resolveSchemaFromCache gvk cache =
     (case cache gvk of
        Some entry \<Rightarrow> (True, ce_schema entry, ce_error entry)
      | None \<Rightarrow> (False, None, None))"

text \<open>The section under the write lock.\<close>

definition resolveSchemaFill ::
  "'sc discovery \<Rightarrow> GroupVersionKind \<Rightarrow> 'sc schemaCache \<Rightarrow> ('sc option \<times> goerror option) \<times> 'sc schemaCache" where
  "resolveSchemaFill disco gvk cache =
     (let (data, err) = disco gvk;
          res = \<lparr>ce_error = err, ce_schema = data\<rparr>
      in ((ce_schema res, ce_error res), cache(gvk \<mapsto> res)))"

definition ResolveSchema ::
  "'sc discovery \<Rightarrow> GroupVersionKind \<Rightarrow> 'sc schemaCache \<Rightarrow> ('sc option \<times> goerror option) \<times> 'sc schemaCache" where
  "ResolveSchema disco gvk cache =
     (let (exists, schema, err) = resolveSchemaFromCache gvk cache
      in if exists then ((schema, err), cache)
         else resolveSchemaFill disco gvk cache)"

definition purgeCRDFromCache :: "GroupKind \<Rightarrow> 'sc schemaCache \<Rightarrow> 'sc schemaCache" where
  "purgeCRDFromCache gk cache =
     (\<lambda>k. if gvk_Group k = gk_Group gk \<and> gvk_Kind k = gk_Kind gk then None else cache k)"

text \<open>
  A CustomResourceDefinition: the kind in its own type metadata, and the group and kind of
  the resources it defines. The informer delivers the object, or, when a deletion was missed,
  a \<^verbatim>\<open>DeletedFinalStateUnknown\<close>.
\<close>

record CustomResourceDefinition =
  crd_objectKind :: GroupVersionKind
  crd_specGroup :: string
  crd_specKind :: string
  crd_specVersions :: "string list"

datatype crd_object = CRDObject CustomResourceDefinition | DeletedFinalStateUnknown string

datatype crd_event =
    AddFunc crd_object
  | UpdateFunc crd_object crd_object
  | DeleteFunc crd_object

definition purgeObject :: "CustomResourceDefinition \<Rightarrow> 'sc schemaCache \<Rightarrow> 'sc schemaCache" where
  "purgeObject crd cache = purgeCRDFromCache (gvk_GroupKind (crd_objectKind crd)) cache"

text \<open>
  The event handlers that \<^verbatim>\<open>Run\<close> registers. The type assertion \<^verbatim>\<open>obj.(*v1.CustomResourceDefinition)\<close>
  panics on any other dynamic type.
\<close>

fun assertCRD :: "crd_object \<Rightarrow> CustomResourceDefinition result" where
  "assertCRD (CRDObject crd) = Ret crd"
| "assertCRD (DeletedFinalStateUnknown key) = Panic ''interface conversion''"

fun resolver_handle :: "crd_event \<Rightarrow> 'sc schemaCache \<Rightarrow> 'sc schemaCache result" where
  "resolver_handle (AddFunc obj) cache =
     bind_outcome (assertCRD obj) (\<lambda>crd. Ret (purgeObject crd cache))"
| "resolver_handle (UpdateFunc oldObj newObj) cache =
     bind_outcome (assertCRD oldObj) (\<lambda>oldCrd.
       bind_outcome (assertCRD newObj) (\<lambda>newCrd.
         Ret (purgeObject newCrd (purgeObject oldCrd cache))))"
| "resolver_handle (DeleteFunc obj) cache =
     bind_outcome (assertCRD obj) (\<lambda>crd. Ret (purgeObject crd cache))"

text \<open>
  Concurrent callers, numbered: idle, past a miss and about to fill, or answered. A step is
  one critical section of one caller, or one purge.
\<close>

datatype 'sc caller = Idle | Missed GroupVersionKind | Answered GroupVersionKind "'sc option \<times> goerror option"

record 'sc resolver_sys =
  sys_cache :: "'sc schemaCache"
  sys_callers :: "nat \<Rightarrow> 'sc caller"

definition sys_init :: "'sc resolver_sys" where
  "sys_init = \<lparr>sys_cache = resolver_New, sys_callers = (\<lambda>i. Idle)\<rparr>"

inductive resolver_step :: "'sc discovery \<Rightarrow> 'sc resolver_sys \<Rightarrow> 'sc resolver_sys \<Rightarrow> bool" for disco where
  lookup_hit: "resolveSchemaFromCache gvk (sys_cache s) = (True, schema, err) \<Longrightarrow>
    resolver_step disco s (s\<lparr>sys_callers := (sys_callers s)(i := Answered gvk (schema, err))\<rparr>)"
| lookup_miss: "resolveSchemaFromCache gvk (sys_cache s) = (False, schema, err) \<Longrightarrow>
    resolver_step disco s (s\<lparr>sys_callers := (sys_callers s)(i := Missed gvk)\<rparr>)"
| fill: "sys_callers s i = Missed gvk \<Longrightarrow> resolveSchemaFill disco gvk (sys_cache s) = (r, cache') \<Longrightarrow>
    resolver_step disco s (s\<lparr>sys_cache := cache', sys_callers := (sys_callers s)(i := Answered gvk r)\<rparr>)"
| purge: "resolver_step disco s (s\<lparr>sys_cache := purgeCRDFromCache gk (sys_cache s)\<rparr>)"

section \<open>The interface\<close>

text \<open>
  What a client of \<^verbatim>\<open>resolver.SchemaResolver\<close> relies on: a resolver answers as the
  specification says, and stays able to.
\<close>

locale schema_resolver =
  fixes resolve :: "GroupVersionKind \<Rightarrow> 'c \<Rightarrow> ('sc option \<times> goerror option) \<times> 'c"
    and spec :: "GroupVersionKind \<Rightarrow> 'sc option \<times> goerror option"
    and ok :: "'c \<Rightarrow> bool"
  assumes resolve_answer: "ok c \<Longrightarrow> fst (resolve gvk c) = spec gvk"
    and resolve_ok: "ok c \<Longrightarrow> ok (snd (resolve gvk c))"
begin

lemma resolve_sequence:
  "ok c \<Longrightarrow> ok (fold (\<lambda>gvk c. snd (resolve gvk c)) gvks c)"
  by (induction gvks arbitrary: c) (auto intro: resolve_ok)

lemma resolve_after:
  "ok c \<Longrightarrow> fst (resolve gvk (fold (\<lambda>gvk c. snd (resolve gvk c)) gvks c)) = spec gvk"
  by (intro resolve_answer resolve_sequence)

end

section \<open>Lemmas\<close>

text \<open>Every cached entry is what discovery answers.\<close>

definition cache_ok :: "'sc discovery \<Rightarrow> 'sc schemaCache \<Rightarrow> bool" where
  "cache_ok disco cache \<longleftrightarrow>
     (\<forall>gvk entry. cache gvk = Some entry \<longrightarrow> (ce_schema entry, ce_error entry) = disco gvk)"

lemma cache_ok_New: "cache_ok disco resolver_New"
  by (simp add: cache_ok_def resolver_New_def)

lemma cache_ok_purge: "cache_ok disco cache \<Longrightarrow> cache_ok disco (purgeCRDFromCache gk cache)"
  by (auto simp: cache_ok_def purgeCRDFromCache_def)

lemma fill_answer: "fst (resolveSchemaFill disco gvk cache) = disco gvk"
  by (simp add: resolveSchemaFill_def split: prod.splits)

lemma cache_ok_fill: "cache_ok disco cache \<Longrightarrow> cache_ok disco (snd (resolveSchemaFill disco gvk cache))"
  by (auto simp: cache_ok_def resolveSchemaFill_def split: prod.splits)

lemma hit_answer:
  "cache_ok disco cache \<Longrightarrow> resolveSchemaFromCache gvk cache = (True, schema, err) \<Longrightarrow>
     (schema, err) = disco gvk"
  by (auto simp: cache_ok_def resolveSchemaFromCache_def split: option.splits)

lemma ResolveSchema_hit:
  "cache gvk = Some entry \<Longrightarrow>
     ResolveSchema disco gvk cache = ((ce_schema entry, ce_error entry), cache)"
  by (simp add: ResolveSchema_def resolveSchemaFromCache_def)

lemma ResolveSchema_miss:
  "cache gvk = None \<Longrightarrow> ResolveSchema disco gvk cache = resolveSchemaFill disco gvk cache"
  by (simp add: ResolveSchema_def resolveSchemaFromCache_def)

lemma ResolveSchema_answer: "cache_ok disco cache \<Longrightarrow> fst (ResolveSchema disco gvk cache) = disco gvk"
  by (cases "cache gvk")
    (auto simp: ResolveSchema_hit ResolveSchema_miss fill_answer cache_ok_def)

lemma cache_ok_Resolve: "cache_ok disco cache \<Longrightarrow> cache_ok disco (snd (ResolveSchema disco gvk cache))"
  by (cases "cache gvk") (auto simp: ResolveSchema_hit ResolveSchema_miss cache_ok_fill)

interpretation resolver: schema_resolver "ResolveSchema disco" disco "cache_ok disco" for disco
  by unfold_locales (auto intro: ResolveSchema_answer cache_ok_Resolve)

lemma ResolveSchema_stored:
  "\<exists>entry. snd (ResolveSchema disco gvk cache) gvk = Some entry \<and>
     (ce_schema entry, ce_error entry) = fst (ResolveSchema disco gvk cache)"
  by (cases "cache gvk")
    (auto simp: ResolveSchema_hit ResolveSchema_miss resolveSchemaFill_def split: prod.splits)

lemma purge_other:
  "gvk_GroupKind gvk \<noteq> gk \<Longrightarrow> purgeCRDFromCache gk cache gvk = cache gvk"
  by (auto simp: purgeCRDFromCache_def gvk_GroupKind_def)

text \<open>The invariant of concurrent callers.\<close>

definition sys_inv :: "'sc discovery \<Rightarrow> 'sc resolver_sys \<Rightarrow> bool" where
  "sys_inv disco s \<longleftrightarrow> cache_ok disco (sys_cache s) \<and>
     (\<forall>i gvk r. sys_callers s i = Answered gvk r \<longrightarrow> r = disco gvk)"

lemma sys_inv_step: "resolver_step disco s t \<Longrightarrow> sys_inv disco s \<Longrightarrow> sys_inv disco t"
proof (induction rule: resolver_step.induct)
  case (lookup_hit gvk s schema err i)
  then show ?case using hit_answer by (fastforce simp: sys_inv_def)
next
  case (lookup_miss gvk s schema err i)
  then show ?case by (auto simp: sys_inv_def)
next
  case (fill s i gvk r cache')
  then have "r = disco gvk" and "cache_ok disco cache'"
    using fill_answer [of disco gvk "sys_cache s"] cache_ok_fill [of disco "sys_cache s" gvk]
    by (auto simp: sys_inv_def)
  with fill show ?case by (auto simp: sys_inv_def)
next
  case (purge s gk)
  then show ?case by (auto simp: sys_inv_def cache_ok_purge)
qed

interpretation resolver_sys: step_invariant "resolver_step disco" "sys_inv disco" for disco
  by unfold_locales (rule sys_inv_step)

section \<open>Properties\<close>

text \<open>
  C18. Cache transparency under concurrency: while discovery is stable, however callers and
  purges interleave between the two critical sections, every answer a caller has received is
  discovery's answer for the kind it asked for.
\<close>

theorem resolver_concurrent_transparent:
  assumes "(resolver_step disco)\<^sup>*\<^sup>* sys_init s" and "sys_callers s i = Answered gvk r"
  shows "r = disco gvk"
proof -
  have "sys_inv disco sys_init"
    by (simp add: sys_inv_def sys_init_def cache_ok_New)
  with assms(1) have "sys_inv disco s" by (rule resolver_sys.steps_inv)
  then show ?thesis using assms(2) unfolding sys_inv_def by blast
qed

text \<open>
  Purging forgets every version of the given group and kind, and nothing else: the next
  resolution of a purged kind asks discovery, and any other kind is answered as before.
\<close>

lemma purge_exact:
  "ResolveSchema disco gvk (purgeCRDFromCache gk cache) =
     (if gvk_GroupKind gvk = gk
      then (disco gvk, (purgeCRDFromCache gk cache)(gvk \<mapsto>
             \<lparr>ce_error = snd (disco gvk), ce_schema = fst (disco gvk)\<rparr>))
      else (fst (ResolveSchema disco gvk cache),
            purgeCRDFromCache gk (snd (ResolveSchema disco gvk cache))))"
proof (cases "gvk_GroupKind gvk = gk")
  case True
  then have "purgeCRDFromCache gk cache gvk = None"
    by (auto simp: purgeCRDFromCache_def gvk_GroupKind_def)
  then show ?thesis
    using True by (simp add: ResolveSchema_miss resolveSchemaFill_def split: prod.splits)
next
  case False
  then have same: "purgeCRDFromCache gk cache gvk = cache gvk" by (rule purge_other)
  show ?thesis
  proof (cases "cache gvk")
    case (Some entry)
    then show ?thesis using False same by (simp add: ResolveSchema_hit)
  next
    case None
    have "(purgeCRDFromCache gk cache)(gvk \<mapsto> e) = purgeCRDFromCache gk (cache(gvk \<mapsto> e))" for e
      using False by (auto simp: purgeCRDFromCache_def gvk_GroupKind_def fun_eq_iff)
    then show ?thesis
      using False same None by (simp add: ResolveSchema_miss resolveSchemaFill_def split: prod.splits)
  qed
qed

text \<open>
  C36. An update of a CustomResourceDefinition does not invalidate the schemas of the
  resources it defines: the handler purges the group and kind of the definition objects
  themselves, so a cached answer for any kind outside that group and kind, an error
  included, is still served after the event, whatever discovery answers by then.
\<close>

theorem crd_update_keeps_stale_schema:
  assumes "gvk_GroupKind gvk \<noteq> gvk_GroupKind (crd_objectKind oldCrd)"
    and "gvk_GroupKind gvk \<noteq> gvk_GroupKind (crd_objectKind newCrd)"
    and "resolver_handle (UpdateFunc (CRDObject oldCrd) (CRDObject newCrd))
        (snd (ResolveSchema disco gvk cache)) = Ret cache'"
  shows "fst (ResolveSchema disco' gvk cache') = fst (ResolveSchema disco gvk cache)"
proof -
  obtain entry where stored: "snd (ResolveSchema disco gvk cache) gvk = Some entry"
    and entry: "(ce_schema entry, ce_error entry) = fst (ResolveSchema disco gvk cache)"
    using ResolveSchema_stored by blast
  have "cache' gvk = Some entry"
    using assms stored by (auto simp: purgeObject_def purge_other)
  then show ?thesis using entry by (simp add: ResolveSchema_hit)
qed

text \<open>
  A deletion that the informer reports as a tombstone panics in the handler; every other
  event is handled without one.
\<close>

lemma resolver_delete_panics_iff:
  "(\<exists>m. resolver_handle (DeleteFunc obj) cache = Panic m) =
     (\<exists>key. obj = DeletedFinalStateUnknown key)"
  by (cases obj) auto

section \<open>Witnesses\<close>

definition example_gvk :: GroupVersionKind where
  "example_gvk = \<lparr>gvk_Group = ''example.com'', gvk_Version = ''v1'', gvk_Kind = ''Widget''\<rparr>"

definition example_crd :: CustomResourceDefinition where
  "example_crd =
     \<lparr>crd_objectKind = \<lparr>gvk_Group = ''apiextensions.k8s.io'', gvk_Version = ''v1'',
        gvk_Kind = ''CustomResourceDefinition''\<rparr>,
      crd_specGroup = ''example.com'', crd_specKind = ''Widget'', crd_specVersions = [''v1'']\<rparr>"

theorem resolver_concurrent_transparent_witness:
  "\<exists>s. (resolver_step (\<lambda>gvk. (Some (gvk_Kind gvk), None)))\<^sup>*\<^sup>* sys_init s \<and>
     sys_callers s 0 = Answered example_gvk (Some ''Widget'', None)"
proof -
  let ?d = "\<lambda>gvk. (Some (gvk_Kind gvk), None :: goerror option)"
  let ?s0 = "sys_init :: string resolver_sys"
  let ?s1 = "?s0\<lparr>sys_callers := (sys_callers ?s0)(0 := Missed example_gvk)\<rparr>"
  have 1: "resolver_step ?d ?s0 ?s1"
    by (rule resolver_step.lookup_miss [where schema = None and err = None])
      (simp add: resolveSchemaFromCache_def sys_init_def resolver_New_def)
  obtain r cache' where f: "resolveSchemaFill ?d example_gvk (sys_cache ?s1) = (r, cache')"
    by (rule prod.exhaust)
  let ?s2 = "?s1\<lparr>sys_cache := cache', sys_callers := (sys_callers ?s1)(0 := Answered example_gvk r)\<rparr>"
  have 2: "resolver_step ?d ?s1 ?s2"
    by (rule resolver_step.fill [OF _ f]) simp
  have run: "(resolver_step ?d)\<^sup>*\<^sup>* ?s0 ?s2" using 1 2 by auto
  moreover have "sys_callers ?s2 0 = Answered example_gvk r" by simp
  ultimately show ?thesis
    using resolver_concurrent_transparent [of ?d ?s2 0 example_gvk r]
    by (intro exI [of _ ?s2]) (simp add: example_gvk_def)
qed

theorem crd_update_keeps_stale_schema_witness:
  "fst (ResolveSchema (\<lambda>gvk. (Some ''new'', None)) example_gvk
     (snd (ResolveSchema (\<lambda>gvk. (Some ''old'', None)) example_gvk resolver_New))) = (Some ''old'', None)"
proof -
  let ?old = "\<lambda>gvk. (Some ''old'', None :: goerror option)"
  let ?c = "snd (ResolveSchema ?old example_gvk resolver_New)"
  have n: "gvk_GroupKind example_gvk \<noteq> gvk_GroupKind (crd_objectKind example_crd)"
    by (simp add: example_gvk_def example_crd_def gvk_GroupKind_def)
  have h: "resolver_handle (UpdateFunc (CRDObject example_crd) (CRDObject example_crd)) ?c = Ret ?c"
    by (auto simp: purgeObject_def purgeCRDFromCache_def gvk_GroupKind_def example_crd_def
        ResolveSchema_def resolveSchemaFromCache_def resolveSchemaFill_def resolver_New_def
        example_gvk_def fun_eq_iff)
  show ?thesis
    using crd_update_keeps_stale_schema [OF n n h, of "\<lambda>gvk. (Some ''new'', None)"]
    by (simp add: ResolveSchema_def resolveSchemaFromCache_def resolveSchemaFill_def resolver_New_def)
qed

end
