(* ===== verification/Store.thy ===== *)
theory Store
  imports ApiMachinery
begin

text \<open>
  The informer's local store, from the vendored \<^verbatim>\<open>client-go/tools/cache\<close>: the key functions of
  \<^verbatim>\<open>store.go\<close>, the indexed map of \<^verbatim>\<open>thread_safe_store.go\<close> and the \<^verbatim>\<open>cache\<close> wrapper that the
  controllers' listers read. A Go map is a HOL map; where the source ranges over a map, the
  order in which the runtime enumerates it is an argument. The lemmas show that keys split
  back into what they were made of, and that every operation keeps each index equal to what
  its index function says of the stored objects.
\<close>

section \<open>Keys\<close>

text \<open>
  What an informer hands to an event handler: an object, an explicit key, or the tombstone
  \<^verbatim>\<open>DeletedFinalStateUnknown\<close> of an object whose deletion was missed. A tombstone is a struct
  without object metadata, so \<^verbatim>\<open>meta.Accessor\<close> refuses it.
\<close>

datatype 'obj ev_obj = EvObject 'obj | ExplicitKey string | Tombstone string 'obj

definition errNotObject :: goerror where
  "errNotObject = ErrorString ''object does not implement the Object interfaces''"

fun meta_Accessor :: "('obj \<Rightarrow> goerror + accessor) \<Rightarrow> 'obj ev_obj \<Rightarrow> goerror + accessor" where
  "meta_Accessor Accessor (EvObject obj) = Accessor obj"
| "meta_Accessor Accessor (ExplicitKey key) = Inl errNotObject"
| "meta_Accessor Accessor (Tombstone key obj) = Inl errNotObject"

definition MetaNamespaceKeyFunc ::
  "('obj \<Rightarrow> goerror + accessor) \<Rightarrow> 'obj ev_obj \<Rightarrow> goerror + string" where
  "MetaNamespaceKeyFunc Accessor obj =
     (case obj of
        ExplicitKey key \<Rightarrow> Inr key
      | _ \<Rightarrow>
          (case meta_Accessor Accessor obj of
             Inl err \<Rightarrow> Inl (ErrorString (''object has no meta: '' @ error_Error err))
           | Inr meta \<Rightarrow>
               if length (acc_Namespace meta) > 0
               then Inr (acc_Namespace meta @ ''/'' @ acc_Name meta)
               else Inr (acc_Name meta)))"

definition SplitMetaNamespaceKey :: "string \<Rightarrow> goerror + string \<times> string" where
  "SplitMetaNamespaceKey key =
     (let parts = go_split (CHR ''/'') key
      in if length parts = 1 then Inr ('''', parts ! 0)
         else if length parts = 2 then Inr (parts ! 0, parts ! 1)
         else Inl (ErrorString (''unexpected key format: '' @ go_quote key)))"

section \<open>The indexed map\<close>

type_synonym index = "string \<rightharpoonup> string set"

type_synonym 'obj indexFunc = "'obj \<Rightarrow> goerror + string list"

record 'obj threadSafeMap =
  tsm_items :: "string \<rightharpoonup> 'obj"
  tsm_indexers :: "(string \<times> 'obj indexFunc) list"
  tsm_indices :: "string \<rightharpoonup> index"

definition NewThreadSafeStore :: "(string \<times> 'obj indexFunc) list \<Rightarrow> 'obj threadSafeMap" where
  "NewThreadSafeStore indexers =
     \<lparr>tsm_items = Map.empty, tsm_indexers = indexers, tsm_indices = Map.empty\<rparr>"

definition addKeyToIndex :: "string \<Rightarrow> string \<Rightarrow> index \<Rightarrow> index" where
  "addKeyToIndex key indexValue index =
     index(indexValue \<mapsto> insert key (case index indexValue of None \<Rightarrow> {} | Some keys \<Rightarrow> keys))"

definition deleteKeyFromIndex :: "string \<Rightarrow> string \<Rightarrow> index \<Rightarrow> index" where
  "deleteKeyFromIndex key indexValue index =
     (case index indexValue of
        None \<Rightarrow> index
      | Some keys \<Rightarrow>
          if keys - {key} = {} then index(indexValue := None)
          else index(indexValue \<mapsto> keys - {key}))"

text \<open>The values of an index function on a possibly nil object; its error is a panic.\<close>

definition indexValues ::
  "string \<Rightarrow> string \<Rightarrow> 'obj indexFunc \<Rightarrow> 'obj option \<Rightarrow> string list result" where
  "indexValues key name indexFunc obj =
     (case obj of
        None \<Rightarrow> Ret []
      | Some o1 \<Rightarrow>
          (case indexFunc o1 of
             Inr values \<Rightarrow> Ret values
           | Inl err \<Rightarrow> Panic (''unable to calculate an index entry for key '' @ go_quote key @
               '' on index '' @ go_quote name @ '': '' @ error_Error err)))"

text \<open>The body of the loop over the indexers, once both lists of values are known.\<close>

definition updateIndex :: "string \<Rightarrow> string list \<Rightarrow> string list \<Rightarrow> index \<Rightarrow> index" where
  "updateIndex key oldIndexValues newIndexValues index =
     (if length newIndexValues = 1 \<and> length oldIndexValues = 1 \<and>
         newIndexValues ! 0 = oldIndexValues ! 0
      then index
      else fold (addKeyToIndex key) newIndexValues (fold (deleteKeyFromIndex key) oldIndexValues index))"

fun updateIndices ::
  "(string \<times> 'obj indexFunc) list \<Rightarrow> 'obj option \<Rightarrow> 'obj option \<Rightarrow> string \<Rightarrow>
   (string \<rightharpoonup> index) \<Rightarrow> (string \<rightharpoonup> index) result" where
  "updateIndices [] oldObj newObj key indices = Ret indices"
| "updateIndices ((name, indexFunc) # indexers) oldObj newObj key indices =
     bind_outcome (indexValues key name indexFunc oldObj) (\<lambda>oldIndexValues.
       bind_outcome (indexValues key name indexFunc newObj) (\<lambda>newIndexValues.
         let index = (case indices name of None \<Rightarrow> Map.empty | Some index \<Rightarrow> index)
         in updateIndices indexers oldObj newObj key
              (indices(name \<mapsto> updateIndex key oldIndexValues newIndexValues index))))"

definition tsm_Update :: "string \<Rightarrow> 'obj \<Rightarrow> 'obj threadSafeMap \<Rightarrow> 'obj threadSafeMap result" where
  "tsm_Update key obj c =
     (let oldObject = tsm_items c key
      in bind_outcome (updateIndices (tsm_indexers c) oldObject (Some obj) key (tsm_indices c))
           (\<lambda>indices. Ret (c\<lparr>tsm_items := (tsm_items c)(key \<mapsto> obj), tsm_indices := indices\<rparr>)))"

definition tsm_Add :: "string \<Rightarrow> 'obj \<Rightarrow> 'obj threadSafeMap \<Rightarrow> 'obj threadSafeMap result" where
  "tsm_Add key obj c = tsm_Update key obj c"

definition tsm_Delete :: "string \<Rightarrow> 'obj threadSafeMap \<Rightarrow> 'obj threadSafeMap result" where
  "tsm_Delete key c =
     (case tsm_items c key of
        Some obj \<Rightarrow>
          bind_outcome (updateIndices (tsm_indexers c) (Some obj) None key (tsm_indices c))
            (\<lambda>indices. Ret (c\<lparr>tsm_items := (tsm_items c)(key := None), tsm_indices := indices\<rparr>))
      | None \<Rightarrow> Ret c)"

definition tsm_Get :: "string \<Rightarrow> 'obj threadSafeMap \<Rightarrow> 'obj option" where
  "tsm_Get key c = tsm_items c key"

text \<open>\<open>keys\<close> is the order in which the runtime enumerates the map.\<close>

definition tsm_List :: "string list \<Rightarrow> 'obj threadSafeMap \<Rightarrow> 'obj list" where
  "tsm_List keys c = map (\<lambda>key. the (tsm_items c key)) keys"

fun replaceLoop ::
  "string list \<Rightarrow> 'obj threadSafeMap \<Rightarrow> 'obj threadSafeMap result" where
  "replaceLoop [] c = Ret c"
| "replaceLoop (key # keys) c =
     bind_outcome (updateIndices (tsm_indexers c) None (tsm_items c key) key (tsm_indices c))
       (\<lambda>indices. replaceLoop keys (c\<lparr>tsm_indices := indices\<rparr>))"

definition tsm_Replace ::
  "string list \<Rightarrow> (string \<rightharpoonup> 'obj) \<Rightarrow> 'obj threadSafeMap \<Rightarrow> 'obj threadSafeMap result" where
  "tsm_Replace keys items c =
     replaceLoop keys (c\<lparr>tsm_items := items, tsm_indices := Map.empty\<rparr>)"

text \<open>An absent index name has a nil index function; a nil index has no entries.\<close>

definition indexName_missing :: "string \<Rightarrow> goerror" where
  "indexName_missing indexName = ErrorString (''Index with name '' @ indexName @ '' does not exist'')"

definition lookupIndex :: "string \<Rightarrow> string \<Rightarrow> 'obj threadSafeMap \<Rightarrow> string set" where
  "lookupIndex indexName value c =
     (case tsm_indices c indexName of
        None \<Rightarrow> {}
      | Some index \<Rightarrow> (case index value of None \<Rightarrow> {} | Some keys \<Rightarrow> keys))"

definition getKeysByIndex ::
  "string \<Rightarrow> string \<Rightarrow> 'obj threadSafeMap \<Rightarrow> goerror + string set" where
  "getKeysByIndex indexName indexedValue c =
     (case map_of (tsm_indexers c) indexName of
        None \<Rightarrow> Inl (indexName_missing indexName)
      | Some indexFunc \<Rightarrow> Inr (lookupIndex indexName indexedValue c))"

definition getKeysFromIndex ::
  "string \<Rightarrow> 'obj \<Rightarrow> 'obj threadSafeMap \<Rightarrow> goerror + string set" where
  "getKeysFromIndex indexName obj c =
     (case map_of (tsm_indexers c) indexName of
        None \<Rightarrow> Inl (indexName_missing indexName)
      | Some indexFunc \<Rightarrow>
          (case indexFunc obj of
             Inl err \<Rightarrow> Inl err
           | Inr indexedValues \<Rightarrow>
               if length indexedValues = 1
               then Inr (lookupIndex indexName (indexedValues ! 0) c)
               else Inr (fold (\<lambda>value keys. keys \<union> lookupIndex indexName value c) indexedValues {})))"

text \<open>\<open>order\<close> enumerates the set of keys found.\<close>

definition tsm_Index ::
  "(string set \<Rightarrow> string list) \<Rightarrow> string \<Rightarrow> 'obj \<Rightarrow> 'obj threadSafeMap \<Rightarrow> goerror + 'obj list" where
  "tsm_Index order indexName obj c =
     (case getKeysFromIndex indexName obj c of
        Inl err \<Rightarrow> Inl err
      | Inr keys \<Rightarrow> Inr (map (\<lambda>key. the (tsm_items c key)) (order keys)))"

definition tsm_ByIndex ::
  "(string set \<Rightarrow> string list) \<Rightarrow> string \<Rightarrow> string \<Rightarrow> 'obj threadSafeMap \<Rightarrow> goerror + 'obj list" where
  "tsm_ByIndex order indexName indexedValue c =
     (case getKeysByIndex indexName indexedValue c of
        Inl err \<Rightarrow> Inl err
      | Inr keys \<Rightarrow> Inr (map (\<lambda>key. the (tsm_items c key)) (order keys)))"

text \<open>\<open>render\<close> is the \<^verbatim>\<open>%v\<close> rendering of a set of names.\<close>

definition tsm_AddIndexers ::
  "(string set \<Rightarrow> string) \<Rightarrow> (string \<times> 'obj indexFunc) list \<Rightarrow> 'obj threadSafeMap \<Rightarrow> goerror option \<times> 'obj threadSafeMap" where
  "tsm_AddIndexers render newIndexers c =
     (if tsm_items c \<noteq> Map.empty
      then (Some (ErrorString ''cannot add indexers to running index''), c)
      else if set (map fst (tsm_indexers c)) \<inter> set (map fst newIndexers) \<noteq> {}
      then (Some (ErrorString (''indexer conflict: '' @
        render (set (map fst (tsm_indexers c)) \<inter> set (map fst newIndexers)))), c)
      else (None, c\<lparr>tsm_indexers := tsm_indexers c @ newIndexers\<rparr>))"


section \<open>The cache\<close>

text \<open>
  The wrapper that derives the key of an object. A failing key function is reported as a
  \<^verbatim>\<open>KeyError\<close>; \<open>render\<close> is the \<^verbatim>\<open>%+v\<close> rendering of the object in its message.
\<close>

definition KeyError :: "('obj \<Rightarrow> string) \<Rightarrow> 'obj \<Rightarrow> goerror \<Rightarrow> goerror" where
  "KeyError render obj err =
     WrapError (''couldn'' @ [CHR 0x27] @ ''t create key for object '' @ render obj @ '': '' @
       error_Error err) err"

definition cache_Add ::
  "('obj \<Rightarrow> string) \<Rightarrow> ('obj \<Rightarrow> goerror + string) \<Rightarrow> 'obj \<Rightarrow> 'obj threadSafeMap \<Rightarrow>
   'obj threadSafeMap result" where
  "cache_Add render keyFunc obj c =
     (case keyFunc obj of
        Inl err \<Rightarrow> Err (KeyError render obj err)
      | Inr key \<Rightarrow> tsm_Add key obj c)"

definition cache_Update ::
  "('obj \<Rightarrow> string) \<Rightarrow> ('obj \<Rightarrow> goerror + string) \<Rightarrow> 'obj \<Rightarrow> 'obj threadSafeMap \<Rightarrow>
   'obj threadSafeMap result" where
  "cache_Update render keyFunc obj c =
     (case keyFunc obj of
        Inl err \<Rightarrow> Err (KeyError render obj err)
      | Inr key \<Rightarrow> tsm_Update key obj c)"

definition cache_Delete ::
  "('obj \<Rightarrow> string) \<Rightarrow> ('obj \<Rightarrow> goerror + string) \<Rightarrow> 'obj \<Rightarrow> 'obj threadSafeMap \<Rightarrow>
   'obj threadSafeMap result" where
  "cache_Delete render keyFunc obj c =
     (case keyFunc obj of
        Inl err \<Rightarrow> Err (KeyError render obj err)
      | Inr key \<Rightarrow> tsm_Delete key c)"

definition cache_GetByKey :: "string \<Rightarrow> 'obj threadSafeMap \<Rightarrow> goerror + 'obj option" where
  "cache_GetByKey key c = Inr (tsm_Get key c)"

fun replaceItems ::
  "('obj \<Rightarrow> string) \<Rightarrow> ('obj \<Rightarrow> goerror + string) \<Rightarrow> 'obj list \<Rightarrow> (string \<rightharpoonup> 'obj) \<Rightarrow>
   (string \<rightharpoonup> 'obj) result" where
  "replaceItems render keyFunc [] items = Ret items"
| "replaceItems render keyFunc (item # list) items =
     (case keyFunc item of
        Inl err \<Rightarrow> Err (KeyError render item err)
      | Inr key \<Rightarrow> replaceItems render keyFunc list (items(key \<mapsto> item)))"

text \<open>\<open>order\<close> enumerates the keys of the new items.\<close>

definition cache_Replace ::
  "('obj \<Rightarrow> string) \<Rightarrow> ('obj \<Rightarrow> goerror + string) \<Rightarrow> (string set \<Rightarrow> string list) \<Rightarrow>
   'obj list \<Rightarrow> 'obj threadSafeMap \<Rightarrow> 'obj threadSafeMap result" where
  "cache_Replace render keyFunc order list c =
     bind_outcome (replaceItems render keyFunc list Map.empty)
       (\<lambda>items. tsm_Replace (order (dom items)) items c)"

definition NamespaceIndex :: string where
  "NamespaceIndex = ''namespace''"

definition MetaNamespaceIndexFunc :: "('obj \<Rightarrow> goerror + accessor) \<Rightarrow> 'obj indexFunc" where
  "MetaNamespaceIndexFunc Accessor obj =
     (case Accessor obj of
        Inl err \<Rightarrow> Inl (ErrorString (''object has no meta: '' @ error_Error err))
      | Inr meta \<Rightarrow> Inr [acc_Namespace meta])"

definition NewIndexer :: "(string \<times> 'obj indexFunc) list \<Rightarrow> 'obj threadSafeMap" where
  "NewIndexer indexers = NewThreadSafeStore indexers"

section \<open>The interface\<close>

text \<open>
  What a reader of the store relies on: a lookup returns what was last written under the key,
  and an index finds exactly the keys of the stored objects with the given value.
\<close>

definition values_of :: "'obj indexFunc \<Rightarrow> 'obj \<Rightarrow> string set" where
  "values_of indexFunc obj = (case indexFunc obj of Inl err \<Rightarrow> {} | Inr values \<Rightarrow> set values)"

locale indexed_store =
  fixes lookup :: "string \<Rightarrow> 'st \<Rightarrow> 'obj option"
    and update :: "string \<Rightarrow> 'obj \<Rightarrow> 'st \<Rightarrow> 'st result"
    and remove :: "string \<Rightarrow> 'st \<Rightarrow> 'st result"
    and indexFunc_of :: "string \<Rightarrow> 'st \<Rightarrow> 'obj indexFunc option"
    and keysBy :: "string \<Rightarrow> string \<Rightarrow> 'st \<Rightarrow> string set"
    and ok :: "'st \<Rightarrow> bool"
  assumes lookup_update: "ok c \<Longrightarrow> update k v c = Ret c' \<Longrightarrow> lookup k' c' = (if k' = k then Some v else lookup k' c)"
    and lookup_remove: "ok c \<Longrightarrow> remove k c = Ret c' \<Longrightarrow> lookup k' c' = (if k' = k then None else lookup k' c)"
    and update_ok: "ok c \<Longrightarrow> update k v c = Ret c' \<Longrightarrow> ok c'"
    and remove_ok: "ok c \<Longrightarrow> remove k c = Ret c' \<Longrightarrow> ok c'"
    and keysBy_exact: "ok c \<Longrightarrow> indexFunc_of name c = Some f \<Longrightarrow>
      keysBy name w c = {k. \<exists>x. lookup k c = Some x \<and> w \<in> values_of f x}"
    and same_indexers: "update k v c = Ret c' \<Longrightarrow> indexFunc_of name c' = indexFunc_of name c"
begin

text \<open>Keys found by an index are keys of stored objects.\<close>

lemma keysBy_stored:
  "ok c \<Longrightarrow> indexFunc_of name c = Some f \<Longrightarrow> k \<in> keysBy name w c \<Longrightarrow> lookup k c \<noteq> None"
  by (auto simp: keysBy_exact)

text \<open>Writing an object moves its key, and no other, between the values of an index.\<close>

lemma keysBy_update:
  assumes "ok c" and "indexFunc_of name c = Some f" and "update k v c = Ret c'"
  shows "keysBy name w c' = keysBy name w c - {k} \<union> (if w \<in> values_of f v then {k} else {})"
proof -
  have ok': "ok c'" using assms(1,3) by (rule update_ok)
  have f': "indexFunc_of name c' = Some f" using assms(2,3) by (simp add: same_indexers)
  show ?thesis
    using lookup_update [OF assms(1,3)]
    by (auto simp: keysBy_exact [OF ok' f'] keysBy_exact [OF assms(1,2)])
qed

end

section \<open>Lemmas\<close>

subsection \<open>Keys\<close>

lemma SplitMetaNamespaceKey_name:
  "CHR ''/'' \<notin> set name \<Longrightarrow> SplitMetaNamespaceKey name = Inr ('''', name)"
  by (simp add: SplitMetaNamespaceKey_def go_split_no_sep)

lemma SplitMetaNamespaceKey_pair:
  "CHR ''/'' \<notin> set ns \<Longrightarrow> CHR ''/'' \<notin> set name \<Longrightarrow>
     SplitMetaNamespaceKey (ns @ CHR ''/'' # name) = Inr (ns, name)"
  by (simp add: SplitMetaNamespaceKey_def go_split_append go_split_no_sep)

lemma SplitMetaNamespaceKey_error:
  "(\<exists>err. SplitMetaNamespaceKey key = Inl err) \<longleftrightarrow> 2 \<le> count_list key (CHR ''/'')"
  by (auto simp: SplitMetaNamespaceKey_def Let_def length_go_split)

lemma MetaNamespaceKeyFunc_object:
  "Accessor obj = Inr acc \<Longrightarrow> MetaNamespaceKeyFunc Accessor (EvObject obj) =
     Inr (if acc_Namespace acc = '''' then acc_Name acc else acc_Namespace acc @ CHR ''/'' # acc_Name acc)"
  by (simp add: MetaNamespaceKeyFunc_def)

lemma MetaNamespaceKeyFunc_tombstone:
  "\<exists>err. MetaNamespaceKeyFunc Accessor (Tombstone key obj) = Inl err"
  by (simp add: MetaNamespaceKeyFunc_def)

subsection \<open>One index\<close>

definition keys_at :: "index \<Rightarrow> string \<Rightarrow> string set" where
  "keys_at index value = (case index value of None \<Rightarrow> {} | Some keys \<Rightarrow> keys)"

text \<open>No value is kept with an empty set of keys.\<close>

definition compact :: "index \<Rightarrow> bool" where
  "compact index \<longleftrightarrow> (\<forall>value. index value \<noteq> Some {})"

lemma keys_at_empty [simp]: "keys_at Map.empty v = {}"
  by (simp add: keys_at_def)

lemma compact_empty [simp]: "compact Map.empty"
  by (simp add: compact_def)

lemma keys_at_add:
  "keys_at (addKeyToIndex key value index) v =
     (if v = value then insert key (keys_at index v) else keys_at index v)"
  by (simp add: keys_at_def addKeyToIndex_def)

lemma keys_at_delete:
  "keys_at (deleteKeyFromIndex key value index) v =
     (if v = value then keys_at index v - {key} else keys_at index v)"
  by (auto simp: keys_at_def deleteKeyFromIndex_def split: option.splits)

lemma compact_add: "compact index \<Longrightarrow> compact (addKeyToIndex key value index)"
  by (auto simp: compact_def addKeyToIndex_def)

lemma compact_delete: "compact index \<Longrightarrow> compact (deleteKeyFromIndex key value index)"
  by (auto simp: compact_def deleteKeyFromIndex_def split: option.splits)

lemma keys_at_fold_add:
  "keys_at (fold (addKeyToIndex key) vs index) v =
     keys_at index v \<union> (if v \<in> set vs then {key} else {})"
  by (induction vs arbitrary: index) (auto simp: keys_at_add)

lemma keys_at_fold_delete:
  "keys_at (fold (deleteKeyFromIndex key) vs index) v =
     keys_at index v - (if v \<in> set vs then {key} else {})"
  by (induction vs arbitrary: index) (auto simp: keys_at_delete)

lemma compact_fold_add: "compact index \<Longrightarrow> compact (fold (addKeyToIndex key) vs index)"
  by (induction vs arbitrary: index) (auto simp: compact_add)

lemma compact_fold_delete: "compact index \<Longrightarrow> compact (fold (deleteKeyFromIndex key) vs index)"
  by (induction vs arbitrary: index) (auto simp: compact_delete)

lemma compact_updateIndex: "compact index \<Longrightarrow> compact (updateIndex key old new index)"
  by (simp add: updateIndex_def compact_fold_add compact_fold_delete)

text \<open>
  The update with its short cut for an unchanged single value has the effect of deleting the
  old values and adding the new ones, when the key is filed exactly under the old values.
\<close>

lemma keys_at_updateIndex:
  assumes filed: "\<And>v. key \<in> keys_at index v \<longleftrightarrow> v \<in> set old"
  shows "keys_at (updateIndex key old new index) v =
    keys_at index v - {key} \<union> (if v \<in> set new then {key} else {})"
proof (cases "length new = 1 \<and> length old = 1 \<and> new ! 0 = old ! 0")
  case True
  then have "new = old" by (auto simp: length_Suc_conv)
  then show ?thesis
    using True filed [of v] by (auto simp: updateIndex_def)
next
  case False
  then have "updateIndex key old new index =
      fold (addKeyToIndex key) new (fold (deleteKeyFromIndex key) old index)"
    by (auto simp: updateIndex_def)
  then show ?thesis
    using filed [of v] by (simp add: keys_at_fold_add keys_at_fold_delete)
qed

subsection \<open>All indices\<close>

definition index_named :: "(string \<rightharpoonup> index) \<Rightarrow> string \<Rightarrow> index" where
  "index_named indices name = (case indices name of None \<Rightarrow> Map.empty | Some index \<Rightarrow> index)"

definition index_exact :: "'obj indexFunc \<Rightarrow> (string \<rightharpoonup> 'obj) \<Rightarrow> index \<Rightarrow> bool" where
  "index_exact f items index \<longleftrightarrow> compact index \<and>
     (\<forall>v. keys_at index v = {k. \<exists>x. items k = Some x \<and> v \<in> values_of f x})"

text \<open>The invariant: every index is what its function says of the items.\<close>

definition indices_ok ::
  "(string \<times> 'obj indexFunc) list \<Rightarrow> (string \<rightharpoonup> 'obj) \<Rightarrow> (string \<rightharpoonup> index) \<Rightarrow> bool" where
  "indices_ok indexers items indices \<longleftrightarrow> distinct (map fst indexers) \<and>
     (\<forall>(name, f) \<in> set indexers. index_exact f items (index_named indices name))"

definition store_ok :: "'obj threadSafeMap \<Rightarrow> bool" where
  "store_ok c \<longleftrightarrow> indices_ok (tsm_indexers c) (tsm_items c) (tsm_indices c)"

definition option_values :: "'obj indexFunc \<Rightarrow> 'obj option \<Rightarrow> string list" where
  "option_values f obj = (case obj of None \<Rightarrow> [] | Some x \<Rightarrow>
     (case f x of Inl err \<Rightarrow> [] | Inr values \<Rightarrow> values))"

lemma set_option_values:
  "set (option_values f obj) = (case obj of None \<Rightarrow> {} | Some x \<Rightarrow> values_of f x)"
  by (auto simp: option_values_def values_of_def split: option.splits sum.splits)

lemma indexValues_Ret: "indexValues key name f obj = Ret vs \<Longrightarrow> vs = option_values f obj"
  by (auto simp: indexValues_def option_values_def split: option.splits sum.splits)

lemma index_named_upd [simp]:
  "index_named (indices(n \<mapsto> index)) name = (if name = n then index else index_named indices name)"
  by (simp add: index_named_def)

lemma updateIndices_named:
  assumes "updateIndices indexers oldObj newObj key indices = Ret indices'"
    and "distinct (map fst indexers)"
  shows "index_named indices' name =
    (case map_of indexers name of
       None \<Rightarrow> index_named indices name
     | Some f \<Rightarrow> updateIndex key (option_values f oldObj) (option_values f newObj) (index_named indices name))"
  using assms
proof (induction indexers arbitrary: indices)
  case Nil
  then show ?case by simp
next
  case (Cons p indexers)
  obtain n f where p: "p = (n, f)" by (rule prod.exhaust)
  let ?index = "updateIndex key (option_values f oldObj) (option_values f newObj) (index_named indices n)"
  have rest: "updateIndices indexers oldObj newObj key (indices(n \<mapsto> ?index)) = Ret indices'"
    using Cons.prems(1) by (auto simp: p Let_def bind_outcome_Ret_iff index_named_def dest!: indexValues_Ret)
  have n: "map_of indexers n = None"
    using Cons.prems(2) by (auto simp: p map_of_eq_None_iff)
  show ?case
    using Cons.IH [OF rest] Cons.prems(2) n by (auto simp: p split: option.splits)
qed

lemma index_exact_update:
  assumes "index_exact f items index"
  shows "index_exact f (items(key := newObj))
    (updateIndex key (option_values f (items key)) (option_values f newObj) index)"
proof -
  have exact: "keys_at index v = {k. \<exists>x. items k = Some x \<and> v \<in> values_of f x}" for v
    using assms by (simp add: index_exact_def)
  have filed: "key \<in> keys_at index v \<longleftrightarrow> v \<in> set (option_values f (items key))" for v
    by (auto simp: exact set_option_values split: option.splits)
  show ?thesis
    using assms
    by (auto simp: index_exact_def compact_updateIndex keys_at_updateIndex [OF filed] exact
        set_option_values split: option.splits if_splits)
qed

lemma indices_ok_update:
  assumes "indices_ok indexers items indices"
    and "updateIndices indexers (items key) newObj key indices = Ret indices'"
  shows "indices_ok indexers (items(key := newObj)) indices'"
proof -
  have distinct: "distinct (map fst indexers)" using assms(1) by (simp add: indices_ok_def)
  have "index_exact f (items(key := newObj)) (index_named indices' name)"
    if "(name, f) \<in> set indexers" for name f
  proof -
    have "map_of indexers name = Some f" using distinct that by simp
    then show ?thesis
      using assms(1) that index_exact_update [of f items "index_named indices name"]
      by (auto simp: updateIndices_named [OF assms(2) distinct] indices_ok_def)
  qed
  then show ?thesis using distinct by (auto simp: indices_ok_def)
qed

lemma indices_ok_empty: "distinct (map fst indexers) \<Longrightarrow> indices_ok indexers Map.empty Map.empty"
  by (auto simp: indices_ok_def index_exact_def index_named_def)

lemma store_ok_New: "distinct (map fst indexers) \<Longrightarrow> store_ok (NewThreadSafeStore indexers)"
  by (simp add: store_ok_def NewThreadSafeStore_def indices_ok_empty)

lemma tsm_Update_Ret:
  "tsm_Update key obj c = Ret c' \<Longrightarrow>
     tsm_items c' = (tsm_items c)(key \<mapsto> obj) \<and> tsm_indexers c' = tsm_indexers c"
  by (auto simp: tsm_Update_def bind_outcome_Ret_iff)

lemma tsm_Delete_Ret:
  "tsm_Delete key c = Ret c' \<Longrightarrow>
     tsm_items c' = (tsm_items c)(key := None) \<and> tsm_indexers c' = tsm_indexers c"
  by (auto simp: tsm_Delete_def bind_outcome_Ret_iff fun_eq_iff split: option.splits)

lemma store_ok_Update: "store_ok c \<Longrightarrow> tsm_Update key obj c = Ret c' \<Longrightarrow> store_ok c'"
  by (auto simp: store_ok_def tsm_Update_def bind_outcome_Ret_iff intro: indices_ok_update)

lemma store_ok_Delete: "store_ok c \<Longrightarrow> tsm_Delete key c = Ret c' \<Longrightarrow> store_ok c'"
proof (cases "tsm_items c key")
  case (Some obj)
  assume ok: "store_ok c" and "tsm_Delete key c = Ret c'"
  then obtain indices where
    u: "updateIndices (tsm_indexers c) (tsm_items c key) None key (tsm_indices c) = Ret indices"
    and c': "c' = c\<lparr>tsm_items := (tsm_items c)(key := None), tsm_indices := indices\<rparr>"
    using Some by (auto simp: tsm_Delete_def bind_outcome_Ret_iff)
  show ?thesis
    using ok u indices_ok_update [of "tsm_indexers c" "tsm_items c" "tsm_indices c" key None indices]
    by (simp add: c' store_ok_def)
qed (auto simp: tsm_Delete_def)

lemma store_ok_keys:
  assumes "store_ok c" and "map_of (tsm_indexers c) name = Some f"
  shows "lookupIndex name v c = {k. \<exists>x. tsm_items c k = Some x \<and> v \<in> values_of f x}"
proof -
  have "lookupIndex name v c = keys_at (index_named (tsm_indices c) name) v"
    by (simp add: lookupIndex_def keys_at_def index_named_def split: option.splits)
  moreover have "(name, f) \<in> set (tsm_indexers c)" using assms(2) by (rule map_of_SomeD)
  ultimately show ?thesis
    using assms(1) by (auto simp: store_ok_def indices_ok_def index_exact_def)
qed

interpretation tsm: indexed_store tsm_Get tsm_Update tsm_Delete
  "\<lambda>name c. map_of (tsm_indexers c) name" lookupIndex store_ok
  by unfold_locales
    (auto simp: tsm_Get_def store_ok_keys dest: tsm_Update_Ret tsm_Delete_Ret
      intro: store_ok_Update store_ok_Delete)

lemma replaceLoop_ok:
  assumes "replaceLoop keys c = Ret c'"
    and "indices_ok (tsm_indexers c) (tsm_items c |` done_keys) (tsm_indices c)"
    and "distinct keys" and "set keys \<inter> done_keys = {}" and "set keys \<subseteq> dom (tsm_items c)"
  shows "tsm_items c' = tsm_items c \<and> tsm_indexers c' = tsm_indexers c \<and>
    indices_ok (tsm_indexers c) (tsm_items c |` (set keys \<union> done_keys)) (tsm_indices c')"
  using assms
proof (induction keys arbitrary: c done_keys)
  case Nil
  then show ?case by auto
next
  case (Cons key keys)
  let ?items = "tsm_items c |` done_keys"
  have none: "?items key = None" using Cons.prems(4) by (simp add: restrict_map_def)
  obtain indices where
    u: "updateIndices (tsm_indexers c) (?items key) (tsm_items c key) key (tsm_indices c) = Ret indices"
    and rest: "replaceLoop keys (c\<lparr>tsm_indices := indices\<rparr>) = Ret c'"
    using Cons.prems(1) none by (auto simp: bind_outcome_Ret_iff)
  have items: "?items(key := tsm_items c key) = tsm_items c |` (insert key done_keys)"
    by (auto simp: restrict_map_def fun_eq_iff)
  have step: "indices_ok (tsm_indexers c) (tsm_items c |` (insert key done_keys)) indices"
    using indices_ok_update [OF Cons.prems(2) u] by (simp add: items)
  then show ?case
    using Cons.IH [OF rest, of "insert key done_keys"] Cons.prems by auto
qed

lemma tsm_Replace_ok:
  assumes "tsm_Replace keys items c = Ret c'" and "distinct (map fst (tsm_indexers c))"
    and "distinct keys" and "set keys = dom items"
  shows "store_ok c' \<and> tsm_items c' = items"
proof -
  let ?c = "c\<lparr>tsm_items := items, tsm_indices := Map.empty\<rparr>"
  have "indices_ok (tsm_indexers ?c) (tsm_items ?c |` {}) (tsm_indices ?c)"
    using assms(2) by (simp add: indices_ok_empty)
  then have "tsm_items c' = items \<and> tsm_indexers c' = tsm_indexers c \<and>
      indices_ok (tsm_indexers c) (items |` (set keys)) (tsm_indices c')"
    using replaceLoop_ok [of keys ?c c' "{}"] assms by (auto simp: tsm_Replace_def)
  moreover have "items |` (set keys) = items"
    using assms(4) by (auto simp: restrict_map_def fun_eq_iff dom_def)
  ultimately show ?thesis by (simp add: store_ok_def)
qed

text \<open>Index functions that never fail never make an operation panic.\<close>

lemma updateIndices_total:
  assumes "\<And>name f x. (name, f) \<in> set indexers \<Longrightarrow> x \<in> set_option oldObj \<union> set_option newObj \<Longrightarrow> \<exists>vs. f x = Inr vs"
  shows "\<exists>indices'. updateIndices indexers oldObj newObj key indices = Ret indices'"
  using assms
proof (induction indexers arbitrary: indices)
  case Nil
  then show ?case by simp
next
  case (Cons p indexers)
  obtain n f where p: "p = (n, f)" by (rule prod.exhaust)
  have vals: "\<exists>vs. indexValues key n f obj = Ret vs" if "obj = oldObj \<or> obj = newObj" for obj
  proof (cases obj)
    case (Some x)
    then have "x \<in> set_option oldObj \<union> set_option newObj" using that by auto
    then obtain vs where "f x = Inr vs" using Cons.prems [of n f x] by (auto simp: p)
    then show ?thesis by (simp add: indexValues_def Some)
  qed (simp add: indexValues_def)
  obtain vs ws where "indexValues key n f oldObj = Ret vs" and "indexValues key n f newObj = Ret ws"
    using vals by blast
  moreover have "\<exists>indices'. updateIndices indexers oldObj newObj key indices2 = Ret indices'" for indices2
    by (rule Cons.IH) (rule Cons.prems, auto)
  ultimately show ?case by (simp add: p)
qed

section \<open>Sequences of operations\<close>

text \<open>The writing operations of the store, in any order; a panic ends the process.\<close>

datatype 'obj store_op = OpUpdate string 'obj | OpDelete string | OpReplace "string list" "string \<rightharpoonup> 'obj"

fun store_apply :: "'obj store_op \<Rightarrow> 'obj threadSafeMap \<Rightarrow> 'obj threadSafeMap result" where
  "store_apply (OpUpdate key obj) c = tsm_Update key obj c"
| "store_apply (OpDelete key) c = tsm_Delete key c"
| "store_apply (OpReplace keys items) c = tsm_Replace keys items c"

fun store_run :: "'obj store_op list \<Rightarrow> 'obj threadSafeMap \<Rightarrow> 'obj threadSafeMap result" where
  "store_run [] c = Ret c"
| "store_run (op # ops) c = bind_outcome (store_apply op c) (store_run ops)"

text \<open>What the operations mean for the contents, and when the enumeration of a map is one.\<close>

fun spec_apply :: "'obj store_op \<Rightarrow> (string \<rightharpoonup> 'obj) \<Rightarrow> (string \<rightharpoonup> 'obj)" where
  "spec_apply (OpUpdate key obj) m = m(key \<mapsto> obj)"
| "spec_apply (OpDelete key) m = m(key := None)"
| "spec_apply (OpReplace keys items) m = items"

fun op_enumerates :: "'obj store_op \<Rightarrow> bool" where
  "op_enumerates (OpReplace keys items) \<longleftrightarrow> distinct keys \<and> set keys = dom items"
| "op_enumerates (OpUpdate key obj) \<longleftrightarrow> True"
| "op_enumerates (OpDelete key) \<longleftrightarrow> True"

lemma store_indexers_distinct: "store_ok c \<Longrightarrow> distinct (map fst (tsm_indexers c))"
  by (simp add: store_ok_def indices_ok_def)

lemma replaceLoop_indexers: "replaceLoop keys c = Ret c' \<Longrightarrow> tsm_indexers c' = tsm_indexers c"
  by (induction keys arbitrary: c) (auto simp: bind_outcome_Ret_iff)

lemma store_apply_ok:
  assumes "store_ok c" and "op_enumerates op" and "store_apply op c = Ret c'"
  shows "store_ok c' \<and> tsm_items c' = spec_apply op (tsm_items c) \<and> tsm_indexers c' = tsm_indexers c"
proof (cases op)
  case (OpUpdate key obj)
  then show ?thesis using assms store_ok_Update tsm_Update_Ret by fastforce
next
  case (OpDelete key)
  then show ?thesis using assms store_ok_Delete tsm_Delete_Ret by fastforce
next
  case (OpReplace keys items)
  then have r: "tsm_Replace keys items c = Ret c'" using assms(3) by simp
  have "tsm_indexers c' = tsm_indexers c"
    using r replaceLoop_indexers by (fastforce simp: tsm_Replace_def)
  then show ?thesis
    using tsm_Replace_ok [OF r] assms OpReplace by (simp add: store_indexers_distinct)
qed

lemma store_run_ok:
  "store_ok c \<Longrightarrow> \<forall>op \<in> set ops. op_enumerates op \<Longrightarrow> store_run ops c = Ret c' \<Longrightarrow>
     store_ok c' \<and> tsm_items c' = fold spec_apply ops (tsm_items c) \<and> tsm_indexers c' = tsm_indexers c"
proof (induction ops arbitrary: c)
  case Nil
  then show ?case by simp
next
  case (Cons op ops)
  then obtain c1 where 1: "store_apply op c = Ret c1" and 2: "store_run ops c1 = Ret c'"
    by (auto simp: bind_outcome_Ret_iff)
  have "store_ok c1 \<and> tsm_items c1 = spec_apply op (tsm_items c) \<and> tsm_indexers c1 = tsm_indexers c"
    using store_apply_ok [OF Cons.prems(1) _ 1] Cons.prems(2) by simp
  then show ?case using Cons.IH [of c1] 2 Cons.prems(2) by simp
qed

section \<open>Properties\<close>

text \<open>
  Keys split back: the key that is made of an object's namespace and name, neither of
  which contains a slash, splits into exactly that namespace and name, cluster-scoped objects
  (with an empty namespace) included.
\<close>

lemma key_roundtrip:
  assumes "Accessor obj = Inr acc"
    and "CHR ''/'' \<notin> set (acc_Namespace acc)" and "CHR ''/'' \<notin> set (acc_Name acc)"
  shows "\<exists>key. MetaNamespaceKeyFunc Accessor (EvObject obj) = Inr key \<and>
    SplitMetaNamespaceKey key = Inr (acc_Namespace acc, acc_Name acc)"
  using assms SplitMetaNamespaceKey_name SplitMetaNamespaceKey_pair
  by (simp add: MetaNamespaceKeyFunc_object)

text \<open>
  C13. Refinement of the indexed store: after any sequence of updates, deletions and
  replacements that does not panic, the contents are those of a plain map under the same
  operations, and an index returns exactly the keys of the stored objects that have the value.
\<close>

theorem store_refines_map:
  assumes "distinct (map fst indexers)"
    and "\<forall>op \<in> set ops. op_enumerates op"
    and "store_run ops (NewThreadSafeStore indexers) = Ret c"
  shows "tsm_Get key c = fold spec_apply ops Map.empty key \<and>
    getKeysByIndex name value c =
      (case map_of indexers name of
         None \<Rightarrow> Inl (indexName_missing name)
       | Some f \<Rightarrow> Inr {k. \<exists>x. fold spec_apply ops Map.empty k = Some x \<and> value \<in> values_of f x})"
proof -
  have ok: "store_ok c" and items: "tsm_items c = fold spec_apply ops Map.empty"
    and indexers: "tsm_indexers c = indexers"
    using store_run_ok [OF store_ok_New [OF assms(1)] assms(2,3)]
    by (auto simp: NewThreadSafeStore_def)
  then show ?thesis
    using tsm.keysBy_exact [OF ok]
    by (auto simp: getKeysByIndex_def tsm_Get_def split: option.splits)
qed

section \<open>Witnesses\<close>

definition example_accessor :: "string \<times> string \<Rightarrow> goerror + accessor" where
  "example_accessor p = Inr \<lparr>acc_Name = snd p, acc_GenerateName = '''', acc_Namespace = fst p,
     acc_ResourceVersion = ''1'', acc_Labels = Map.empty\<rparr>"

definition example_indexers :: "(string \<times> (string \<times> string) indexFunc) list" where
  "example_indexers = [(NamespaceIndex, MetaNamespaceIndexFunc example_accessor)]"

definition example_ops :: "(string \<times> string) store_op list" where
  "example_ops = [OpUpdate ''a/x'' (''a'', ''x''), OpUpdate ''b/y'' (''b'', ''y''),
     OpUpdate ''a/x'' (''a'', ''x''), OpDelete ''b/y'']"

lemmas example_store_simps = example_ops_def example_indexers_def example_accessor_def
  NewThreadSafeStore_def tsm_Update_def tsm_Delete_def MetaNamespaceIndexFunc_def indexValues_def
  updateIndex_def addKeyToIndex_def deleteKeyFromIndex_def NamespaceIndex_def

theorem store_refines_map_witness:
  "\<exists>c. store_run example_ops (NewThreadSafeStore example_indexers) = Ret c \<and>
     tsm_Get ''a/x'' c = Some (''a'', ''x'') \<and> tsm_Get ''b/y'' c = None"
proof -
  have d: "distinct (map fst example_indexers)" by (simp add: example_indexers_def)
  have e: "\<forall>op \<in> set example_ops. op_enumerates op" by (simp add: example_ops_def)
  obtain c where r: "store_run example_ops (NewThreadSafeStore example_indexers) = Ret c"
    by (simp add: example_store_simps)
  show ?thesis
    using r store_refines_map [OF d e r, of "''a/x''"] store_refines_map [OF d e r, of "''b/y''"]
    by (simp add: example_ops_def)
qed

end
