(* ===== verification/Lister.thy ===== *)
theory Lister
  imports Store
begin

text \<open>
  The generic listers and the informer wrapper of \<^verbatim>\<open>pkg/controller/lister.go\<close> and
  \<^verbatim>\<open>informer.go\<close>, with the list functions of the vendored \<^verbatim>\<open>tools/cache/listers.go\<close> they call.
  A lister reads the indexed store of its informer. The lemmas give what a lookup returns in
  terms of the store and show that listing a namespace through the index finds the same
  objects as searching the whole store.
\<close>

section \<open>Listing\<close>

text \<open>The interface \<^verbatim>\<open>labels.Selector\<close>, as far as the listers use it.\<close>

record selector =
  sel_Empty :: bool
  sel_Matches :: "(string \<rightharpoonup> string) \<Rightarrow> bool"

text \<open>
  The loop over the items, with the results appended so far: the results and the error, if
  any, that ended the loop.
\<close>

fun listLoop ::
  "('obj \<Rightarrow> goerror + accessor) \<Rightarrow> bool \<Rightarrow> selector \<Rightarrow> 'obj list \<Rightarrow> 'obj list \<Rightarrow>
   'obj list \<times> goerror option" where
  "listLoop Accessor selectAll selector [] ret = (ret, None)"
| "listLoop Accessor selectAll selector (m # items) ret =
     (if selectAll then listLoop Accessor selectAll selector items (ret @ [m])
      else case Accessor m of
          Inl err \<Rightarrow> (ret, Some err)
        | Inr metadata \<Rightarrow>
            if sel_Matches selector (acc_Labels metadata)
            then listLoop Accessor selectAll selector items (ret @ [m])
            else listLoop Accessor selectAll selector items ret)"

definition ListAll ::
  "(string set \<Rightarrow> string list) \<Rightarrow> ('obj \<Rightarrow> goerror + accessor) \<Rightarrow> 'obj threadSafeMap \<Rightarrow> selector \<Rightarrow>
   'obj list \<times> goerror option" where
  "ListAll order Accessor store selector =
     listLoop Accessor (sel_Empty selector) selector (tsm_List (order (dom (tsm_items store))) store) []"

text \<open>The slow search, without an index.\<close>

fun slowLoop ::
  "('obj \<Rightarrow> goerror + accessor) \<Rightarrow> string \<Rightarrow> selector \<Rightarrow> 'obj list \<Rightarrow> 'obj list \<Rightarrow>
   'obj list \<times> goerror option" where
  "slowLoop Accessor namespace selector [] ret = (ret, None)"
| "slowLoop Accessor namespace selector (m # items) ret =
     (case Accessor m of
        Inl err \<Rightarrow> (ret, Some err)
      | Inr metadata \<Rightarrow>
          if acc_Namespace metadata = namespace \<and> sel_Matches selector (acc_Labels metadata)
          then slowLoop Accessor namespace selector items (ret @ [m])
          else slowLoop Accessor namespace selector items ret)"

text \<open>
  \<open>probe namespace\<close> is the object \<^verbatim>\<open>&metav1.ObjectMeta{Namespace: namespace}\<close> that is handed to
  the index function; \<open>order\<close> enumerates sets of keys.
\<close>

definition ListAllByNamespace ::
  "(string set \<Rightarrow> string list) \<Rightarrow> ('obj \<Rightarrow> goerror + accessor) \<Rightarrow> (string \<Rightarrow> 'obj) \<Rightarrow>
   'obj threadSafeMap \<Rightarrow> string \<Rightarrow> selector \<Rightarrow> 'obj list \<times> goerror option" where
  "ListAllByNamespace order Accessor probe indexer namespace selector =
     (if namespace = '''' then ListAll order Accessor indexer selector
      else case tsm_Index order NamespaceIndex (probe namespace) indexer of
          Inl err \<Rightarrow>
            slowLoop Accessor namespace selector (tsm_List (order (dom (tsm_items indexer))) indexer) []
        | Inr items \<Rightarrow> listLoop Accessor (sel_Empty selector) selector items [])"

section \<open>The listers\<close>

record 'obj namespacedLister =
  nl_indexer :: "'obj threadSafeMap"
  nl_namespace :: string

definition namespacedLister_List ::
  "(string set \<Rightarrow> string list) \<Rightarrow> ('obj \<Rightarrow> goerror + accessor) \<Rightarrow> (string \<Rightarrow> 'obj) \<Rightarrow>
   'obj namespacedLister \<Rightarrow> selector \<Rightarrow> 'obj list \<times> goerror option" where
  "namespacedLister_List order Accessor probe w selector =
     ListAllByNamespace order Accessor probe (nl_indexer w) (nl_namespace w) selector"

definition namespacedLister_Get :: "'obj namespacedLister \<Rightarrow> string \<Rightarrow> goerror + 'obj" where
  "namespacedLister_Get w name =
     (case cache_GetByKey (nl_namespace w @ ''/'' @ name) (nl_indexer w) of
        Inl err \<Rightarrow> Inl err
      | Inr None \<Rightarrow> Inl (NewNotFound \<lparr>gr_Group = '''', gr_Resource = ''''\<rparr> name)
      | Inr (Some obj) \<Rightarrow> Inr obj)"

text \<open>The struct \<^verbatim>\<open>lister\<close> holds only its indexer.\<close>

type_synonym 'obj lister = "'obj threadSafeMap"

definition lister_List ::
  "(string set \<Rightarrow> string list) \<Rightarrow> ('obj \<Rightarrow> goerror + accessor) \<Rightarrow> 'obj lister \<Rightarrow> selector \<Rightarrow>
   'obj list \<times> goerror option" where
  "lister_List order Accessor w selector = ListAll order Accessor w selector"

definition lister_Get :: "'obj lister \<Rightarrow> string \<Rightarrow> goerror + 'obj" where
  "lister_Get w name =
     (case cache_GetByKey name w of
        Inl err \<Rightarrow> Inl err
      | Inr None \<Rightarrow> Inl (NewNotFound \<lparr>gr_Group = ''node.k8s.io'', gr_Resource = ''validationruleset''\<rparr> name)
      | Inr (Some obj) \<Rightarrow> Inr obj)"

definition lister_Namespaced :: "'obj lister \<Rightarrow> string \<Rightarrow> 'obj namespacedLister" where
  "lister_Namespaced w namespace = \<lparr>nl_indexer = w, nl_namespace = namespace\<rparr>"

definition NewLister :: "'obj threadSafeMap \<Rightarrow> 'obj lister" where
  "NewLister indexer = indexer"

text \<open>
  The wrapper \<^verbatim>\<open>informer\<close> around a shared informer: its indexer, and whether it has synced.
\<close>

record 'obj SharedIndexInformer =
  inf_indexer :: "'obj threadSafeMap"
  inf_HasSynced :: bool

record 'obj informer =
  informer_informer :: "'obj SharedIndexInformer"

definition NewInformer :: "'obj SharedIndexInformer \<Rightarrow> 'obj informer" where
  "NewInformer informe = \<lparr>informer_informer = informe\<rparr>"

definition informer_Informer :: "'obj informer \<Rightarrow> 'obj SharedIndexInformer" where
  "informer_Informer i = informer_informer i"

definition informer_Lister :: "'obj informer \<Rightarrow> 'obj lister" where
  "informer_Lister i = NewLister (inf_indexer (informer_informer i))"

section \<open>Lemmas\<close>

text \<open>The objects a listing should return: those that match, without regard to order.\<close>

definition selected :: "('obj \<Rightarrow> goerror + accessor) \<Rightarrow> selector \<Rightarrow> 'obj \<Rightarrow> bool" where
  "selected Accessor selector m \<longleftrightarrow> (case Accessor m of
     Inl err \<Rightarrow> False | Inr metadata \<Rightarrow> sel_Matches selector (acc_Labels metadata))"

definition in_namespace :: "('obj \<Rightarrow> goerror + accessor) \<Rightarrow> string \<Rightarrow> 'obj \<Rightarrow> bool" where
  "in_namespace Accessor namespace m \<longleftrightarrow> (case Accessor m of
     Inl err \<Rightarrow> False | Inr metadata \<Rightarrow> acc_Namespace metadata = namespace)"

text \<open>Every stored object has metadata.\<close>

definition has_meta :: "('obj \<Rightarrow> goerror + accessor) \<Rightarrow> 'obj \<Rightarrow> bool" where
  "has_meta Accessor m \<longleftrightarrow> (\<exists>acc. Accessor m = Inr acc)"

text \<open>The selector \<^verbatim>\<open>Everything()\<close> is empty and matches everything.\<close>

definition selector_ok :: "selector \<Rightarrow> bool" where
  "selector_ok selector \<longleftrightarrow> (sel_Empty selector \<longrightarrow> (\<forall>ls. sel_Matches selector ls))"

lemma listLoop_filter:
  assumes "\<forall>m \<in> set items. has_meta Accessor m" and "selector_ok selector"
  shows "listLoop Accessor (sel_Empty selector) selector items ret =
    (ret @ filter (selected Accessor selector) items, None)"
  using assms
  by (induction items arbitrary: ret)
    (auto simp: has_meta_def selected_def selector_ok_def split: sum.splits)

lemma slowLoop_filter:
  assumes "\<forall>m \<in> set items. has_meta Accessor m"
  shows "slowLoop Accessor namespace selector items ret =
    (ret @ filter (\<lambda>m. in_namespace Accessor namespace m \<and> selected Accessor selector m) items, None)"
  using assms
  by (induction items arbitrary: ret) (auto simp: has_meta_def selected_def in_namespace_def)

lemma set_tsm_List: "set keys = dom (tsm_items c) \<Longrightarrow> set (tsm_List keys c) = ran (tsm_items c)"
  by (auto simp: tsm_List_def ran_def image_def dom_def)

lemma values_of_namespace:
  "has_meta Accessor m \<Longrightarrow>
     v \<in> values_of (MetaNamespaceIndexFunc Accessor) m \<longleftrightarrow> in_namespace Accessor v m"
  by (auto simp: values_of_def MetaNamespaceIndexFunc_def in_namespace_def has_meta_def)

lemma lister_Get_Inr: "lister_Get w name = Inr obj \<longleftrightarrow> tsm_Get name w = Some obj"
  by (auto simp: lister_Get_def cache_GetByKey_def split: option.splits)

lemma lister_Get_Inl: "lister_Get w name = Inl err \<Longrightarrow> IsNotFound (Some err)"
  by (auto simp: lister_Get_def cache_GetByKey_def split: option.splits)

lemma namespacedLister_Get_Inr:
  "namespacedLister_Get (lister_Namespaced w namespace) name = Inr obj \<longleftrightarrow>
     tsm_Get (namespace @ ''/'' @ name) w = Some obj"
  by (auto simp: namespacedLister_Get_def lister_Namespaced_def cache_GetByKey_def split: option.splits)

lemma namespacedLister_Get_Inl:
  "namespacedLister_Get w name = Inl err \<Longrightarrow> IsNotFound (Some err)"
  by (auto simp: namespacedLister_Get_def cache_GetByKey_def split: option.splits)

text \<open>What the index finds for the probe object.\<close>

lemma tsm_Index_namespace:
  assumes "store_ok c" and "map_of (tsm_indexers c) NamespaceIndex = Some (MetaNamespaceIndexFunc Accessor)"
    and probe: "in_namespace Accessor namespace (probe namespace)"
    and meta: "\<forall>m \<in> ran (tsm_items c). has_meta Accessor m"
    and order: "\<forall>keys \<subseteq> dom (tsm_items c). set (order keys) = keys"
  shows "\<exists>items. tsm_Index order NamespaceIndex (probe namespace) c = Inr items \<and>
    set items = {m \<in> ran (tsm_items c). in_namespace Accessor namespace m}"
proof -
  let ?f = "MetaNamespaceIndexFunc Accessor"
  let ?keys = "lookupIndex NamespaceIndex namespace c"
  have keys: "?keys = {k. \<exists>x. tsm_items c k = Some x \<and> in_namespace Accessor namespace x}"
    using store_ok_keys [OF assms(1,2), of namespace] meta
    by (auto simp: ran_def values_of_namespace)
  have "getKeysFromIndex NamespaceIndex (probe namespace) c = Inr ?keys"
    using probe by (cases "Accessor (probe namespace)")
      (auto simp: getKeysFromIndex_def assms(2) MetaNamespaceIndexFunc_def in_namespace_def)
  moreover have "set (order ?keys) = ?keys"
    using order by (rule allE [where x = ?keys]) (auto simp: keys)
  ultimately show ?thesis
    by (auto simp: tsm_Index_def keys ran_def image_def)
qed

section \<open>Properties\<close>

text \<open>
  Listing a namespace finds exactly the stored objects of that namespace that the
  selector matches, without an error, whether the namespace index is installed (the fast
  path) or not (the search through the whole store); the empty namespace lists all of them.
  Every stored object must have metadata, and an empty selector match everything.
\<close>

lemma namespace_list_exact:
  assumes "store_ok c"
    and "map_of (tsm_indexers c) NamespaceIndex \<in> {None, Some (MetaNamespaceIndexFunc Accessor)}"
    and "in_namespace Accessor namespace (probe namespace)"
    and "\<forall>m \<in> ran (tsm_items c). has_meta Accessor m"
    and "\<forall>keys \<subseteq> dom (tsm_items c). set (order keys) = keys"
    and "selector_ok selector"
  shows "\<exists>ret. namespacedLister_List order Accessor probe (lister_Namespaced c namespace) selector = (ret, None) \<and>
    set ret = {m \<in> ran (tsm_items c).
      (namespace = '''' \<or> in_namespace Accessor namespace m) \<and> selected Accessor selector m}"
proof -
  have all: "set (tsm_List (order (dom (tsm_items c))) c) = ran (tsm_items c)"
    using assms(5) by (intro set_tsm_List) auto
  consider (every) "namespace = ''''"
    | (slow) "namespace \<noteq> ''''" "map_of (tsm_indexers c) NamespaceIndex = None"
    | (fast) "namespace \<noteq> ''''"
        "map_of (tsm_indexers c) NamespaceIndex = Some (MetaNamespaceIndexFunc Accessor)"
    using assms(2) by auto
  then show ?thesis
  proof cases
    case every
    then show ?thesis
      using all assms(4,6)
      by (auto simp: namespacedLister_List_def lister_Namespaced_def ListAllByNamespace_def
          ListAll_def listLoop_filter)
  next
    case slow
    then have "tsm_Index order NamespaceIndex (probe namespace) c = Inl (indexName_missing NamespaceIndex)"
      by (simp add: tsm_Index_def getKeysFromIndex_def)
    then show ?thesis
      using slow all assms(4)
      by (auto simp: namespacedLister_List_def lister_Namespaced_def ListAllByNamespace_def
          slowLoop_filter)
  next
    case fast
    obtain items where "tsm_Index order NamespaceIndex (probe namespace) c = Inr items"
      and "set items = {m \<in> ran (tsm_items c). in_namespace Accessor namespace m}"
      using tsm_Index_namespace [of c Accessor namespace probe order] fast assms by blast
    then show ?thesis
      using fast(1) assms(4,6)
      by (auto simp: namespacedLister_List_def lister_Namespaced_def ListAllByNamespace_def
          listLoop_filter)
  qed
qed

section \<open>Witnesses\<close>

definition example_store :: "(string \<times> string) threadSafeMap" where
  "example_store =
     \<lparr>tsm_items = [''a/x'' \<mapsto> (''a'', ''x'')], tsm_indexers = example_indexers,
      tsm_indices = [NamespaceIndex \<mapsto> [''a'' \<mapsto> {''a/x''}]]\<rparr>"

definition example_order :: "string set \<Rightarrow> string list" where
  "example_order keys = (if ''a/x'' \<in> keys then [''a/x''] else [])"

lemma example_store_ok: "store_ok example_store"
proof -
  have "store_run [OpUpdate ''a/x'' (''a'', ''x'')] (NewThreadSafeStore example_indexers) = Ret example_store"
    by (simp add: example_store_simps example_store_def)
  then show ?thesis
    using store_run_ok [of "NewThreadSafeStore example_indexers" "[OpUpdate ''a/x'' (''a'', ''x'')]"]
    by (simp add: store_ok_New example_indexers_def)
qed

end
