(* ===== verification/WorkQueue.thy ===== *)
theory WorkQueue
  imports Prelude
begin

text \<open>
  The work queue of the vendored \<^verbatim>\<open>client-go/util/workqueue\<close>, on which the controllers of
  \<^verbatim>\<open>pkg/controller/generic.go\<close> run: \<^verbatim>\<open>queue.go\<close> (the queue with its dirty and processing sets),
  \<^verbatim>\<open>delaying_queue.go\<close> (items added after a delay) and \<^verbatim>\<open>default_rate_limiters.go\<close> (the
  exponential back-off). Every operation of the queue runs under its lock, so an operation is
  a function on the state; waiting on the condition variable is modelled separately, as a
  step relation. The lemmas show the invariant the comments of the source state, the contract
  a client relies on, that no wake-up is lost, and the delays of repeated failures.
\<close>

section \<open>The queue\<close>

record 'a workqueue =
  wq_queue :: "'a list"
  wq_dirty :: "'a set"
  wq_processing :: "'a set"
  wq_shuttingDown :: bool
  wq_drain :: bool

definition newQueue :: "'a workqueue" where
  "newQueue = \<lparr>wq_queue = [], wq_dirty = {}, wq_processing = {}, wq_shuttingDown = False,
     wq_drain = False\<rparr>"

definition wq_Add :: "'a \<Rightarrow> 'a workqueue \<Rightarrow> 'a workqueue" where
  "wq_Add item q =
     (if wq_shuttingDown q then q
      else if item \<in> wq_dirty q then q
      else
        let q1 = q\<lparr>wq_dirty := insert item (wq_dirty q)\<rparr>
        in if item \<in> wq_processing q then q1
           else q1\<lparr>wq_queue := wq_queue q1 @ [item]\<rparr>)"

definition wq_Len :: "'a workqueue \<Rightarrow> nat" where
  "wq_Len q = length (wq_queue q)"

text \<open>
  \<^verbatim>\<open>Get\<close>: \<open>None\<close> when the caller has to wait, otherwise the item, or no item and
  \<^verbatim>\<open>shutdown = true\<close>, with the next state.
\<close>

definition wq_Get :: "'a workqueue \<Rightarrow> ('a option \<times> 'a workqueue) option" where
  "wq_Get q =
     (case wq_queue q of
        [] \<Rightarrow> if wq_shuttingDown q then Some (None, q) else None
      | item # rest \<Rightarrow>
          Some (Some item, q\<lparr>wq_queue := rest,
            wq_processing := insert item (wq_processing q),
            wq_dirty := wq_dirty q - {item}\<rparr>))"

definition wq_Done :: "'a \<Rightarrow> 'a workqueue \<Rightarrow> 'a workqueue" where
  "wq_Done item q =
     (let q1 = q\<lparr>wq_processing := wq_processing q - {item}\<rparr>
      in if item \<in> wq_dirty q1 then q1\<lparr>wq_queue := wq_queue q1 @ [item]\<rparr> else q1)"

definition wq_setDrain :: "bool \<Rightarrow> 'a workqueue \<Rightarrow> 'a workqueue" where
  "wq_setDrain shouldDrain q = q\<lparr>wq_drain := shouldDrain\<rparr>"

definition wq_shutdown :: "'a workqueue \<Rightarrow> 'a workqueue" where
  "wq_shutdown q = q\<lparr>wq_shuttingDown := True\<rparr>"

definition wq_isProcessing :: "'a workqueue \<Rightarrow> bool" where
  "wq_isProcessing q \<longleftrightarrow> wq_processing q \<noteq> {}"

definition wq_ShuttingDown :: "'a workqueue \<Rightarrow> bool" where
  "wq_ShuttingDown q = wq_shuttingDown q"

definition wq_ShutDown :: "'a workqueue \<Rightarrow> 'a workqueue" where
  "wq_ShutDown q = wq_shutdown (wq_setDrain False q)"

text \<open>\<^verbatim>\<open>ShutDownWithDrain\<close> up to its waiting loop, which ends when this condition is false.\<close>

definition wq_StartDrain :: "'a workqueue \<Rightarrow> 'a workqueue" where
  "wq_StartDrain q = wq_shutdown (wq_setDrain True q)"

definition wq_draining :: "'a workqueue \<Rightarrow> bool" where
  "wq_draining q \<longleftrightarrow> wq_isProcessing q \<and> wq_drain q"

section \<open>The interface\<close>

text \<open>
  What a controller relies on: items wait in \<open>pending\<close>, and are in \<open>busy\<close> from the moment they
  are handed out until they are finished. An item that is added while busy is handed out
  again only after it is finished.
\<close>

locale work_queue =
  fixes add :: "'a \<Rightarrow> 'q \<Rightarrow> 'q"
    and take :: "'q \<Rightarrow> ('a option \<times> 'q) option"
    and finish :: "'a \<Rightarrow> 'q \<Rightarrow> 'q"
    and close_queue :: "'q \<Rightarrow> 'q"
    and pending :: "'q \<Rightarrow> 'a set"
    and busy :: "'q \<Rightarrow> 'a set"
    and closed :: "'q \<Rightarrow> bool"
    and ok :: "'q \<Rightarrow> bool"
  assumes add_ok: "ok q \<Longrightarrow> ok (add x q)"
    and add_pending: "pending (add x q) = (if closed q then pending q else insert x (pending q))"
    and add_busy: "busy (add x q) = busy q"
    and add_closed: "closed (add x q) = closed q"
    and take_item: "ok q \<Longrightarrow> take q = Some (Some x, q') \<Longrightarrow>
      ok q' \<and> x \<in> pending q \<and> x \<notin> busy q \<and> pending q' = pending q - {x} \<and>
      busy q' = insert x (busy q) \<and> closed q' = closed q"
    and take_end: "take q = Some (None, q') \<Longrightarrow> q' = q \<and> closed q"
    and take_blocked: "ok q \<Longrightarrow> (take q = None \<or> take q = Some (None, q)) = (pending q \<subseteq> busy q)"
    and finish_ok: "ok q \<Longrightarrow> x \<in> busy q \<Longrightarrow> ok (finish x q)"
    and finish_pending: "pending (finish x q) = pending q"
    and finish_busy: "busy (finish x q) = busy q - {x}"
    and finish_closed: "closed (finish x q) = closed q"
    and close_ok: "ok q \<Longrightarrow> ok (close_queue q)"
    and close_pending: "pending (close_queue q) = pending q"
    and close_busy: "busy (close_queue q) = busy q"
    and close_closed: "closed (close_queue q)"
begin

text \<open>While nothing is busy, the queue hands out nothing exactly when nothing is pending.\<close>

lemma idle_blocked_iff:
  "ok q \<Longrightarrow> busy q = {} \<Longrightarrow> (take q = None \<or> take q = Some (None, q)) = (pending q = {})"
  by (simp add: take_blocked)

text \<open>An item is never handed out while it is busy.\<close>

lemma not_taken_twice:
  "ok q \<Longrightarrow> x \<in> busy q \<Longrightarrow> take q \<noteq> Some (Some x, q')"
  using take_item by blast

text \<open>Something added to an open queue is pending until it is taken.\<close>

lemma added_pending: "\<not> closed q \<Longrightarrow> x \<in> pending (add x q)"
  by (simp add: add_pending)

lemma take_keeps_pending:
  "ok q \<Longrightarrow> take q = Some (Some y, q') \<Longrightarrow> x \<in> pending q \<Longrightarrow> x \<noteq> y \<Longrightarrow> x \<in> pending q'"
  using take_item by blast

end

section \<open>The invariant\<close>

text \<open>
  The queue holds, without repetition, exactly the dirty items that are not being processed.
\<close>

definition wq_inv :: "'a workqueue \<Rightarrow> bool" where
  "wq_inv q \<longleftrightarrow> distinct (wq_queue q) \<and> set (wq_queue q) = wq_dirty q - wq_processing q"

lemma wq_inv_new: "wq_inv newQueue"
  by (simp add: wq_inv_def newQueue_def)

lemma wq_inv_Add: "wq_inv q \<Longrightarrow> wq_inv (wq_Add x q)"
  by (auto simp: wq_inv_def wq_Add_def Let_def)

lemma wq_inv_Get: "wq_inv q \<Longrightarrow> wq_Get q = Some (r, q') \<Longrightarrow> wq_inv q'"
  by (auto simp: wq_inv_def wq_Get_def split: list.splits if_splits)

lemma wq_inv_Done: "wq_inv q \<Longrightarrow> x \<in> wq_processing q \<Longrightarrow> wq_inv (wq_Done x q)"
  by (auto simp: wq_inv_def wq_Done_def Let_def)

lemma wq_inv_StartDrain: "wq_inv q \<Longrightarrow> wq_inv (wq_StartDrain q)"
  by (simp add: wq_inv_def wq_StartDrain_def wq_shutdown_def wq_setDrain_def)

lemma wq_fields:
  "wq_dirty (wq_Add x q) = (if wq_shuttingDown q then wq_dirty q else insert x (wq_dirty q))"
  "wq_processing (wq_Add x q) = wq_processing q"
  "wq_shuttingDown (wq_Add x q) = wq_shuttingDown q"
  "wq_dirty (wq_Done x q) = wq_dirty q"
  "wq_processing (wq_Done x q) = wq_processing q - {x}"
  "wq_shuttingDown (wq_Done x q) = wq_shuttingDown q"
  "wq_queue (wq_StartDrain q) = wq_queue q"
  "wq_dirty (wq_StartDrain q) = wq_dirty q"
  "wq_processing (wq_StartDrain q) = wq_processing q"
  "wq_shuttingDown (wq_StartDrain q) = True"
  by (auto simp: wq_Add_def wq_Done_def wq_StartDrain_def wq_shutdown_def wq_setDrain_def Let_def)

lemma wq_Get_item:
  assumes "wq_inv q" and "wq_Get q = Some (Some x, q')"
  shows "wq_inv q' \<and> x \<in> wq_dirty q \<and> x \<notin> wq_processing q \<and> wq_dirty q' = wq_dirty q - {x} \<and>
    wq_processing q' = insert x (wq_processing q) \<and> wq_shuttingDown q' = wq_shuttingDown q"
proof -
  have inv': "wq_inv q'" using assms by (rule wq_inv_Get)
  obtain rest where q: "wq_queue q = x # rest"
    and q': "q' = q\<lparr>wq_queue := rest, wq_processing := insert x (wq_processing q),
      wq_dirty := wq_dirty q - {x}\<rparr>"
    using assms(2) by (auto simp: wq_Get_def split: list.splits if_splits)
  have "x \<in> wq_dirty q - wq_processing q" using assms(1) q by (auto simp: wq_inv_def)
  with inv' show ?thesis by (simp add: q')
qed

interpretation wq: work_queue wq_Add wq_Get wq_Done wq_StartDrain wq_dirty wq_processing
  wq_shuttingDown wq_inv
proof unfold_locales
  fix q :: "'a workqueue"
  assume inv: "wq_inv q"
  show "(wq_Get q = None \<or> wq_Get q = Some (None, q)) = (wq_dirty q \<subseteq> wq_processing q)"
  proof (cases "wq_queue q")
    case Nil
    with inv have "wq_dirty q - wq_processing q = {}" by (simp add: wq_inv_def)
    with Nil show ?thesis by (auto simp: wq_Get_def)
  next
    case (Cons item rest)
    with inv have "item \<in> wq_dirty q - wq_processing q" by (auto simp: wq_inv_def)
    with Cons show ?thesis by (auto simp: wq_Get_def)
  qed
next
  fix q q' :: "'a workqueue" and x
  assume "wq_inv q" and "wq_Get q = Some (Some x, q')"
  then show "wq_inv q' \<and> x \<in> wq_dirty q \<and> x \<notin> wq_processing q \<and> wq_dirty q' = wq_dirty q - {x} \<and>
      wq_processing q' = insert x (wq_processing q) \<and> wq_shuttingDown q' = wq_shuttingDown q"
    by (rule wq_Get_item)
next
  fix q q' :: "'a workqueue"
  assume "wq_Get q = Some (None, q')"
  then show "q' = q \<and> wq_shuttingDown q"
    by (auto simp: wq_Get_def split: list.splits if_splits)
qed (simp_all add: wq_fields wq_inv_Add wq_inv_Done wq_inv_StartDrain)

section \<open>Waiting on the condition variable\<close>

text \<open>
  Goroutines wait on the queue's one condition variable: consumers in \<^verbatim>\<open>Get\<close>, and the one
  caller of \<^verbatim>\<open>ShutDownWithDrain\<close> in \<^verbatim>\<open>waitForProcessing\<close>. A consumer in \<open>cv_waiting\<close> has not been
  signalled; one in \<open>cv_woken\<close> has been, and will check the queue again when it gets the lock.
\<close>

datatype drain_pc = NotDraining | DrainCheck | DrainWaiting | Drained

record 'a cv_state =
  cv_q :: "'a workqueue"
  cv_waiting :: "nat set"
  cv_woken :: "nat set"
  cv_drainer :: drain_pc

definition cv_init :: "'a cv_state" where
  "cv_init = \<lparr>cv_q = newQueue, cv_waiting = {}, cv_woken = {}, cv_drainer = NotDraining\<rparr>"

text \<open>\<^verbatim>\<open>cond.Signal\<close> wakes one waiter, if there is any; which one is not determined.\<close>

inductive cv_signal :: "'a cv_state \<Rightarrow> 'a cv_state \<Rightarrow> bool" where
  signal_none: "cv_waiting s = {} \<Longrightarrow> cv_drainer s \<noteq> DrainWaiting \<Longrightarrow> cv_signal s s"
| signal_consumer: "i \<in> cv_waiting s \<Longrightarrow>
    cv_signal s (s\<lparr>cv_waiting := cv_waiting s - {i}, cv_woken := insert i (cv_woken s)\<rparr>)"
| signal_drainer: "cv_drainer s = DrainWaiting \<Longrightarrow> cv_signal s (s\<lparr>cv_drainer := DrainCheck\<rparr>)"

text \<open>\<^verbatim>\<open>Add\<close> signals when it appends to the queue.\<close>

definition add_signals :: "'a \<Rightarrow> 'a workqueue \<Rightarrow> bool" where
  "add_signals x q \<longleftrightarrow> \<not> wq_shuttingDown q \<and> x \<notin> wq_dirty q \<and> x \<notin> wq_processing q"

text \<open>\<^verbatim>\<open>Done\<close> signals when it appends to the queue, or when nothing is processed any more.\<close>

definition done_signals :: "'a \<Rightarrow> 'a workqueue \<Rightarrow> bool" where
  "done_signals x q \<longleftrightarrow> x \<in> wq_dirty q \<or> wq_processing q - {x} = {}"

inductive cv_step :: "'a cv_state \<Rightarrow> 'a cv_state \<Rightarrow> bool" where
  add_silent: "\<not> add_signals x (cv_q s) \<Longrightarrow> cv_step s (s\<lparr>cv_q := wq_Add x (cv_q s)\<rparr>)"
| add_signal: "add_signals x (cv_q s) \<Longrightarrow> cv_signal (s\<lparr>cv_q := wq_Add x (cv_q s)\<rparr>) t \<Longrightarrow> cv_step s t"
| get_wait: "i \<notin> cv_waiting s \<Longrightarrow> i \<notin> cv_woken s \<Longrightarrow> wq_Get (cv_q s) = None \<Longrightarrow>
    cv_step s (s\<lparr>cv_waiting := insert i (cv_waiting s)\<rparr>)"
| get_return: "i \<notin> cv_waiting s \<Longrightarrow> i \<notin> cv_woken s \<Longrightarrow> wq_Get (cv_q s) = Some (r, q') \<Longrightarrow>
    cv_step s (s\<lparr>cv_q := q'\<rparr>)"
| woken_wait: "i \<in> cv_woken s \<Longrightarrow> wq_Get (cv_q s) = None \<Longrightarrow>
    cv_step s (s\<lparr>cv_woken := cv_woken s - {i}, cv_waiting := insert i (cv_waiting s)\<rparr>)"
| woken_return: "i \<in> cv_woken s \<Longrightarrow> wq_Get (cv_q s) = Some (r, q') \<Longrightarrow>
    cv_step s (s\<lparr>cv_woken := cv_woken s - {i}, cv_q := q'\<rparr>)"
| done_silent: "x \<in> wq_processing (cv_q s) \<Longrightarrow> \<not> done_signals x (cv_q s) \<Longrightarrow>
    cv_step s (s\<lparr>cv_q := wq_Done x (cv_q s)\<rparr>)"
| done_signal: "x \<in> wq_processing (cv_q s) \<Longrightarrow> done_signals x (cv_q s) \<Longrightarrow>
    cv_signal (s\<lparr>cv_q := wq_Done x (cv_q s)\<rparr>) t \<Longrightarrow> cv_step s t"
| start_drain: "cv_drainer s = NotDraining \<Longrightarrow>
    cv_step s (s\<lparr>cv_q := wq_StartDrain (cv_q s), cv_waiting := {},
      cv_woken := cv_woken s \<union> cv_waiting s, cv_drainer := DrainCheck\<rparr>)"
| drain_wait: "cv_drainer s = DrainCheck \<Longrightarrow> wq_draining (cv_q s) \<Longrightarrow>
    cv_step s (s\<lparr>cv_drainer := DrainWaiting\<rparr>)"
| drain_return: "cv_drainer s = DrainCheck \<Longrightarrow> \<not> wq_draining (cv_q s) \<Longrightarrow>
    cv_step s (s\<lparr>cv_drainer := Drained\<rparr>)"

inductive_cases cv_signalE: "cv_signal s t"

text \<open>
  The invariant: before the shut-down there are at least as many woken consumers as items
  in the queue whenever some consumer still waits; after it no consumer waits, and the drainer
  waits only while something is processed.
\<close>

definition cv_inv :: "'a cv_state \<Rightarrow> bool" where
  "cv_inv s \<longleftrightarrow> wq_inv (cv_q s) \<and> finite (cv_woken s) \<and> cv_waiting s \<inter> cv_woken s = {} \<and>
     (cv_waiting s \<noteq> {} \<longrightarrow> length (wq_queue (cv_q s)) \<le> card (cv_woken s)) \<and>
     (wq_shuttingDown (cv_q s) \<longrightarrow> cv_waiting s = {}) \<and>
     (cv_drainer s \<noteq> NotDraining) = wq_shuttingDown (cv_q s) \<and>
     (cv_drainer s = DrainWaiting \<longrightarrow> wq_processing (cv_q s) \<noteq> {}) \<and>
     finite (cv_waiting s)"

lemma cv_inv_init: "cv_inv cv_init"
  by (simp add: cv_inv_def cv_init_def wq_inv_new) (simp add: newQueue_def)

lemma length_Add: "length (wq_queue (wq_Add x q)) = length (wq_queue q) + (if add_signals x q then 1 else 0)"
  by (auto simp: wq_Add_def add_signals_def Let_def)

lemma length_Done: "length (wq_queue (wq_Done x q)) \<le> length (wq_queue q) + (if done_signals x q then 1 else 0)"
  by (auto simp: wq_Done_def done_signals_def Let_def)

text \<open>
  The invariant with one signal outstanding: one item more than woken consumers is allowed,
  and the drainer may wait on a queue that processes nothing.
\<close>

definition cv_owes :: "'a cv_state \<Rightarrow> bool" where
  "cv_owes s \<longleftrightarrow> wq_inv (cv_q s) \<and> finite (cv_woken s) \<and> cv_waiting s \<inter> cv_woken s = {} \<and>
     (cv_waiting s \<noteq> {} \<longrightarrow> length (wq_queue (cv_q s)) \<le> card (cv_woken s) + 1) \<and>
     (wq_shuttingDown (cv_q s) \<longrightarrow> cv_waiting s = {}) \<and>
     (cv_drainer s \<noteq> NotDraining) = wq_shuttingDown (cv_q s) \<and>
     finite (cv_waiting s)"

lemma cv_signal_pays: "cv_owes s \<Longrightarrow> cv_signal s t \<Longrightarrow> cv_inv t"
proof (erule cv_signalE)
  assume "cv_owes s" and "t = s" and "cv_waiting s = {}" and "cv_drainer s \<noteq> DrainWaiting"
  then show ?thesis by (simp add: cv_owes_def cv_inv_def)
next
  fix i
  assume o: "cv_owes s" and i: "i \<in> cv_waiting s"
    and t: "t = s\<lparr>cv_waiting := cv_waiting s - {i}, cv_woken := insert i (cv_woken s)\<rparr>"
  have "i \<notin> cv_woken s" using o i by (auto simp: cv_owes_def)
  moreover have "\<not> wq_shuttingDown (cv_q s)" using o i by (auto simp: cv_owes_def)
  ultimately show ?thesis using o i by (auto simp: cv_owes_def cv_inv_def t)
next
  assume "cv_owes s" and "cv_drainer s = DrainWaiting" and "t = s\<lparr>cv_drainer := DrainCheck\<rparr>"
  then show ?thesis by (auto simp: cv_owes_def cv_inv_def)
qed

lemma cv_owes_Add: "cv_inv s \<Longrightarrow> cv_owes (s\<lparr>cv_q := wq_Add x (cv_q s)\<rparr>)"
  by (auto simp: cv_inv_def cv_owes_def wq_fields wq_inv_Add length_Add)

lemma cv_owes_Done: "cv_inv s \<Longrightarrow> x \<in> wq_processing (cv_q s) \<Longrightarrow> cv_owes (s\<lparr>cv_q := wq_Done x (cv_q s)\<rparr>)"
  using length_Done [of x "cv_q s"]
  by (auto simp: cv_inv_def cv_owes_def wq_fields wq_inv_Done split: if_splits)

lemma wq_Get_None: "wq_Get q = None \<longleftrightarrow> wq_queue q = [] \<and> \<not> wq_shuttingDown q"
  by (auto simp: wq_Get_def split: list.splits)

lemma wq_Get_Some:
  "wq_Get q = Some (r, q') \<Longrightarrow> wq_inv q \<Longrightarrow>
     wq_inv q' \<and> length (wq_queue q') = length (wq_queue q) - 1 \<and>
     wq_shuttingDown q' = wq_shuttingDown q \<and> (wq_processing q \<noteq> {} \<longrightarrow> wq_processing q' \<noteq> {})"
  using wq_inv_Get [of q r q'] by (auto simp: wq_Get_def split: list.splits if_splits)

lemma cv_inv_step: "cv_step s t \<Longrightarrow> cv_inv s \<Longrightarrow> cv_inv t"
proof (induction rule: cv_step.induct)
  case (add_silent x s)
  then show ?case by (auto simp: cv_inv_def wq_fields wq_inv_Add length_Add)
next
  case (add_signal x s t)
  then show ?case by (blast intro: cv_signal_pays cv_owes_Add)
next
  case (get_wait i s)
  then show ?case by (auto simp: cv_inv_def wq_Get_None)
next
  case (get_return i s r q')
  then show ?case using wq_Get_Some [OF get_return(3)] by (auto simp: cv_inv_def)
next
  case (woken_wait i s)
  then show ?case by (auto simp: cv_inv_def wq_Get_None)
next
  case (woken_return i s r q')
  then show ?case using wq_Get_Some [OF woken_return(2)] by (auto simp: cv_inv_def)
next
  case (done_silent x s)
  then show ?case
    using length_Done [of x "cv_q s"]
    by (auto simp: cv_inv_def wq_fields wq_inv_Done done_signals_def)
next
  case (done_signal x s t)
  then show ?case by (blast intro: cv_signal_pays cv_owes_Done)
next
  case (start_drain s)
  then show ?case by (auto simp: cv_inv_def wq_fields wq_inv_StartDrain)
next
  case (drain_wait s)
  then show ?case by (auto simp: cv_inv_def wq_draining_def wq_isProcessing_def)
next
  case (drain_return s)
  then show ?case by (auto simp: cv_inv_def)
qed

interpretation cv: step_invariant cv_step cv_inv
  by unfold_locales (rule cv_inv_step)

section \<open>Items added after a delay\<close>

text \<open>
  The delaying queue: entries travel through the buffered channel \<^verbatim>\<open>waitingForAddCh\<close> to the
  waiting loop, which keeps them until their time. Times and durations are in nanoseconds.
\<close>

record 'a waitFor =
  wf_data :: 'a
  wf_readyAt :: int

record 'a delayingType =
  dq_q :: "'a workqueue"
  dq_waitingForAddCh :: "'a waitFor list"
  dq_waiting :: "'a waitFor list"

definition newDelayingQueue :: "'a delayingType" where
  "newDelayingQueue = \<lparr>dq_q = newQueue, dq_waitingForAddCh = [], dq_waiting = []\<rparr>"

text \<open>
  \<^verbatim>\<open>AddAfter\<close> at time \<open>now\<close>: \<open>None\<close> while it blocks on the full channel. \<^verbatim>\<open>ShutDownWithDrain\<close>
  leaves the channel \<^verbatim>\<open>stopCh\<close> open.
\<close>

definition dq_AddAfter :: "int \<Rightarrow> 'a \<Rightarrow> int \<Rightarrow> 'a delayingType \<Rightarrow> 'a delayingType option" where
  "dq_AddAfter now item duration q =
     (if wq_ShuttingDown (dq_q q) then Some q
      else if duration \<le> 0 then Some (q\<lparr>dq_q := wq_Add item (dq_q q)\<rparr>)
      else if length (dq_waitingForAddCh q) < 1000 then
        Some (q\<lparr>dq_waitingForAddCh :=
          dq_waitingForAddCh q @ [\<lparr>wf_data = item, wf_readyAt = now + duration\<rparr>]\<rparr>)
      else None)"

text \<open>
  \<^verbatim>\<open>insert\<close>: an entry that is already waiting is only ever moved to an earlier time. The
  priority queue is kept as the list of its entries; which entry is at its root is decided
  where it is popped.
\<close>

fun dq_insert :: "'a waitFor \<Rightarrow> 'a waitFor list \<Rightarrow> 'a waitFor list" where
  "dq_insert entry [] = [entry]"
| "dq_insert entry (existing # q) =
     (if wf_data existing = wf_data entry then
        (if wf_readyAt existing > wf_readyAt entry
         then existing\<lparr>wf_readyAt := wf_readyAt entry\<rparr> # q
         else existing # q)
      else existing # dq_insert entry q)"

text \<open>The steps of the waiting loop at a time \<open>now\<close>: receive an entry, or pop a ready one.\<close>

inductive dq_step :: "int \<Rightarrow> 'a delayingType \<Rightarrow> 'a delayingType \<Rightarrow> bool" for now where
  receive_later: "dq_waitingForAddCh q = entry # rest \<Longrightarrow> now < wf_readyAt entry \<Longrightarrow>
    dq_step now q (q\<lparr>dq_waitingForAddCh := rest, dq_waiting := dq_insert entry (dq_waiting q)\<rparr>)"
| receive_ready: "dq_waitingForAddCh q = entry # rest \<Longrightarrow> wf_readyAt entry \<le> now \<Longrightarrow>
    dq_step now q (q\<lparr>dq_waitingForAddCh := rest, dq_q := wq_Add (wf_data entry) (dq_q q)\<rparr>)"
| pop_ready: "entry \<in> set (dq_waiting q) \<Longrightarrow>
    (\<And>other. other \<in> set (dq_waiting q) \<Longrightarrow> wf_readyAt entry \<le> wf_readyAt other) \<Longrightarrow>
    wf_readyAt entry \<le> now \<Longrightarrow>
    dq_step now q (q\<lparr>dq_waiting := remove1 entry (dq_waiting q),
      dq_q := wq_Add (wf_data entry) (dq_q q)\<rparr>)"

text \<open>What is on its way into the queue.\<close>

definition dq_delayed :: "'a delayingType \<Rightarrow> 'a set" where
  "dq_delayed q = wf_data ` set (dq_waitingForAddCh q) \<union> wf_data ` set (dq_waiting q)"

lemma dq_insert_data: "wf_data ` set (dq_insert entry q) = insert (wf_data entry) (wf_data ` set q)"
  by (induction q) auto

lemma dq_insert_distinct:
  "distinct (map wf_data q) \<Longrightarrow> distinct (map wf_data (dq_insert entry q))"
proof (induction q)
  case (Cons existing q)
  then show ?case
    using dq_insert_data [of entry q] by (auto simp: image_iff)
qed simp

lemma dq_insert_min:
  assumes "distinct (map wf_data q)"
  shows "map_of (map (\<lambda>e. (wf_data e, wf_readyAt e)) (dq_insert entry q)) (wf_data entry) =
    Some (case map_of (map (\<lambda>e. (wf_data e, wf_readyAt e)) q) (wf_data entry) of
      None \<Rightarrow> wf_readyAt entry
    | Some t \<Rightarrow> min t (wf_readyAt entry))"
  using assms by (induction q) auto

text \<open>A delayed item is not lost: it stays delayed or is added.\<close>

lemma dq_step_keeps:
  assumes "dq_step now q q'" and "x \<in> dq_delayed q" and "\<not> wq_shuttingDown (dq_q q)"
  shows "x \<in> dq_delayed q' \<or> x \<in> wq_dirty (dq_q q')"
  using assms
proof (cases rule: dq_step.cases)
  case (receive_later entry rest)
  then show ?thesis using assms(2) by (auto simp: dq_delayed_def dq_insert_data)
next
  case (receive_ready entry rest)
  then show ?thesis using assms(2,3) by (auto simp: dq_delayed_def wq_fields)
next
  case (pop_ready entry)
  have "x = wf_data entry \<or> x \<in> wf_data ` set (remove1 entry (dq_waiting q))"
    if "x \<in> wf_data ` set (dq_waiting q)"
  proof -
    from that obtain e where e: "e \<in> set (dq_waiting q)" "x = wf_data e" by auto
    show ?thesis
    proof (cases "e = entry")
      case False
      then have "e \<in> set (remove1 entry (dq_waiting q))" using e(1) by simp
      then show ?thesis using e(2) by simp
    qed (simp add: e(2))
  qed
  then show ?thesis using pop_ready assms(2,3) by (auto simp: dq_delayed_def wq_fields)
qed

section \<open>Rate limiting\<close>

text \<open>
  \<^verbatim>\<open>ItemExponentialFailureRateLimiter\<close>. The source computes the back-off in \<^verbatim>\<open>float64\<close>: the
  product of a positive base below \<open>2 ^ 53\<close> with a power of two is exact or infinite, and
  \<^verbatim>\<open>math.MaxInt64\<close> converts to \<open>2 ^ 63\<close>. The conversion back to a \<^verbatim>\<open>Duration\<close> wraps at 64 bits.
\<close>

definition item_failures :: "('a \<rightharpoonup> nat) \<Rightarrow> 'a \<Rightarrow> nat" where
  "item_failures failures item = (case failures item of None \<Rightarrow> 0 | Some n \<Rightarrow> n)"

definition item_When :: "int \<Rightarrow> int \<Rightarrow> 'a \<Rightarrow> ('a \<rightharpoonup> nat) \<Rightarrow> int \<times> ('a \<rightharpoonup> nat)" where
  "item_When baseDelay maxDelay item failures =
     (let exp = item_failures failures item;
          failures' = failures(item \<mapsto> item_failures failures item + 1);
          backoff = baseDelay * 2 ^ exp
      in if backoff > 2 ^ 63 then (maxDelay, failures')
         else
           let calculated = sint (word_of_int backoff :: 64 word)
           in if calculated > maxDelay then (maxDelay, failures') else (calculated, failures'))"

definition item_Forget :: "'a \<Rightarrow> ('a \<rightharpoonup> nat) \<Rightarrow> ('a \<rightharpoonup> nat)" where
  "item_Forget item failures = failures(item := None)"

text \<open>
  \<^verbatim>\<open>MaxOfRateLimiter\<close> over the limiters of \<^verbatim>\<open>DefaultControllerRateLimiter\<close>: five milliseconds
  doubling up to a thousand seconds, and a token bucket. The bucket is a parameter: it returns
  the delay of a reservation and its next state.
\<close>

record ('a, 'b) rateLimiter =
  rl_failures :: "'a \<rightharpoonup> nat"
  rl_bucket :: 'b

definition controller_When ::
  "('b \<Rightarrow> int \<times> 'b) \<Rightarrow> 'a \<Rightarrow> ('a, 'b) rateLimiter \<Rightarrow> int \<times> ('a, 'b) rateLimiter" where
  "controller_When Reserve item rl =
     (let (curr1, failures) = item_When 5000000 1000000000000 item (rl_failures rl);
          ret1 = (if curr1 > 0 then curr1 else 0);
          (curr2, bucket) = Reserve (rl_bucket rl);
          ret2 = (if curr2 > ret1 then curr2 else ret1)
      in (ret2, \<lparr>rl_failures = failures, rl_bucket = bucket\<rparr>))"

definition controller_Forget :: "'a \<Rightarrow> ('a, 'b) rateLimiter \<Rightarrow> ('a, 'b) rateLimiter" where
  "controller_Forget item rl = rl\<lparr>rl_failures := item_Forget item (rl_failures rl)\<rparr>"

definition controller_NumRequeues :: "'a \<Rightarrow> ('a, 'b) rateLimiter \<Rightarrow> nat" where
  "controller_NumRequeues item rl = item_failures (rl_failures rl) item"

lemma power2_63: "(2::int) ^ 63 = 9223372036854775808"
  by simp

lemma base_not_limit: "(5000000::int) * 2 ^ n \<noteq> 2 ^ 63"
proof
  assume eq: "(5000000::int) * 2 ^ n = 2 ^ 63"
  have "(5::int) dvd 5000000 * 2 ^ n" by (simp add: dvd_mult2)
  then have "(5::int) dvd 2 ^ 63" by (simp only: eq)
  then show False by (simp add: power2_63)
qed

lemma sint_small: "0 \<le> x \<Longrightarrow> x < 2 ^ 63 \<Longrightarrow> sint (word_of_int x :: 64 word) = x"
  by (simp add: sint_sbintrunc' signed_take_bit_int_eq_self)

lemma item_When_default:
  "fst (item_When 5000000 1000000000000 item failures) =
     min (5000000 * 2 ^ item_failures failures item) 1000000000000"
proof -
  let ?b = "(5000000::int) * 2 ^ item_failures failures item"
  show ?thesis
  proof (cases "?b > 2 ^ 63")
    case True
    then show ?thesis by (simp add: item_When_def Let_def power2_63)
  next
    case False
    then have "?b < 2 ^ 63" using base_not_limit [of "item_failures failures item"] by linarith
    then have "sint (word_of_int ?b :: 64 word) = ?b" by (intro sint_small) auto
    then show ?thesis using False by (simp add: item_When_def Let_def)
  qed
qed

lemma item_When_failures:
  "snd (item_When b m item failures) = failures(item \<mapsto> item_failures failures item + 1)"
  by (simp add: item_When_def Let_def)

section \<open>Properties\<close>

text \<open>
  C14. No wake-up is lost: in every reachable state of the queue, if items are queued, either
  no consumer is asleep or at least as many consumers are awake to take them as there are
  items; after the shut-down no consumer sleeps, and the goroutine that drains the queue
  sleeps only while an item is being processed.
\<close>

theorem wq_no_lost_wakeup:
  assumes "cv_step\<^sup>*\<^sup>* cv_init s"
  shows "(cv_waiting s = {} \<or> length (wq_queue (cv_q s)) \<le> card (cv_woken s)) \<and>
    (wq_shuttingDown (cv_q s) \<longrightarrow> cv_waiting s = {}) \<and>
    (cv_drainer s = DrainWaiting \<longrightarrow> wq_processing (cv_q s) \<noteq> {})"
  using cv.steps_inv [OF assms cv_inv_init] by (auto simp: cv_inv_def)

text \<open>
  C34. The back-off of the default limiter: the delay of an item that has failed \<open>n\<close> times since
  it was last forgotten is at least five milliseconds doubled \<open>n\<close> times, capped at a thousand
  seconds, it is exactly that unless the token bucket asks for more, every call counts one
  failure of this item only, and forgetting an item starts it anew.
\<close>

theorem controller_backoff:
  "controller_When Reserve item rl =
     (max (min (5000000 * 2 ^ controller_NumRequeues item rl) 1000000000000) (fst (Reserve (rl_bucket rl))),
      \<lparr>rl_failures = (rl_failures rl)(item \<mapsto> controller_NumRequeues item rl + 1),
       rl_bucket = snd (Reserve (rl_bucket rl))\<rparr>) \<and>
   controller_NumRequeues item (controller_Forget item rl) = 0 \<and>
   (\<forall>other. other \<noteq> item \<longrightarrow>
      controller_NumRequeues other (controller_Forget item rl) = controller_NumRequeues other rl)"
proof -
  let ?w = "item_When 5000000 1000000000000 item (rl_failures rl)"
  have w: "?w = (min (5000000 * 2 ^ controller_NumRequeues item rl) 1000000000000,
      (rl_failures rl)(item \<mapsto> controller_NumRequeues item rl + 1))"
    using item_When_default [of item "rl_failures rl"] item_When_failures [of _ _ item "rl_failures rl"]
    by (simp add: controller_NumRequeues_def prod_eq_iff)
  have pos: "(0::int) < min (5000000 * 2 ^ controller_NumRequeues item rl) 1000000000000"
    by simp
  show ?thesis
    using pos
    by (auto simp: controller_When_def w controller_NumRequeues_def controller_Forget_def
        item_Forget_def item_failures_def Let_def max_def split: prod.splits)
qed

text \<open>
  C33. A retry is never lost and never late by a second request: while the queue is open, each
  step of the waiting loop leaves every delayed item delayed or makes it pending, and adding a
  delay to an item that already waits keeps one entry for it, at the earlier of the two times.
\<close>

theorem delayed_not_lost:
  assumes "dq_step now q q'" and "\<not> wq_shuttingDown (dq_q q)"
  shows "dq_delayed q \<subseteq> dq_delayed q' \<union> wq_dirty (dq_q q') \<and>
    (distinct (map wf_data (dq_waiting q)) \<longrightarrow>
      distinct (map wf_data (dq_insert entry (dq_waiting q))) \<and>
      map_of (map (\<lambda>e. (wf_data e, wf_readyAt e)) (dq_insert entry (dq_waiting q))) (wf_data entry) =
        Some (case map_of (map (\<lambda>e. (wf_data e, wf_readyAt e)) (dq_waiting q)) (wf_data entry) of
          None \<Rightarrow> wf_readyAt entry
        | Some t \<Rightarrow> min t (wf_readyAt entry)))"
  using dq_step_keeps [OF assms(1) _ assms(2)] dq_insert_distinct dq_insert_min by blast

section \<open>Witnesses\<close>

theorem wq_no_lost_wakeup_witness:
  "\<exists>s :: nat cv_state. cv_step\<^sup>*\<^sup>* cv_init s \<and> cv_waiting s = {7} \<and>
     wq_queue (cv_q s) = [] \<and> length (wq_queue (cv_q s)) \<le> card (cv_woken s)"
proof -
  let ?i = "cv_init :: nat cv_state"
  let ?s = "?i\<lparr>cv_waiting := insert 7 (cv_waiting ?i)\<rparr>"
  have "cv_step cv_init ?s"
    by (rule cv_step.get_wait) (simp_all add: cv_init_def newQueue_def wq_Get_def)
  then have r: "cv_step\<^sup>*\<^sup>* cv_init ?s" by blast
  have w: "cv_waiting ?s = {7}" and q: "wq_queue (cv_q ?s) = []"
    by (simp_all add: cv_init_def newQueue_def)
  have "length (wq_queue (cv_q ?s)) \<le> card (cv_woken ?s)"
    using wq_no_lost_wakeup [OF r] w by blast
  then show ?thesis using r w q by blast
qed

theorem controller_backoff_witness:
  "fst (controller_When (\<lambda>b. (0, b)) ''ns/a'' \<lparr>rl_failures = [''ns/a'' \<mapsto> 3], rl_bucket = ()\<rparr>) = 40000000 \<and>
   fst (controller_When (\<lambda>b. (0, b)) ''ns/a'' \<lparr>rl_failures = [''ns/a'' \<mapsto> 100], rl_bucket = ()\<rparr>) = 1000000000000"
  using controller_backoff [of "\<lambda>b. (0, b)" "''ns/a''" "\<lparr>rl_failures = [''ns/a'' \<mapsto> 3], rl_bucket = ()\<rparr>"]
    controller_backoff [of "\<lambda>b. (0, b)" "''ns/a''" "\<lparr>rl_failures = [''ns/a'' \<mapsto> 100], rl_bucket = ()\<rparr>"]
  by (simp add: controller_NumRequeues_def item_failures_def)

definition example_delayed :: "nat delayingType" where
  "example_delayed = \<lparr>dq_q = newQueue, dq_waitingForAddCh = [],
     dq_waiting = [\<lparr>wf_data = 1, wf_readyAt = 10\<rparr>, \<lparr>wf_data = 2, wf_readyAt = 20\<rparr>]\<rparr>"

theorem delayed_not_lost_witness:
  "\<exists>q'. dq_step 15 example_delayed q' \<and> dq_delayed example_delayed \<subseteq> dq_delayed q' \<union> wq_dirty (dq_q q')"
proof -
  let ?e = "\<lparr>wf_data = 1, wf_readyAt = 10\<rparr> :: nat waitFor"
  let ?q = "example_delayed\<lparr>dq_waiting := remove1 ?e (dq_waiting example_delayed),
      dq_q := wq_Add (wf_data ?e) (dq_q example_delayed)\<rparr>"
  have s: "dq_step 15 example_delayed ?q"
    by (rule dq_step.pop_ready) (auto simp: example_delayed_def)
  have o: "\<not> wq_shuttingDown (dq_q example_delayed)" by (simp add: example_delayed_def newQueue_def)
  show ?thesis using s delayed_not_lost [OF s o] by blast
qed

end
