(* ===== verification/Controller.thy ===== *)
theory Controller
  imports Lister WorkQueue
begin

text \<open>
  The generic controller of \<^verbatim>\<open>pkg/controller/generic.go\<close>: informer events put the keys of changed
  objects on a rate-limited work queue, workers take keys off it, look the object up in the
  informer's store and call the reconciler; a failed key is put back after a delay. The
  event handlers, \<^verbatim>\<open>reconcile\<close> and the processing of one item are functions; \<^verbatim>\<open>Run\<close> with its
  workers is a step relation whose steps are the critical sections of the goroutines and the
  actions of the environment. The lemmas show mutual exclusion of the workers per key, that no
  change is missed, and what is left when \<^verbatim>\<open>Run\<close> returns.
\<close>

section \<open>Data\<close>

text \<open>The queue holds values of any type; the controller itself only adds strings.\<close>

datatype item = StringItem string | OtherItem string

record ControllerOptions =
  opt_Name :: string
  opt_Workers :: nat

record ('obj, 'r, 'b) controller =
  ctl_options :: ControllerOptions
  ctl_reconciler :: "string \<Rightarrow> string \<Rightarrow> 'obj option \<Rightarrow> 'r \<Rightarrow> goerror option \<times> 'r"
  ctl_Accessor :: "'obj \<Rightarrow> goerror + accessor"
  ctl_Reserve :: "'b \<Rightarrow> int \<times> 'b"

text \<open>\<open>typeName\<close> is the \<^verbatim>\<open>%T\<close> rendering of the zero object.\<close>

definition controller_New ::
  "string \<Rightarrow> (string \<Rightarrow> string \<Rightarrow> 'obj option \<Rightarrow> 'r \<Rightarrow> goerror option \<times> 'r) \<Rightarrow>
   ('obj \<Rightarrow> goerror + accessor) \<Rightarrow> ('b \<Rightarrow> int \<times> 'b) \<Rightarrow> ControllerOptions \<Rightarrow>
   ('obj, 'r, 'b) controller" where
  "controller_New typeName reconciler Accessor Reserve options =
     (let options1 = (if opt_Workers options = 0 then options\<lparr>opt_Workers := 2\<rparr> else options);
          options2 = (if length (opt_Name options1) = 0
            then options1\<lparr>opt_Name := typeName @ ''-controller''\<rparr> else options1)
      in \<lparr>ctl_options = options2, ctl_reconciler = reconciler, ctl_Accessor = Accessor,
          ctl_Reserve = Reserve\<rparr>)"

text \<open>
  A worker has not yet been scheduled, is in \<^verbatim>\<open>queue.Get\<close>, reconciles an item, has still to
  call the deferred \<^verbatim>\<open>queue.Done\<close>, has left \<^verbatim>\<open>runWorker\<close> because of the shut-down, or never
  entered it because the context was done before it was scheduled.
\<close>

datatype worker = NotStarted | AtGet | Working item | Finishing item | Exited | Skipped

datatype phase = Syncing | Running | Draining | Joining | RunReturned goerror

record ('obj, 'r, 'b) ctl_state =
  cs_queue :: "item delayingType"
  cs_limiter :: "(item, 'b) rateLimiter"
  cs_store :: "'obj threadSafeMap"
  cs_rstate :: 'r
  cs_errors :: "goerror list"
  cs_ctxErr :: "goerror option"
  cs_synced :: bool
  cs_phase :: phase
  cs_workers :: "worker list"

definition ctl_init :: "'obj threadSafeMap \<Rightarrow> 'r \<Rightarrow> 'b \<Rightarrow> ('obj, 'r, 'b) ctl_state" where
  "ctl_init store r b =
     \<lparr>cs_queue = newDelayingQueue, cs_limiter = \<lparr>rl_failures = Map.empty, rl_bucket = b\<rparr>,
      cs_store = store, cs_rstate = r, cs_errors = [], cs_ctxErr = None, cs_synced = False,
      cs_phase = Syncing, cs_workers = []\<rparr>"

section \<open>Operations\<close>

subsection \<open>Event handlers\<close>

definition HandleError :: "goerror \<Rightarrow> ('obj, 'r, 'b) ctl_state \<Rightarrow> ('obj, 'r, 'b) ctl_state" where
  "HandleError err s = s\<lparr>cs_errors := cs_errors s @ [err]\<rparr>"

definition queue_Add :: "item \<Rightarrow> ('obj, 'r, 'b) ctl_state \<Rightarrow> ('obj, 'r, 'b) ctl_state" where
  "queue_Add item s = s\<lparr>cs_queue := (cs_queue s)\<lparr>dq_q := wq_Add item (dq_q (cs_queue s))\<rparr>\<rparr>"

definition enqueue ::
  "('obj, 'r, 'b) controller \<Rightarrow> 'obj ev_obj \<Rightarrow> ('obj, 'r, 'b) ctl_state \<Rightarrow> ('obj, 'r, 'b) ctl_state" where
  "enqueue c obj s =
     (case MetaNamespaceKeyFunc (ctl_Accessor c) obj of
        Inl err \<Rightarrow> HandleError err s
      | Inr key \<Rightarrow> queue_Add (StringItem key) s)"

datatype 'obj event = OnAdd "'obj ev_obj" | OnUpdate "'obj ev_obj" "'obj ev_obj" | OnDelete "'obj ev_obj"

definition onUpdate ::
  "('obj, 'r, 'b) controller \<Rightarrow> 'obj ev_obj \<Rightarrow> 'obj ev_obj \<Rightarrow> ('obj, 'r, 'b) ctl_state \<Rightarrow>
   ('obj, 'r, 'b) ctl_state" where
  "onUpdate c oldObj newObj s =
     (case (meta_Accessor (ctl_Accessor c) oldObj, meta_Accessor (ctl_Accessor c) newObj) of
        (Inr oldMeta, Inr newMeta) \<Rightarrow>
          if acc_ResourceVersion oldMeta = acc_ResourceVersion newMeta then s
          else enqueue c newObj s
      | (Inl err1, Inl err2) \<Rightarrow> HandleError err2 (HandleError err1 s)
      | (Inl err1, Inr newMeta) \<Rightarrow> HandleError err1 s
      | (Inr oldMeta, Inl err2) \<Rightarrow> HandleError err2 s)"

fun ctl_handle ::
  "('obj, 'r, 'b) controller \<Rightarrow> 'obj event \<Rightarrow> ('obj, 'r, 'b) ctl_state \<Rightarrow> ('obj, 'r, 'b) ctl_state" where
  "ctl_handle c (OnAdd obj) s = enqueue c obj s"
| "ctl_handle c (OnUpdate oldObj newObj) s = onUpdate c oldObj newObj s"
| "ctl_handle c (OnDelete obj) s = enqueue c obj s"

subsection \<open>Processing an item\<close>

definition lister_lookup :: "'obj lister \<Rightarrow> string \<Rightarrow> string \<Rightarrow> goerror + 'obj" where
  "lister_lookup lister namespace name =
     (if length namespace > 0 then namespacedLister_Get (lister_Namespaced lister namespace) name
      else lister_Get lister name)"

definition reconcile ::
  "('obj, 'r, 'b) controller \<Rightarrow> string \<Rightarrow> ('obj, 'r, 'b) ctl_state \<Rightarrow>
   goerror option \<times> ('obj, 'r, 'b) ctl_state" where
  "reconcile c key s =
     (case SplitMetaNamespaceKey key of
        Inl err \<Rightarrow> (None, HandleError (ErrorString (''invalid resource key: '' @ key)) s)
      | Inr (namespace, name) \<Rightarrow>
          (let call = (\<lambda>newObj.
             (let (err, r) = ctl_reconciler c namespace name newObj (cs_rstate s)
              in (err, s\<lparr>cs_rstate := r\<rparr>)))
           in case lister_lookup (cs_store s) namespace name of
                Inl err \<Rightarrow> if \<not> IsNotFound (Some err) then (Some err, s) else call None
              | Inr newObj \<Rightarrow> call (Some newObj)))"

text \<open>\<^verbatim>\<open>queue.AddRateLimited\<close> at time \<open>now\<close>; \<open>None\<close> while it blocks.\<close>

definition AddRateLimited ::
  "('obj, 'r, 'b) controller \<Rightarrow> int \<Rightarrow> item \<Rightarrow> ('obj, 'r, 'b) ctl_state \<Rightarrow>
   ('obj, 'r, 'b) ctl_state option" where
  "AddRateLimited c now item s =
     (let (delay, limiter) = controller_When (ctl_Reserve c) item (cs_limiter s)
      in case dq_AddAfter now item delay (cs_queue s) of
           None \<Rightarrow> None
         | Some q \<Rightarrow> Some (s\<lparr>cs_limiter := limiter, cs_queue := q\<rparr>))"

definition Forget :: "item \<Rightarrow> ('obj, 'r, 'b) ctl_state \<Rightarrow> ('obj, 'r, 'b) ctl_state" where
  "Forget item s = s\<lparr>cs_limiter := controller_Forget item (cs_limiter s)\<rparr>"

text \<open>
  The function literal of \<^verbatim>\<open>runWorker\<close> without its deferred \<^verbatim>\<open>Done\<close>, and the report of its error.
\<close>

definition processItem ::
  "('obj, 'r, 'b) controller \<Rightarrow> int \<Rightarrow> item \<Rightarrow> ('obj, 'r, 'b) ctl_state \<Rightarrow>
   ('obj, 'r, 'b) ctl_state option" where
  "processItem c now item s =
     (case item of
        OtherItem repr \<Rightarrow>
          Some (HandleError (ErrorString (''expected string in workqueue but got '' @ repr)) (Forget item s))
      | StringItem key \<Rightarrow>
          (case reconcile c key s of
             (Some err, s1) \<Rightarrow>
               map_option
                 (HandleError (ErrorString (''error syncing '' @ [CHR 0x27] @ key @ [CHR 0x27] @ '': '' @
                   error_Error err @ '', requeuing'')))
                 (AddRateLimited c now item s1)
           | (None, s1) \<Rightarrow> Some (Forget item s1)))"

subsection \<open>Run\<close>

text \<open>The error of a failed wait for the caches.\<close>

definition syncError :: "goerror option \<Rightarrow> goerror" where
  "syncError ctxErr = (case ctxErr of Some err \<Rightarrow> err | None \<Rightarrow> ErrorString ''cache sync failed'')"

definition set_worker ::
  "nat \<Rightarrow> worker \<Rightarrow> ('obj, 'r, 'b) ctl_state \<Rightarrow> ('obj, 'r, 'b) ctl_state" where
  "set_worker i w s = s\<lparr>cs_workers := (cs_workers s)[i := w]\<rparr>"

definition set_queue ::
  "item workqueue \<Rightarrow> ('obj, 'r, 'b) ctl_state \<Rightarrow> ('obj, 'r, 'b) ctl_state" where
  "set_queue q s = s\<lparr>cs_queue := (cs_queue s)\<lparr>dq_q := q\<rparr>\<rparr>"

inductive ctl_step ::
  "('obj, 'r, 'b) controller \<Rightarrow> ('obj, 'r, 'b) ctl_state \<Rightarrow> ('obj, 'r, 'b) ctl_state \<Rightarrow> bool" for c where
  inform: "ctl_step c s (s\<lparr>cs_store := store\<rparr>)"
| notify: "ctl_step c s (ctl_handle c ev s)"
| delay: "dq_step now (cs_queue s) q \<Longrightarrow> ctl_step c s (s\<lparr>cs_queue := q\<rparr>)"
| cancel: "cs_ctxErr s = None \<Longrightarrow> ctl_step c s (s\<lparr>cs_ctxErr := Some err\<rparr>)"
| synced: "ctl_step c s (s\<lparr>cs_synced := True\<rparr>)"
| sync_done: "cs_phase s = Syncing \<Longrightarrow> cs_synced s \<Longrightarrow>
    ctl_step c s (s\<lparr>cs_phase := Running, cs_workers := replicate (opt_Workers (ctl_options c)) NotStarted\<rparr>)"
| sync_failed: "cs_phase s = Syncing \<Longrightarrow> cs_ctxErr s \<noteq> None \<Longrightarrow>
    ctl_step c s (s\<lparr>cs_phase := RunReturned (syncError (cs_ctxErr s))\<rparr>)"
| worker_start: "i < length (cs_workers s) \<Longrightarrow> cs_workers s ! i = NotStarted \<Longrightarrow> cs_ctxErr s = None \<Longrightarrow>
    ctl_step c s (set_worker i AtGet s)"
| worker_skip: "i < length (cs_workers s) \<Longrightarrow> cs_workers s ! i = NotStarted \<Longrightarrow> cs_ctxErr s \<noteq> None \<Longrightarrow>
    ctl_step c s (set_worker i Skipped s)"
| get_item: "i < length (cs_workers s) \<Longrightarrow> cs_workers s ! i = AtGet \<Longrightarrow>
    wq_Get (dq_q (cs_queue s)) = Some (Some item, q) \<Longrightarrow>
    ctl_step c s (set_worker i (Working item) (set_queue q s))"
| get_shutdown: "i < length (cs_workers s) \<Longrightarrow> cs_workers s ! i = AtGet \<Longrightarrow>
    wq_Get (dq_q (cs_queue s)) = Some (None, q) \<Longrightarrow>
    ctl_step c s (set_worker i Exited (set_queue q s))"
| process: "i < length (cs_workers s) \<Longrightarrow> cs_workers s ! i = Working item \<Longrightarrow>
    processItem c now item s = Some s1 \<Longrightarrow> ctl_step c s (set_worker i (Finishing item) s1)"
| finish: "i < length (cs_workers s) \<Longrightarrow> cs_workers s ! i = Finishing item \<Longrightarrow>
    ctl_step c s (set_worker i AtGet (set_queue (wq_Done item (dq_q (cs_queue s))) s))"
| ctx_done: "cs_phase s = Running \<Longrightarrow> cs_ctxErr s \<noteq> None \<Longrightarrow>
    ctl_step c s ((set_queue (wq_StartDrain (dq_q (cs_queue s))) s)\<lparr>cs_phase := Draining\<rparr>)"
| drained: "cs_phase s = Draining \<Longrightarrow> \<not> wq_draining (dq_q (cs_queue s)) \<Longrightarrow>
    ctl_step c s (s\<lparr>cs_phase := Joining\<rparr>)"
| run_return: "cs_phase s = Joining \<Longrightarrow> set (cs_workers s) \<subseteq> {Exited, Skipped} \<Longrightarrow>
    cs_ctxErr s = Some err \<Longrightarrow> ctl_step c s (s\<lparr>cs_phase := RunReturned err\<rparr>)"

section \<open>The invariant\<close>

fun held :: "worker \<Rightarrow> item option" where
  "held (Working item) = Some item"
| "held (Finishing item) = Some item"
| "held w = None"

fun active :: "worker \<Rightarrow> bool" where
  "active AtGet = True"
| "active (Working item) = True"
| "active (Finishing item) = True"
| "active w = False"

definition is_string :: "item \<Rightarrow> bool" where
  "is_string item \<longleftrightarrow> (\<exists>key. item = StringItem key)"

text \<open>
  The queue keeps its own invariant and holds strings only; the items being processed are
  those the workers hold, each held once; only a shut-down ends a worker, and then a worker
  is left that will take what is still queued, or nothing is queued.
\<close>

definition held_ok :: "item set \<Rightarrow> worker list \<Rightarrow> bool" where
  "held_ok busy ws \<longleftrightarrow>
     (\<forall>x. x \<in> busy \<longleftrightarrow> (\<exists>i < length ws. held (ws ! i) = Some x)) \<and>
     (\<forall>i < length ws. \<forall>j < length ws. held (ws ! i) = held (ws ! j) \<longrightarrow> held (ws ! i) \<noteq> None \<longrightarrow> i = j)"

definition strings_ok :: "item delayingType \<Rightarrow> bool" where
  "strings_ok q \<longleftrightarrow> (\<forall>x \<in> wq_dirty (dq_q q) \<union> wq_processing (dq_q q) \<union> dq_delayed q. is_string x)"

definition exit_ok :: "item workqueue \<Rightarrow> worker list \<Rightarrow> bool" where
  "exit_ok q ws \<longleftrightarrow> (Exited \<in> set ws \<longrightarrow>
     wq_shuttingDown q \<and> (wq_queue q = [] \<or> (\<exists>w \<in> set ws. active w)))"

definition phase_ok :: "item workqueue \<Rightarrow> worker list \<Rightarrow> phase \<Rightarrow> bool" where
  "phase_ok q ws ph \<longleftrightarrow>
     (ph = Syncing \<longrightarrow> ws = []) \<and>
     (wq_shuttingDown q \<longrightarrow> ph \<notin> {Syncing, Running}) \<and>
     (\<forall>err. ph = RunReturned err \<longrightarrow> set ws \<subseteq> {Exited, Skipped})"

definition ctl_ok :: "item delayingType \<Rightarrow> worker list \<Rightarrow> phase \<Rightarrow> bool" where
  "ctl_ok q ws ph \<longleftrightarrow> wq_inv (dq_q q) \<and> strings_ok q \<and> held_ok (wq_processing (dq_q q)) ws \<and>
     exit_ok (dq_q q) ws \<and> phase_ok (dq_q q) ws ph"

definition ctl_inv :: "('obj, 'r, 'b) ctl_state \<Rightarrow> bool" where
  "ctl_inv s \<longleftrightarrow> ctl_ok (cs_queue s) (cs_workers s) (cs_phase s)"

lemmas ctl_ok_defs = ctl_ok_def strings_ok_def exit_ok_def phase_ok_def

lemma ctl_inv_init: "ctl_inv (ctl_init store r b)"
  by (simp add: ctl_inv_def ctl_init_def ctl_ok_defs held_ok_def newDelayingQueue_def
      dq_delayed_def wq_inv_new) (simp add: newQueue_def)

lemma wq_Add_closed: "wq_shuttingDown q \<Longrightarrow> wq_Add x q = q"
  by (simp add: wq_Add_def)

subsection \<open>Operations that do not move workers\<close>

lemma ctl_ok_add:
  assumes "ctl_ok q ws ph" and "is_string x"
  shows "ctl_ok (q\<lparr>dq_q := wq_Add x (dq_q q)\<rparr>) ws ph"
proof (cases "wq_shuttingDown (dq_q q)")
  case True
  then show ?thesis using assms by (simp add: wq_Add_closed)
next
  case False
  then show ?thesis
    using assms by (auto simp: ctl_ok_defs wq_fields wq_inv_Add dq_delayed_def)
qed

lemma ctl_ok_delayed:
  assumes "ctl_ok q ws ph" and "dq_q q' = dq_q q" and "\<forall>x \<in> dq_delayed q'. x \<in> dq_delayed q \<or> is_string x"
  shows "ctl_ok q' ws ph"
  using assms by (auto simp: ctl_ok_defs)

lemma ctl_ok_dq_step:
  assumes "ctl_ok q ws ph" and "dq_step now q q'"
  shows "ctl_ok q' ws ph"
  using assms(2)
proof (cases rule: dq_step.cases)
  case (receive_later entry rest)
  then show ?thesis
    by (intro ctl_ok_delayed [OF assms(1)]) (auto simp: dq_delayed_def dq_insert_data)
next
  case (receive_ready entry rest)
  let ?q = "q\<lparr>dq_waitingForAddCh := rest\<rparr>"
  have "ctl_ok ?q ws ph"
    by (rule ctl_ok_delayed [OF assms(1)]) (auto simp: dq_delayed_def receive_ready)
  moreover have "is_string (wf_data entry)"
    using assms(1) receive_ready by (auto simp: ctl_ok_defs dq_delayed_def)
  ultimately show ?thesis using ctl_ok_add [of ?q] receive_ready by simp
next
  case (pop_ready entry)
  let ?q = "q\<lparr>dq_waiting := remove1 entry (dq_waiting q)\<rparr>"
  have "ctl_ok ?q ws ph"
    by (rule ctl_ok_delayed [OF assms(1)])
      (auto simp: dq_delayed_def dest!: notin_set_remove1 [rotated] dest: set_remove1_subset [THEN subsetD])
  moreover have "is_string (wf_data entry)"
    using assms(1) pop_ready by (auto simp: ctl_ok_defs dq_delayed_def)
  ultimately show ?thesis using ctl_ok_add [of ?q] pop_ready by simp
qed

lemma ctl_ok_AddAfter:
  assumes "ctl_ok q ws ph" and "is_string x" and "dq_AddAfter now x d q = Some q'"
  shows "ctl_ok q' ws ph"
proof -
  consider "q' = q" | "q' = q\<lparr>dq_q := wq_Add x (dq_q q)\<rparr>"
    | e where "q' = q\<lparr>dq_waitingForAddCh := dq_waitingForAddCh q @ [e]\<rparr>" "wf_data e = x"
    using assms(3) by (auto simp: dq_AddAfter_def split: if_splits)
  then show ?thesis
  proof cases
    case 3
    then show ?thesis
      using assms(2) by (intro ctl_ok_delayed [OF assms(1)]) (auto simp: dq_delayed_def)
  qed (use assms ctl_ok_add in simp_all)
qed

lemma ctl_handle_queue:
  "cs_workers (ctl_handle c ev s) = cs_workers s \<and> cs_phase (ctl_handle c ev s) = cs_phase s \<and>
   (cs_queue (ctl_handle c ev s) = cs_queue s \<or>
    (\<exists>key. cs_queue (ctl_handle c ev s) =
       (cs_queue s)\<lparr>dq_q := wq_Add (StringItem key) (dq_q (cs_queue s))\<rparr>))"
  by (cases ev) (auto simp: enqueue_def onUpdate_def HandleError_def queue_Add_def split: sum.splits)

lemma reconcile_frame:
  "reconcile c key s = (err, s') \<Longrightarrow>
     cs_workers s' = cs_workers s \<and> cs_phase s' = cs_phase s \<and> cs_queue s' = cs_queue s"
  by (auto simp: reconcile_def HandleError_def Let_def split: sum.splits prod.splits if_splits)

lemma processItem_queue:
  assumes "processItem c now item s = Some s'"
  shows "cs_workers s' = cs_workers s \<and> cs_phase s' = cs_phase s \<and>
    (cs_queue s' = cs_queue s \<or> (\<exists>d. dq_AddAfter now item d (cs_queue s) = Some (cs_queue s')))"
proof (cases item)
  case (OtherItem repr)
  then show ?thesis using assms by (auto simp: processItem_def HandleError_def Forget_def)
next
  case (StringItem key)
  obtain err s1 where r: "reconcile c key s = (err, s1)" by (rule prod.exhaust)
  show ?thesis
    using assms reconcile_frame [OF r]
    by (cases err)
      (auto simp: processItem_def StringItem r Forget_def AddRateLimited_def HandleError_def
        split: prod.splits option.splits)
qed

subsection \<open>Steps of the workers\<close>

lemma held_update:
  assumes "i < length ws"
  shows "(\<exists>j < length ws. held (ws[i := w] ! j) = Some y) \<longleftrightarrow>
    held w = Some y \<or> (\<exists>j < length ws. j \<noteq> i \<and> held (ws ! j) = Some y)"
  using assms by (metis nth_list_update_eq nth_list_update_neq)

lemma held_ok_unheld:
  assumes "held_ok busy ws" and "i < length ws" and "held (ws ! i) = None" and "held w = None"
  shows "held_ok busy (ws[i := w])"
proof -
  have "held (ws[i := w] ! j) = held (ws ! j)" if "j < length ws" for j
    using that assms by (cases "j = i") auto
  then show ?thesis using assms(1) by (auto simp: held_ok_def)
qed

lemma held_ok_same:
  assumes "held_ok busy ws" and "i < length ws" and "held w = held (ws ! i)"
  shows "held_ok busy (ws[i := w])"
proof -
  have "held (ws[i := w] ! j) = held (ws ! j)" if "j < length ws" for j
    using that assms by (cases "j = i") auto
  then show ?thesis using assms(1) by (auto simp: held_ok_def)
qed

lemma held_ok_take:
  assumes "held_ok busy ws" and "i < length ws" and "held (ws ! i) = None" and "x \<notin> busy"
  shows "held_ok (insert x busy) (ws[i := Working x])"
proof -
  have free: "held (ws ! j) \<noteq> Some x" if "j < length ws" for j
    using assms(1,4) that by (auto simp: held_ok_def)
  have "y \<in> insert x busy \<longleftrightarrow> (\<exists>j < length ws. held (ws[i := Working x] ! j) = Some y)" for y
  proof -
    have "(\<exists>j < length ws. held (ws[i := Working x] ! j) = Some y) \<longleftrightarrow>
        y = x \<or> (\<exists>j < length ws. held (ws ! j) = Some y)"
      unfolding held_update [OF assms(2)] using assms(3) by auto
    then show ?thesis using assms(1) by (simp add: held_ok_def)
  qed
  moreover have "j = k" if "j < length ws" "k < length ws"
      "held (ws[i := Working x] ! j) = held (ws[i := Working x] ! k)" "held (ws[i := Working x] ! j) \<noteq> None" for j k
    using assms(1,2) that free [of j] free [of k]
    by (auto simp: held_ok_def nth_list_update split: if_splits)
  ultimately show ?thesis by (simp add: held_ok_def)
qed

lemma held_ok_finish:
  assumes "held_ok busy ws" and "i < length ws" and "held (ws ! i) = Some x"
  shows "held_ok (busy - {x}) (ws[i := AtGet])"
proof -
  have only: "held (ws ! j) \<noteq> Some x" if "j < length ws" "j \<noteq> i" for j
    using assms that by (auto simp: held_ok_def)
  have "y \<in> busy - {x} \<longleftrightarrow> (\<exists>j < length ws. held (ws[i := AtGet] ! j) = Some y)" for y
  proof -
    have "(\<exists>j < length ws. held (ws[i := AtGet] ! j) = Some y) \<longleftrightarrow>
        y \<noteq> x \<and> (\<exists>j < length ws. held (ws ! j) = Some y)"
      unfolding held_update [OF assms(2)] using assms(3) only by auto
    then show ?thesis using assms(1) by (auto simp: held_ok_def)
  qed
  moreover have "j = k" if "j < length ws" "k < length ws"
      "held (ws[i := AtGet] ! j) = held (ws[i := AtGet] ! k)" "held (ws[i := AtGet] ! j) \<noteq> None" for j k
    using assms(1,2) that by (auto simp: held_ok_def nth_list_update split: if_splits)
  ultimately show ?thesis by (simp add: held_ok_def)
qed

lemma active_update:
  assumes "\<exists>w \<in> set ws. active w" and "i < length ws" and "\<not> active (ws ! i)"
  shows "\<exists>w \<in> set (ws[i := w']). active w"
proof -
  obtain j where "j < length ws" and "active (ws ! j)"
    using assms(1) by (auto simp: in_set_conv_nth)
  with assms(3) have "j < length (ws[i := w'])" and "active (ws[i := w'] ! j)"
    by (cases "j = i"; simp)+
  then show ?thesis using nth_mem by blast
qed

lemma Exited_update: "Exited \<in> set (ws[i := w]) \<Longrightarrow> w = Exited \<or> Exited \<in> set ws"
  using set_update_subset_insert [of ws i w] by auto

text \<open>A worker that moves: it stays active, ends on an empty closed queue, or never starts.\<close>

lemma ctl_ok_worker:
  assumes "ctl_ok q ws ph" and i: "i < length ws" and "ws ! i \<notin> {Exited, Skipped}"
    and "wq_inv (dq_q q')" and "strings_ok q'" and "held_ok (wq_processing (dq_q q')) (ws[i := w])"
    and sd: "wq_shuttingDown (dq_q q') = wq_shuttingDown (dq_q q)"
    and w: "active w \<or> (w = Exited \<and> wq_queue (dq_q q') = [] \<and> wq_shuttingDown (dq_q q')) \<or>
      (w = Skipped \<and> \<not> active (ws ! i) \<and> wq_queue (dq_q q') = wq_queue (dq_q q))"
  shows "ctl_ok q' (ws[i := w]) ph"
proof -
  have mem: "w \<in> set (ws[i := w])" using i by (rule set_update_memI)
  have "ws ! i \<in> set ws" using i by simp
  then have ph: "ph \<noteq> Syncing" "\<And>err. ph \<noteq> RunReturned err"
    using assms(1,3) by (auto simp: ctl_ok_defs)
  have "exit_ok (dq_q q') (ws[i := w])"
    using w
  proof (elim disjE conjE)
    assume "active w"
    moreover have "exit_ok (dq_q q) ws" using assms(1) by (simp add: ctl_ok_def)
    ultimately show ?thesis
      using mem sd Exited_update [of ws i w] by (auto simp: exit_ok_def)
  next
    assume "w = Exited" and "wq_queue (dq_q q') = []" and "wq_shuttingDown (dq_q q')"
    then show ?thesis by (simp add: exit_ok_def)
  next
    assume "w = Skipped" and na: "\<not> active (ws ! i)" and "wq_queue (dq_q q') = wq_queue (dq_q q)"
    moreover have "exit_ok (dq_q q) ws" using assms(1) by (simp add: ctl_ok_def)
    ultimately show ?thesis
      using sd Exited_update [of ws i w] active_update [OF _ i na, of w]
      unfolding exit_ok_def by (metis worker.distinct(29))
  qed
  then show ?thesis
    using assms ph by (auto simp: ctl_ok_def phase_ok_def)
qed

lemma ctl_ok_get:
  assumes ok: "ctl_ok q ws ph" and i: "i < length ws" and at: "ws ! i = AtGet"
    and get: "wq_Get (dq_q q) = Some (Some x, q1)"
  shows "ctl_ok (q\<lparr>dq_q := q1\<rparr>) (ws[i := Working x]) ph"
proof -
  have inv: "wq_inv (dq_q q)" and held: "held_ok (wq_processing (dq_q q)) ws" and str: "strings_ok q"
    using ok by (simp_all add: ctl_ok_def)
  note take = wq.take_item [OF inv get]
  have "held_ok (wq_processing q1) (ws[i := Working x])"
    using held_ok_take [OF held i] at take by simp
  moreover have "strings_ok (q\<lparr>dq_q := q1\<rparr>)"
    using str take by (auto simp: strings_ok_def dq_delayed_def)
  ultimately show ?thesis
    using take at by (intro ctl_ok_worker [OF ok i]) auto
qed

lemma ctl_ok_finish:
  assumes ok: "ctl_ok q ws ph" and i: "i < length ws" and at: "ws ! i = Finishing x"
  shows "ctl_ok (q\<lparr>dq_q := wq_Done x (dq_q q)\<rparr>) (ws[i := AtGet]) ph"
proof -
  have inv: "wq_inv (dq_q q)" and held: "held_ok (wq_processing (dq_q q)) ws" and str: "strings_ok q"
    using ok by (simp_all add: ctl_ok_def)
  have x: "held (ws ! i) = Some x" by (simp add: at)
  then have busy: "x \<in> wq_processing (dq_q q)" using held i by (auto simp: held_ok_def)
  have "held_ok (wq_processing (wq_Done x (dq_q q))) (ws[i := AtGet])"
    using held_ok_finish [OF held i x] by (simp add: wq.finish_busy)
  moreover have "strings_ok (q\<lparr>dq_q := wq_Done x (dq_q q)\<rparr>)"
    using str by (auto simp: strings_ok_def dq_delayed_def wq_fields)
  ultimately show ?thesis
    using at by (intro ctl_ok_worker [OF ok i]) (auto simp: wq_fields wq.finish_ok [OF inv busy])
qed

lemma ctl_ok_process:
  assumes ok: "ctl_ok q ws ph" and i: "i < length ws" and at: "ws ! i = Working x"
    and q': "q' = q \<or> (\<exists>d. dq_AddAfter now x d q = Some q')"
  shows "ctl_ok q' (ws[i := Finishing x]) ph"
proof -
  have held: "held_ok (wq_processing (dq_q q)) ws" using ok by (simp add: ctl_ok_def)
  have "held (ws ! i) = Some x" by (simp add: at)
  then have "x \<in> wq_processing (dq_q q)" using held i by (auto simp: held_ok_def)
  moreover have "strings_ok q" using ok by (simp add: ctl_ok_def)
  ultimately have "is_string x" by (simp add: strings_ok_def)
  then have ok': "ctl_ok q' ws ph" using ok q' ctl_ok_AddAfter by blast
  have "held_ok (wq_processing (dq_q q')) (ws[i := Finishing x])"
    using ok' i at by (intro held_ok_same) (auto simp: ctl_ok_def)
  then show ?thesis
    using ok' at by (intro ctl_ok_worker [OF ok' i]) (auto simp: ctl_ok_def)
qed

lemma ctl_ok_start:
  assumes ok: "ctl_ok q ws ph" and i: "i < length ws" and at: "ws ! i = NotStarted"
    and w: "w \<in> {AtGet, Skipped}"
  shows "ctl_ok q (ws[i := w]) ph"
  using ok i at w held_ok_unheld [of _ ws i w]
  by (intro ctl_ok_worker [OF ok i]) (auto simp: ctl_ok_def)

lemma ctl_ok_shutdown:
  assumes ok: "ctl_ok q ws ph" and i: "i < length ws" and at: "ws ! i = AtGet"
    and get: "wq_Get (dq_q q) = Some (None, q1)"
  shows "ctl_ok (q\<lparr>dq_q := q1\<rparr>) (ws[i := Exited]) ph"
proof -
  have q1: "q1 = dq_q q" "wq_shuttingDown (dq_q q)" using wq.take_end [OF get] by auto
  have "wq_queue (dq_q q) = []" using get by (auto simp: wq_Get_def split: list.splits)
  then show ?thesis
    using ok i at q1 held_ok_unheld [of _ ws i Exited]
    by (intro ctl_ok_worker [OF ok i]) (auto simp: ctl_ok_def)
qed

lemma ctl_ok_phase:
  assumes "ctl_ok q ws ph" and "phase_ok (dq_q q) ws ph'"
  shows "ctl_ok q ws ph'"
  using assms by (simp add: ctl_ok_def)

lemma ctl_ok_drain:
  assumes "ctl_ok q ws Running"
  shows "ctl_ok (q\<lparr>dq_q := wq_StartDrain (dq_q q)\<rparr>) ws Draining"
  using assms by (auto simp: ctl_ok_defs wq_fields wq_inv_StartDrain dq_delayed_def)

lemma held_ok_replicate: "held_ok busy [] \<Longrightarrow> held_ok busy (replicate n NotStarted)"
  by (auto simp: held_ok_def)

lemma ctl_inv_step: "ctl_step c s t \<Longrightarrow> ctl_inv s \<Longrightarrow> ctl_inv t"
proof (induction rule: ctl_step.induct)
  case (notify s ev)
  then show ?case
    using ctl_handle_queue [of c ev s] ctl_ok_add [of "cs_queue s" "cs_workers s" "cs_phase s"]
    by (auto simp: ctl_inv_def is_string_def)
next
  case (delay now s q)
  then show ?case by (simp add: ctl_inv_def ctl_ok_dq_step)
next
  case (sync_done s)
  then have "cs_workers s = []" by (auto simp: ctl_inv_def ctl_ok_defs)
  with sync_done show ?case
    using held_ok_replicate by (auto simp: ctl_inv_def ctl_ok_defs)
next
  case (process i s item now s1)
  then show ?case
    using processItem_queue [OF process(3)]
    by (auto simp: ctl_inv_def set_worker_def intro: ctl_ok_process)
next
  case (sync_failed s)
  then show ?case by (auto simp: ctl_inv_def phase_ok_def ctl_ok_def)
next
  case (drained s)
  then show ?case by (auto simp: ctl_inv_def phase_ok_def ctl_ok_def)
next
  case (run_return s err)
  then show ?case by (auto simp: ctl_inv_def phase_ok_def ctl_ok_def)
next
  case (ctx_done s)
  then show ?case by (simp add: ctl_inv_def set_queue_def ctl_ok_drain)
qed (simp_all add: ctl_inv_def set_worker_def set_queue_def ctl_ok_start ctl_ok_get ctl_ok_finish
    ctl_ok_shutdown)

interpretation ctl: step_invariant "ctl_step c" ctl_inv for c
  by unfold_locales (rule ctl_inv_step)

section \<open>Lemmas\<close>

lemma reachable_inv: "(ctl_step c)\<^sup>*\<^sup>* (ctl_init store r b) s \<Longrightarrow> ctl_inv s"
  by (erule ctl.steps_inv) (rule ctl_inv_init)

lemma dirty_Add: "wq_dirty q \<subseteq> wq_dirty (wq_Add x q)"
  by (auto simp: wq_fields)

lemma dirty_dq_step: "dq_step now q q' \<Longrightarrow> wq_dirty (dq_q q) \<subseteq> wq_dirty (dq_q q')"
  by (induction rule: dq_step.induct) (auto simp: wq_fields)

lemma dirty_AddAfter: "dq_AddAfter now x d q = Some q' \<Longrightarrow> wq_dirty (dq_q q) \<subseteq> wq_dirty (dq_q q')"
  by (auto simp: dq_AddAfter_def wq_fields split: if_splits)

abbreviation pending :: "('obj, 'r, 'b) ctl_state \<Rightarrow> item set" where
  "pending s \<equiv> wq_dirty (dq_q (cs_queue s))"

text \<open>A worker takes an item in a step.\<close>

definition takes :: "item \<Rightarrow> ('obj, 'r, 'b) ctl_state \<Rightarrow> ('obj, 'r, 'b) ctl_state \<Rightarrow> bool" where
  "takes x s t \<longleftrightarrow> (\<exists>i < length (cs_workers s). cs_workers s ! i = AtGet \<and> cs_workers t ! i = Working x)"

lemma pending_step: "ctl_step c s t \<Longrightarrow> ctl_inv s \<Longrightarrow> x \<in> pending s \<Longrightarrow> x \<in> pending t \<or> takes x s t"
proof (induction rule: ctl_step.induct)
  case (notify s ev)
  then show ?case
    using ctl_handle_queue [of c ev s] dirty_Add [of "dq_q (cs_queue s)"] by fastforce
next
  case (delay now s q)
  then show ?case using dirty_dq_step by fastforce
next
  case (process i s item now s1)
  then show ?case
    using processItem_queue [OF process(3)] dirty_AddAfter [of now item _ "cs_queue s"]
    by (fastforce simp: set_worker_def)
next
  case (get_item i s item q)
  have "wq_inv (dq_q (cs_queue s))" using get_item by (simp add: ctl_inv_def ctl_ok_def)
  from wq.take_keeps_pending [OF this get_item(3) get_item(5)]
  have keep: "x \<noteq> item \<Longrightarrow> x \<in> wq_dirty q" .
  show ?case
  proof (cases "x = item")
    case True
    then have "takes x s (set_worker i (Working item) (set_queue q s))"
      unfolding takes_def using get_item(1,2)
      by (intro exI [of _ i]) (simp add: set_worker_def set_queue_def)
    then show ?thesis ..
  next
    case False
    then show ?thesis using keep by (simp add: set_worker_def set_queue_def)
  qed
next
  case (get_shutdown i s q)
  then show ?case using wq.take_end [OF get_shutdown(3)] by (simp add: set_worker_def set_queue_def)
qed (simp_all add: set_worker_def set_queue_def wq_fields)

lemma pending_until_taken:
  assumes "(ctl_step c)\<^sup>*\<^sup>* s t" and "ctl_inv s" and "x \<in> pending s"
  shows "x \<in> pending t \<or>
    (\<exists>u u'. (ctl_step c)\<^sup>*\<^sup>* s u \<and> ctl_step c u u' \<and> takes x u u' \<and> (ctl_step c)\<^sup>*\<^sup>* u' t)"
  using assms(1)
proof (induction rule: rtranclp_induct)
  case base
  then show ?case using assms(3) by simp
next
  case (step t t')
  have inv: "ctl_inv t" using ctl.steps_inv [OF step(1) assms(2)] .
  from step.IH show ?case
  proof
    assume "x \<in> pending t"
    from pending_step [OF step(2) inv this] show ?thesis
      using step(1,2) by blast
  next
    assume "\<exists>u u'. (ctl_step c)\<^sup>*\<^sup>* s u \<and> ctl_step c u u' \<and> takes x u u' \<and> (ctl_step c)\<^sup>*\<^sup>* u' t"
    then show ?thesis using step(2) by (meson rtranclp.rtrancl_into_rtrancl)
  qed
qed

lemma enqueue_pending:
  "MetaNamespaceKeyFunc (ctl_Accessor c) obj = Inr key \<Longrightarrow> \<not> wq_shuttingDown (dq_q (cs_queue s)) \<Longrightarrow>
     StringItem key \<in> pending (enqueue c obj s)"
  by (simp add: enqueue_def queue_Add_def wq.added_pending)

text \<open>A failed key can be put back unless a thousand entries wait to be received.\<close>

lemma AddRateLimited_total:
  "length (dq_waitingForAddCh (cs_queue s)) < 1000 \<Longrightarrow> \<exists>s'. AddRateLimited c now item s = Some s'"
  by (cases "controller_When (ctl_Reserve c) item (cs_limiter s)")
    (simp add: AddRateLimited_def dq_AddAfter_def)

lemma AddRateLimited_delayed:
  assumes "AddRateLimited c now item s = Some s'" and "\<not> wq_shuttingDown (dq_q (cs_queue s))"
  shows "item \<in> dq_delayed (cs_queue s') \<union> pending s'"
  using assms
  by (auto simp: AddRateLimited_def dq_AddAfter_def wq_ShuttingDown_def dq_delayed_def wq_fields
      split: prod.splits option.splits if_splits)

text \<open>The context's error, once set, stays, and is what \<^verbatim>\<open>Run\<close> returns.\<close>

definition returns_ctxErr :: "('obj, 'r, 'b) ctl_state \<Rightarrow> bool" where
  "returns_ctxErr s \<longleftrightarrow> (\<forall>err. cs_phase s = RunReturned err \<longrightarrow> cs_ctxErr s = Some err)"

lemma ctl_handle_ctxErr: "cs_ctxErr (ctl_handle c ev s) = cs_ctxErr s"
  by (cases ev) (auto simp: enqueue_def onUpdate_def HandleError_def queue_Add_def split: sum.splits)

lemma reconcile_ctxErr: "reconcile c key s = (err, s') \<Longrightarrow> cs_ctxErr s' = cs_ctxErr s"
  by (auto simp: reconcile_def HandleError_def Let_def split: sum.splits prod.splits if_splits)

lemma processItem_ctxErr:
  "processItem c now item s = Some s' \<Longrightarrow> cs_ctxErr s' = cs_ctxErr s"
  by (auto simp: processItem_def HandleError_def Forget_def AddRateLimited_def dest: reconcile_ctxErr
      split: item.splits prod.splits option.splits)

lemma returns_ctxErr_step: "ctl_step c s t \<Longrightarrow> returns_ctxErr s \<Longrightarrow> returns_ctxErr t"
proof (induction rule: ctl_step.induct)
  case (notify s ev)
  then show ?case
    using ctl_handle_queue [of c ev s] by (simp add: returns_ctxErr_def ctl_handle_ctxErr)
next
  case (process i s item now s1)
  then show ?case
    using processItem_queue [OF process(3)] processItem_ctxErr [OF process(3)]
    by (simp add: returns_ctxErr_def set_worker_def)
qed (auto simp: returns_ctxErr_def set_worker_def set_queue_def syncError_def split: option.splits)

interpretation ctl_err: step_invariant "ctl_step c" returns_ctxErr for c
  by unfold_locales (rule returns_ctxErr_step)

section \<open>Properties\<close>

text \<open>
  C11. Mutual exclusion: in every reachable state of a controller, whatever the number of
  workers, no two of them process the same key.
\<close>

theorem workers_exclusive:
  assumes "(ctl_step c)\<^sup>*\<^sup>* (ctl_init store r b) s"
    and "i < length (cs_workers s)" and "j < length (cs_workers s)" and "i \<noteq> j"
    and "held (cs_workers s ! i) = Some x"
  shows "held (cs_workers s ! j) \<noteq> Some x"
proof -
  have "held_ok (wq_processing (dq_q (cs_queue s))) (cs_workers s)"
    using reachable_inv [OF assms(1)] by (simp add: ctl_inv_def ctl_ok_def)
  with assms(2-5) show ?thesis unfolding held_ok_def by (metis option.distinct(1))
qed

text \<open>
  C9. No change is missed: once an event has enqueued the key of an object, in every later
  state the key is still pending, unless a worker took it after the event (and then looks at
  the store as it is after the event), the shut-down and the drain included.
\<close>

theorem enqueued_until_taken:
  assumes "(ctl_step c)\<^sup>*\<^sup>* (ctl_init store r b) s"
    and "MetaNamespaceKeyFunc (ctl_Accessor c) obj = Inr key"
    and "\<not> wq_shuttingDown (dq_q (cs_queue s))"
    and "(ctl_step c)\<^sup>*\<^sup>* (ctl_handle c (OnAdd obj) s) t"
  shows "StringItem key \<in> pending t \<or>
    (\<exists>u u'. (ctl_step c)\<^sup>*\<^sup>* (ctl_handle c (OnAdd obj) s) u \<and> ctl_step c u u' \<and>
       takes (StringItem key) u u' \<and> (ctl_step c)\<^sup>*\<^sup>* u' t)"
proof (rule pending_until_taken [OF assms(4)])
  show "ctl_inv (ctl_handle c (OnAdd obj) s)"
    using ctl_inv_step [OF ctl_step.notify] reachable_inv [OF assms(1)] by blast
  show "StringItem key \<in> pending (ctl_handle c (OnAdd obj) s)"
    using enqueue_pending [OF assms(2,3)] by simp
qed

text \<open>
  C21. What \<^verbatim>\<open>Run\<close> leaves: it returns the error of its context; and if at least one worker had
  entered its loop, nothing is queued, pending or being processed any more.
\<close>

theorem run_drains:
  assumes "(ctl_step c)\<^sup>*\<^sup>* (ctl_init store r b) s" and "cs_phase s = RunReturned err"
  shows "cs_ctxErr s = Some err \<and>
    (Exited \<in> set (cs_workers s) \<longrightarrow>
       wq_queue (dq_q (cs_queue s)) = [] \<and> wq_processing (dq_q (cs_queue s)) = {} \<and> pending s = {})"
proof -
  let ?q = "dq_q (cs_queue s)"
  have "returns_ctxErr (ctl_init store r b)" by (simp add: returns_ctxErr_def ctl_init_def)
  then have err: "cs_ctxErr s = Some err"
    using ctl_err.steps_inv [OF assms(1)] assms(2) by (simp add: returns_ctxErr_def)
  have inv: "ctl_inv s" using assms(1) by (rule reachable_inv)
  then have stopped: "set (cs_workers s) \<subseteq> {Exited, Skipped}"
    using assms(2) by (simp add: ctl_inv_def ctl_ok_def phase_ok_def)
  have "held (cs_workers s ! i) = None" if "i < length (cs_workers s)" for i
    using stopped nth_mem [OF that] by auto
  then have busy: "wq_processing ?q = {}"
    using inv by (auto simp: ctl_inv_def ctl_ok_def held_ok_def)
  have "wq_queue ?q = []" if "Exited \<in> set (cs_workers s)"
    using inv that stopped by (auto simp: ctl_inv_def ctl_ok_def exit_ok_def)
  moreover have "set (wq_queue ?q) = wq_dirty ?q - wq_processing ?q"
    using inv by (simp add: ctl_inv_def ctl_ok_def wq_inv_def)
  ultimately show ?thesis using err busy by auto
qed

text \<open>
  C31. The reconciler sees the current object: for the key of an object whose namespace and
  name contain no slash, reconciling calls the reconciler with exactly that namespace and name
  and with what the store then holds under the key, or nothing if the object is gone, and
  returns its verdict.
\<close>

theorem reconcile_current:
  assumes "ctl_Accessor c obj = Inr acc"
    and "CHR ''/'' \<notin> set (acc_Namespace acc)" and "CHR ''/'' \<notin> set (acc_Name acc)"
    and "MetaNamespaceKeyFunc (ctl_Accessor c) (EvObject obj) = Inr key"
  shows "reconcile c key s =
    (let (err, r) = ctl_reconciler c (acc_Namespace acc) (acc_Name acc) (tsm_Get key (cs_store s)) (cs_rstate s)
     in (err, s\<lparr>cs_rstate := r\<rparr>))"
proof -
  let ?ns = "acc_Namespace acc" and ?name = "acc_Name acc"
  have key: "key = (if ?ns = '''' then ?name else ?ns @ CHR ''/'' # ?name)"
    using assms(4) by (simp add: MetaNamespaceKeyFunc_object [of "ctl_Accessor c" obj acc, OF assms(1)])
  have split: "SplitMetaNamespaceKey key = Inr (?ns, ?name)"
    using assms(2,3) by (simp add: key SplitMetaNamespaceKey_name SplitMetaNamespaceKey_pair)
  show ?thesis
  proof (cases "lister_lookup (cs_store s) ?ns ?name")
    case (Inr x)
    then have "tsm_Get key (cs_store s) = Some x"
      by (auto simp: lister_lookup_def key lister_Get_Inr namespacedLister_Get_Inr split: if_splits)
    then show ?thesis by (simp add: reconcile_def split Inr)
  next
    case (Inl err)
    then have nf: "IsNotFound (Some err)"
      by (auto simp: lister_lookup_def dest: lister_Get_Inl namespacedLister_Get_Inl split: if_splits)
    have "tsm_Get key (cs_store s) \<noteq> Some x" for x
      using Inl lister_Get_Inr [of "cs_store s" key] namespacedLister_Get_Inr [of "cs_store s" ?ns ?name]
      by (auto simp: lister_lookup_def key split: if_splits)
    then have "tsm_Get key (cs_store s) = None" by auto
    then show ?thesis using nf by (simp add: reconcile_def split Inl)
  qed
qed

text \<open>
  C30. A failure is retried: when the reconciler fails on a key while the queue is open, the
  key waits for its retry or is already pending again when the item has been processed.
\<close>

theorem failure_is_retried:
  assumes "reconcile c key s = (Some err, s1)"
    and "processItem c now (StringItem key) s = Some s2"
    and "\<not> wq_shuttingDown (dq_q (cs_queue s))"
  shows "StringItem key \<in> dq_delayed (cs_queue s2) \<union> pending s2 \<and>
    controller_NumRequeues (StringItem key) (cs_limiter s2) =
      Suc (controller_NumRequeues (StringItem key) (cs_limiter s1))"
proof -
  obtain s3 where a: "AddRateLimited c now (StringItem key) s1 = Some s3"
    and s2: "cs_queue s2 = cs_queue s3" "cs_limiter s2 = cs_limiter s3"
    using assms(1,2) by (auto simp: processItem_def HandleError_def)
  have "cs_queue s1 = cs_queue s" using reconcile_frame [OF assms(1)] by simp
  then have "StringItem key \<in> dq_delayed (cs_queue s2) \<union> pending s2"
    using AddRateLimited_delayed [OF a] assms(3) by (simp add: s2)
  moreover have "controller_NumRequeues (StringItem key) (cs_limiter s3) =
      Suc (controller_NumRequeues (StringItem key) (cs_limiter s1))"
    using a
    by (auto simp: AddRateLimited_def controller_When_def controller_NumRequeues_def item_failures_def
        item_When_def Let_def split: prod.splits option.splits if_splits)
  ultimately show ?thesis by (simp add: s2)
qed

text \<open>
  Events that enqueue nothing: an update that does not change the resource version (a
  resync) leaves the state as it is, and the deletion of an object that the informer reports
  as a tombstone is only logged: its key does not become pending.
\<close>

lemma silent_events:
  "(ctl_Accessor c old = Inr acc1 \<and> ctl_Accessor c new = Inr acc2 \<and>
      acc_ResourceVersion acc1 = acc_ResourceVersion acc2 \<longrightarrow>
      ctl_handle c (OnUpdate (EvObject old) (EvObject new)) s = s) \<and>
   (\<exists>err. ctl_handle c (OnDelete (Tombstone key obj)) s = HandleError err s) \<and>
   pending (ctl_handle c (OnDelete (Tombstone key obj)) s) = pending s"
  by (auto simp: onUpdate_def enqueue_def MetaNamespaceKeyFunc_def HandleError_def)

section \<open>Witnesses\<close>

text \<open>
  A controller of objects that are pairs of a namespace and a name, with one worker; its
  reconciler fails on missing objects and records the others.
\<close>

definition example_reconciler ::
  "string \<Rightarrow> string \<Rightarrow> (string \<times> string) option \<Rightarrow> string list \<Rightarrow> goerror option \<times> string list" where
  "example_reconciler namespace name newObj r =
     (case newObj of None \<Rightarrow> (Some (ErrorString ''gone''), r) | Some obj \<Rightarrow> (None, r @ [snd obj]))"

definition example_controller :: "(string \<times> string, string list, unit) controller" where
  "example_controller = controller_New ''pair'' example_reconciler example_accessor (\<lambda>b. (0, b))
     \<lparr>opt_Name = '''', opt_Workers = 1\<rparr>"

abbreviation example_init :: "(string \<times> string, string list, unit) ctl_state" where
  "example_init \<equiv> ctl_init example_store [] ()"

lemmas example_ctl_simps = example_controller_def controller_New_def example_reconciler_def
  ctl_init_def newDelayingQueue_def newQueue_def enqueue_def queue_Add_def MetaNamespaceKeyFunc_def
  example_accessor_def wq_Add_def set_worker_def set_queue_def wq_Get_def

text \<open>A run in which the one worker takes the key of the one object.\<close>

definition example_event :: "(string \<times> string) event" where
  "example_event = OnAdd (EvObject (''a'', ''x''))"

definition example_enqueued :: "(string \<times> string, string list, unit) ctl_state" where
  "example_enqueued = ctl_handle example_controller example_event example_init"

definition example_running :: "(string \<times> string, string list, unit) ctl_state" where
  "example_running = example_enqueued\<lparr>cs_synced := True, cs_phase := Running,
     cs_workers := [NotStarted]\<rparr>"

definition example_working :: "(string \<times> string, string list, unit) ctl_state" where
  "example_working = set_worker 0 (Working (StringItem ''a/x''))
     (set_queue \<lparr>wq_queue = [], wq_dirty = {}, wq_processing = {StringItem ''a/x''},
        wq_shuttingDown = False, wq_drain = False\<rparr> (set_worker 0 AtGet example_running))"

lemma example_run:
  "(ctl_step example_controller)\<^sup>*\<^sup>* example_enqueued example_running"
  "(ctl_step example_controller)\<^sup>*\<^sup>* example_running example_working"
proof -
  let ?c = example_controller
  have 1: "ctl_step ?c example_enqueued (example_enqueued\<lparr>cs_synced := True\<rparr>)"
    by (rule ctl_step.synced)
  have 2: "ctl_step ?c (example_enqueued\<lparr>cs_synced := True\<rparr>) example_running"
    using ctl_step.sync_done [of "example_enqueued\<lparr>cs_synced := True\<rparr>" ?c]
    by (simp add: example_running_def example_enqueued_def example_event_def example_ctl_simps)
  from 1 2 show "(ctl_step ?c)\<^sup>*\<^sup>* example_enqueued example_running" by auto
  have 3: "ctl_step ?c example_running (set_worker 0 AtGet example_running)"
    by (rule ctl_step.worker_start)
      (simp_all add: example_running_def example_enqueued_def example_event_def example_ctl_simps)
  have 4: "ctl_step ?c (set_worker 0 AtGet example_running) example_working"
    unfolding example_working_def
    by (rule ctl_step.get_item)
      (simp_all add: example_running_def example_enqueued_def example_event_def example_ctl_simps)
  from 3 4 show "(ctl_step ?c)\<^sup>*\<^sup>* example_running example_working" by auto
qed

theorem enqueued_until_taken_witness:
  "StringItem ''a/x'' \<notin> pending example_working \<and>
   (\<exists>u u'. (ctl_step example_controller)\<^sup>*\<^sup>* example_enqueued u \<and> ctl_step example_controller u u' \<and>
      takes (StringItem ''a/x'') u u' \<and> (ctl_step example_controller)\<^sup>*\<^sup>* u' example_working)"
proof -
  let ?o = "EvObject (''a'', ''x'')"
  have k: "MetaNamespaceKeyFunc (ctl_Accessor example_controller) ?o = Inr ''a/x''"
    by (simp add: example_ctl_simps)
  have o: "\<not> wq_shuttingDown (dq_q (cs_queue example_init))" by (simp add: example_ctl_simps)
  have r: "(ctl_step example_controller)\<^sup>*\<^sup>* (ctl_handle example_controller (OnAdd ?o) example_init) example_working"
    using rtranclp_trans [OF example_run] by (simp add: example_enqueued_def example_event_def)
  have n: "StringItem ''a/x'' \<notin> pending example_working"
    by (simp add: example_working_def set_worker_def set_queue_def)
  show ?thesis
    using n enqueued_until_taken [OF rtranclp.rtrancl_refl k o r]
    by (simp add: example_enqueued_def example_event_def)
qed

theorem workers_exclusive_witness:
  "\<exists>c s. (ctl_step c)\<^sup>*\<^sup>* example_init s \<and> length (cs_workers s) = 2 \<and>
     held (cs_workers s ! 0) = Some (StringItem ''a/x'') \<and> held (cs_workers s ! 1) \<noteq> Some (StringItem ''a/x'')"
proof -
  let ?c = "example_controller\<lparr>ctl_options := \<lparr>opt_Name = ''n'', opt_Workers = 2\<rparr>\<rparr>"
  let ?e = "ctl_handle ?c example_event example_init"
  let ?r = "?e\<lparr>cs_synced := True, cs_phase := Running, cs_workers := [NotStarted, NotStarted]\<rparr>"
  let ?w = "set_worker 0 (Working (StringItem ''a/x''))
     (set_queue \<lparr>wq_queue = [], wq_dirty = {}, wq_processing = {StringItem ''a/x''},
        wq_shuttingDown = False, wq_drain = False\<rparr> (set_worker 0 AtGet ?r))"
  have 0: "ctl_step ?c example_init ?e" by (rule ctl_step.notify)
  have 1: "ctl_step ?c ?e (?e\<lparr>cs_synced := True\<rparr>)" by (rule ctl_step.synced)
  have 2: "ctl_step ?c (?e\<lparr>cs_synced := True\<rparr>) ?r"
    using ctl_step.sync_done [of "?e\<lparr>cs_synced := True\<rparr>" ?c]
    by (simp add: example_event_def example_ctl_simps numeral_2_eq_2)
  have 3: "ctl_step ?c ?r (set_worker 0 AtGet ?r)"
    by (rule ctl_step.worker_start) (simp_all add: example_event_def example_ctl_simps)
  have 4: "ctl_step ?c (set_worker 0 AtGet ?r) ?w"
    by (rule ctl_step.get_item) (simp_all add: example_event_def example_ctl_simps)
  have r: "(ctl_step ?c)\<^sup>*\<^sup>* example_init ?w"
    using 0 1 2 3 4 by (meson converse_rtranclp_into_rtranclp rtranclp.rtrancl_refl)
  have l: "0 < length (cs_workers ?w)" "1 < length (cs_workers ?w)" "length (cs_workers ?w) = 2"
    and h: "held (cs_workers ?w ! 0) = Some (StringItem ''a/x'')"
    by (simp_all add: set_worker_def set_queue_def)
  have "held (cs_workers ?w ! 1) \<noteq> Some (StringItem ''a/x'')"
    using workers_exclusive [OF r l(1,2) _ h] by simp
  then show ?thesis using r l(3) h by blast
qed

text \<open>A run in which the context is cancelled after the worker has started.\<close>

definition example_drained :: "(string \<times> string, string list, unit) ctl_state" where
  "example_drained = example_init\<lparr>cs_synced := True,
     cs_ctxErr := Some (ErrorString ''context canceled''),
     cs_queue := newDelayingQueue\<lparr>dq_q := wq_StartDrain newQueue\<rparr>, cs_workers := [Exited],
     cs_phase := RunReturned (ErrorString ''context canceled'')\<rparr>"

lemma example_drained_reachable:
  "(ctl_step example_controller)\<^sup>*\<^sup>* example_init example_drained"
proof -
  let ?c = example_controller and ?e = "ErrorString ''context canceled''"
  let ?s1 = "example_init\<lparr>cs_synced := True\<rparr>"
  let ?s2 = "?s1\<lparr>cs_phase := Running, cs_workers := [NotStarted]\<rparr>"
  let ?s3 = "?s2\<lparr>cs_workers := [AtGet]\<rparr>"
  let ?s4 = "?s3\<lparr>cs_ctxErr := Some ?e\<rparr>"
  let ?s5 = "?s4\<lparr>cs_queue := newDelayingQueue\<lparr>dq_q := wq_StartDrain newQueue\<rparr>, cs_phase := Draining\<rparr>"
  let ?s6 = "?s5\<lparr>cs_workers := [Exited]\<rparr>"
  let ?s7 = "?s6\<lparr>cs_phase := Joining\<rparr>"
  have 1: "ctl_step ?c example_init ?s1" by (rule ctl_step.synced)
  have 2: "ctl_step ?c ?s1 ?s2"
    using ctl_step.sync_done [of ?s1 ?c] by (simp add: example_ctl_simps)
  have 3: "ctl_step ?c ?s2 ?s3"
    using ctl_step.worker_start [of 0 ?s2 ?c] by (simp add: example_ctl_simps)
  have 4: "ctl_step ?c ?s3 ?s4"
    using ctl_step.cancel [of ?s3 ?c ?e] by (simp add: example_ctl_simps)
  have 5: "ctl_step ?c ?s4 ?s5"
    using ctl_step.ctx_done [of ?s4 ?c] by (simp add: example_ctl_simps)
  have 6: "ctl_step ?c ?s5 ?s6"
    using ctl_step.get_shutdown [of 0 ?s5 "wq_StartDrain newQueue" ?c]
    by (simp add: example_ctl_simps wq_StartDrain_def wq_shutdown_def wq_setDrain_def)
  have 7: "ctl_step ?c ?s6 ?s7"
    using ctl_step.drained [of ?s6 ?c]
    by (simp add: example_ctl_simps wq_StartDrain_def wq_shutdown_def wq_setDrain_def wq_draining_def
        wq_isProcessing_def)
  have 8: "ctl_step ?c ?s7 example_drained"
    using ctl_step.run_return [of ?s7 ?e ?c] by (simp add: example_drained_def example_ctl_simps)
  show ?thesis
    using 1 2 3 4 5 6 7 8 by (meson converse_rtranclp_into_rtranclp rtranclp.rtrancl_refl)
qed

theorem run_drains_witness:
  "Exited \<in> set (cs_workers example_drained) \<and>
   cs_ctxErr example_drained = Some (ErrorString ''context canceled'') \<and> pending example_drained = {}"
proof -
  have p: "cs_phase example_drained = RunReturned (ErrorString ''context canceled'')"
    and e: "Exited \<in> set (cs_workers example_drained)"
    by (simp_all add: example_drained_def)
  show ?thesis using e run_drains [OF example_drained_reachable p] by blast
qed

theorem reconcile_current_witness:
  "fst (reconcile example_controller ''a/x'' example_init) = None \<and>
   cs_rstate (snd (reconcile example_controller ''a/x'' example_init)) = [''x'']"
proof -
  have a: "ctl_Accessor example_controller (''a'', ''x'') = Inr \<lparr>acc_Name = ''x'', acc_GenerateName = '''',
      acc_Namespace = ''a'', acc_ResourceVersion = ''1'', acc_Labels = Map.empty\<rparr>"
    by (simp add: example_ctl_simps)
  have k: "MetaNamespaceKeyFunc (ctl_Accessor example_controller) (EvObject (''a'', ''x'')) = Inr ''a/x''"
    by (simp add: example_ctl_simps)
  show ?thesis
    using reconcile_current [OF a _ _ k, of example_init]
    by (simp add: example_ctl_simps tsm_Get_def example_store_def)
qed

theorem failure_is_retried_witness:
  "\<exists>s2. processItem example_controller 0 (StringItem ''gone'') example_init = Some s2 \<and>
     StringItem ''gone'' \<in> dq_delayed (cs_queue s2) \<union> pending s2"
proof -
  have sp: "SplitMetaNamespaceKey ''gone'' = Inr ('''', ''gone'')"
    by (rule SplitMetaNamespaceKey_name) simp
  have "lister_Get example_store ''gone'' =
      Inl (NewNotFound \<lparr>gr_Group = ''node.k8s.io'', gr_Resource = ''validationruleset''\<rparr> ''gone'')"
    by (simp add: lister_Get_def cache_GetByKey_def tsm_Get_def example_store_def)
  then have r: "reconcile example_controller ''gone'' example_init = (Some (ErrorString ''gone''), example_init)"
    by (simp add: reconcile_def sp lister_lookup_def example_ctl_simps)
  obtain s3 where "AddRateLimited example_controller 0 (StringItem ''gone'') example_init = Some s3"
    using AddRateLimited_total [of example_init example_controller 0 "StringItem ''gone''"]
    by (auto simp: ctl_init_def newDelayingQueue_def)
  then obtain s2 where p: "processItem example_controller 0 (StringItem ''gone'') example_init = Some s2"
    by (simp add: processItem_def r)
  have o: "\<not> wq_shuttingDown (dq_q (cs_queue example_init))" by (simp add: example_ctl_simps)
  show ?thesis using p failure_is_retried [OF r p o] by blast
qed

end
