(* ===== verification/Json.thy ===== *)
theory Json
  imports ApiMachinery
begin

text \<open>
  Go's \<^verbatim>\<open>encoding/json\<close> on struct types, as far as the conversions between the native and the
  custom policy types use it: a struct is written field by field under its tag, a field with
  \<^verbatim>\<open>omitempty\<close> is left out when it has its empty value, and reading looks the tag up, leaves a
  missing or null field at its zero value and fails on a value of another type. Values are
  trees; their byte encoding is not modelled. Reading is only applied to what writing
  produced, so the tags of an object are distinct and match exactly. The locale \<open>json_codec\<close>
  is the contract of a type's writer and reader, with the lemmas that lift it to fields.
\<close>

section \<open>Values\<close>

datatype json =
    JNull
  | JBool bool
  | JNum int
  | JStr string
  | JArr "json list"
  | JObj "(string \<times> json) list"

type_synonym fields = "(string \<times> json) list"

definition typeError :: "json \<Rightarrow> string \<Rightarrow> goerror" where
  "typeError v expected =
     ErrorString (''json: cannot unmarshal '' @
       (case v of JNull \<Rightarrow> ''null'' | JBool b \<Rightarrow> ''bool'' | JNum n \<Rightarrow> ''number'' | JStr s \<Rightarrow> ''string''
        | JArr vs \<Rightarrow> ''array'' | JObj fs \<Rightarrow> ''object'') @ '' into Go value of type '' @ expected)"

section \<open>Reading\<close>

fun dec_str :: "json \<Rightarrow> string result" where
  "dec_str (JStr s) = Ret s"
| "dec_str JNull = Ret ''''"
| "dec_str v = Err (typeError v ''string'')"

fun dec_bool :: "json \<Rightarrow> bool result" where
  "dec_bool (JBool b) = Ret b"
| "dec_bool JNull = Ret False"
| "dec_bool v = Err (typeError v ''bool'')"

text \<open>A number outside the range of \<^verbatim>\<open>int64\<close> is an error.\<close>

fun dec_int64 :: "json \<Rightarrow> 64 word result" where
  "dec_int64 (JNum n) =
     (if - (2 ^ 63) \<le> n \<and> n < 2 ^ 63 then Ret (word_of_int n) else Err (typeError (JNum n) ''int64''))"
| "dec_int64 JNull = Ret 0"
| "dec_int64 v = Err (typeError v ''int64'')"

fun map_result :: "('a \<Rightarrow> 'b result) \<Rightarrow> 'a list \<Rightarrow> 'b list result" where
  "map_result f [] = Ret []"
| "map_result f (x # xs) =
     bind_outcome (f x) (\<lambda>y. bind_outcome (map_result f xs) (\<lambda>ys. Ret (y # ys)))"

fun dec_list :: "(json \<Rightarrow> 'a result) \<Rightarrow> json \<Rightarrow> 'a list result" where
  "dec_list dec (JArr vs) = map_result dec vs"
| "dec_list dec JNull = Ret []"
| "dec_list dec v = Err (typeError v ''[]'')"

text \<open>A map of strings, as the list of its entries in key order.\<close>

fun dec_map :: "json \<Rightarrow> (string \<times> string) list result" where
  "dec_map (JObj fs) =
     map_result (\<lambda>(k, v). bind_outcome (dec_str v) (\<lambda>s. Ret (k, s))) fs"
| "dec_map JNull = Ret []"
| "dec_map v = Err (typeError v ''map[string]string'')"

fun dec_ptr :: "(json \<Rightarrow> 'a result) \<Rightarrow> json \<Rightarrow> 'a option result" where
  "dec_ptr dec JNull = Ret None"
| "dec_ptr dec v = bind_outcome (dec v) (\<lambda>x. Ret (Some x))"

fun dec_obj :: "(fields \<Rightarrow> 'a result) \<Rightarrow> json \<Rightarrow> 'a result" where
  "dec_obj dec (JObj fs) = dec fs"
| "dec_obj dec JNull = dec []"
| "dec_obj dec v = Err (typeError v ''struct'')"

text \<open>The field under a tag, or the zero value.\<close>

definition getf :: "string \<Rightarrow> 'a \<Rightarrow> (json \<Rightarrow> 'a result) \<Rightarrow> fields \<Rightarrow> 'a result" where
  "getf name zero dec fs = (case map_of fs name of None \<Rightarrow> Ret zero | Some v \<Rightarrow> dec v)"

abbreviation get_str :: "string \<Rightarrow> fields \<Rightarrow> string result" where
  "get_str name \<equiv> getf name '''' dec_str"

abbreviation get_int :: "string \<Rightarrow> fields \<Rightarrow> 64 word result" where
  "get_int name \<equiv> getf name 0 dec_int64"

abbreviation get_list :: "string \<Rightarrow> (json \<Rightarrow> 'a result) \<Rightarrow> fields \<Rightarrow> 'a list result" where
  "get_list name dec \<equiv> getf name [] (dec_list dec)"

abbreviation get_map :: "string \<Rightarrow> fields \<Rightarrow> (string \<times> string) list result" where
  "get_map name \<equiv> getf name [] dec_map"

abbreviation get_ptr :: "string \<Rightarrow> (json \<Rightarrow> 'a result) \<Rightarrow> fields \<Rightarrow> 'a option result" where
  "get_ptr name dec \<equiv> getf name None (dec_ptr dec)"

section \<open>Writing\<close>

text \<open>
  One field. The flag is the tag's \<^verbatim>\<open>omitempty\<close>; it has no effect on a struct. Without it a nil
  pointer is written as null. Slices and maps are only used with the flag.
\<close>

definition enc_str :: "string \<Rightarrow> bool \<Rightarrow> string \<Rightarrow> fields" where
  "enc_str name omitempty s = (if omitempty \<and> s = '''' then [] else [(name, JStr s)])"

definition enc_int :: "string \<Rightarrow> 64 word \<Rightarrow> fields" where
  "enc_int name n = (if n = 0 then [] else [(name, JNum (sint n))])"

definition enc_ptr :: "string \<Rightarrow> bool \<Rightarrow> ('a \<Rightarrow> json) \<Rightarrow> 'a option \<Rightarrow> fields" where
  "enc_ptr name omitempty enc p =
     (case p of
        None \<Rightarrow> if omitempty then [] else [(name, JNull)]
      | Some x \<Rightarrow> [(name, enc x)])"

definition enc_list :: "string \<Rightarrow> ('a \<Rightarrow> json) \<Rightarrow> 'a list \<Rightarrow> fields" where
  "enc_list name enc xs = (if xs = [] then [] else [(name, JArr (map enc xs))])"

definition enc_map :: "string \<Rightarrow> (string \<times> string) list \<Rightarrow> fields" where
  "enc_map name m = (if m = [] then [] else [(name, JObj (map (\<lambda>(k, v). (k, JStr v)) m))])"

definition enc_val :: "string \<Rightarrow> json \<Rightarrow> fields" where
  "enc_val name v = [(name, v)]"

section \<open>The contract of a codec\<close>

locale json_codec =
  fixes enc :: "'a \<Rightarrow> json"
    and dec :: "json \<Rightarrow> 'a result"
    and ok :: "'a \<Rightarrow> bool"
  assumes dec_enc: "ok x \<Longrightarrow> dec (enc x) = Ret x"
    and enc_not_null: "ok x \<Longrightarrow> enc x \<noteq> JNull"
begin

lemma dec_list_enc: "list_all ok xs \<Longrightarrow> map_result dec (map enc xs) = Ret xs"
  by (induction xs) (auto simp: dec_enc)

lemma dec_ptr_enc: "ok x \<Longrightarrow> dec_ptr dec (enc x) = Ret (Some x)"
  using enc_not_null [of x] dec_enc [of x] by (cases "enc x") auto

lemma hit_list:
  "list_all ok xs \<Longrightarrow> get_list name dec rest = Ret [] \<Longrightarrow>
     get_list name dec (enc_list name enc xs @ rest) = Ret xs"
  by (auto simp: getf_def enc_list_def dec_list_enc)

lemma hit_ptr:
  "pred_option ok p \<Longrightarrow> get_ptr name dec rest = Ret None \<Longrightarrow>
     get_ptr name dec (enc_ptr name omitempty enc p @ rest) = Ret p"
  by (cases p) (auto simp: getf_def enc_ptr_def dec_ptr_enc)

lemma hit_val:
  "ok x \<Longrightarrow> getf name zero dec (enc_val name (enc x) @ rest) = Ret x"
  by (simp add: getf_def enc_val_def dec_enc)

end

section \<open>Lemmas\<close>

named_theorems json_simps \<open>reading back written fields\<close>

lemma all_ok [json_simps]: "list_all (\<lambda>x. True) xs" "pred_option (\<lambda>x. True) p"
  by (simp_all add: list.pred_True option.pred_True)

lemma getf_Nil [json_simps]: "getf name zero dec [] = Ret zero"
  by (simp add: getf_def)

lemma getf_skip [json_simps]:
  "k \<noteq> name \<Longrightarrow> getf k zero dec (enc_str name om s @ rest) = getf k zero dec rest"
  "k \<noteq> name \<Longrightarrow> getf k zero dec (enc_int name n @ rest) = getf k zero dec rest"
  "k \<noteq> name \<Longrightarrow> getf k zero dec (enc_ptr name om enc p @ rest) = getf k zero dec rest"
  "k \<noteq> name \<Longrightarrow> getf k zero dec (enc_list name enc' xs @ rest) = getf k zero dec rest"
  "k \<noteq> name \<Longrightarrow> getf k zero dec (enc_map name m @ rest) = getf k zero dec rest"
  "k \<noteq> name \<Longrightarrow> getf k zero dec (enc_val name v @ rest) = getf k zero dec rest"
  by (auto simp: getf_def enc_str_def enc_int_def enc_ptr_def enc_list_def enc_map_def enc_val_def
      split: option.splits)

lemma hit_str [json_simps]:
  "get_str name rest = Ret '''' \<Longrightarrow> get_str name (enc_str name om s @ rest) = Ret s"
  by (auto simp: getf_def enc_str_def)

lemma sint_range: "- (2 ^ 63) \<le> sint (n :: 64 word) \<and> sint n < 2 ^ 63"
  using sint_ge [of n] sint_lt [of n] by simp

lemma hit_int [json_simps]:
  "get_int name rest = Ret 0 \<Longrightarrow> get_int name (enc_int name n @ rest) = Ret n"
  using sint_range [of n] by (auto simp: getf_def enc_int_def)

lemma hit_map [json_simps]:
  assumes "get_map name rest = Ret []"
  shows "get_map name (enc_map name m @ rest) = Ret m"
proof -
  have "map_result (\<lambda>(k, v). bind_outcome (dec_str v) (\<lambda>s. Ret (k, s))) (map (\<lambda>(k, v). (k, JStr v)) m) = Ret m"
    by (induction m) auto
  then show ?thesis using assms by (auto simp: getf_def enc_map_def)
qed

interpretation str: json_codec JStr dec_str "\<lambda>s. True"
  by unfold_locales auto

interpretation bool: json_codec JBool dec_bool "\<lambda>b. True"
  by unfold_locales auto

interpretation int64: json_codec "\<lambda>n :: 64 word. JNum (sint n)" dec_int64 "\<lambda>n. True"
  using sint_range by unfold_locales auto

lemmas base_codecs [json_simps] = str.hit_list str.hit_ptr bool.hit_ptr int64.hit_ptr

end
