(* ===== verification/ApiTypes.thy ===== *)
theory ApiTypes
  imports Json
begin

text \<open>
  The policy types of \<^verbatim>\<open>pkg/apis/admissionregistration.x-k8s.io/v1alpha1/types.go\<close> with the
  metadata types they embed, and their JSON form. The native types of the vendored
  \<^verbatim>\<open>k8s.io/api/admissionregistration/v1alpha1\<close> have the same fields and tags but for
  \<^verbatim>\<open>omitempty\<close> on \<^verbatim>\<open>matchConstraints\<close>, on both fields of \<^verbatim>\<open>paramKind\<close> and on \<^verbatim>\<open>policyName\<close>, so one
  record stands for both and the writers take that flag, \<open>tg\<close>, as an argument: true for the
  native types, false for the custom ones. A struct that is embedded inline contributes its
  fields. A nil slice or map and an empty one are both the empty list. Every codec is shown
  to satisfy the contract \<open>json_codec\<close>.
\<close>

section \<open>Time\<close>

text \<open>
  \<^verbatim>\<open>metav1.Time\<close>: nanoseconds since the epoch, or the zero time. It is written in RFC 3339 with
  a resolution of one second; formatting and parsing belong to package \<^verbatim>\<open>time\<close> and are
  arguments.
\<close>

type_synonym Time = "int option"

record time_format =
  tf_Format :: "int \<Rightarrow> string"
  tf_Parse :: "string \<Rightarrow> goerror + int"

definition enc_Time :: "time_format \<Rightarrow> Time \<Rightarrow> json" where
  "enc_Time tf t = (case t of None \<Rightarrow> JNull | Some ns \<Rightarrow> JStr (tf_Format tf (ns div 1000000000)))"

fun dec_Time :: "time_format \<Rightarrow> json \<Rightarrow> Time result" where
  "dec_Time tf JNull = Ret None"
| "dec_Time tf (JStr str) =
     (case tf_Parse tf str of
        Inl err \<Rightarrow> Err err
      | Inr sec \<Rightarrow> Ret (Some (sec * 1000000000)))"
| "dec_Time tf v = Err (typeError v ''string'')"

definition time_ok :: "time_format \<Rightarrow> Time \<Rightarrow> bool" where
  "time_ok tf t = (case t of None \<Rightarrow> True | Some ns \<Rightarrow>
     ns mod 1000000000 = 0 \<and> tf_Parse tf (tf_Format tf (ns div 1000000000)) = Inr (ns div 1000000000))"

section \<open>Types\<close>

record OwnerReference =
  or_APIVersion :: string
  or_Kind :: string
  or_Name :: string
  or_UID :: string
  or_Controller :: "bool option"
  or_BlockOwnerDeletion :: "bool option"

record ManagedFieldsEntry =
  mf_Manager :: string
  mf_Operation :: string
  mf_APIVersion :: string
  mf_Time :: "Time option"
  mf_FieldsType :: string
  mf_FieldsV1 :: "json option"
  mf_Subresource :: string

record ObjectMeta =
  om_Name :: string
  om_GenerateName :: string
  om_Namespace :: string
  om_SelfLink :: string
  om_UID :: string
  om_ResourceVersion :: string
  om_Generation :: "64 word"
  om_CreationTimestamp :: Time
  om_DeletionTimestamp :: "Time option"
  om_DeletionGracePeriodSeconds :: "64 word option"
  om_Labels :: "(string \<times> string) list"
  om_Annotations :: "(string \<times> string) list"
  om_OwnerReferences :: "OwnerReference list"
  om_Finalizers :: "string list"
  om_ManagedFields :: "ManagedFieldsEntry list"

record LabelSelectorRequirement =
  lr_Key :: string
  lr_Operator :: string
  lr_Values :: "string list"

record LabelSelector =
  ls_MatchLabels :: "(string \<times> string) list"
  ls_MatchExpressions :: "LabelSelectorRequirement list"

record NamedRuleWithOperations =
  nr_ResourceNames :: "string list"
  nr_Operations :: "string list"
  nr_APIGroups :: "string list"
  nr_APIVersions :: "string list"
  nr_Resources :: "string list"
  nr_Scope :: "string option"

record MatchResources =
  mr_NamespaceSelector :: "LabelSelector option"
  mr_ObjectSelector :: "LabelSelector option"
  mr_ResourceRules :: "NamedRuleWithOperations list"
  mr_ExcludeResourceRules :: "NamedRuleWithOperations list"
  mr_MatchPolicy :: "string option"

record ParamKind =
  pk_APIVersion :: string
  pk_Kind :: string

record Validation =
  vd_Expression :: string
  vd_Message :: string
  vd_Reason :: "string option"
  vd_MessageExpression :: string

record AuditAnnotation =
  aa_Key :: string
  aa_ValueExpression :: string

record MatchCondition =
  mc_Name :: string
  mc_Expression :: string

record ValidatingAdmissionPolicySpec =
  ps_ParamKind :: "ParamKind option"
  ps_MatchConstraints :: "MatchResources option"
  ps_Validations :: "Validation list"
  ps_FailurePolicy :: "string option"
  ps_AuditAnnotations :: "AuditAnnotation list"
  ps_MatchConditions :: "MatchCondition list"

record ExpressionWarning =
  ew_FieldRef :: string
  ew_Warning :: string

record TypeChecking =
  tc_ExpressionWarnings :: "ExpressionWarning list"

record Condition =
  cd_Type :: string
  cd_Status :: string
  cd_ObservedGeneration :: "64 word"
  cd_LastTransitionTime :: Time
  cd_Reason :: string
  cd_Message :: string

record ValidatingAdmissionPolicyStatus =
  pt_ObservedGeneration :: "64 word"
  pt_TypeChecking :: "TypeChecking option"
  pt_Conditions :: "Condition list"

record ValidatingAdmissionPolicy =
  vp_Kind :: string
  vp_APIVersion :: string
  vp_ObjectMeta :: ObjectMeta
  vp_Spec :: ValidatingAdmissionPolicySpec
  vp_Status :: ValidatingAdmissionPolicyStatus

record ParamRef =
  pr_Name :: string
  pr_Namespace :: string

record ValidatingAdmissionPolicyBindingSpec =
  bs_PolicyName :: string
  bs_ParamRef :: "ParamRef option"
  bs_MatchResources :: "MatchResources option"
  bs_ValidationActions :: "string list"

record ValidatingAdmissionPolicyBinding =
  vb_Kind :: string
  vb_APIVersion :: string
  vb_ObjectMeta :: ObjectMeta
  vb_Spec :: ValidatingAdmissionPolicyBindingSpec

section \<open>Writing and reading\<close>

definition enc_OwnerReference :: "OwnerReference \<Rightarrow> json" where
  "enc_OwnerReference x = JObj
     (enc_str ''apiVersion'' False (or_APIVersion x) @
      enc_str ''kind'' False (or_Kind x) @
      enc_str ''name'' False (or_Name x) @
      enc_str ''uid'' False (or_UID x) @
      enc_ptr ''controller'' True JBool (or_Controller x) @
      enc_ptr ''blockOwnerDeletion'' True JBool (or_BlockOwnerDeletion x) @ [])"

definition dec_OwnerReference :: "json \<Rightarrow> OwnerReference result" where
  "dec_OwnerReference = dec_obj (\<lambda>fs.
     bind_outcome (get_str ''apiVersion'' fs) (\<lambda>aPIVersion1.
     bind_outcome (get_str ''kind'' fs) (\<lambda>kind1.
     bind_outcome (get_str ''name'' fs) (\<lambda>name1.
     bind_outcome (get_str ''uid'' fs) (\<lambda>uID1.
     bind_outcome (get_ptr ''controller'' dec_bool fs) (\<lambda>controller1.
     bind_outcome (get_ptr ''blockOwnerDeletion'' dec_bool fs) (\<lambda>blockOwnerDeletion1.
     Ret \<lparr>or_APIVersion = aPIVersion1, or_Kind = kind1, or_Name = name1, or_UID = uID1,
       or_Controller = controller1, or_BlockOwnerDeletion = blockOwnerDeletion1\<rparr>)))))))"

definition enc_ManagedFieldsEntry :: "time_format \<Rightarrow> ManagedFieldsEntry \<Rightarrow> json" where
  "enc_ManagedFieldsEntry tf x = JObj
     (enc_str ''manager'' True (mf_Manager x) @
      enc_str ''operation'' True (mf_Operation x) @
      enc_str ''apiVersion'' True (mf_APIVersion x) @
      enc_ptr ''time'' True (enc_Time tf) (mf_Time x) @
      enc_str ''fieldsType'' True (mf_FieldsType x) @
      enc_ptr ''fieldsV1'' True (\<lambda>raw. raw) (mf_FieldsV1 x) @
      enc_str ''subresource'' True (mf_Subresource x) @ [])"

definition dec_ManagedFieldsEntry :: "time_format \<Rightarrow> json \<Rightarrow>
       ManagedFieldsEntry result" where
  "dec_ManagedFieldsEntry tf = dec_obj (\<lambda>fs.
     bind_outcome (get_str ''manager'' fs) (\<lambda>manager1.
     bind_outcome (get_str ''operation'' fs) (\<lambda>operation1.
     bind_outcome (get_str ''apiVersion'' fs) (\<lambda>aPIVersion1.
     bind_outcome (get_ptr ''time'' (dec_Time tf) fs) (\<lambda>time1.
     bind_outcome (get_str ''fieldsType'' fs) (\<lambda>fieldsType1.
     bind_outcome (get_ptr ''fieldsV1'' Ret fs) (\<lambda>fieldsV11.
     bind_outcome (get_str ''subresource'' fs) (\<lambda>subresource1.
     Ret \<lparr>mf_Manager = manager1, mf_Operation = operation1, mf_APIVersion = aPIVersion1,
       mf_Time = time1, mf_FieldsType = fieldsType1, mf_FieldsV1 = fieldsV11, mf_Subresource =
       subresource1\<rparr>))))))))"

definition zero_ObjectMeta :: ObjectMeta where
  "zero_ObjectMeta = \<lparr>om_Name = '''',
     om_GenerateName = '''',
     om_Namespace = '''',
     om_SelfLink = '''',
     om_UID = '''',
     om_ResourceVersion = '''',
     om_Generation = 0,
     om_CreationTimestamp = None,
     om_DeletionTimestamp = None,
     om_DeletionGracePeriodSeconds = None,
     om_Labels = [],
     om_Annotations = [],
     om_OwnerReferences = [],
     om_Finalizers = [],
     om_ManagedFields = []\<rparr>"

definition enc_ObjectMeta :: "time_format \<Rightarrow> ObjectMeta \<Rightarrow> json" where
  "enc_ObjectMeta tf x = JObj
     (enc_str ''name'' True (om_Name x) @
      enc_str ''generateName'' True (om_GenerateName x) @
      enc_str ''namespace'' True (om_Namespace x) @
      enc_str ''selfLink'' True (om_SelfLink x) @
      enc_str ''uid'' True (om_UID x) @
      enc_str ''resourceVersion'' True (om_ResourceVersion x) @
      enc_int ''generation'' (om_Generation x) @
      enc_val ''creationTimestamp'' (enc_Time tf (om_CreationTimestamp x)) @
      enc_ptr ''deletionTimestamp'' True (enc_Time tf) (om_DeletionTimestamp x) @
      enc_ptr ''deletionGracePeriodSeconds'' True (\<lambda>n. JNum (sint n)) (om_DeletionGracePeriodSeconds x) @
      enc_map ''labels'' (om_Labels x) @
      enc_map ''annotations'' (om_Annotations x) @
      enc_list ''ownerReferences'' enc_OwnerReference (om_OwnerReferences x) @
      enc_list ''finalizers'' JStr (om_Finalizers x) @
      enc_list ''managedFields'' (enc_ManagedFieldsEntry tf) (om_ManagedFields x) @ [])"

definition dec_ObjectMeta :: "time_format \<Rightarrow> json \<Rightarrow> ObjectMeta result" where
  "dec_ObjectMeta tf = dec_obj (\<lambda>fs.
     bind_outcome (get_str ''name'' fs) (\<lambda>name1.
     bind_outcome (get_str ''generateName'' fs) (\<lambda>generateName1.
     bind_outcome (get_str ''namespace'' fs) (\<lambda>namespace1.
     bind_outcome (get_str ''selfLink'' fs) (\<lambda>selfLink1.
     bind_outcome (get_str ''uid'' fs) (\<lambda>uID1.
     bind_outcome (get_str ''resourceVersion'' fs) (\<lambda>resourceVersion1.
     bind_outcome (get_int ''generation'' fs) (\<lambda>generation1.
     bind_outcome (getf ''creationTimestamp'' None (dec_Time tf) fs) (\<lambda>creationTimestamp1.
     bind_outcome (get_ptr ''deletionTimestamp'' (dec_Time tf) fs) (\<lambda>deletionTimestamp1.
     bind_outcome (get_ptr ''deletionGracePeriodSeconds'' dec_int64 fs)
       (\<lambda>deletionGracePeriodSeconds1.
     bind_outcome (get_map ''labels'' fs) (\<lambda>labels1.
     bind_outcome (get_map ''annotations'' fs) (\<lambda>annotations1.
     bind_outcome (get_list ''ownerReferences'' dec_OwnerReference fs) (\<lambda>ownerReferences1.
     bind_outcome (get_list ''finalizers'' dec_str fs) (\<lambda>finalizers1.
     bind_outcome (get_list ''managedFields'' (dec_ManagedFieldsEntry tf) fs)
       (\<lambda>managedFields1.
     Ret \<lparr>om_Name = name1, om_GenerateName = generateName1, om_Namespace = namespace1,
       om_SelfLink = selfLink1, om_UID = uID1, om_ResourceVersion = resourceVersion1, om_Generation
       = generation1, om_CreationTimestamp = creationTimestamp1, om_DeletionTimestamp =
       deletionTimestamp1, om_DeletionGracePeriodSeconds = deletionGracePeriodSeconds1, om_Labels =
       labels1, om_Annotations = annotations1, om_OwnerReferences = ownerReferences1, om_Finalizers
       = finalizers1, om_ManagedFields = managedFields1\<rparr>))))))))))))))))"

definition enc_LabelSelectorRequirement :: "LabelSelectorRequirement \<Rightarrow> json" where
  "enc_LabelSelectorRequirement x = JObj
     (enc_str ''key'' False (lr_Key x) @
      enc_str ''operator'' False (lr_Operator x) @
      enc_list ''values'' JStr (lr_Values x) @ [])"

definition dec_LabelSelectorRequirement :: "json \<Rightarrow> LabelSelectorRequirement result"
       where
  "dec_LabelSelectorRequirement = dec_obj (\<lambda>fs.
     bind_outcome (get_str ''key'' fs) (\<lambda>key1.
     bind_outcome (get_str ''operator'' fs) (\<lambda>operator1.
     bind_outcome (get_list ''values'' dec_str fs) (\<lambda>values1.
     Ret \<lparr>lr_Key = key1, lr_Operator = operator1, lr_Values = values1\<rparr>))))"

definition enc_LabelSelector :: "LabelSelector \<Rightarrow> json" where
  "enc_LabelSelector x = JObj
     (enc_map ''matchLabels'' (ls_MatchLabels x) @
      enc_list ''matchExpressions'' enc_LabelSelectorRequirement (ls_MatchExpressions x) @ [])"

definition dec_LabelSelector :: "json \<Rightarrow> LabelSelector result" where
  "dec_LabelSelector = dec_obj (\<lambda>fs.
     bind_outcome (get_map ''matchLabels'' fs) (\<lambda>matchLabels1.
     bind_outcome (get_list ''matchExpressions'' dec_LabelSelectorRequirement fs)
       (\<lambda>matchExpressions1.
     Ret \<lparr>ls_MatchLabels = matchLabels1, ls_MatchExpressions = matchExpressions1\<rparr>)))"

definition enc_NamedRuleWithOperations :: "NamedRuleWithOperations \<Rightarrow> json" where
  "enc_NamedRuleWithOperations x = JObj
     (enc_list ''resourceNames'' JStr (nr_ResourceNames x) @
      enc_list ''operations'' JStr (nr_Operations x) @
      enc_list ''apiGroups'' JStr (nr_APIGroups x) @
      enc_list ''apiVersions'' JStr (nr_APIVersions x) @
      enc_list ''resources'' JStr (nr_Resources x) @
      enc_ptr ''scope'' True JStr (nr_Scope x) @ [])"

definition dec_NamedRuleWithOperations :: "json \<Rightarrow> NamedRuleWithOperations result" where
  "dec_NamedRuleWithOperations = dec_obj (\<lambda>fs.
     bind_outcome (get_list ''resourceNames'' dec_str fs) (\<lambda>resourceNames1.
     bind_outcome (get_list ''operations'' dec_str fs) (\<lambda>operations1.
     bind_outcome (get_list ''apiGroups'' dec_str fs) (\<lambda>aPIGroups1.
     bind_outcome (get_list ''apiVersions'' dec_str fs) (\<lambda>aPIVersions1.
     bind_outcome (get_list ''resources'' dec_str fs) (\<lambda>resources1.
     bind_outcome (get_ptr ''scope'' dec_str fs) (\<lambda>scope1.
     Ret \<lparr>nr_ResourceNames = resourceNames1, nr_Operations = operations1, nr_APIGroups =
       aPIGroups1, nr_APIVersions = aPIVersions1, nr_Resources = resources1, nr_Scope =
       scope1\<rparr>)))))))"

definition enc_MatchResources :: "MatchResources \<Rightarrow> json" where
  "enc_MatchResources x = JObj
     (enc_ptr ''namespaceSelector'' True enc_LabelSelector (mr_NamespaceSelector x) @
      enc_ptr ''objectSelector'' True enc_LabelSelector (mr_ObjectSelector x) @
      enc_list ''resourceRules'' enc_NamedRuleWithOperations (mr_ResourceRules x) @
      enc_list ''excludeResourceRules'' enc_NamedRuleWithOperations (mr_ExcludeResourceRules x) @
      enc_ptr ''matchPolicy'' True JStr (mr_MatchPolicy x) @ [])"

definition dec_MatchResources :: "json \<Rightarrow> MatchResources result" where
  "dec_MatchResources = dec_obj (\<lambda>fs.
     bind_outcome (get_ptr ''namespaceSelector'' dec_LabelSelector fs) (\<lambda>namespaceSelector1.
     bind_outcome (get_ptr ''objectSelector'' dec_LabelSelector fs) (\<lambda>objectSelector1.
     bind_outcome (get_list ''resourceRules'' dec_NamedRuleWithOperations fs)
       (\<lambda>resourceRules1.
     bind_outcome (get_list ''excludeResourceRules'' dec_NamedRuleWithOperations fs)
       (\<lambda>excludeResourceRules1.
     bind_outcome (get_ptr ''matchPolicy'' dec_str fs) (\<lambda>matchPolicy1.
     Ret \<lparr>mr_NamespaceSelector = namespaceSelector1, mr_ObjectSelector = objectSelector1,
       mr_ResourceRules = resourceRules1, mr_ExcludeResourceRules = excludeResourceRules1,
       mr_MatchPolicy = matchPolicy1\<rparr>))))))"

definition enc_ParamKind :: "bool \<Rightarrow> ParamKind \<Rightarrow> json" where
  "enc_ParamKind tg x = JObj
     (enc_str ''apiVersion'' tg (pk_APIVersion x) @
      enc_str ''kind'' tg (pk_Kind x) @ [])"

definition dec_ParamKind :: "json \<Rightarrow> ParamKind result" where
  "dec_ParamKind = dec_obj (\<lambda>fs.
     bind_outcome (get_str ''apiVersion'' fs) (\<lambda>aPIVersion1.
     bind_outcome (get_str ''kind'' fs) (\<lambda>kind1.
     Ret \<lparr>pk_APIVersion = aPIVersion1, pk_Kind = kind1\<rparr>)))"

definition enc_Validation :: "Validation \<Rightarrow> json" where
  "enc_Validation x = JObj
     (enc_str ''expression'' False (vd_Expression x) @
      enc_str ''message'' True (vd_Message x) @
      enc_ptr ''reason'' True JStr (vd_Reason x) @
      enc_str ''messageExpression'' True (vd_MessageExpression x) @ [])"

definition dec_Validation :: "json \<Rightarrow> Validation result" where
  "dec_Validation = dec_obj (\<lambda>fs.
     bind_outcome (get_str ''expression'' fs) (\<lambda>expression1.
     bind_outcome (get_str ''message'' fs) (\<lambda>message1.
     bind_outcome (get_ptr ''reason'' dec_str fs) (\<lambda>reason1.
     bind_outcome (get_str ''messageExpression'' fs) (\<lambda>messageExpression1.
     Ret \<lparr>vd_Expression = expression1, vd_Message = message1, vd_Reason = reason1,
       vd_MessageExpression = messageExpression1\<rparr>)))))"

definition enc_AuditAnnotation :: "AuditAnnotation \<Rightarrow> json" where
  "enc_AuditAnnotation x = JObj
     (enc_str ''key'' False (aa_Key x) @
      enc_str ''valueExpression'' False (aa_ValueExpression x) @ [])"

definition dec_AuditAnnotation :: "json \<Rightarrow> AuditAnnotation result" where
  "dec_AuditAnnotation = dec_obj (\<lambda>fs.
     bind_outcome (get_str ''key'' fs) (\<lambda>key1.
     bind_outcome (get_str ''valueExpression'' fs) (\<lambda>valueExpression1.
     Ret \<lparr>aa_Key = key1, aa_ValueExpression = valueExpression1\<rparr>)))"

definition enc_MatchCondition :: "MatchCondition \<Rightarrow> json" where
  "enc_MatchCondition x = JObj
     (enc_str ''name'' False (mc_Name x) @
      enc_str ''expression'' False (mc_Expression x) @ [])"

definition dec_MatchCondition :: "json \<Rightarrow> MatchCondition result" where
  "dec_MatchCondition = dec_obj (\<lambda>fs.
     bind_outcome (get_str ''name'' fs) (\<lambda>name1.
     bind_outcome (get_str ''expression'' fs) (\<lambda>expression1.
     Ret \<lparr>mc_Name = name1, mc_Expression = expression1\<rparr>)))"

definition zero_ValidatingAdmissionPolicySpec :: ValidatingAdmissionPolicySpec where
  "zero_ValidatingAdmissionPolicySpec = \<lparr>ps_ParamKind = None,
     ps_MatchConstraints = None,
     ps_Validations = [],
     ps_FailurePolicy = None,
     ps_AuditAnnotations = [],
     ps_MatchConditions = []\<rparr>"

definition enc_ValidatingAdmissionPolicySpec :: "bool \<Rightarrow> ValidatingAdmissionPolicySpec \<Rightarrow> json" where
  "enc_ValidatingAdmissionPolicySpec tg x = JObj
     (enc_ptr ''paramKind'' True (enc_ParamKind tg) (ps_ParamKind x) @
      enc_ptr ''matchConstraints'' tg enc_MatchResources (ps_MatchConstraints x) @
      enc_list ''validations'' enc_Validation (ps_Validations x) @
      enc_ptr ''failurePolicy'' True JStr (ps_FailurePolicy x) @
      enc_list ''auditAnnotations'' enc_AuditAnnotation (ps_AuditAnnotations x) @
      enc_list ''matchConditions'' enc_MatchCondition (ps_MatchConditions x) @ [])"

definition dec_ValidatingAdmissionPolicySpec :: "json \<Rightarrow> ValidatingAdmissionPolicySpec
       result" where
  "dec_ValidatingAdmissionPolicySpec = dec_obj (\<lambda>fs.
     bind_outcome (get_ptr ''paramKind'' dec_ParamKind fs) (\<lambda>paramKind1.
     bind_outcome (get_ptr ''matchConstraints'' dec_MatchResources fs) (\<lambda>matchConstraints1.
     bind_outcome (get_list ''validations'' dec_Validation fs) (\<lambda>validations1.
     bind_outcome (get_ptr ''failurePolicy'' dec_str fs) (\<lambda>failurePolicy1.
     bind_outcome (get_list ''auditAnnotations'' dec_AuditAnnotation fs)
       (\<lambda>auditAnnotations1.
     bind_outcome (get_list ''matchConditions'' dec_MatchCondition fs) (\<lambda>matchConditions1.
     Ret \<lparr>ps_ParamKind = paramKind1, ps_MatchConstraints = matchConstraints1, ps_Validations
       = validations1, ps_FailurePolicy = failurePolicy1, ps_AuditAnnotations = auditAnnotations1,
       ps_MatchConditions = matchConditions1\<rparr>)))))))"

definition enc_ExpressionWarning :: "ExpressionWarning \<Rightarrow> json" where
  "enc_ExpressionWarning x = JObj
     (enc_str ''fieldRef'' False (ew_FieldRef x) @
      enc_str ''warning'' False (ew_Warning x) @ [])"

definition dec_ExpressionWarning :: "json \<Rightarrow> ExpressionWarning result" where
  "dec_ExpressionWarning = dec_obj (\<lambda>fs.
     bind_outcome (get_str ''fieldRef'' fs) (\<lambda>fieldRef1.
     bind_outcome (get_str ''warning'' fs) (\<lambda>warning1.
     Ret \<lparr>ew_FieldRef = fieldRef1, ew_Warning = warning1\<rparr>)))"

definition enc_TypeChecking :: "TypeChecking \<Rightarrow> json" where
  "enc_TypeChecking x = JObj
     (enc_list ''expressionWarnings'' enc_ExpressionWarning (tc_ExpressionWarnings x) @ [])"

definition dec_TypeChecking :: "json \<Rightarrow> TypeChecking result" where
  "dec_TypeChecking = dec_obj (\<lambda>fs.
     bind_outcome (get_list ''expressionWarnings'' dec_ExpressionWarning fs)
       (\<lambda>expressionWarnings1.
     Ret \<lparr>tc_ExpressionWarnings = expressionWarnings1\<rparr>))"

definition enc_Condition :: "time_format \<Rightarrow> Condition \<Rightarrow> json" where
  "enc_Condition tf x = JObj
     (enc_str ''type'' False (cd_Type x) @
      enc_str ''status'' False (cd_Status x) @
      enc_int ''observedGeneration'' (cd_ObservedGeneration x) @
      enc_val ''lastTransitionTime'' (enc_Time tf (cd_LastTransitionTime x)) @
      enc_str ''reason'' False (cd_Reason x) @
      enc_str ''message'' False (cd_Message x) @ [])"

definition dec_Condition :: "time_format \<Rightarrow> json \<Rightarrow> Condition result" where
  "dec_Condition tf = dec_obj (\<lambda>fs.
     bind_outcome (get_str ''type'' fs) (\<lambda>type1.
     bind_outcome (get_str ''status'' fs) (\<lambda>status1.
     bind_outcome (get_int ''observedGeneration'' fs) (\<lambda>observedGeneration1.
     bind_outcome (getf ''lastTransitionTime'' None (dec_Time tf) fs) (\<lambda>lastTransitionTime1.
     bind_outcome (get_str ''reason'' fs) (\<lambda>reason1.
     bind_outcome (get_str ''message'' fs) (\<lambda>message1.
     Ret \<lparr>cd_Type = type1, cd_Status = status1, cd_ObservedGeneration = observedGeneration1,
       cd_LastTransitionTime = lastTransitionTime1, cd_Reason = reason1, cd_Message =
       message1\<rparr>)))))))"

definition zero_ValidatingAdmissionPolicyStatus :: ValidatingAdmissionPolicyStatus where
  "zero_ValidatingAdmissionPolicyStatus = \<lparr>pt_ObservedGeneration = 0,
     pt_TypeChecking = None,
     pt_Conditions = []\<rparr>"

definition enc_ValidatingAdmissionPolicyStatus :: "time_format \<Rightarrow> ValidatingAdmissionPolicyStatus \<Rightarrow> json" where
  "enc_ValidatingAdmissionPolicyStatus tf x = JObj
     (enc_int ''observedGeneration'' (pt_ObservedGeneration x) @
      enc_ptr ''typeChecking'' True enc_TypeChecking (pt_TypeChecking x) @
      enc_list ''conditions'' (enc_Condition tf) (pt_Conditions x) @ [])"

definition dec_ValidatingAdmissionPolicyStatus :: "time_format \<Rightarrow> json \<Rightarrow>
       ValidatingAdmissionPolicyStatus result" where
  "dec_ValidatingAdmissionPolicyStatus tf = dec_obj (\<lambda>fs.
     bind_outcome (get_int ''observedGeneration'' fs) (\<lambda>observedGeneration1.
     bind_outcome (get_ptr ''typeChecking'' dec_TypeChecking fs) (\<lambda>typeChecking1.
     bind_outcome (get_list ''conditions'' (dec_Condition tf) fs) (\<lambda>conditions1.
     Ret \<lparr>pt_ObservedGeneration = observedGeneration1, pt_TypeChecking = typeChecking1,
       pt_Conditions = conditions1\<rparr>))))"

definition enc_ValidatingAdmissionPolicy :: "time_format \<Rightarrow> bool \<Rightarrow> ValidatingAdmissionPolicy \<Rightarrow> json" where
  "enc_ValidatingAdmissionPolicy tf tg x = JObj
     (enc_str ''kind'' True (vp_Kind x) @
      enc_str ''apiVersion'' True (vp_APIVersion x) @
      enc_val ''metadata'' (enc_ObjectMeta tf (vp_ObjectMeta x)) @
      enc_val ''spec'' (enc_ValidatingAdmissionPolicySpec tg (vp_Spec x)) @
      enc_val ''status'' (enc_ValidatingAdmissionPolicyStatus tf (vp_Status x)) @ [])"

definition dec_ValidatingAdmissionPolicy :: "time_format \<Rightarrow> json \<Rightarrow>
       ValidatingAdmissionPolicy result" where
  "dec_ValidatingAdmissionPolicy tf = dec_obj (\<lambda>fs.
     bind_outcome (get_str ''kind'' fs) (\<lambda>kind1.
     bind_outcome (get_str ''apiVersion'' fs) (\<lambda>aPIVersion1.
     bind_outcome (getf ''metadata'' zero_ObjectMeta (dec_ObjectMeta tf) fs) (\<lambda>objectMeta1.
     bind_outcome (getf ''spec'' zero_ValidatingAdmissionPolicySpec
       dec_ValidatingAdmissionPolicySpec fs) (\<lambda>spec1.
     bind_outcome (getf ''status'' zero_ValidatingAdmissionPolicyStatus
       (dec_ValidatingAdmissionPolicyStatus tf) fs) (\<lambda>status1.
     Ret \<lparr>vp_Kind = kind1, vp_APIVersion = aPIVersion1, vp_ObjectMeta = objectMeta1, vp_Spec
       = spec1, vp_Status = status1\<rparr>))))))"

definition enc_ParamRef :: "ParamRef \<Rightarrow> json" where
  "enc_ParamRef x = JObj
     (enc_str ''name'' True (pr_Name x) @
      enc_str ''namespace'' True (pr_Namespace x) @ [])"

definition dec_ParamRef :: "json \<Rightarrow> ParamRef result" where
  "dec_ParamRef = dec_obj (\<lambda>fs.
     bind_outcome (get_str ''name'' fs) (\<lambda>name1.
     bind_outcome (get_str ''namespace'' fs) (\<lambda>namespace1.
     Ret \<lparr>pr_Name = name1, pr_Namespace = namespace1\<rparr>)))"

definition zero_ValidatingAdmissionPolicyBindingSpec :: ValidatingAdmissionPolicyBindingSpec where
  "zero_ValidatingAdmissionPolicyBindingSpec = \<lparr>bs_PolicyName = '''',
     bs_ParamRef = None,
     bs_MatchResources = None,
     bs_ValidationActions = []\<rparr>"

definition enc_ValidatingAdmissionPolicyBindingSpec :: "bool \<Rightarrow> ValidatingAdmissionPolicyBindingSpec \<Rightarrow> json" where
  "enc_ValidatingAdmissionPolicyBindingSpec tg x = JObj
     (enc_str ''policyName'' tg (bs_PolicyName x) @
      enc_ptr ''paramRef'' True enc_ParamRef (bs_ParamRef x) @
      enc_ptr ''matchResources'' True enc_MatchResources (bs_MatchResources x) @
      enc_list ''validationActions'' JStr (bs_ValidationActions x) @ [])"

definition dec_ValidatingAdmissionPolicyBindingSpec :: "json \<Rightarrow>
       ValidatingAdmissionPolicyBindingSpec result" where
  "dec_ValidatingAdmissionPolicyBindingSpec = dec_obj (\<lambda>fs.
     bind_outcome (get_str ''policyName'' fs) (\<lambda>policyName1.
     bind_outcome (get_ptr ''paramRef'' dec_ParamRef fs) (\<lambda>paramRef1.
     bind_outcome (get_ptr ''matchResources'' dec_MatchResources fs) (\<lambda>matchResources1.
     bind_outcome (get_list ''validationActions'' dec_str fs) (\<lambda>validationActions1.
     Ret \<lparr>bs_PolicyName = policyName1, bs_ParamRef = paramRef1, bs_MatchResources =
       matchResources1, bs_ValidationActions = validationActions1\<rparr>)))))"

definition enc_ValidatingAdmissionPolicyBinding :: "time_format \<Rightarrow> bool \<Rightarrow> ValidatingAdmissionPolicyBinding \<Rightarrow> json" where
  "enc_ValidatingAdmissionPolicyBinding tf tg x = JObj
     (enc_str ''kind'' True (vb_Kind x) @
      enc_str ''apiVersion'' True (vb_APIVersion x) @
      enc_val ''metadata'' (enc_ObjectMeta tf (vb_ObjectMeta x)) @
      enc_val ''spec'' (enc_ValidatingAdmissionPolicyBindingSpec tg (vb_Spec x)) @ [])"

definition dec_ValidatingAdmissionPolicyBinding :: "time_format \<Rightarrow> json \<Rightarrow>
       ValidatingAdmissionPolicyBinding result" where
  "dec_ValidatingAdmissionPolicyBinding tf = dec_obj (\<lambda>fs.
     bind_outcome (get_str ''kind'' fs) (\<lambda>kind1.
     bind_outcome (get_str ''apiVersion'' fs) (\<lambda>aPIVersion1.
     bind_outcome (getf ''metadata'' zero_ObjectMeta (dec_ObjectMeta tf) fs) (\<lambda>objectMeta1.
     bind_outcome (getf ''spec'' zero_ValidatingAdmissionPolicyBindingSpec
       dec_ValidatingAdmissionPolicyBindingSpec fs) (\<lambda>spec1.
     Ret \<lparr>vb_Kind = kind1, vb_APIVersion = aPIVersion1, vb_ObjectMeta = objectMeta1, vb_Spec
       = spec1\<rparr>)))))"

section \<open>Objects that survive the encoding\<close>

text \<open>
  Times have whole seconds, a pointer does not point to a zero time, and the raw fields of a
  managed-fields entry are not null.
\<close>

definition ok_ManagedFieldsEntry :: "time_format \<Rightarrow> ManagedFieldsEntry \<Rightarrow> bool" where
  "ok_ManagedFieldsEntry tf x \<longleftrightarrow> pred_option (\<lambda>t. t \<noteq> None \<and> time_ok tf t) (mf_Time x) \<and>
     pred_option (\<lambda>raw. raw \<noteq> JNull) (mf_FieldsV1 x)"

definition ok_ObjectMeta :: "time_format \<Rightarrow> ObjectMeta \<Rightarrow> bool" where
  "ok_ObjectMeta tf x \<longleftrightarrow> time_ok tf (om_CreationTimestamp x) \<and>
     pred_option (\<lambda>t. t \<noteq> None \<and> time_ok tf t) (om_DeletionTimestamp x) \<and>
     list_all (ok_ManagedFieldsEntry tf) (om_ManagedFields x)"

definition ok_Condition :: "time_format \<Rightarrow> Condition \<Rightarrow> bool" where
  "ok_Condition tf x \<longleftrightarrow> time_ok tf (cd_LastTransitionTime x)"

definition ok_ValidatingAdmissionPolicyStatus :: "time_format \<Rightarrow> ValidatingAdmissionPolicyStatus \<Rightarrow> bool" where
  "ok_ValidatingAdmissionPolicyStatus tf x \<longleftrightarrow> list_all (ok_Condition tf) (pt_Conditions x)"

definition ok_ValidatingAdmissionPolicy :: "time_format \<Rightarrow> ValidatingAdmissionPolicy \<Rightarrow> bool" where
  "ok_ValidatingAdmissionPolicy tf x \<longleftrightarrow> ok_ObjectMeta tf (vp_ObjectMeta x) \<and>
     ok_ValidatingAdmissionPolicyStatus tf (vp_Status x)"

definition ok_ValidatingAdmissionPolicyBinding :: "time_format \<Rightarrow> ValidatingAdmissionPolicyBinding \<Rightarrow> bool" where
  "ok_ValidatingAdmissionPolicyBinding tf x \<longleftrightarrow> ok_ObjectMeta tf (vb_ObjectMeta x)"

section \<open>Codecs\<close>

lemma dec_enc_Time: "time_ok tf t \<Longrightarrow> dec_Time tf (enc_Time tf t) = Ret t"
  by (auto simp: time_ok_def enc_Time_def split: option.splits)

lemma hit_Time [json_simps]:
  "time_ok tf t \<Longrightarrow> getf name zero (dec_Time tf) (enc_val name (enc_Time tf t) @ rest) = Ret t"
  by (simp add: getf_def enc_val_def dec_enc_Time)

interpretation time: json_codec "enc_Time tf" "dec_Time tf" "\<lambda>t. t \<noteq> None \<and> time_ok tf t" for tf
  by unfold_locales (auto simp: dec_enc_Time, auto simp: enc_Time_def)

interpretation raw: json_codec "\<lambda>raw. raw" Ret "\<lambda>raw. raw \<noteq> JNull"
  by unfold_locales auto

lemmas time_hits [json_simps] = time.hit_ptr raw.hit_ptr

interpretation OwnerReference: json_codec "enc_OwnerReference" "dec_OwnerReference" "\<lambda>x. True"
proof unfold_locales
  fix x :: OwnerReference
  show "dec_OwnerReference (enc_OwnerReference x) = Ret x"
    by (simp add: dec_OwnerReference_def enc_OwnerReference_def json_simps del: append_Nil2)
qed (simp add: enc_OwnerReference_def)

lemmas OwnerReference_hits [json_simps] = OwnerReference.hit_list OwnerReference.hit_ptr OwnerReference.hit_val

interpretation ManagedFieldsEntry: json_codec "enc_ManagedFieldsEntry tf" "dec_ManagedFieldsEntry tf" "ok_ManagedFieldsEntry tf" for tf
proof unfold_locales
  fix x :: ManagedFieldsEntry
  assume "ok_ManagedFieldsEntry tf x"
  then show "dec_ManagedFieldsEntry tf (enc_ManagedFieldsEntry tf x) = Ret x"
    by (simp add: dec_ManagedFieldsEntry_def enc_ManagedFieldsEntry_def ok_ManagedFieldsEntry_def json_simps del: append_Nil2)
qed (simp add: enc_ManagedFieldsEntry_def)

lemmas ManagedFieldsEntry_hits [json_simps] = ManagedFieldsEntry.hit_list ManagedFieldsEntry.hit_ptr ManagedFieldsEntry.hit_val

interpretation ObjectMeta: json_codec "enc_ObjectMeta tf" "dec_ObjectMeta tf" "ok_ObjectMeta tf" for tf
proof unfold_locales
  fix x :: ObjectMeta
  assume "ok_ObjectMeta tf x"
  then show "dec_ObjectMeta tf (enc_ObjectMeta tf x) = Ret x"
    by (simp add: dec_ObjectMeta_def enc_ObjectMeta_def ok_ObjectMeta_def json_simps del: append_Nil2)
qed (simp add: enc_ObjectMeta_def)

lemmas ObjectMeta_hits [json_simps] = ObjectMeta.hit_list ObjectMeta.hit_ptr ObjectMeta.hit_val

interpretation LabelSelectorRequirement: json_codec "enc_LabelSelectorRequirement" "dec_LabelSelectorRequirement" "\<lambda>x. True"
proof unfold_locales
  fix x :: LabelSelectorRequirement
  show "dec_LabelSelectorRequirement (enc_LabelSelectorRequirement x) = Ret x"
    by (simp add: dec_LabelSelectorRequirement_def enc_LabelSelectorRequirement_def json_simps del: append_Nil2)
qed (simp add: enc_LabelSelectorRequirement_def)

lemmas LabelSelectorRequirement_hits [json_simps] = LabelSelectorRequirement.hit_list LabelSelectorRequirement.hit_ptr LabelSelectorRequirement.hit_val

interpretation LabelSelector: json_codec "enc_LabelSelector" "dec_LabelSelector" "\<lambda>x. True"
proof unfold_locales
  fix x :: LabelSelector
  show "dec_LabelSelector (enc_LabelSelector x) = Ret x"
    by (simp add: dec_LabelSelector_def enc_LabelSelector_def json_simps del: append_Nil2)
qed (simp add: enc_LabelSelector_def)

lemmas LabelSelector_hits [json_simps] = LabelSelector.hit_list LabelSelector.hit_ptr LabelSelector.hit_val

interpretation NamedRuleWithOperations: json_codec "enc_NamedRuleWithOperations" "dec_NamedRuleWithOperations" "\<lambda>x. True"
proof unfold_locales
  fix x :: NamedRuleWithOperations
  show "dec_NamedRuleWithOperations (enc_NamedRuleWithOperations x) = Ret x"
    by (simp add: dec_NamedRuleWithOperations_def enc_NamedRuleWithOperations_def json_simps del: append_Nil2)
qed (simp add: enc_NamedRuleWithOperations_def)

lemmas NamedRuleWithOperations_hits [json_simps] = NamedRuleWithOperations.hit_list NamedRuleWithOperations.hit_ptr NamedRuleWithOperations.hit_val

interpretation MatchResources: json_codec "enc_MatchResources" "dec_MatchResources" "\<lambda>x. True"
proof unfold_locales
  fix x :: MatchResources
  show "dec_MatchResources (enc_MatchResources x) = Ret x"
    by (simp add: dec_MatchResources_def enc_MatchResources_def json_simps del: append_Nil2)
qed (simp add: enc_MatchResources_def)

lemmas MatchResources_hits [json_simps] = MatchResources.hit_list MatchResources.hit_ptr MatchResources.hit_val

interpretation ParamKind: json_codec "enc_ParamKind tg" "dec_ParamKind" "\<lambda>x. True" for tg
proof unfold_locales
  fix x :: ParamKind
  show "dec_ParamKind (enc_ParamKind tg x) = Ret x"
    by (simp add: dec_ParamKind_def enc_ParamKind_def json_simps del: append_Nil2)
qed (simp add: enc_ParamKind_def)

lemmas ParamKind_hits [json_simps] = ParamKind.hit_list ParamKind.hit_ptr ParamKind.hit_val

interpretation Validation: json_codec "enc_Validation" "dec_Validation" "\<lambda>x. True"
proof unfold_locales
  fix x :: Validation
  show "dec_Validation (enc_Validation x) = Ret x"
    by (simp add: dec_Validation_def enc_Validation_def json_simps del: append_Nil2)
qed (simp add: enc_Validation_def)

lemmas Validation_hits [json_simps] = Validation.hit_list Validation.hit_ptr Validation.hit_val

interpretation AuditAnnotation: json_codec "enc_AuditAnnotation" "dec_AuditAnnotation" "\<lambda>x. True"
proof unfold_locales
  fix x :: AuditAnnotation
  show "dec_AuditAnnotation (enc_AuditAnnotation x) = Ret x"
    by (simp add: dec_AuditAnnotation_def enc_AuditAnnotation_def json_simps del: append_Nil2)
qed (simp add: enc_AuditAnnotation_def)

lemmas AuditAnnotation_hits [json_simps] = AuditAnnotation.hit_list AuditAnnotation.hit_ptr AuditAnnotation.hit_val

interpretation MatchCondition: json_codec "enc_MatchCondition" "dec_MatchCondition" "\<lambda>x. True"
proof unfold_locales
  fix x :: MatchCondition
  show "dec_MatchCondition (enc_MatchCondition x) = Ret x"
    by (simp add: dec_MatchCondition_def enc_MatchCondition_def json_simps del: append_Nil2)
qed (simp add: enc_MatchCondition_def)

lemmas MatchCondition_hits [json_simps] = MatchCondition.hit_list MatchCondition.hit_ptr MatchCondition.hit_val

interpretation ValidatingAdmissionPolicySpec: json_codec "enc_ValidatingAdmissionPolicySpec tg" "dec_ValidatingAdmissionPolicySpec" "\<lambda>x. True" for tg
proof unfold_locales
  fix x :: ValidatingAdmissionPolicySpec
  show "dec_ValidatingAdmissionPolicySpec (enc_ValidatingAdmissionPolicySpec tg x) = Ret x"
    by (simp add: dec_ValidatingAdmissionPolicySpec_def enc_ValidatingAdmissionPolicySpec_def json_simps del: append_Nil2)
qed (simp add: enc_ValidatingAdmissionPolicySpec_def)

lemmas ValidatingAdmissionPolicySpec_hits [json_simps] = ValidatingAdmissionPolicySpec.hit_list ValidatingAdmissionPolicySpec.hit_ptr ValidatingAdmissionPolicySpec.hit_val

interpretation ExpressionWarning: json_codec "enc_ExpressionWarning" "dec_ExpressionWarning" "\<lambda>x. True"
proof unfold_locales
  fix x :: ExpressionWarning
  show "dec_ExpressionWarning (enc_ExpressionWarning x) = Ret x"
    by (simp add: dec_ExpressionWarning_def enc_ExpressionWarning_def json_simps del: append_Nil2)
qed (simp add: enc_ExpressionWarning_def)

lemmas ExpressionWarning_hits [json_simps] = ExpressionWarning.hit_list ExpressionWarning.hit_ptr ExpressionWarning.hit_val

interpretation TypeChecking: json_codec "enc_TypeChecking" "dec_TypeChecking" "\<lambda>x. True"
proof unfold_locales
  fix x :: TypeChecking
  show "dec_TypeChecking (enc_TypeChecking x) = Ret x"
    by (simp add: dec_TypeChecking_def enc_TypeChecking_def json_simps del: append_Nil2)
qed (simp add: enc_TypeChecking_def)

lemmas TypeChecking_hits [json_simps] = TypeChecking.hit_list TypeChecking.hit_ptr TypeChecking.hit_val

interpretation Condition: json_codec "enc_Condition tf" "dec_Condition tf" "ok_Condition tf" for tf
proof unfold_locales
  fix x :: Condition
  assume "ok_Condition tf x"
  then show "dec_Condition tf (enc_Condition tf x) = Ret x"
    by (simp add: dec_Condition_def enc_Condition_def ok_Condition_def json_simps del: append_Nil2)
qed (simp add: enc_Condition_def)

lemmas Condition_hits [json_simps] = Condition.hit_list Condition.hit_ptr Condition.hit_val

interpretation ValidatingAdmissionPolicyStatus: json_codec "enc_ValidatingAdmissionPolicyStatus tf" "dec_ValidatingAdmissionPolicyStatus tf" "ok_ValidatingAdmissionPolicyStatus tf" for tf
proof unfold_locales
  fix x :: ValidatingAdmissionPolicyStatus
  assume "ok_ValidatingAdmissionPolicyStatus tf x"
  then show "dec_ValidatingAdmissionPolicyStatus tf (enc_ValidatingAdmissionPolicyStatus tf x) = Ret x"
    by (simp add: dec_ValidatingAdmissionPolicyStatus_def enc_ValidatingAdmissionPolicyStatus_def ok_ValidatingAdmissionPolicyStatus_def json_simps del: append_Nil2)
qed (simp add: enc_ValidatingAdmissionPolicyStatus_def)

lemmas ValidatingAdmissionPolicyStatus_hits [json_simps] = ValidatingAdmissionPolicyStatus.hit_list ValidatingAdmissionPolicyStatus.hit_ptr ValidatingAdmissionPolicyStatus.hit_val

interpretation ValidatingAdmissionPolicy: json_codec "enc_ValidatingAdmissionPolicy tf tg" "dec_ValidatingAdmissionPolicy tf" "ok_ValidatingAdmissionPolicy tf" for tf tg
proof unfold_locales
  fix x :: ValidatingAdmissionPolicy
  assume "ok_ValidatingAdmissionPolicy tf x"
  then show "dec_ValidatingAdmissionPolicy tf (enc_ValidatingAdmissionPolicy tf tg x) = Ret x"
    by (simp add: dec_ValidatingAdmissionPolicy_def enc_ValidatingAdmissionPolicy_def ok_ValidatingAdmissionPolicy_def json_simps del: append_Nil2)
qed (simp add: enc_ValidatingAdmissionPolicy_def)

lemmas ValidatingAdmissionPolicy_hits [json_simps] = ValidatingAdmissionPolicy.hit_list ValidatingAdmissionPolicy.hit_ptr ValidatingAdmissionPolicy.hit_val

interpretation ParamRef: json_codec "enc_ParamRef" "dec_ParamRef" "\<lambda>x. True"
proof unfold_locales
  fix x :: ParamRef
  show "dec_ParamRef (enc_ParamRef x) = Ret x"
    by (simp add: dec_ParamRef_def enc_ParamRef_def json_simps del: append_Nil2)
qed (simp add: enc_ParamRef_def)

lemmas ParamRef_hits [json_simps] = ParamRef.hit_list ParamRef.hit_ptr ParamRef.hit_val

interpretation ValidatingAdmissionPolicyBindingSpec: json_codec "enc_ValidatingAdmissionPolicyBindingSpec tg" "dec_ValidatingAdmissionPolicyBindingSpec" "\<lambda>x. True" for tg
proof unfold_locales
  fix x :: ValidatingAdmissionPolicyBindingSpec
  show "dec_ValidatingAdmissionPolicyBindingSpec (enc_ValidatingAdmissionPolicyBindingSpec tg x) = Ret x"
    by (simp add: dec_ValidatingAdmissionPolicyBindingSpec_def enc_ValidatingAdmissionPolicyBindingSpec_def json_simps del: append_Nil2)
qed (simp add: enc_ValidatingAdmissionPolicyBindingSpec_def)

lemmas ValidatingAdmissionPolicyBindingSpec_hits [json_simps] = ValidatingAdmissionPolicyBindingSpec.hit_list ValidatingAdmissionPolicyBindingSpec.hit_ptr ValidatingAdmissionPolicyBindingSpec.hit_val

interpretation ValidatingAdmissionPolicyBinding: json_codec "enc_ValidatingAdmissionPolicyBinding tf tg" "dec_ValidatingAdmissionPolicyBinding tf" "ok_ValidatingAdmissionPolicyBinding tf" for tf tg
proof unfold_locales
  fix x :: ValidatingAdmissionPolicyBinding
  assume "ok_ValidatingAdmissionPolicyBinding tf x"
  then show "dec_ValidatingAdmissionPolicyBinding tf (enc_ValidatingAdmissionPolicyBinding tf tg x) = Ret x"
    by (simp add: dec_ValidatingAdmissionPolicyBinding_def enc_ValidatingAdmissionPolicyBinding_def ok_ValidatingAdmissionPolicyBinding_def json_simps del: append_Nil2)
qed (simp add: enc_ValidatingAdmissionPolicyBinding_def)

lemmas ValidatingAdmissionPolicyBinding_hits [json_simps] = ValidatingAdmissionPolicyBinding.hit_list ValidatingAdmissionPolicyBinding.hit_ptr ValidatingAdmissionPolicyBinding.hit_val

end
