(* ===== verification/Client.thy ===== *)
theory Client
  imports ApiMachinery
begin

text \<open>
  The typed client interface of \<^verbatim>\<open>pkg/controller/client.go\<close> and the transforming client of
  \<^verbatim>\<open>pkg/controller/transformed_client.go\<close>, which serves one type of objects by converting to and
  from a client of another type. A client operation maps the state of the server to its
  result and the next state. The locale \<open>object_client\<close> is what a caller relies on; the
  transforming client is shown to satisfy it whenever the client it wraps does.
\<close>

section \<open>The client interface\<close>

text \<open>A list object: its own metadata and its items.\<close>

record ListMeta =
  lm_SelfLink :: string
  lm_ResourceVersion :: string
  lm_Continue :: string
  lm_RemainingItemCount :: "64 word option"

definition zero_ListMeta :: ListMeta where
  "zero_ListMeta = \<lparr>lm_SelfLink = '''', lm_ResourceVersion = '''', lm_Continue = '''',
     lm_RemainingItemCount = None\<rparr>"

record 'o object_list =
  ol_Kind :: string
  ol_APIVersion :: string
  ol_ListMeta :: ListMeta
  ol_Items :: "'o list"

text \<open>The objects a watch delivers: a pointer of either object type, or anything else.\<close>

datatype ('r, 't) watch_object = ReplacementObject "'r option" | TargetObject "'t option" | OtherObject string

record ('r, 't) watch_event =
  we_Type :: string
  we_Object :: "('r, 't) watch_object"

text \<open>
  \<^verbatim>\<open>ClientInterface\<close>, with \<^verbatim>\<open>UpdateStatus\<close> present when the client also implements
  \<^verbatim>\<open>ClientInterfaceWithStatus\<close>. Pointers to objects may be nil; a \<^verbatim>\<open>watch.Interface\<close> reads the
  events it has delivered so far off the state. Options of all kinds are of one type.
\<close>

record ('o, 'e, 'opts, 's) ClientInterface =
  cl_Create :: "'o option \<Rightarrow> 'opts \<Rightarrow> 's \<Rightarrow> 'o option result \<times> 's"
  cl_Update :: "'o option \<Rightarrow> 'opts \<Rightarrow> 's \<Rightarrow> 'o option result \<times> 's"
  cl_UpdateStatus :: "('o option \<Rightarrow> 'opts \<Rightarrow> 's \<Rightarrow> 'o option result \<times> 's) option"
  cl_Delete :: "string \<Rightarrow> 'opts \<Rightarrow> 's \<Rightarrow> unit result \<times> 's"
  cl_DeleteCollection :: "'opts \<Rightarrow> 'opts \<Rightarrow> 's \<Rightarrow> unit result \<times> 's"
  cl_Get :: "string \<Rightarrow> 'opts \<Rightarrow> 's \<Rightarrow> 'o option result \<times> 's"
  cl_List :: "'opts \<Rightarrow> 's \<Rightarrow> 'o object_list option result \<times> 's"
  cl_Watch :: "'opts \<Rightarrow> 's \<Rightarrow> ('s \<Rightarrow> 'e list result) result \<times> 's"
  cl_Patch :: "string \<Rightarrow> bytes \<Rightarrow> 'opts \<Rightarrow> 's \<Rightarrow> 'o option result \<times> 's"

section \<open>The transforming client\<close>

text \<open>The target client is kept in the struct and not used by any operation.\<close>

record ('t, 'r, 'opts, 's) TransformedClient =
  tc_ReplacementClient :: "('r, ('r, 't) watch_event, 'opts, 's) ClientInterface"
  tc_To :: "'r option \<Rightarrow> 't option result"
  tc_From :: "'t option \<Rightarrow> 'r option result"

text \<open>Convert, call, convert the answer back; any error ends the call with it.\<close>

definition convert_call ::
  "('r option \<Rightarrow> 't option result) \<Rightarrow> ('t option \<Rightarrow> 'r option result) \<Rightarrow>
   ('r option \<Rightarrow> 's \<Rightarrow> 'r option result \<times> 's) \<Rightarrow> 't option \<Rightarrow> 's \<Rightarrow> 't option result \<times> 's" where
  "convert_call To From call object s =
     (case From object of
        Ret converted \<Rightarrow>
          (case call converted s of (res, s') \<Rightarrow> (bind_outcome res To, s'))
      | Err err \<Rightarrow> (Err err, s)
      | Panic m \<Rightarrow> (Panic m, s))"

definition tc_Create ::
  "('t, 'r, 'opts, 's) TransformedClient \<Rightarrow> 't option \<Rightarrow> 'opts \<Rightarrow> 's \<Rightarrow> 't option result \<times> 's" where
  "tc_Create c object opts s =
     convert_call (tc_To c) (tc_From c)
       (\<lambda>converted. cl_Create (tc_ReplacementClient c) converted opts) object s"

definition tc_Update ::
  "('t, 'r, 'opts, 's) TransformedClient \<Rightarrow> 't option \<Rightarrow> 'opts \<Rightarrow> 's \<Rightarrow> 't option result \<times> 's" where
  "tc_Update c object opts s =
     convert_call (tc_To c) (tc_From c)
       (\<lambda>converted. cl_Update (tc_ReplacementClient c) converted opts) object s"

definition tc_UpdateStatus ::
  "('t, 'r, 'opts, 's) TransformedClient \<Rightarrow> 't option \<Rightarrow> 'opts \<Rightarrow> 's \<Rightarrow> 't option result \<times> 's" where
  "tc_UpdateStatus c object opts s =
     convert_call (tc_To c) (tc_From c)
       (\<lambda>converted s. case cl_UpdateStatus (tc_ReplacementClient c) of
            None \<Rightarrow> (Panic ''interface conversion'', s)
          | Some updateStatus \<Rightarrow> updateStatus converted opts s) object s"

definition tc_Delete ::
  "('t, 'r, 'opts, 's) TransformedClient \<Rightarrow> string \<Rightarrow> 'opts \<Rightarrow> 's \<Rightarrow> unit result \<times> 's" where
  "tc_Delete c name opts s = cl_Delete (tc_ReplacementClient c) name opts s"

definition tc_DeleteCollection ::
  "('t, 'r, 'opts, 's) TransformedClient \<Rightarrow> 'opts \<Rightarrow> 'opts \<Rightarrow> 's \<Rightarrow> unit result \<times> 's" where
  "tc_DeleteCollection c opts listOpts s = cl_DeleteCollection (tc_ReplacementClient c) opts listOpts s"

definition tc_Get ::
  "('t, 'r, 'opts, 's) TransformedClient \<Rightarrow> string \<Rightarrow> 'opts \<Rightarrow> 's \<Rightarrow> 't option result \<times> 's" where
  "tc_Get c name opts s =
     (case cl_Get (tc_ReplacementClient c) name opts s of (res, s') \<Rightarrow> (bind_outcome res (tc_To c), s'))"

text \<open>Items are read and written by reflection; the new list has no metadata of its own.\<close>

definition getItems :: "'r object_list option \<Rightarrow> 'r list result" where
  "getItems listObj =
     (case listObj of None \<Rightarrow> Panic ''reflect: call of reflect.Value.FieldByName on zero Value''
      | Some l \<Rightarrow> Ret (ol_Items l))"

definition listWithItems :: "'t list \<Rightarrow> 't object_list" where
  "listWithItems items =
     \<lparr>ol_Kind = '''', ol_APIVersion = '''', ol_ListMeta = zero_ListMeta, ol_Items = items\<rparr>"

fun convertItems :: "('r option \<Rightarrow> 't option result) \<Rightarrow> 'r list \<Rightarrow> 't list result" where
  "convertItems To [] = Ret []"
| "convertItems To (v # items) =
     bind_outcome (To (Some v)) (\<lambda>converted.
       case converted of
         None \<Rightarrow> Panic ''invalid memory address or nil pointer dereference''
       | Some x \<Rightarrow> bind_outcome (convertItems To items) (\<lambda>xs. Ret (x # xs)))"

definition tc_List ::
  "('t, 'r, 'opts, 's) TransformedClient \<Rightarrow> 'opts \<Rightarrow> 's \<Rightarrow> 't object_list option result \<times> 's" where
  "tc_List c opts s =
     (case cl_List (tc_ReplacementClient c) opts s of
        (res, s') \<Rightarrow>
          (bind_outcome res (\<lambda>value.
             bind_outcome (getItems value) (\<lambda>items.
               bind_outcome (convertItems (tc_To c) items) (\<lambda>newItems.
                 Ret (Some (listWithItems newItems))))), s'))"

text \<open>
  The filter of \<^verbatim>\<open>Watch\<close>: an event whose object does not convert is dropped, one with an
  object of another type (a status or a bookmark of another kind) passes as it is.
\<close>

fun watchFilter ::
  "('r option \<Rightarrow> 't option result) \<Rightarrow> ('r, 't) watch_event list \<Rightarrow> ('r, 't) watch_event list result" where
  "watchFilter To [] = Ret []"
| "watchFilter To (ev # evs) =
     (case we_Object ev of
        ReplacementObject asR \<Rightarrow>
          (case To asR of
             Ret converted \<Rightarrow>
               bind_outcome (watchFilter To evs)
                 (\<lambda>rest. Ret (ev\<lparr>we_Object := TargetObject converted\<rparr> # rest))
           | Err err \<Rightarrow> watchFilter To evs
           | Panic m \<Rightarrow> Panic m)
      | _ \<Rightarrow> bind_outcome (watchFilter To evs) (\<lambda>rest. Ret (ev # rest)))"

definition tc_Watch ::
  "('t, 'r, 'opts, 's) TransformedClient \<Rightarrow> 'opts \<Rightarrow> 's \<Rightarrow>
   ('s \<Rightarrow> ('r, 't) watch_event list result) result \<times> 's" where
  "tc_Watch c opts s =
     (case cl_Watch (tc_ReplacementClient c) opts s of
        (res, s') \<Rightarrow>
          (bind_outcome res (\<lambda>watcher.
             Ret (\<lambda>t. bind_outcome (watcher t) (watchFilter (tc_To c)))), s'))"

definition tc_Patch ::
  "('t, 'r, 'opts, 's) TransformedClient \<Rightarrow> string \<Rightarrow> bytes \<Rightarrow> 'opts \<Rightarrow> 's \<Rightarrow> 't option result \<times> 's" where
  "tc_Patch c name data opts s = (Panic ''transform patch unsupported'', s)"

definition tc_Apply ::
  "('t, 'r, 'opts, 's) TransformedClient \<Rightarrow> 'a \<Rightarrow> 'opts \<Rightarrow> 's \<Rightarrow> 't option result \<times> 's" where
  "tc_Apply c object opts s = (Panic ''transform apply unsupported'', s)"

definition tc_ApplyStatus ::
  "('t, 'r, 'opts, 's) TransformedClient \<Rightarrow> 'a \<Rightarrow> 'opts \<Rightarrow> 's \<Rightarrow> 't option result \<times> 's" where
  "tc_ApplyStatus c object opts s = (Panic ''transform applystatus unsupported'', s)"

text \<open>The transforming client as a client of the target type.\<close>

definition transformed ::
  "('t, 'r, 'opts, 's) TransformedClient \<Rightarrow> ('t, ('r, 't) watch_event, 'opts, 's) ClientInterface" where
  "transformed c =
     \<lparr>cl_Create = tc_Create c, cl_Update = tc_Update c, cl_UpdateStatus = Some (tc_UpdateStatus c),
      cl_Delete = tc_Delete c, cl_DeleteCollection = tc_DeleteCollection c, cl_Get = tc_Get c,
      cl_List = tc_List c, cl_Watch = tc_Watch c, cl_Patch = tc_Patch c\<rparr>"

section \<open>The contract of a client\<close>

text \<open>
  A server that keeps one object per name: \<open>view\<close> reads them off its state. Writing a valid
  object stores and returns what \<open>norm\<close> makes of it; names that are missing, or taken, are
  refused with the errors the API defines for that, and refused calls change no object.
\<close>

locale object_client =
  fixes C :: "('o, 'e, 'opts, 's) ClientInterface"
    and name_of :: "'o \<Rightarrow> string"
    and valid :: "'o \<Rightarrow> bool"
    and norm :: "'o \<Rightarrow> 'o"
    and view :: "'s \<Rightarrow> string \<Rightarrow> 'o option"
    and inv :: "'s \<Rightarrow> bool"
  assumes norm_name: "valid x \<Longrightarrow> name_of (norm x) = name_of x"
    and get_found: "inv s \<Longrightarrow> view s name = Some x \<Longrightarrow>
      \<exists>s'. cl_Get C name opts s = (Ret (Some x), s') \<and> inv s' \<and> view s' = view s"
    and get_missing: "inv s \<Longrightarrow> view s name = None \<Longrightarrow>
      \<exists>err s'. cl_Get C name opts s = (Err err, s') \<and> IsNotFound (Some err) \<and> inv s' \<and> view s' = view s"
    and create_new: "inv s \<Longrightarrow> valid x \<Longrightarrow> view s (name_of x) = None \<Longrightarrow>
      \<exists>s'. cl_Create C (Some x) opts s = (Ret (Some (norm x)), s') \<and> inv s' \<and>
        view s' = (view s)(name_of x \<mapsto> norm x)"
    and create_taken: "inv s \<Longrightarrow> valid x \<Longrightarrow> view s (name_of x) \<noteq> None \<Longrightarrow>
      \<exists>err s'. cl_Create C (Some x) opts s = (Err err, s') \<and> \<not> IsNotFound (Some err) \<and> inv s' \<and>
        view s' = view s"
    and update_found: "inv s \<Longrightarrow> valid x \<Longrightarrow> view s (name_of x) \<noteq> None \<Longrightarrow>
      \<exists>s'. cl_Update C (Some x) opts s = (Ret (Some (norm x)), s') \<and> inv s' \<and>
        view s' = (view s)(name_of x \<mapsto> norm x)"
    and update_missing: "inv s \<Longrightarrow> valid x \<Longrightarrow> view s (name_of x) = None \<Longrightarrow>
      \<exists>err s'. cl_Update C (Some x) opts s = (Err err, s') \<and> IsNotFound (Some err) \<and> inv s' \<and>
        view s' = view s"
    and delete_found: "inv s \<Longrightarrow> view s name \<noteq> None \<Longrightarrow>
      \<exists>s'. cl_Delete C name opts s = (Ret (), s') \<and> inv s' \<and> view s' = (view s)(name := None)"
    and delete_missing: "inv s \<Longrightarrow> view s name = None \<Longrightarrow>
      \<exists>err s'. cl_Delete C name opts s = (Err err, s') \<and> IsNotFound (Some err) \<and> inv s' \<and>
        view s' = view s"
begin

text \<open>
  The life of an object: what was created is read back, cannot be created again, is replaced
  by an update and is gone after its deletion; no other object changes.
\<close>

lemma life_cycle:
  assumes "inv s" and "valid x" and "view s (name_of x) = None"
    and "valid y" and "name_of y = name_of x"
  shows "\<exists>s1 s2 s3 err1 err2.
    cl_Create C (Some x) o1 s = (Ret (Some (norm x)), s1) \<and> view s1 = (view s)(name_of x \<mapsto> norm x) \<and>
    fst (cl_Get C (name_of x) o2 s1) = Ret (Some (norm x)) \<and>
    fst (cl_Create C (Some y) o3 s1) = Err err1 \<and> \<not> IsNotFound (Some err1) \<and>
    cl_Update C (Some y) o4 s1 = (Ret (Some (norm y)), s2) \<and> view s2 = (view s)(name_of x \<mapsto> norm y) \<and>
    cl_Delete C (name_of x) o5 s2 = (Ret (), s3) \<and> view s3 = view s \<and>
    fst (cl_Get C (name_of x) o6 s3) = Err err2 \<and> IsNotFound (Some err2)"
proof -
  obtain s1 where s1: "cl_Create C (Some x) o1 s = (Ret (Some (norm x)), s1)" "inv s1"
    "view s1 = (view s)(name_of x \<mapsto> norm x)"
    using create_new [OF assms(1-3)] by blast
  obtain s2 where s2: "cl_Update C (Some y) o4 s1 = (Ret (Some (norm y)), s2)" "inv s2"
    "view s2 = (view s)(name_of x \<mapsto> norm y)"
    using update_found [OF s1(2) assms(4), of o4] assms(5) s1(3) by auto
  obtain s3 where s3: "cl_Delete C (name_of x) o5 s2 = (Ret (), s3)" "inv s3" "view s3 = view s"
    using delete_found [OF s2(2), of "name_of x" o5] assms(3) s2(3) by (auto simp: fun_upd_idem)
  have get: "fst (cl_Get C (name_of x) o2 s1) = Ret (Some (norm x))"
    using get_found [OF s1(2), of "name_of x" "norm x" o2] s1(3) by auto
  obtain err1 where "fst (cl_Create C (Some y) o3 s1) = Err err1" and "\<not> IsNotFound (Some err1)"
    using create_taken [OF s1(2) assms(4), of o3] assms(5) s1(3) by auto
  moreover obtain err2 where "fst (cl_Get C (name_of x) o6 s3) = Err err2" and "IsNotFound (Some err2)"
    using get_missing [OF s3(2), of "name_of x" o6] assms(3) s3(3) by auto
  ultimately show ?thesis using s1 s2 s3 get by blast
qed

end

text \<open>
  A transforming client over such a client: the conversions succeed on the objects that are
  exchanged, and keep names.
\<close>

locale transforming_client = base: object_client "tc_ReplacementClient c" name_of valid norm view inv
  for c :: "('t, 'r, 'opts, 's) TransformedClient" and name_of valid norm view inv +
  fixes toT :: "'r \<Rightarrow> 't"
    and fromT :: "'t \<Rightarrow> 'r"
    and name_of' :: "'t \<Rightarrow> string"
    and valid' :: "'t \<Rightarrow> bool"
  assumes From: "valid' x \<Longrightarrow> tc_From c (Some x) = Ret (Some (fromT x))"
    and To: "inv s \<Longrightarrow> view s name = Some y \<Longrightarrow> tc_To c (Some y) = Ret (Some (toT y))"
    and To_norm: "valid' x \<Longrightarrow> tc_To c (Some (norm (fromT x))) = Ret (Some (toT (norm (fromT x))))"
    and from_valid: "valid' x \<Longrightarrow> valid (fromT x)"
    and from_name: "valid' x \<Longrightarrow> name_of (fromT x) = name_of' x"
    and to_name: "name_of' (toT y) = name_of y"

sublocale transforming_client \<subseteq> target: object_client "transformed c" name_of' valid'
  "\<lambda>x. toT (norm (fromT x))" "\<lambda>s name. map_option toT (view s name)" inv
proof unfold_locales
  show "name_of' (toT (norm (fromT x))) = name_of' x" if "valid' x" for x
    using that by (simp add: to_name base.norm_name from_valid from_name)
  show "\<exists>s'. cl_Get (transformed c) name opts s = (Ret (Some x), s') \<and> inv s' \<and>
      (\<lambda>name. map_option toT (view s' name)) = (\<lambda>name. map_option toT (view s name))"
    if "inv s" and "map_option toT (view s name) = Some x" for s name x opts
    using that base.get_found [of s name _ opts] To [of s name] by (auto simp: transformed_def tc_Get_def)
  show "\<exists>err s'. cl_Get (transformed c) name opts s = (Err err, s') \<and> IsNotFound (Some err) \<and> inv s' \<and>
      (\<lambda>name. map_option toT (view s' name)) = (\<lambda>name. map_option toT (view s name))"
    if "inv s" and "map_option toT (view s name) = None" for s name opts
    using that base.get_missing [of s name opts] by (auto simp: transformed_def tc_Get_def)
  show "\<exists>s'. cl_Create (transformed c) (Some x) opts s = (Ret (Some (toT (norm (fromT x)))), s') \<and> inv s' \<and>
      (\<lambda>name. map_option toT (view s' name)) = (\<lambda>name. map_option toT (view s name))(name_of' x \<mapsto> toT (norm (fromT x)))"
    if "inv s" and "valid' x" and "map_option toT (view s (name_of' x)) = None" for s x opts
    using base.create_new [of s "fromT x" opts] that
    by (auto simp: transformed_def tc_Create_def convert_call_def From from_valid from_name To_norm fun_eq_iff)
  show "\<exists>err s'. cl_Create (transformed c) (Some x) opts s = (Err err, s') \<and> \<not> IsNotFound (Some err) \<and> inv s' \<and>
      (\<lambda>name. map_option toT (view s' name)) = (\<lambda>name. map_option toT (view s name))"
    if "inv s" and "valid' x" and "map_option toT (view s (name_of' x)) \<noteq> None" for s x opts
    using base.create_taken [of s "fromT x" opts] that
    by (auto simp: transformed_def tc_Create_def convert_call_def From from_valid from_name)
  show "\<exists>s'. cl_Update (transformed c) (Some x) opts s = (Ret (Some (toT (norm (fromT x)))), s') \<and> inv s' \<and>
      (\<lambda>name. map_option toT (view s' name)) = (\<lambda>name. map_option toT (view s name))(name_of' x \<mapsto> toT (norm (fromT x)))"
    if "inv s" and "valid' x" and "map_option toT (view s (name_of' x)) \<noteq> None" for s x opts
    using base.update_found [of s "fromT x" opts] that
    by (auto simp: transformed_def tc_Update_def convert_call_def From from_valid from_name To_norm fun_eq_iff)
  show "\<exists>err s'. cl_Update (transformed c) (Some x) opts s = (Err err, s') \<and> IsNotFound (Some err) \<and> inv s' \<and>
      (\<lambda>name. map_option toT (view s' name)) = (\<lambda>name. map_option toT (view s name))"
    if "inv s" and "valid' x" and "map_option toT (view s (name_of' x)) = None" for s x opts
    using base.update_missing [of s "fromT x" opts] that
    by (auto simp: transformed_def tc_Update_def convert_call_def From from_valid from_name)
  show "\<exists>s'. cl_Delete (transformed c) name opts s = (Ret (), s') \<and> inv s' \<and>
      (\<lambda>name. map_option toT (view s' name)) = (\<lambda>name. map_option toT (view s name))(name := None)"
    if "inv s" and "map_option toT (view s name) \<noteq> None" for s name opts
    using base.delete_found [of s name opts] that by (auto simp: transformed_def tc_Delete_def fun_eq_iff)
  show "\<exists>err s'. cl_Delete (transformed c) name opts s = (Err err, s') \<and> IsNotFound (Some err) \<and> inv s' \<and>
      (\<lambda>name. map_option toT (view s' name)) = (\<lambda>name. map_option toT (view s name))"
    if "inv s" and "map_option toT (view s name) = None" for s name opts
    using base.delete_missing [of s name opts] that by (auto simp: transformed_def tc_Delete_def)
qed

end
