(* ===== verification/Conversion.thy ===== *)
theory Conversion
  imports ApiTypes Client
begin

text \<open>
  The conversions between the native and the custom policy types and the wrapped client, from
  \<^verbatim>\<open>pkg/controller/admissionregistration.x-k8s.io/v1alpha1/injected_client.go\<close>: an object is
  written as JSON with the tags of its own type and read back as the other type, then its API
  version is replaced. The lemmas show that the conversions lose nothing and never fail on
  objects whose times have whole seconds, and what becomes of the API version.
\<close>

section \<open>Definitions\<close>

text \<open>Marshal with the tags of the source type, unmarshal as the other type.\<close>

definition NativeToCRDPolicy ::
  "time_format \<Rightarrow> ValidatingAdmissionPolicy option \<Rightarrow> ValidatingAdmissionPolicy option result" where
  "NativeToCRDPolicy tf vap =
     (case vap of
        None \<Rightarrow> Ret None
      | Some p \<Rightarrow>
          bind_outcome (dec_ValidatingAdmissionPolicy tf (enc_ValidatingAdmissionPolicy tf True p)) (\<lambda>res.
            Ret (Some (if length (vp_APIVersion res) > 0
              then res\<lparr>vp_APIVersion := ''admissionregistration.x-k8s.io/v1alpha1''\<rparr> else res))))"

definition CRDToNativePolicy ::
  "time_format \<Rightarrow> ValidatingAdmissionPolicy option \<Rightarrow> ValidatingAdmissionPolicy option result" where
  "CRDToNativePolicy tf vap =
     (case vap of
        None \<Rightarrow> Ret None
      | Some p \<Rightarrow>
          bind_outcome (dec_ValidatingAdmissionPolicy tf (enc_ValidatingAdmissionPolicy tf False p)) (\<lambda>res.
            Ret (Some (if length (vp_APIVersion res) > 0
              then res\<lparr>vp_APIVersion := ''apiregistration.k8s.io/v1alpha1''\<rparr> else res))))"

definition NativeToCRDPolicyBinding ::
  "time_format \<Rightarrow> ValidatingAdmissionPolicyBinding option \<Rightarrow> ValidatingAdmissionPolicyBinding option result" where
  "NativeToCRDPolicyBinding tf vap =
     (case vap of
        None \<Rightarrow> Ret None
      | Some p \<Rightarrow>
          bind_outcome
            (dec_ValidatingAdmissionPolicyBinding tf (enc_ValidatingAdmissionPolicyBinding tf True p)) (\<lambda>res.
            Ret (Some (if length (vb_APIVersion res) > 0
              then res\<lparr>vb_APIVersion := ''admissionregistration.x-k8s.io/v1alpha1''\<rparr> else res))))"

definition CRDToNativePolicyBinding ::
  "time_format \<Rightarrow> ValidatingAdmissionPolicyBinding option \<Rightarrow> ValidatingAdmissionPolicyBinding option result" where
  "CRDToNativePolicyBinding tf vap =
     (case vap of
        None \<Rightarrow> Ret None
      | Some p \<Rightarrow>
          bind_outcome
            (dec_ValidatingAdmissionPolicyBinding tf (enc_ValidatingAdmissionPolicyBinding tf False p)) (\<lambda>res.
            Ret (Some (if length (vb_APIVersion res) > 0
              then res\<lparr>vb_APIVersion := ''apiregistration.k8s.io/v1alpha1''\<rparr> else res))))"

text \<open>
  The two interfaces of the admission registration group. \<^verbatim>\<open>replacedClient\<close> embeds the native
  one and overrides both of its methods with transforming clients over the custom one.
\<close>

record ('p, 'pe, 'b, 'be, 'opts, 's) AdmissionregistrationV1alpha1Interface =
  ar_ValidatingAdmissionPolicies :: "('p, 'pe, 'opts, 's) ClientInterface"
  ar_ValidatingAdmissionPolicyBindings :: "('b, 'be, 'opts, 's) ClientInterface"

type_synonym policy_event = "(ValidatingAdmissionPolicy, ValidatingAdmissionPolicy) watch_event"

type_synonym binding_event = "(ValidatingAdmissionPolicyBinding, ValidatingAdmissionPolicyBinding) watch_event"

type_synonym ('opts, 's) custom_interface =
  "(ValidatingAdmissionPolicy, policy_event, ValidatingAdmissionPolicyBinding, binding_event, 'opts, 's)
     AdmissionregistrationV1alpha1Interface"

definition policies_client ::
  "time_format \<Rightarrow> ('opts, 's) custom_interface \<Rightarrow>
   (ValidatingAdmissionPolicy, ValidatingAdmissionPolicy, 'opts, 's) TransformedClient" where
  "policies_client tf replacement =
     \<lparr>tc_ReplacementClient = ar_ValidatingAdmissionPolicies replacement,
      tc_To = CRDToNativePolicy tf, tc_From = NativeToCRDPolicy tf\<rparr>"

definition bindings_client ::
  "time_format \<Rightarrow> ('opts, 's) custom_interface \<Rightarrow>
   (ValidatingAdmissionPolicyBinding, ValidatingAdmissionPolicyBinding, 'opts, 's) TransformedClient" where
  "bindings_client tf replacement =
     \<lparr>tc_ReplacementClient = ar_ValidatingAdmissionPolicyBindings replacement,
      tc_To = CRDToNativePolicyBinding tf, tc_From = NativeToCRDPolicyBinding tf\<rparr>"

text \<open>
  \<^verbatim>\<open>wrappedClient.AdmissionregistrationV1alpha1\<close>: the native client \<open>w\<close> is kept for the methods
  that are not overridden, of which the interface has none but its REST client.
\<close>

definition NewWrappedClient ::
  "'native \<Rightarrow> ('opts, 's) custom_interface \<Rightarrow> 'native \<times> ('opts, 's) custom_interface" where
  "NewWrappedClient client customClient = (client, customClient)"

definition wrapped_AdmissionregistrationV1alpha1 ::
  "time_format \<Rightarrow> 'native \<times> ('opts, 's) custom_interface \<Rightarrow> ('opts, 's) custom_interface" where
  "wrapped_AdmissionregistrationV1alpha1 tf w =
     \<lparr>ar_ValidatingAdmissionPolicies = transformed (policies_client tf (snd w)),
      ar_ValidatingAdmissionPolicyBindings = transformed (bindings_client tf (snd w))\<rparr>"

section \<open>Lemmas\<close>

definition with_version :: "string \<Rightarrow> ValidatingAdmissionPolicy \<Rightarrow> ValidatingAdmissionPolicy" where
  "with_version v p = (if vp_APIVersion p = '''' then p else p\<lparr>vp_APIVersion := v\<rparr>)"

definition binding_with_version ::
  "string \<Rightarrow> ValidatingAdmissionPolicyBinding \<Rightarrow> ValidatingAdmissionPolicyBinding" where
  "binding_with_version v p = (if vb_APIVersion p = '''' then p else p\<lparr>vb_APIVersion := v\<rparr>)"

lemma NativeToCRDPolicy_ok:
  "ok_ValidatingAdmissionPolicy tf p \<Longrightarrow> NativeToCRDPolicy tf (Some p) =
     Ret (Some (with_version ''admissionregistration.x-k8s.io/v1alpha1'' p))"
  by (simp add: NativeToCRDPolicy_def ValidatingAdmissionPolicy.dec_enc with_version_def)

lemma CRDToNativePolicy_ok:
  "ok_ValidatingAdmissionPolicy tf p \<Longrightarrow> CRDToNativePolicy tf (Some p) =
     Ret (Some (with_version ''apiregistration.k8s.io/v1alpha1'' p))"
  by (simp add: CRDToNativePolicy_def ValidatingAdmissionPolicy.dec_enc with_version_def)

lemma NativeToCRDPolicyBinding_ok:
  "ok_ValidatingAdmissionPolicyBinding tf p \<Longrightarrow> NativeToCRDPolicyBinding tf (Some p) =
     Ret (Some (binding_with_version ''admissionregistration.x-k8s.io/v1alpha1'' p))"
  by (simp add: NativeToCRDPolicyBinding_def ValidatingAdmissionPolicyBinding.dec_enc binding_with_version_def)

lemma CRDToNativePolicyBinding_ok:
  "ok_ValidatingAdmissionPolicyBinding tf p \<Longrightarrow> CRDToNativePolicyBinding tf (Some p) =
     Ret (Some (binding_with_version ''apiregistration.k8s.io/v1alpha1'' p))"
  by (simp add: CRDToNativePolicyBinding_def ValidatingAdmissionPolicyBinding.dec_enc binding_with_version_def)

lemma ok_with_version [simp]:
  "ok_ValidatingAdmissionPolicy tf (with_version v p) = ok_ValidatingAdmissionPolicy tf p"
  "ok_ValidatingAdmissionPolicyBinding tf (binding_with_version v b) = ok_ValidatingAdmissionPolicyBinding tf b"
  by (simp_all add: with_version_def binding_with_version_def ok_ValidatingAdmissionPolicy_def
      ok_ValidatingAdmissionPolicyBinding_def)

lemma with_version_twice:
  "v \<noteq> '''' \<Longrightarrow> with_version u (with_version v p) = with_version u p"
  "v \<noteq> '''' \<Longrightarrow> binding_with_version u (binding_with_version v b) = binding_with_version u b"
  by (simp_all add: with_version_def binding_with_version_def)

lemma with_version_fields [simp]:
  "vp_ObjectMeta (with_version v p) = vp_ObjectMeta p"
  "vb_ObjectMeta (binding_with_version v b) = vb_ObjectMeta b"
  by (simp_all add: with_version_def binding_with_version_def)

section \<open>Properties\<close>

text \<open>
  C19. Converting a policy to its custom form and back loses nothing and never fails: the
  kind, metadata, spec and status come back as they were, although the two types differ in
  what they omit. Only the API version changes: a non-empty one becomes the custom group's on
  the way out, and on the way back the version of the group \<^verbatim>\<open>apiregistration.k8s.io\<close>, which is
  not the group the native types belong to.
\<close>

theorem policy_conversion_roundtrip:
  assumes "ok_ValidatingAdmissionPolicy tf p"
  shows "\<exists>crd. NativeToCRDPolicy tf (Some p) = Ret (Some crd) \<and>
    crd = p\<lparr>vp_APIVersion := if vp_APIVersion p = '''' then '''' else ''admissionregistration.x-k8s.io/v1alpha1''\<rparr> \<and>
    CRDToNativePolicy tf (Some crd) =
      Ret (Some (p\<lparr>vp_APIVersion := if vp_APIVersion p = '''' then '''' else ''apiregistration.k8s.io/v1alpha1''\<rparr>))"
  using assms
  by (auto simp: NativeToCRDPolicy_ok CRDToNativePolicy_ok with_version_twice)
    (simp_all add: with_version_def)

text \<open>
  The same for a binding.
\<close>

lemma binding_conversion_roundtrip:
  assumes "ok_ValidatingAdmissionPolicyBinding tf b"
  shows "\<exists>crd. NativeToCRDPolicyBinding tf (Some b) = Ret (Some crd) \<and>
    crd = b\<lparr>vb_APIVersion := if vb_APIVersion b = '''' then '''' else ''admissionregistration.x-k8s.io/v1alpha1''\<rparr> \<and>
    CRDToNativePolicyBinding tf (Some crd) =
      Ret (Some (b\<lparr>vb_APIVersion := if vb_APIVersion b = '''' then '''' else ''apiregistration.k8s.io/v1alpha1''\<rparr>))"
  using assms
  by (auto simp: NativeToCRDPolicyBinding_ok CRDToNativePolicyBinding_ok with_version_twice)
    (simp_all add: binding_with_version_def)

text \<open>
  Listing through the transforming client converts every item, in order, and returns no
  list metadata: the resource version and the continuation token of the server's list are
  dropped, so a client cannot resume from the list.
\<close>

lemma transformed_list:
  assumes "cl_List (tc_ReplacementClient c) opts s = (Ret (Some l), s')"
    and "\<forall>v \<in> set (ol_Items l). tc_To c (Some v) = Ret (Some (f v))"
  shows "tc_List c opts s =
    (Ret (Some \<lparr>ol_Kind = '''', ol_APIVersion = '''', ol_ListMeta = zero_ListMeta, ol_Items = map f (ol_Items l)\<rparr>), s')"
proof -
  have "convertItems (tc_To c) items = Ret (map f items)"
    if "\<forall>v \<in> set items. tc_To c (Some v) = Ret (Some (f v))" for items
    using that by (induction items) auto
  then show ?thesis using assms by (simp add: tc_List_def getItems_def listWithItems_def)
qed

text \<open>
  The filter of a watch: an event with a policy object passes exactly when the object
  converts, carrying the converted object and its own type, in order; every other event passes
  unchanged.
\<close>

lemma watch_filter_exact:
  assumes "\<forall>asR m. To asR \<noteq> Panic m"
  shows "watchFilter To evs = Ret (concat (map (\<lambda>ev.
    case we_Object ev of
      ReplacementObject asR \<Rightarrow>
        (case To asR of Ret t \<Rightarrow> [\<lparr>we_Type = we_Type ev, we_Object = TargetObject t\<rparr>] | _ \<Rightarrow> [])
    | _ \<Rightarrow> [ev]) evs))"
proof (induction evs)
  case Nil
  show ?case by simp
next
  case (Cons ev evs)
  show ?case
  proof (cases "we_Object ev")
    case (ReplacementObject asR)
    then show ?thesis using Cons.IH assms by (cases "To asR") auto
  qed (use Cons.IH in auto)
qed

section \<open>Witnesses\<close>

definition example_format :: time_format where
  "example_format = \<lparr>tf_Format = (\<lambda>sec. if sec = 1 then ''1970-01-01T00:00:01Z'' else ''1970-01-01T00:00:00Z''),
     tf_Parse = (\<lambda>str. if str = ''1970-01-01T00:00:01Z'' then Inr 1 else Inl (ErrorString ''parsing time''))\<rparr>"

definition example_policy :: ValidatingAdmissionPolicy where
  "example_policy =
     \<lparr>vp_Kind = ''ValidatingAdmissionPolicy'', vp_APIVersion = ''admissionregistration.k8s.io/v1alpha1'',
      vp_ObjectMeta = zero_ObjectMeta\<lparr>om_Name := ''p'', om_CreationTimestamp := Some 1000000000\<rparr>,
      vp_Spec = zero_ValidatingAdmissionPolicySpec\<lparr>ps_ParamKind := Some \<lparr>pk_APIVersion = '''', pk_Kind = ''K''\<rparr>\<rparr>,
      vp_Status = zero_ValidatingAdmissionPolicyStatus\<rparr>"

lemmas ok_simps = ok_ValidatingAdmissionPolicy_def ok_ValidatingAdmissionPolicyBinding_def
  ok_ObjectMeta_def ok_ValidatingAdmissionPolicyStatus_def time_ok_def zero_ObjectMeta_def
  zero_ValidatingAdmissionPolicyStatus_def example_format_def

lemma example_policy_ok: "ok_ValidatingAdmissionPolicy example_format example_policy"
  by (simp add: example_policy_def ok_simps)

theorem policy_conversion_roundtrip_witness:
  "bind_outcome (NativeToCRDPolicy example_format (Some example_policy)) (CRDToNativePolicy example_format) =
     Ret (Some (example_policy\<lparr>vp_APIVersion := ''apiregistration.k8s.io/v1alpha1''\<rparr>))"
  using policy_conversion_roundtrip [OF example_policy_ok] by (auto simp: example_policy_def)

definition example_To :: "nat option \<Rightarrow> string option result" where
  "example_To x = (case x of None \<Rightarrow> Ret None | Some n \<Rightarrow>
     if n = 0 then Err (ErrorString ''zero'') else Ret (Some (replicate n (CHR ''i''))))"

end
