(* ===== verification/FakeClient.thy ===== *)
theory FakeClient
  imports Conversion "HOL-Library.AList" "HOL-Library.Char_ord" "HOL-Library.List_Lexorder"
    "HOL-Library.Product_Lexorder"
begin

text \<open>
  The generated fake clientset under \<^verbatim>\<open>pkg/generated/clientset/versioned\<close> with the object tracker
  of the vendored \<^verbatim>\<open>client-go/testing/fixture.go\<close> behind it: the server the tests run against.
  Objects have value semantics, so the deep copies of the source are not visible; the bounded
  buffers of the watchers are not modelled. The clients are shown to satisfy the contract
  \<open>object_client\<close>, and through it the wrapped client of \<^verbatim>\<open>injected_client.go\<close> over them.
\<close>

section \<open>The tracker\<close>

datatype crd_obj = PolicyObject ValidatingAdmissionPolicy | BindingObject ValidatingAdmissionPolicyBinding

fun obj_meta :: "crd_obj \<Rightarrow> ObjectMeta" where
  "obj_meta (PolicyObject p) = vp_ObjectMeta p"
| "obj_meta (BindingObject b) = vb_ObjectMeta b"

fun set_namespace :: "string \<Rightarrow> crd_obj \<Rightarrow> crd_obj" where
  "set_namespace ns (PolicyObject p) =
     PolicyObject (p\<lparr>vp_ObjectMeta := (vp_ObjectMeta p)\<lparr>om_Namespace := ns\<rparr>\<rparr>)"
| "set_namespace ns (BindingObject b) =
     BindingObject (b\<lparr>vb_ObjectMeta := (vb_ObjectMeta b)\<lparr>om_Namespace := ns\<rparr>\<rparr>)"

type_synonym objects = "((string \<times> string) \<times> crd_obj) list"

text \<open>
  The objects per resource, keyed by namespace and name, and the watchers, each with its
  resource, its namespace (empty for all) and the events sent to it.
\<close>

record tracker =
  trk_objects :: "GroupVersionResource \<rightharpoonup> objects"
  trk_watchers :: "(GroupVersionResource \<times> string \<times> (string \<times> crd_obj) list) list"

definition NewObjectTracker :: tracker where
  "NewObjectTracker = \<lparr>trk_objects = Map.empty, trk_watchers = []\<rparr>"

text \<open>Send an event to the watchers that \<^verbatim>\<open>getWatches\<close> selects.\<close>

definition trk_notify ::
  "GroupVersionResource \<Rightarrow> string \<Rightarrow> string \<times> crd_obj \<Rightarrow> tracker \<Rightarrow> tracker" where
  "trk_notify gvr ns ev t = t\<lparr>trk_watchers := map (\<lambda>(g, n, evs).
     if g = gvr \<and> (n = ns \<or> n = '''') then (g, n, evs @ [ev]) else (g, n, evs)) (trk_watchers t)\<rparr>"

definition NewBadRequest :: "string \<Rightarrow> goerror" where
  "NewBadRequest reason = StatusError
     \<lparr>status_Status = ''Failure'', status_Message = reason, status_Reason = ''BadRequest'',
      status_Details = None, status_Code = 400\<rparr>"

definition objects_of :: "GroupVersionResource \<Rightarrow> tracker \<Rightarrow> objects" where
  "objects_of gvr t = (case trk_objects t gvr of None \<Rightarrow> [] | Some objs \<Rightarrow> objs)"

definition trk_add ::
  "GroupVersionResource \<Rightarrow> crd_obj \<Rightarrow> string \<Rightarrow> bool \<Rightarrow> tracker \<Rightarrow> goerror option \<times> tracker" where
  "trk_add gvr obj0 ns replaceExisting t =
     (let obj = (if length (om_Namespace (obj_meta obj0)) = 0 then set_namespace ns obj0 else obj0);
          newMeta = obj_meta obj
      in if ns \<noteq> om_Namespace newMeta then
           (Some (NewBadRequest (''request namespace does not match object namespace, request: '' @
              go_quote ns @ '' object: '' @ go_quote (om_Namespace newMeta))), t)
         else
           let t1 = t\<lparr>trk_objects := (trk_objects t)(gvr \<mapsto> objects_of gvr t)\<rparr>;
               namespacedName = (om_Namespace newMeta, om_Name newMeta);
               stored = t1\<lparr>trk_objects := (trk_objects t1)(gvr \<mapsto>
                 AList.update namespacedName obj (objects_of gvr t1))\<rparr>
           in if map_of (objects_of gvr t1) namespacedName \<noteq> None then
                (if replaceExisting then (None, trk_notify gvr ns (''MODIFIED'', obj) stored)
                 else (Some (NewAlreadyExists (gvr_GroupResource gvr) (om_Name newMeta)), t1))
              else if replaceExisting then
                (Some (NewNotFound (gvr_GroupResource gvr) (om_Name newMeta)), t1)
              else (None, trk_notify gvr ns (''ADDED'', obj) stored))"

definition trk_Create :: "GroupVersionResource \<Rightarrow> crd_obj \<Rightarrow> string \<Rightarrow> tracker \<Rightarrow> goerror option \<times> tracker" where
  "trk_Create gvr obj ns t = trk_add gvr obj ns False t"

definition trk_Update :: "GroupVersionResource \<Rightarrow> crd_obj \<Rightarrow> string \<Rightarrow> tracker \<Rightarrow> goerror option \<times> tracker" where
  "trk_Update gvr obj ns t = trk_add gvr obj ns True t"

definition trk_Get :: "GroupVersionResource \<Rightarrow> string \<Rightarrow> string \<Rightarrow> tracker \<Rightarrow> goerror + crd_obj" where
  "trk_Get gvr ns name t =
     (case trk_objects t gvr of
        None \<Rightarrow> Inl (NewNotFound (gvr_GroupResource gvr) name)
      | Some objs \<Rightarrow>
          (case map_of objs (ns, name) of
             None \<Rightarrow> Inl (NewNotFound (gvr_GroupResource gvr) name)
           | Some obj \<Rightarrow> Inr obj))"

definition trk_Delete :: "GroupVersionResource \<Rightarrow> string \<Rightarrow> string \<Rightarrow> tracker \<Rightarrow> goerror option \<times> tracker" where
  "trk_Delete gvr ns name t =
     (case trk_objects t gvr of
        None \<Rightarrow> (Some (NewNotFound (gvr_GroupResource gvr) name), t)
      | Some objs \<Rightarrow>
          (case map_of objs (ns, name) of
             None \<Rightarrow> (Some (NewNotFound (gvr_GroupResource gvr) name), t)
           | Some obj \<Rightarrow>
               (None, trk_notify gvr ns (''DELETED'', obj)
                  (t\<lparr>trk_objects := (trk_objects t)(gvr \<mapsto> AList.delete (ns, name) objs)\<rparr>))))"

text \<open>Objects of a namespace (the empty one matches all), sorted by namespace and name.\<close>

definition filterByNamespace :: "objects \<Rightarrow> string \<Rightarrow> crd_obj list" where
  "filterByNamespace objs ns =
     sort_key (\<lambda>obj. (om_Namespace (obj_meta obj), om_Name (obj_meta obj)))
       (filter (\<lambda>obj. ns = '''' \<or> om_Namespace (obj_meta obj) = ns) (map snd objs))"

definition trk_List :: "GroupVersionResource \<Rightarrow> string \<Rightarrow> tracker \<Rightarrow> crd_obj list" where
  "trk_List gvr ns t =
     (case trk_objects t gvr of None \<Rightarrow> [] | Some objs \<Rightarrow> filterByNamespace objs ns)"

text \<open>Registering a watcher; its position identifies it.\<close>

definition trk_Watch :: "GroupVersionResource \<Rightarrow> string \<Rightarrow> tracker \<Rightarrow> nat \<times> tracker" where
  "trk_Watch gvr ns t =
     (length (trk_watchers t), t\<lparr>trk_watchers := trk_watchers t @ [(gvr, ns, [])]\<rparr>)"

section \<open>The fake clientset\<close>

text \<open>The actions the fake clients build; the resources are cluster-scoped.\<close>

datatype action =
    ListAction GroupVersionResource
  | GetAction GroupVersionResource string
  | CreateAction GroupVersionResource crd_obj
  | UpdateAction GroupVersionResource string crd_obj
  | DeleteAction GroupVersionResource string
  | DeleteCollectionAction GroupVersionResource
  | PatchAction GroupVersionResource string bytes
  | WatchAction GroupVersionResource

datatype reply = ReplyObject crd_obj | ReplyList "crd_obj list"

text \<open>
  \<^verbatim>\<open>ObjectReaction\<close>: whether the action was handled, the object and the error. Applying a patch
  to the JSON of an object belongs to other packages and is the argument \<open>patch\<close>.
\<close>

definition object_reply :: "goerror + crd_obj \<Rightarrow> bool \<times> reply option \<times> goerror option" where
  "object_reply r = (case r of Inl err \<Rightarrow> (True, None, Some err) | Inr obj \<Rightarrow> (True, Some (ReplyObject obj), None))"

fun ObjectReaction ::
  "(crd_obj \<Rightarrow> bytes \<Rightarrow> goerror + crd_obj) \<Rightarrow> action \<Rightarrow> tracker \<Rightarrow>
   (bool \<times> reply option \<times> goerror option) \<times> tracker" where
  "ObjectReaction patch (ListAction gvr) t = ((True, Some (ReplyList (trk_List gvr '''' t)), None), t)"
| "ObjectReaction patch (GetAction gvr name) t = (object_reply (trk_Get gvr '''' name t), t)"
| "ObjectReaction patch (CreateAction gvr obj) t =
     (case trk_Create gvr obj '''' t of
        (Some err, t') \<Rightarrow> ((True, None, Some err), t')
      | (None, t') \<Rightarrow> (object_reply (trk_Get gvr '''' (om_Name (obj_meta obj)) t'), t'))"
| "ObjectReaction patch (UpdateAction gvr subresource obj) t =
     (case trk_Update gvr obj '''' t of
        (Some err, t') \<Rightarrow> ((True, None, Some err), t')
      | (None, t') \<Rightarrow> (object_reply (trk_Get gvr '''' (om_Name (obj_meta obj)) t'), t'))"
| "ObjectReaction patch (DeleteAction gvr name) t =
     (case trk_Delete gvr '''' name t of (err, t') \<Rightarrow> ((True, None, err), t'))"
| "ObjectReaction patch (PatchAction gvr name data) t =
     (case trk_Get gvr '''' name t of
        Inl err \<Rightarrow> ((True, None, Some err), t)
      | Inr old \<Rightarrow>
          (case patch old data of
             Inl err \<Rightarrow> ((True, None, Some err), t)
           | Inr obj \<Rightarrow>
               (case trk_Update gvr obj '''' t of
                  (Some err, t') \<Rightarrow> ((True, None, Some err), t')
                | (None, t') \<Rightarrow> ((True, Some (ReplyObject obj), None), t'))))"
| "ObjectReaction patch (DeleteCollectionAction gvr) t =
     ((False, None, Some (ErrorString ''no reaction implemented'')), t)"
| "ObjectReaction patch (WatchAction gvr) t =
     ((False, None, Some (ErrorString ''no reaction implemented'')), t)"

record fake =
  fk_actions :: "action list"
  fk_tracker :: tracker

text \<open>
  \<^verbatim>\<open>Fake.Invokes\<close> with the one reactor that \<^verbatim>\<open>NewSimpleClientset\<close> installs; an action it does not
  handle is answered with the default object and no error, here \<open>None\<close>.
\<close>

definition Invokes ::
  "(crd_obj \<Rightarrow> bytes \<Rightarrow> goerror + crd_obj) \<Rightarrow> action \<Rightarrow> fake \<Rightarrow> (reply option \<times> goerror option) \<times> fake" where
  "Invokes patch act c =
     (let c1 = c\<lparr>fk_actions := fk_actions c @ [act]\<rparr>
      in case ObjectReaction patch act (fk_tracker c1) of
           ((handled, ret, err), t) \<Rightarrow>
             if handled then ((ret, err), c1\<lparr>fk_tracker := t\<rparr>)
             else ((None, None), c1\<lparr>fk_tracker := t\<rparr>))"

text \<open>
  \<^verbatim>\<open>NewSimpleClientset\<close> from the given objects, each under the resource of its kind; an object
  that cannot be added is a panic.
\<close>

definition policiesResource :: GroupVersionResource where
  "policiesResource = \<lparr>gvr_Group = ''admissionregistration.x-k8s.io'', gvr_Version = ''v1alpha1'',
     gvr_Resource = ''validatingadmissionpolicies''\<rparr>"

definition bindingsResource :: GroupVersionResource where
  "bindingsResource = \<lparr>gvr_Group = ''admissionregistration.x-k8s.io'', gvr_Version = ''v1alpha1'',
     gvr_Resource = ''validatingadmissionpolicybindings''\<rparr>"

fun resource_of :: "crd_obj \<Rightarrow> GroupVersionResource" where
  "resource_of (PolicyObject p) = policiesResource"
| "resource_of (BindingObject b) = bindingsResource"

fun addObjects :: "crd_obj list \<Rightarrow> tracker \<Rightarrow> tracker result" where
  "addObjects [] t = Ret t"
| "addObjects (obj # objs) t =
     (case trk_add (resource_of obj) obj (om_Namespace (obj_meta obj)) False t of
        (Some err, t') \<Rightarrow> Panic (error_Error err)
      | (None, t') \<Rightarrow> addObjects objs t')"

definition NewSimpleClientset :: "crd_obj list \<Rightarrow> fake result" where
  "NewSimpleClientset objects =
     bind_outcome (addObjects objects NewObjectTracker) (\<lambda>t. Ret \<lparr>fk_actions = [], fk_tracker = t\<rparr>)"

section \<open>The fake clients\<close>

text \<open>
  The methods of the two generated clients have the same text but for the type and the
  resource. \<open>wrap\<close> puts an object of the type into the tracker's type and \<open>prj\<close> is the type
  assertion on the way back; \<open>matches\<close> is the label selector of the list options.
\<close>

definition typed_reply :: "(crd_obj \<Rightarrow> 'o option) \<Rightarrow> reply option \<times> goerror option \<Rightarrow> 'o option result" where
  "typed_reply prj r =
     (case r of
        (None, err) \<Rightarrow> (case err of Some e \<Rightarrow> Err e | None \<Rightarrow> Ret None)
      | (Some (ReplyObject obj), err) \<Rightarrow>
          (case prj obj of
             None \<Rightarrow> Panic ''interface conversion''
           | Some x \<Rightarrow> (case err of Some e \<Rightarrow> Err e | None \<Rightarrow> Ret (Some x)))
      | (Some (ReplyList objs), err) \<Rightarrow> Panic ''interface conversion'')"

definition error_reply :: "reply option \<times> goerror option \<Rightarrow> unit result" where
  "error_reply r = (case snd r of Some e \<Rightarrow> Err e | None \<Rightarrow> Ret ())"

definition fake_Get ::
  "(crd_obj \<Rightarrow> bytes \<Rightarrow> goerror + crd_obj) \<Rightarrow> (crd_obj \<Rightarrow> 'o option) \<Rightarrow> GroupVersionResource \<Rightarrow>
   string \<Rightarrow> 'opts \<Rightarrow> fake \<Rightarrow> 'o option result \<times> fake" where
  "fake_Get patch prj gvr name opts c =
     (case Invokes patch (GetAction gvr name) c of (r, c') \<Rightarrow> (typed_reply prj r, c'))"

definition fake_Create ::
  "(crd_obj \<Rightarrow> bytes \<Rightarrow> goerror + crd_obj) \<Rightarrow> ('o \<Rightarrow> crd_obj) \<Rightarrow> (crd_obj \<Rightarrow> 'o option) \<Rightarrow> GroupVersionResource \<Rightarrow>
   'o option \<Rightarrow> 'opts \<Rightarrow> fake \<Rightarrow> 'o option result \<times> fake" where
  "fake_Create patch wrap prj gvr x opts c =
     (case x of
        None \<Rightarrow> (Panic ''invalid memory address or nil pointer dereference'', c)
      | Some obj \<Rightarrow>
          (case Invokes patch (CreateAction gvr (wrap obj)) c of (r, c') \<Rightarrow> (typed_reply prj r, c')))"

definition fake_Update ::
  "(crd_obj \<Rightarrow> bytes \<Rightarrow> goerror + crd_obj) \<Rightarrow> ('o \<Rightarrow> crd_obj) \<Rightarrow> (crd_obj \<Rightarrow> 'o option) \<Rightarrow> GroupVersionResource \<Rightarrow>
   string \<Rightarrow> 'o option \<Rightarrow> 'opts \<Rightarrow> fake \<Rightarrow> 'o option result \<times> fake" where
  "fake_Update patch wrap prj gvr subresource x opts c =
     (case x of
        None \<Rightarrow> (Panic ''invalid memory address or nil pointer dereference'', c)
      | Some obj \<Rightarrow>
          (case Invokes patch (UpdateAction gvr subresource (wrap obj)) c of
             (r, c') \<Rightarrow> (typed_reply prj r, c')))"

definition fake_Delete ::
  "(crd_obj \<Rightarrow> bytes \<Rightarrow> goerror + crd_obj) \<Rightarrow> GroupVersionResource \<Rightarrow> string \<Rightarrow> 'opts \<Rightarrow> fake \<Rightarrow> unit result \<times> fake" where
  "fake_Delete patch gvr name opts c =
     (case Invokes patch (DeleteAction gvr name) c of (r, c') \<Rightarrow> (error_reply r, c'))"

definition fake_DeleteCollection ::
  "(crd_obj \<Rightarrow> bytes \<Rightarrow> goerror + crd_obj) \<Rightarrow> GroupVersionResource \<Rightarrow> 'opts \<Rightarrow> 'opts \<Rightarrow> fake \<Rightarrow> unit result \<times> fake" where
  "fake_DeleteCollection patch gvr opts listOpts c =
     (case Invokes patch (DeleteCollectionAction gvr) c of (r, c') \<Rightarrow> (error_reply r, c'))"

fun collect_typed :: "(crd_obj \<Rightarrow> 'o option) \<Rightarrow> crd_obj list \<Rightarrow> 'o list result" where
  "collect_typed prj [] = Ret []"
| "collect_typed prj (obj # objs) =
     (case prj obj of
        None \<Rightarrow> Panic ''interface conversion''
      | Some x \<Rightarrow> bind_outcome (collect_typed prj objs) (\<lambda>xs. Ret (x # xs)))"

definition fake_List ::
  "(crd_obj \<Rightarrow> bytes \<Rightarrow> goerror + crd_obj) \<Rightarrow> (crd_obj \<Rightarrow> 'o option) \<Rightarrow> GroupVersionResource \<Rightarrow>
   ('opts \<Rightarrow> (string \<times> string) list \<Rightarrow> bool) \<Rightarrow> ('o \<Rightarrow> ObjectMeta) \<Rightarrow> 'opts \<Rightarrow> fake \<Rightarrow>
   'o object_list option result \<times> fake" where
  "fake_List patch prj gvr matches meta_of opts c =
     (case Invokes patch (ListAction gvr) c of
        ((Some (ReplyList objs), err), c') \<Rightarrow>
          (bind_outcome (collect_typed prj objs) (\<lambda>items.
             case err of Some e \<Rightarrow> Err e | None \<Rightarrow>
               Ret (Some (listWithItems (filter (\<lambda>x. matches opts (om_Labels (meta_of x))) items)))), c')
      | ((None, err), c') \<Rightarrow> (case err of Some e \<Rightarrow> Err e | None \<Rightarrow> Ret None, c')
      | ((Some (ReplyObject obj), err), c') \<Rightarrow> (Panic ''interface conversion'', c'))"

text \<open>A watcher reads the events sent to it; the type of an event's object is its own.\<close>

definition fake_Watch ::
  "(crd_obj \<Rightarrow> 'o option) \<Rightarrow> GroupVersionResource \<Rightarrow> 'opts \<Rightarrow> fake \<Rightarrow>
   (fake \<Rightarrow> ('o, 'o) watch_event list result) result \<times> fake" where
  "fake_Watch prj gvr opts c =
     (case trk_Watch gvr '''' (fk_tracker c) of
        (i, t) \<Rightarrow>
          (Ret (\<lambda>d. Ret (map (\<lambda>(ty, obj). \<lparr>we_Type = ty, we_Object = ReplacementObject (prj obj)\<rparr>)
             (snd (snd (trk_watchers (fk_tracker d) ! i))))),
           c\<lparr>fk_actions := fk_actions c @ [WatchAction gvr], fk_tracker := t\<rparr>))"

definition fake_Patch ::
  "(crd_obj \<Rightarrow> bytes \<Rightarrow> goerror + crd_obj) \<Rightarrow> (crd_obj \<Rightarrow> 'o option) \<Rightarrow> GroupVersionResource \<Rightarrow>
   string \<Rightarrow> bytes \<Rightarrow> 'opts \<Rightarrow> fake \<Rightarrow> 'o option result \<times> fake" where
  "fake_Patch patch prj gvr name data opts c =
     (case Invokes patch (PatchAction gvr name data) c of (r, c') \<Rightarrow> (typed_reply prj r, c'))"

fun as_policy :: "crd_obj \<Rightarrow> ValidatingAdmissionPolicy option" where
  "as_policy (PolicyObject p) = Some p"
| "as_policy (BindingObject b) = None"

fun as_binding :: "crd_obj \<Rightarrow> ValidatingAdmissionPolicyBinding option" where
  "as_binding (PolicyObject p) = None"
| "as_binding (BindingObject b) = Some b"

definition FakeValidatingAdmissionPolicies ::
  "(crd_obj \<Rightarrow> bytes \<Rightarrow> goerror + crd_obj) \<Rightarrow> ('opts \<Rightarrow> (string \<times> string) list \<Rightarrow> bool) \<Rightarrow>
   (ValidatingAdmissionPolicy, policy_event, 'opts, fake) ClientInterface" where
  "FakeValidatingAdmissionPolicies patch matches =
     \<lparr>cl_Create = fake_Create patch PolicyObject as_policy policiesResource,
      cl_Update = fake_Update patch PolicyObject as_policy policiesResource '''',
      cl_UpdateStatus = Some (fake_Update patch PolicyObject as_policy policiesResource ''status''),
      cl_Delete = fake_Delete patch policiesResource,
      cl_DeleteCollection = fake_DeleteCollection patch policiesResource,
      cl_Get = fake_Get patch as_policy policiesResource,
      cl_List = fake_List patch as_policy policiesResource matches vp_ObjectMeta,
      cl_Watch = fake_Watch as_policy policiesResource,
      cl_Patch = fake_Patch patch as_policy policiesResource\<rparr>"

definition FakeValidatingAdmissionPolicyBindings ::
  "(crd_obj \<Rightarrow> bytes \<Rightarrow> goerror + crd_obj) \<Rightarrow> ('opts \<Rightarrow> (string \<times> string) list \<Rightarrow> bool) \<Rightarrow>
   (ValidatingAdmissionPolicyBinding, binding_event, 'opts, fake) ClientInterface" where
  "FakeValidatingAdmissionPolicyBindings patch matches =
     \<lparr>cl_Create = fake_Create patch BindingObject as_binding bindingsResource,
      cl_Update = fake_Update patch BindingObject as_binding bindingsResource '''',
      cl_UpdateStatus = None,
      cl_Delete = fake_Delete patch bindingsResource,
      cl_DeleteCollection = fake_DeleteCollection patch bindingsResource,
      cl_Get = fake_Get patch as_binding bindingsResource,
      cl_List = fake_List patch as_binding bindingsResource matches vb_ObjectMeta,
      cl_Watch = fake_Watch as_binding bindingsResource,
      cl_Patch = fake_Patch patch as_binding bindingsResource\<rparr>"

definition FakeAdmissionregistrationV1alpha1 ::
  "(crd_obj \<Rightarrow> bytes \<Rightarrow> goerror + crd_obj) \<Rightarrow> ('opts \<Rightarrow> (string \<times> string) list \<Rightarrow> bool) \<Rightarrow>
   ('opts, fake) custom_interface" where
  "FakeAdmissionregistrationV1alpha1 patch matches =
     \<lparr>ar_ValidatingAdmissionPolicies = FakeValidatingAdmissionPolicies patch matches,
      ar_ValidatingAdmissionPolicyBindings = FakeValidatingAdmissionPolicyBindings patch matches\<rparr>"

section \<open>Lemmas\<close>

definition view_of :: "GroupVersionResource \<Rightarrow> (crd_obj \<Rightarrow> 'o option) \<Rightarrow> fake \<Rightarrow> string \<Rightarrow> 'o option" where
  "view_of gvr prj c name =
     (case map_of (objects_of gvr (fk_tracker c)) ('''', name) of None \<Rightarrow> None | Some obj \<Rightarrow> prj obj)"

text \<open>
  The objects of a resource are cluster-scoped objects of its type under their own names,
  and satisfy \<open>P\<close>.
\<close>

definition typed_objects ::
  "GroupVersionResource \<Rightarrow> (crd_obj \<Rightarrow> 'o option) \<Rightarrow> ('o \<Rightarrow> bool) \<Rightarrow> fake \<Rightarrow> bool" where
  "typed_objects gvr prj P c \<longleftrightarrow>
     (\<forall>ns name obj. map_of (objects_of gvr (fk_tracker c)) (ns, name) = Some obj \<longrightarrow>
        ns = '''' \<and> om_Name (obj_meta obj) = name \<and> om_Namespace (obj_meta obj) = '''' \<and>
        (\<exists>x. prj obj = Some x \<and> P x))"

lemma objects_of_notify [simp]: "objects_of g (trk_notify gvr ns ev t) = objects_of g t"
  by (simp add: objects_of_def trk_notify_def)

lemma objects_of_set [simp]:
  "objects_of g (t\<lparr>trk_objects := (trk_objects t)(gvr \<mapsto> objs)\<rparr>) = (if g = gvr then objs else objects_of g t)"
  by (simp add: objects_of_def)

lemma trk_Get_eq:
  "trk_Get gvr ns name t =
     (case map_of (objects_of gvr t) (ns, name) of
        None \<Rightarrow> Inl (NewNotFound (gvr_GroupResource gvr) name) | Some obj \<Rightarrow> Inr obj)"
  by (auto simp: trk_Get_def objects_of_def split: option.splits)

lemma set_namespace_same: "om_Namespace (obj_meta obj) = '''' \<Longrightarrow> set_namespace '''' obj = obj"
  by (cases obj) auto

lemma trk_add_new:
  assumes "om_Namespace (obj_meta obj) = ''''"
    and "map_of (objects_of gvr t) ('''', om_Name (obj_meta obj)) = None"
  shows "\<exists>t'. trk_Create gvr obj '''' t = (None, t') \<and>
    objects_of gvr t' = AList.update ('''', om_Name (obj_meta obj)) obj (objects_of gvr t)"
  using assms by (simp add: trk_Create_def trk_add_def set_namespace_same Let_def)

lemma trk_add_taken:
  assumes "om_Namespace (obj_meta obj) = ''''"
    and "map_of (objects_of gvr t) ('''', om_Name (obj_meta obj)) \<noteq> None"
  shows "trk_Create gvr obj '''' t =
    (Some (NewAlreadyExists (gvr_GroupResource gvr) (om_Name (obj_meta obj))),
     t\<lparr>trk_objects := (trk_objects t)(gvr \<mapsto> objects_of gvr t)\<rparr>)"
  using assms by (simp add: trk_Create_def trk_add_def set_namespace_same Let_def)

lemma objects_known:
  "map_of (objects_of gvr t) k \<noteq> None \<Longrightarrow> t\<lparr>trk_objects := (trk_objects t)(gvr \<mapsto> objects_of gvr t)\<rparr> = t"
  by (cases "trk_objects t gvr") (auto simp: objects_of_def fun_upd_idem)

lemma IsNotFound_AlreadyExists: "\<not> IsNotFound (Some (NewAlreadyExists gr n))"
  by (simp add: IsNotFound_def reasonAndCodeForError_def NewAlreadyExists_def reason_defs)

lemma trk_update_found:
  assumes "om_Namespace (obj_meta obj) = ''''"
    and "map_of (objects_of gvr t) ('''', om_Name (obj_meta obj)) \<noteq> None"
  shows "\<exists>t'. trk_Update gvr obj '''' t = (None, t') \<and>
    objects_of gvr t' = AList.update ('''', om_Name (obj_meta obj)) obj (objects_of gvr t)"
  using assms by (simp add: trk_Update_def trk_add_def set_namespace_same Let_def)

lemma trk_update_missing:
  assumes "om_Namespace (obj_meta obj) = ''''"
    and "map_of (objects_of gvr t) ('''', om_Name (obj_meta obj)) = None"
  shows "\<exists>t'. trk_Update gvr obj '''' t =
      (Some (NewNotFound (gvr_GroupResource gvr) (om_Name (obj_meta obj))), t') \<and>
    objects_of gvr t' = objects_of gvr t"
  using assms by (simp add: trk_Update_def trk_add_def set_namespace_same Let_def)

lemma trk_delete_found:
  assumes "map_of (objects_of gvr t) (ns, name) \<noteq> None"
  shows "\<exists>t'. trk_Delete gvr ns name t = (None, t') \<and>
    objects_of gvr t' = AList.delete (ns, name) (objects_of gvr t)"
  using assms by (auto simp: trk_Delete_def objects_of_def trk_notify_def split: option.splits)

lemma trk_delete_missing:
  "map_of (objects_of gvr t) (ns, name) = None \<Longrightarrow>
     trk_Delete gvr ns name t = (Some (NewNotFound (gvr_GroupResource gvr) name), t)"
  by (auto simp: trk_Delete_def objects_of_def split: option.splits)

text \<open>
  A view of the tracker that depends only on the objects of the resource.
\<close>

lemma view_of_cong:
  "objects_of gvr (fk_tracker c) = objects_of gvr (fk_tracker d) \<Longrightarrow>
     view_of gvr prj c = view_of gvr prj d \<and> typed_objects gvr prj P c = typed_objects gvr prj P d"
  by (simp add: view_of_def typed_objects_def fun_eq_iff)

lemma get_frame:
  "view_of gvr prj (c\<lparr>fk_actions := a\<rparr>) = view_of gvr prj c"
  "typed_objects gvr prj P (c\<lparr>fk_actions := a\<rparr>) = typed_objects gvr prj P c"
  by (simp_all add: view_of_def typed_objects_def fun_eq_iff)

text \<open>
  What the two clients have in common: the type's objects are wrapped and unwrapped without
  loss, and their metadata is that of the wrapped object.
\<close>

locale fake_type =
  fixes wrap :: "'o \<Rightarrow> crd_obj"
    and prj :: "crd_obj \<Rightarrow> 'o option"
    and meta_of :: "'o \<Rightarrow> ObjectMeta"
  assumes prj_wrap: "prj (wrap x) = Some x"
    and meta_wrap: "obj_meta (wrap x) = meta_of x"
begin

lemma typed_prj:
  "typed_objects gvr prj P c \<Longrightarrow> map_of (objects_of gvr (fk_tracker c)) (ns, name) = Some obj \<Longrightarrow>
     \<exists>x. prj obj = Some x"
  unfolding typed_objects_def by blast

lemma view_None:
  assumes "typed_objects gvr prj P c"
  shows "view_of gvr prj c name = None \<longleftrightarrow> map_of (objects_of gvr (fk_tracker c)) ('''', name) = None"
  using typed_prj [OF assms] by (fastforce simp: view_of_def split: option.splits)

lemma store_view:
  assumes "typed_objects gvr prj P c" and "P x" and "om_Namespace (meta_of x) = ''''"
    and "objects_of gvr (fk_tracker d) =
      AList.update ('''', om_Name (meta_of x)) (wrap x) (objects_of gvr (fk_tracker c))"
  shows "typed_objects gvr prj P d \<and> view_of gvr prj d = (view_of gvr prj c)(om_Name (meta_of x) \<mapsto> x)"
  using assms
  by (auto simp: typed_objects_def view_of_def update_conv' prj_wrap meta_wrap fun_eq_iff split: if_splits)

lemma delete_view:
  assumes "typed_objects gvr prj P c"
    and "objects_of gvr (fk_tracker d) = AList.delete ('''', name) (objects_of gvr (fk_tracker c))"
  shows "typed_objects gvr prj P d \<and> view_of gvr prj d = (view_of gvr prj c)(name := None)"
  using assms by (auto simp: typed_objects_def view_of_def delete_conv' fun_eq_iff split: if_splits)

lemma get_view:
  assumes "typed_objects gvr prj P c"
  shows "fake_Get patch prj gvr name opts c =
    (case view_of gvr prj c name of
       None \<Rightarrow> Err (NewNotFound (gvr_GroupResource gvr) name) | Some x \<Rightarrow> Ret (Some x),
     c\<lparr>fk_actions := fk_actions c @ [GetAction gvr name]\<rparr>)"
proof (cases "map_of (objects_of gvr (fk_tracker c)) ('''', name)")
  case None
  then show ?thesis
    by (simp add: fake_Get_def Invokes_def Let_def object_reply_def trk_Get_eq typed_reply_def view_of_def)
next
  case (Some obj)
  then obtain x where "prj obj = Some x" using typed_prj [OF assms] by blast
  then show ?thesis
    using Some
    by (simp add: fake_Get_def Invokes_def Let_def object_reply_def trk_Get_eq typed_reply_def view_of_def)
qed

lemma stored_reply:
  "typed_reply prj (snd (object_reply (trk_Get gvr '''' (om_Name (meta_of x)) t'))) = Ret (Some x)"
  if "objects_of gvr t' = AList.update ('''', om_Name (meta_of x)) (wrap x) objs"
  using that by (simp add: trk_Get_eq update_conv' object_reply_def typed_reply_def prj_wrap)

lemma create_view:
  assumes "typed_objects gvr prj P c" and "P x" and "om_Namespace (meta_of x) = ''''"
  shows "if view_of gvr prj c (om_Name (meta_of x)) = None
    then \<exists>d. fake_Create patch wrap prj gvr (Some x) opts c = (Ret (Some x), d) \<and> typed_objects gvr prj P d \<and>
      view_of gvr prj d = (view_of gvr prj c)(om_Name (meta_of x) \<mapsto> x)
    else \<exists>d. fake_Create patch wrap prj gvr (Some x) opts c =
        (Err (NewAlreadyExists (gvr_GroupResource gvr) (om_Name (meta_of x))), d) \<and>
      typed_objects gvr prj P d \<and> view_of gvr prj d = view_of gvr prj c"
proof (cases "view_of gvr prj c (om_Name (meta_of x))")
  case None
  obtain t' where t': "trk_Create gvr (wrap x) '''' (fk_tracker c) = (None, t')"
    "objects_of gvr t' = AList.update ('''', om_Name (meta_of x)) (wrap x) (objects_of gvr (fk_tracker c))"
    using trk_add_new [of "wrap x" gvr "fk_tracker c"] None assms(3)
    by (auto simp: meta_wrap view_None [OF assms(1)])
  let ?d = "c\<lparr>fk_actions := fk_actions c @ [CreateAction gvr (wrap x)], fk_tracker := t'\<rparr>"
  have "fake_Create patch wrap prj gvr (Some x) opts c = (Ret (Some x), ?d)"
    using stored_reply [OF t'(2)] t'(1)
    by (auto simp: fake_Create_def Invokes_def Let_def meta_wrap object_reply_def split: sum.splits)
  then show ?thesis using None store_view [OF assms, of ?d] t'(2) by simp
next
  case (Some y)
  then have taken: "map_of (objects_of gvr (fk_tracker c)) ('''', om_Name (meta_of x)) \<noteq> None"
    by (simp add: view_None [OF assms(1), symmetric])
  then have "trk_Create gvr (wrap x) '''' (fk_tracker c) =
      (Some (NewAlreadyExists (gvr_GroupResource gvr) (om_Name (meta_of x))), fk_tracker c)"
    using trk_add_taken [of "wrap x" gvr "fk_tracker c"] assms(3) by (simp add: meta_wrap objects_known)
  then show ?thesis
    using Some assms(1) view_of_cong [of gvr c "c\<lparr>fk_actions := fk_actions c @ [CreateAction gvr (wrap x)]\<rparr>" prj P]
    by (simp add: fake_Create_def Invokes_def Let_def typed_reply_def)
qed

lemma update_view:
  assumes "typed_objects gvr prj P c" and "P x" and "om_Namespace (meta_of x) = ''''"
  shows "if view_of gvr prj c (om_Name (meta_of x)) \<noteq> None
    then \<exists>d. fake_Update patch wrap prj gvr sub (Some x) opts c = (Ret (Some x), d) \<and> typed_objects gvr prj P d \<and>
      view_of gvr prj d = (view_of gvr prj c)(om_Name (meta_of x) \<mapsto> x)
    else \<exists>d. fake_Update patch wrap prj gvr sub (Some x) opts c =
        (Err (NewNotFound (gvr_GroupResource gvr) (om_Name (meta_of x))), d) \<and>
      typed_objects gvr prj P d \<and> view_of gvr prj d = view_of gvr prj c"
proof (cases "view_of gvr prj c (om_Name (meta_of x))")
  case (Some y)
  then have taken: "map_of (objects_of gvr (fk_tracker c)) ('''', om_Name (meta_of x)) \<noteq> None"
    by (simp add: view_None [OF assms(1), symmetric])
  obtain t' where t': "trk_Update gvr (wrap x) '''' (fk_tracker c) = (None, t')"
    "objects_of gvr t' = AList.update ('''', om_Name (meta_of x)) (wrap x) (objects_of gvr (fk_tracker c))"
    using trk_update_found [of "wrap x" gvr "fk_tracker c"] taken assms(3) by (auto simp: meta_wrap)
  let ?d = "c\<lparr>fk_actions := fk_actions c @ [UpdateAction gvr sub (wrap x)], fk_tracker := t'\<rparr>"
  have "fake_Update patch wrap prj gvr sub (Some x) opts c = (Ret (Some x), ?d)"
    using stored_reply [OF t'(2)] t'(1)
    by (auto simp: fake_Update_def Invokes_def Let_def meta_wrap object_reply_def split: sum.splits)
  then show ?thesis using Some store_view [OF assms, of ?d] t'(2) by simp
next
  case None
  then obtain t' where t': "trk_Update gvr (wrap x) '''' (fk_tracker c) =
      (Some (NewNotFound (gvr_GroupResource gvr) (om_Name (meta_of x))), t')"
    "objects_of gvr t' = objects_of gvr (fk_tracker c)"
    using trk_update_missing [of "wrap x" gvr "fk_tracker c"] assms(3) view_None [OF assms(1)]
    by (auto simp: meta_wrap)
  let ?d = "c\<lparr>fk_actions := fk_actions c @ [UpdateAction gvr sub (wrap x)], fk_tracker := t'\<rparr>"
  have "fake_Update patch wrap prj gvr sub (Some x) opts c =
      (Err (NewNotFound (gvr_GroupResource gvr) (om_Name (meta_of x))), ?d)"
    using t'(1) by (simp add: fake_Update_def Invokes_def Let_def typed_reply_def)
  then show ?thesis
    using None assms(1) view_of_cong [of gvr ?d c prj P] t'(2) by simp
qed

lemma remove_view:
  assumes "typed_objects gvr prj P c"
  shows "if view_of gvr prj c name \<noteq> None
    then \<exists>d. fake_Delete patch gvr name opts c = (Ret (), d) \<and> typed_objects gvr prj P d \<and>
      view_of gvr prj d = (view_of gvr prj c)(name := None)
    else \<exists>d. fake_Delete patch gvr name opts c = (Err (NewNotFound (gvr_GroupResource gvr) name), d) \<and>
      typed_objects gvr prj P d \<and> view_of gvr prj d = view_of gvr prj c"
proof (cases "view_of gvr prj c name")
  case (Some y)
  then have "map_of (objects_of gvr (fk_tracker c)) ('''', name) \<noteq> None"
    by (simp add: view_None [OF assms, symmetric])
  then obtain t' where t': "trk_Delete gvr '''' name (fk_tracker c) = (None, t')"
    "objects_of gvr t' = AList.delete ('''', name) (objects_of gvr (fk_tracker c))"
    using trk_delete_found by blast
  let ?d = "c\<lparr>fk_actions := fk_actions c @ [DeleteAction gvr name], fk_tracker := t'\<rparr>"
  have "fake_Delete patch gvr name opts c = (Ret (), ?d)"
    using t'(1) by (simp add: fake_Delete_def Invokes_def Let_def error_reply_def)
  then show ?thesis using Some delete_view [OF assms, of ?d name] t'(2) by simp
next
  case None
  then have "map_of (objects_of gvr (fk_tracker c)) ('''', name) = None"
    by (simp add: view_None [OF assms, symmetric])
  then show ?thesis
    using None assms view_of_cong [of gvr c "c\<lparr>fk_actions := fk_actions c @ [DeleteAction gvr name]\<rparr>" prj P]
    by (simp add: fake_Delete_def Invokes_def Let_def error_reply_def trk_delete_missing)
qed

text \<open>A client made of these methods satisfies the contract.\<close>

lemma fake_contract:
  fixes C :: "('o, 'e, 'opts, fake) ClientInterface"
  assumes C: "cl_Create C = fake_Create patch wrap prj gvr" "cl_Update C = fake_Update patch wrap prj gvr sub"
      "cl_Get C = fake_Get patch prj gvr" "cl_Delete C = fake_Delete patch gvr"
    and ns: "\<And>x. P x \<Longrightarrow> om_Namespace (meta_of x) = ''''"
  shows "object_client C (\<lambda>x. om_Name (meta_of x)) P (\<lambda>x. x) (view_of gvr prj) (typed_objects gvr prj P)"
proof
  fix s x and opts :: 'opts
  assume inv: "typed_objects gvr prj P s" and valid: "P x"
  note create = create_view [where patch = patch and opts = opts, OF inv valid ns [OF valid]]
  note update = update_view [where patch = patch and opts = opts and sub = sub, OF inv valid ns [OF valid]]
  let ?new = "\<lambda>s'. typed_objects gvr prj P s' \<and> view_of gvr prj s' = (view_of gvr prj s)(om_Name (meta_of x) \<mapsto> x)"
  let ?same = "\<lambda>s'. typed_objects gvr prj P s' \<and> view_of gvr prj s' = view_of gvr prj s"
  show "view_of gvr prj s (om_Name (meta_of x)) = None \<Longrightarrow>
      \<exists>s'. cl_Create C (Some x) opts s = (Ret (Some x), s') \<and> ?new s'"
    using create by (simp add: C)
  show "view_of gvr prj s (om_Name (meta_of x)) \<noteq> None \<Longrightarrow>
      \<exists>err s'. cl_Create C (Some x) opts s = (Err err, s') \<and> \<not> IsNotFound (Some err) \<and> ?same s'"
    using create by (auto simp: C IsNotFound_AlreadyExists)
  show "view_of gvr prj s (om_Name (meta_of x)) \<noteq> None \<Longrightarrow>
      \<exists>s'. cl_Update C (Some x) opts s = (Ret (Some x), s') \<and> ?new s'"
    using update by (auto simp: C)
  show "view_of gvr prj s (om_Name (meta_of x)) = None \<Longrightarrow>
      \<exists>err s'. cl_Update C (Some x) opts s = (Err err, s') \<and> IsNotFound (Some err) \<and> ?same s'"
    using update by (auto simp: C)
next
  fix s name and opts :: 'opts
  assume inv: "typed_objects gvr prj P s"
  note remove = remove_view [where patch = patch and opts = opts and name = name, OF inv]
  note get = get_view [where patch = patch and opts = opts and name = name, OF inv]
  let ?same = "\<lambda>s'. typed_objects gvr prj P s' \<and> view_of gvr prj s' = view_of gvr prj s"
  show "view_of gvr prj s name = Some x \<Longrightarrow> \<exists>s'. cl_Get C name opts s = (Ret (Some x), s') \<and> ?same s'" for x
    using get inv by (simp add: C get_frame)
  show "view_of gvr prj s name = None \<Longrightarrow>
      \<exists>err s'. cl_Get C name opts s = (Err err, s') \<and> IsNotFound (Some err) \<and> ?same s'"
    using get inv by (simp add: C get_frame)
  show "view_of gvr prj s name \<noteq> None \<Longrightarrow> \<exists>s'. cl_Delete C name opts s = (Ret (), s') \<and>
      typed_objects gvr prj P s' \<and> view_of gvr prj s' = (view_of gvr prj s)(name := None)"
    using remove by (auto simp: C)
  show "view_of gvr prj s name = None \<Longrightarrow>
      \<exists>err s'. cl_Delete C name opts s = (Err err, s') \<and> IsNotFound (Some err) \<and> ?same s'"
    using remove by (auto simp: C)
qed simp

end

interpretation fake_policy: fake_type PolicyObject as_policy vp_ObjectMeta
  by unfold_locales auto

interpretation fake_binding: fake_type BindingObject as_binding vb_ObjectMeta
  by unfold_locales auto

section \<open>The clients satisfy the contract\<close>

abbreviation policy_name :: "ValidatingAdmissionPolicy \<Rightarrow> string" where
  "policy_name p \<equiv> om_Name (vp_ObjectMeta p)"

abbreviation binding_name :: "ValidatingAdmissionPolicyBinding \<Rightarrow> string" where
  "binding_name b \<equiv> om_Name (vb_ObjectMeta b)"

text \<open>A cluster-scoped object whose encoding loses nothing.\<close>

definition policy_valid :: "time_format \<Rightarrow> ValidatingAdmissionPolicy \<Rightarrow> bool" where
  "policy_valid tf p \<longleftrightarrow> om_Namespace (vp_ObjectMeta p) = '''' \<and> ok_ValidatingAdmissionPolicy tf p"

definition binding_valid :: "time_format \<Rightarrow> ValidatingAdmissionPolicyBinding \<Rightarrow> bool" where
  "binding_valid tf b \<longleftrightarrow> om_Namespace (vb_ObjectMeta b) = '''' \<and> ok_ValidatingAdmissionPolicyBinding tf b"

abbreviation policies_ok :: "time_format \<Rightarrow> fake \<Rightarrow> bool" where
  "policies_ok tf \<equiv> typed_objects policiesResource as_policy (policy_valid tf)"

abbreviation bindings_ok :: "time_format \<Rightarrow> fake \<Rightarrow> bool" where
  "bindings_ok tf \<equiv> typed_objects bindingsResource as_binding (binding_valid tf)"

abbreviation policies_view :: "fake \<Rightarrow> string \<Rightarrow> ValidatingAdmissionPolicy option" where
  "policies_view \<equiv> view_of policiesResource as_policy"

abbreviation bindings_view :: "fake \<Rightarrow> string \<Rightarrow> ValidatingAdmissionPolicyBinding option" where
  "bindings_view \<equiv> view_of bindingsResource as_binding"

interpretation policies: object_client "FakeValidatingAdmissionPolicies patch matches" policy_name
  "policy_valid tf" "\<lambda>p. p" policies_view "policies_ok tf" for patch matches tf
  by (rule fake_policy.fake_contract) (simp_all add: FakeValidatingAdmissionPolicies_def policy_valid_def)

interpretation bindings: object_client "FakeValidatingAdmissionPolicyBindings patch matches" binding_name
  "binding_valid tf" "\<lambda>b. b" bindings_view "bindings_ok tf" for patch matches tf
  by (rule fake_binding.fake_contract) (simp_all add: FakeValidatingAdmissionPolicyBindings_def binding_valid_def)

abbreviation native_policy :: "ValidatingAdmissionPolicy \<Rightarrow> ValidatingAdmissionPolicy" where
  "native_policy \<equiv> with_version ''apiregistration.k8s.io/v1alpha1''"

abbreviation crd_policy :: "ValidatingAdmissionPolicy \<Rightarrow> ValidatingAdmissionPolicy" where
  "crd_policy \<equiv> with_version ''admissionregistration.x-k8s.io/v1alpha1''"

abbreviation native_binding :: "ValidatingAdmissionPolicyBinding \<Rightarrow> ValidatingAdmissionPolicyBinding" where
  "native_binding \<equiv> binding_with_version ''apiregistration.k8s.io/v1alpha1''"

abbreviation crd_binding :: "ValidatingAdmissionPolicyBinding \<Rightarrow> ValidatingAdmissionPolicyBinding" where
  "crd_binding \<equiv> binding_with_version ''admissionregistration.x-k8s.io/v1alpha1''"

lemma valid_with_version [simp]:
  "policy_valid tf (with_version v p) = policy_valid tf p"
  "binding_valid tf (binding_with_version v b) = binding_valid tf b"
  by (simp_all add: policy_valid_def binding_valid_def)

lemma view_valid:
  assumes "typed_objects gvr prj P s" and "view_of gvr prj s name = Some x"
  shows "P x"
  using assms unfolding typed_objects_def view_of_def by (fastforce split: option.splits)

interpretation native_policies: transforming_client
  "policies_client tf (FakeAdmissionregistrationV1alpha1 patch matches)" policy_name "policy_valid tf" "\<lambda>p. p"
  policies_view "policies_ok tf" native_policy crd_policy policy_name "policy_valid tf" for tf patch matches
proof (intro transforming_client.intro transforming_client_axioms.intro)
  show "object_client (tc_ReplacementClient (policies_client tf (FakeAdmissionregistrationV1alpha1 patch matches)))
      policy_name (policy_valid tf) (\<lambda>p. p) policies_view (policies_ok tf)"
    by (simp add: policies_client_def FakeAdmissionregistrationV1alpha1_def policies.object_client_axioms)
qed (auto simp: policies_client_def NativeToCRDPolicy_ok CRDToNativePolicy_ok policy_valid_def
    dest: view_valid)

interpretation native_bindings: transforming_client
  "bindings_client tf (FakeAdmissionregistrationV1alpha1 patch matches)" binding_name "binding_valid tf" "\<lambda>b. b"
  bindings_view "bindings_ok tf" native_binding crd_binding binding_name "binding_valid tf" for tf patch matches
proof (intro transforming_client.intro transforming_client_axioms.intro)
  show "object_client (tc_ReplacementClient (bindings_client tf (FakeAdmissionregistrationV1alpha1 patch matches)))
      binding_name (binding_valid tf) (\<lambda>b. b) bindings_view (bindings_ok tf)"
    by (simp add: bindings_client_def FakeAdmissionregistrationV1alpha1_def bindings.object_client_axioms)
qed (auto simp: bindings_client_def NativeToCRDPolicyBinding_ok CRDToNativePolicyBinding_ok binding_valid_def
    dest: view_valid)

section \<open>Properties\<close>

text \<open>The policy client that the plugin is given: the wrapped client over a fake clientset.\<close>

abbreviation wrapped_policies ::
  "time_format \<Rightarrow> (crd_obj \<Rightarrow> bytes \<Rightarrow> goerror + crd_obj) \<Rightarrow> ('opts \<Rightarrow> (string \<times> string) list \<Rightarrow> bool) \<Rightarrow>
   (ValidatingAdmissionPolicy, policy_event, 'opts, fake) ClientInterface" where
  "wrapped_policies tf patch matches \<equiv> ar_ValidatingAdmissionPolicies (wrapped_AdmissionregistrationV1alpha1 tf
     (NewWrappedClient () (FakeAdmissionregistrationV1alpha1 patch matches)))"

lemma wrapped_policies_eq:
  "wrapped_policies tf patch matches =
     transformed (policies_client tf (FakeAdmissionregistrationV1alpha1 patch matches))"
  by (simp add: wrapped_AdmissionregistrationV1alpha1_def NewWrappedClient_def)

lemma native_crd_policy: "native_policy (crd_policy p) = native_policy p"
  by (simp add: with_version_twice)

abbreviation native_view :: "fake \<Rightarrow> string \<Rightarrow> ValidatingAdmissionPolicy option" where
  "native_view s \<equiv> \<lambda>name. map_option native_policy (policies_view s name)"

text \<open>
  C17. The life of a native policy behind the wrapped client, over a clientset that holds only
  valid policies: it is created (once) and read back in its native form, replaced by an update
  and answered with \<^verbatim>\<open>NotFound\<close> once deleted, and no other policy changes on the way.
\<close>

theorem wrapped_policy_life:
  assumes "policies_ok tf s" and "policy_valid tf p" and "policies_view s (policy_name p) = None"
    and "policy_valid tf q" and "policy_name q = policy_name p"
  shows "\<exists>s1 s2 s3 err1 err2.
    cl_Create (wrapped_policies tf patch matches) (Some p) o1 s = (Ret (Some (native_policy p)), s1) \<and>
    native_view s1 = (native_view s)(policy_name p \<mapsto> native_policy p) \<and>
    fst (cl_Get (wrapped_policies tf patch matches) (policy_name p) o2 s1) = Ret (Some (native_policy p)) \<and>
    fst (cl_Create (wrapped_policies tf patch matches) (Some q) o3 s1) = Err err1 \<and> \<not> IsNotFound (Some err1) \<and>
    cl_Update (wrapped_policies tf patch matches) (Some q) o4 s1 = (Ret (Some (native_policy q)), s2) \<and>
    native_view s2 = (native_view s)(policy_name p \<mapsto> native_policy q) \<and>
    cl_Delete (wrapped_policies tf patch matches) (policy_name p) o5 s2 = (Ret (), s3) \<and>
    native_view s3 = native_view s \<and>
    fst (cl_Get (wrapped_policies tf patch matches) (policy_name p) o6 s3) = Err err2 \<and> IsNotFound (Some err2)"
proof -
  have "map_option native_policy (policies_view s (policy_name p)) = None" using assms(3) by simp
  from native_policies.target.life_cycle [OF assms(1,2) this assms(4,5)]
  show ?thesis unfolding wrapped_policies_eq by (simp add: native_crd_policy)
qed

lemma empty_clientset:
  "NewSimpleClientset [] = Ret \<lparr>fk_actions = [], fk_tracker = NewObjectTracker\<rparr>"
  by (simp add: NewSimpleClientset_def)

lemma empty_policies:
  "policies_ok tf \<lparr>fk_actions = [], fk_tracker = NewObjectTracker\<rparr>"
  "policies_view \<lparr>fk_actions = [], fk_tracker = NewObjectTracker\<rparr> name = None"
  by (simp_all add: typed_objects_def view_of_def objects_of_def NewObjectTracker_def)

theorem wrapped_policy_life_witness:
  "\<exists>c s1. NewSimpleClientset [] = Ret c \<and>
     cl_Create (wrapped_policies example_format (\<lambda>obj d. Inr obj) (\<lambda>u labels. True)) (Some example_policy) () c =
       (Ret (Some (example_policy\<lparr>vp_APIVersion := ''apiregistration.k8s.io/v1alpha1''\<rparr>)), s1) \<and>
     fst (cl_Get (wrapped_policies example_format (\<lambda>obj d. Inr obj) (\<lambda>u labels. True)) ''p'' () s1) =
       Ret (Some (example_policy\<lparr>vp_APIVersion := ''apiregistration.k8s.io/v1alpha1''\<rparr>))"
proof -
  have valid: "policy_valid example_format example_policy"
    by (simp add: policy_valid_def example_policy_ok) (simp add: example_policy_def zero_ObjectMeta_def)
  have eq: "native_policy example_policy = example_policy\<lparr>vp_APIVersion := ''apiregistration.k8s.io/v1alpha1''\<rparr>"
    "policy_name example_policy = ''p''"
    by (simp_all add: with_version_def example_policy_def)
  show ?thesis
    using wrapped_policy_life [OF empty_policies(1) valid empty_policies(2) valid refl, where
        patch = "\<lambda>obj d. Inr obj" and matches = "\<lambda>u labels. True" and ?o1.0 = "()" and ?o2.0 = "()"]
    unfolding eq empty_clientset by blast
qed

end
