(* ===== verification/InformerFactory.thy ===== *)
theory InformerFactory
  imports Conversion Lister
begin

text \<open>
  The generated informers and listers under \<^verbatim>\<open>pkg/generated/informers\<close> and
  \<^verbatim>\<open>pkg/generated/listers\<close>: the shared informer factory, which makes one informer per type and
  starts each of them once, and the listers of the two types. An informer is an object that the
  factory creates and shares, so it has an address; what it runs belongs to \<^verbatim>\<open>client-go\<close>. The
  goroutines of the factory, its callers and the stop channels are a step relation.
\<close>

section \<open>Informers\<close>

text \<open>\<^verbatim>\<open>reflect.Type\<close> of the two object types.\<close>

datatype object_type = PolicyType | BindingType

record 'opts shared_informer =
  sh_object :: object_type
  sh_tweak :: "('opts \<Rightarrow> 'opts) option"
  sh_resync :: int
  sh_indexers :: "string list"

definition NewFilteredValidatingAdmissionPolicyInformer ::
  "int \<Rightarrow> string list \<Rightarrow> ('opts \<Rightarrow> 'opts) option \<Rightarrow> 'opts shared_informer" where
  "NewFilteredValidatingAdmissionPolicyInformer resyncPeriod indexers tweakListOptions =
     \<lparr>sh_object = PolicyType, sh_tweak = tweakListOptions, sh_resync = resyncPeriod, sh_indexers = indexers\<rparr>"

definition NewValidatingAdmissionPolicyInformer :: "int \<Rightarrow> string list \<Rightarrow> 'opts shared_informer" where
  "NewValidatingAdmissionPolicyInformer resyncPeriod indexers =
     NewFilteredValidatingAdmissionPolicyInformer resyncPeriod indexers None"

definition NewFilteredValidatingAdmissionPolicyBindingInformer ::
  "int \<Rightarrow> string list \<Rightarrow> ('opts \<Rightarrow> 'opts) option \<Rightarrow> 'opts shared_informer" where
  "NewFilteredValidatingAdmissionPolicyBindingInformer resyncPeriod indexers tweakListOptions =
     \<lparr>sh_object = BindingType, sh_tweak = tweakListOptions, sh_resync = resyncPeriod, sh_indexers = indexers\<rparr>"

definition NewValidatingAdmissionPolicyBindingInformer :: "int \<Rightarrow> string list \<Rightarrow> 'opts shared_informer" where
  "NewValidatingAdmissionPolicyBindingInformer resyncPeriod indexers =
     NewFilteredValidatingAdmissionPolicyBindingInformer resyncPeriod indexers None"

text \<open>The functions an informer lists and watches with.\<close>

definition tweaked :: "('opts \<Rightarrow> 'opts) option \<Rightarrow> 'opts \<Rightarrow> 'opts" where
  "tweaked tweakListOptions options = (case tweakListOptions of None \<Rightarrow> options | Some f \<Rightarrow> f options)"

definition policy_ListFunc ::
  "('opts, 's) custom_interface \<Rightarrow> 'opts shared_informer \<Rightarrow> 'opts \<Rightarrow> 's \<Rightarrow>
   ValidatingAdmissionPolicy object_list option result \<times> 's" where
  "policy_ListFunc client i options =
     cl_List (ar_ValidatingAdmissionPolicies client) (tweaked (sh_tweak i) options)"

definition policy_WatchFunc ::
  "('opts, 's) custom_interface \<Rightarrow> 'opts shared_informer \<Rightarrow> 'opts \<Rightarrow> 's \<Rightarrow>
   ('s \<Rightarrow> policy_event list result) result \<times> 's" where
  "policy_WatchFunc client i options =
     cl_Watch (ar_ValidatingAdmissionPolicies client) (tweaked (sh_tweak i) options)"

definition binding_ListFunc ::
  "('opts, 's) custom_interface \<Rightarrow> 'opts shared_informer \<Rightarrow> 'opts \<Rightarrow> 's \<Rightarrow>
   ValidatingAdmissionPolicyBinding object_list option result \<times> 's" where
  "binding_ListFunc client i options =
     cl_List (ar_ValidatingAdmissionPolicyBindings client) (tweaked (sh_tweak i) options)"

definition binding_WatchFunc ::
  "('opts, 's) custom_interface \<Rightarrow> 'opts shared_informer \<Rightarrow> 'opts \<Rightarrow> 's \<Rightarrow>
   ('s \<Rightarrow> binding_event list result) result \<times> 's" where
  "binding_WatchFunc client i options =
     cl_Watch (ar_ValidatingAdmissionPolicyBindings client) (tweaked (sh_tweak i) options)"

section \<open>The factory\<close>

record 'opts sharedInformerFactory =
  fa_namespace :: string
  fa_tweakListOptions :: "('opts \<Rightarrow> 'opts) option"
  fa_defaultResync :: int
  fa_customResync :: "object_type \<rightharpoonup> int"
  fa_informers :: "object_type \<rightharpoonup> nat"
  fa_startedInformers :: "object_type set"
  fa_wg :: nat
  fa_shuttingDown :: bool

type_synonym 'opts SharedInformerOption = "'opts sharedInformerFactory \<Rightarrow> 'opts sharedInformerFactory"

definition WithCustomResyncConfig :: "(object_type \<times> int) list \<Rightarrow> 'opts SharedInformerOption" where
  "WithCustomResyncConfig resyncConfig f =
     f\<lparr>fa_customResync := fold (\<lambda>(k, v) m. m(k \<mapsto> v)) resyncConfig (fa_customResync f)\<rparr>"

definition WithTweakListOptions :: "('opts \<Rightarrow> 'opts) option \<Rightarrow> 'opts SharedInformerOption" where
  "WithTweakListOptions tweakListOptions f = f\<lparr>fa_tweakListOptions := tweakListOptions\<rparr>"

definition WithNamespace :: "string \<Rightarrow> 'opts SharedInformerOption" where
  "WithNamespace namespace f = f\<lparr>fa_namespace := namespace\<rparr>"

definition NewSharedInformerFactoryWithOptions ::
  "int \<Rightarrow> 'opts SharedInformerOption list \<Rightarrow> 'opts sharedInformerFactory" where
  "NewSharedInformerFactoryWithOptions defaultResync options =
     fold (\<lambda>opt factory. opt factory) options
       \<lparr>fa_namespace = '''', fa_tweakListOptions = None, fa_defaultResync = defaultResync,
        fa_customResync = Map.empty, fa_informers = Map.empty, fa_startedInformers = {}, fa_wg = 0,
        fa_shuttingDown = False\<rparr>"

definition NewSharedInformerFactory :: "int \<Rightarrow> 'opts sharedInformerFactory" where
  "NewSharedInformerFactory defaultResync = NewSharedInformerFactoryWithOptions defaultResync []"

definition NewFilteredSharedInformerFactory ::
  "int \<Rightarrow> string \<Rightarrow> ('opts \<Rightarrow> 'opts) option \<Rightarrow> 'opts sharedInformerFactory" where
  "NewFilteredSharedInformerFactory defaultResync namespace tweakListOptions =
     NewSharedInformerFactoryWithOptions defaultResync
       [WithNamespace namespace, WithTweakListOptions tweakListOptions]"

text \<open>
  The factory with the informers it made, at their addresses, the goroutines that run one (each
  with its stop channel), all runs begun so far, the closed channels, and the callers of
  \<^verbatim>\<open>Shutdown\<close> that wait and that have returned.
\<close>

record 'opts factory_state =
  fs_factory :: "'opts sharedInformerFactory"
  fs_heap :: "'opts shared_informer list"
  fs_running :: "(nat \<times> nat) list"
  fs_runs :: "(nat \<times> nat) list"
  fs_closed :: "nat set"
  fs_waiting :: nat
  fs_returned :: nat

definition factory_init :: "'opts sharedInformerFactory \<Rightarrow> 'opts factory_state" where
  "factory_init f = \<lparr>fs_factory = f, fs_heap = [], fs_running = [], fs_runs = [], fs_closed = {},
     fs_waiting = 0, fs_returned = 0\<rparr>"

definition InformerFor ::
  "object_type \<Rightarrow> (int \<Rightarrow> 'opts shared_informer) \<Rightarrow> 'opts factory_state \<Rightarrow> nat \<times> 'opts factory_state" where
  "InformerFor informerType newFunc s =
     (let f = fs_factory s in
      case fa_informers f informerType of
        Some informer \<Rightarrow> (informer, s)
      | None \<Rightarrow>
          let resyncPeriod = (case fa_customResync f informerType of Some d \<Rightarrow> d | None \<Rightarrow> fa_defaultResync f);
              informer = length (fs_heap s)
          in (informer, s\<lparr>fs_heap := fs_heap s @ [newFunc resyncPeriod],
                fs_factory := f\<lparr>fa_informers := (fa_informers f)(informerType \<mapsto> informer)\<rparr>\<rparr>))"

text \<open>
  The access path to the informers of a factory: a group, its version, and the two typed informers, each of
  which keeps the factory's tweak of the list options. \<^verbatim>\<open>Informer\<close> asks the factory for the informer of
  the type, made with the namespace index; \<^verbatim>\<open>Lister\<close> reads the indexer of that informer, here by its address.
\<close>

record 'opts informer_group =
  ig_namespace :: string
  ig_tweakListOptions :: "('opts \<Rightarrow> 'opts) option"

record 'opts informer_version =
  iv_namespace :: string
  iv_tweakListOptions :: "('opts \<Rightarrow> 'opts) option"

record 'opts validatingAdmissionPolicyInformer =
  pin_tweakListOptions :: "('opts \<Rightarrow> 'opts) option"

record 'opts validatingAdmissionPolicyBindingInformer =
  bin_tweakListOptions :: "('opts \<Rightarrow> 'opts) option"

definition group_New :: "string \<Rightarrow> ('opts \<Rightarrow> 'opts) option \<Rightarrow> 'opts informer_group" where
  "group_New namespace tweakListOptions = \<lparr>ig_namespace = namespace, ig_tweakListOptions = tweakListOptions\<rparr>"

definition version_New :: "string \<Rightarrow> ('opts \<Rightarrow> 'opts) option \<Rightarrow> 'opts informer_version" where
  "version_New namespace tweakListOptions = \<lparr>iv_namespace = namespace, iv_tweakListOptions = tweakListOptions\<rparr>"

definition factory_Admissionregistration :: "'opts factory_state \<Rightarrow> 'opts informer_group" where
  "factory_Admissionregistration s = group_New (fa_namespace (fs_factory s)) (fa_tweakListOptions (fs_factory s))"

definition group_V1alpha1 :: "'opts informer_group \<Rightarrow> 'opts informer_version" where
  "group_V1alpha1 g = version_New (ig_namespace g) (ig_tweakListOptions g)"

definition version_ValidatingAdmissionPolicies :: "'opts informer_version \<Rightarrow> 'opts validatingAdmissionPolicyInformer" where
  "version_ValidatingAdmissionPolicies v = \<lparr>pin_tweakListOptions = iv_tweakListOptions v\<rparr>"

definition version_ValidatingAdmissionPolicyBindings ::
  "'opts informer_version \<Rightarrow> 'opts validatingAdmissionPolicyBindingInformer" where
  "version_ValidatingAdmissionPolicyBindings v = \<lparr>bin_tweakListOptions = iv_tweakListOptions v\<rparr>"

definition policy_defaultInformer :: "'opts validatingAdmissionPolicyInformer \<Rightarrow> int \<Rightarrow> 'opts shared_informer" where
  "policy_defaultInformer f resyncPeriod =
     NewFilteredValidatingAdmissionPolicyInformer resyncPeriod [NamespaceIndex] (pin_tweakListOptions f)"

definition policy_Informer ::
  "'opts validatingAdmissionPolicyInformer \<Rightarrow> 'opts factory_state \<Rightarrow> nat \<times> 'opts factory_state" where
  "policy_Informer f s = InformerFor PolicyType (policy_defaultInformer f) s"

definition binding_defaultInformer :: "'opts validatingAdmissionPolicyBindingInformer \<Rightarrow> int \<Rightarrow> 'opts shared_informer" where
  "binding_defaultInformer f resyncPeriod =
     NewFilteredValidatingAdmissionPolicyBindingInformer resyncPeriod [NamespaceIndex] (bin_tweakListOptions f)"

definition binding_Informer ::
  "'opts validatingAdmissionPolicyBindingInformer \<Rightarrow> 'opts factory_state \<Rightarrow> nat \<times> 'opts factory_state" where
  "binding_Informer f s = InformerFor BindingType (binding_defaultInformer f) s"

record validatingAdmissionPolicyLister =
  pl_indexer :: nat

record validatingAdmissionPolicyBindingLister =
  bl_indexer :: nat

definition policy_Lister ::
  "'opts validatingAdmissionPolicyInformer \<Rightarrow> 'opts factory_state \<Rightarrow> validatingAdmissionPolicyLister \<times> 'opts factory_state" where
  "policy_Lister f s = (case policy_Informer f s of (i, s') \<Rightarrow> (\<lparr>pl_indexer = i\<rparr>, s'))"

definition binding_Lister ::
  "'opts validatingAdmissionPolicyBindingInformer \<Rightarrow> 'opts factory_state \<Rightarrow> validatingAdmissionPolicyBindingLister \<times> 'opts factory_state" where
  "binding_Lister f s = (case binding_Informer f s of (i, s') \<Rightarrow> (\<lparr>bl_indexer = i\<rparr>, s'))"

record genericInformer =
  gi_informer :: nat
  gi_resource :: GroupResource

record genericLister =
  gl_indexer :: nat
  gl_resource :: GroupResource

definition generic_Informer :: "genericInformer \<Rightarrow> nat" where
  "generic_Informer f = gi_informer f"

definition generic_Lister :: "genericInformer \<Rightarrow> genericLister" where
  "generic_Lister f = \<lparr>gl_indexer = generic_Informer f, gl_resource = gi_resource f\<rparr>"

definition fmt_GVR :: "GroupVersionResource \<Rightarrow> string" where
  "fmt_GVR gvr = gvr_Group gvr @ ''/'' @ gvr_Version gvr @ '', Resource='' @ gvr_Resource gvr"

definition v1alpha1_WithResource :: "string \<Rightarrow> GroupVersionResource" where
  "v1alpha1_WithResource resource =
     \<lparr>gvr_Group = ''admissionregistration.x-k8s.io'', gvr_Version = ''v1alpha1'', gvr_Resource = resource\<rparr>"

definition ForResource ::
  "GroupVersionResource \<Rightarrow> 'opts factory_state \<Rightarrow> genericInformer result \<times> 'opts factory_state" where
  "ForResource resource s =
     (if resource = v1alpha1_WithResource ''validatingadmissionpolicies'' then
        (case policy_Informer (version_ValidatingAdmissionPolicies (group_V1alpha1 (factory_Admissionregistration s))) s of
           (i, s') \<Rightarrow> (Ret \<lparr>gi_informer = i, gi_resource = gvr_GroupResource resource\<rparr>, s'))
      else if resource = v1alpha1_WithResource ''validatingadmissionpolicybindings'' then
        (case binding_Informer (version_ValidatingAdmissionPolicyBindings (group_V1alpha1 (factory_Admissionregistration s))) s of
           (i, s') \<Rightarrow> (Ret \<lparr>gi_informer = i, gi_resource = gvr_GroupResource resource\<rparr>, s'))
      else (Err (ErrorString (''no informer found for '' @ fmt_GVR resource)), s))"

text \<open>The loop of \<^verbatim>\<open>Start\<close> over the informers, in some order.\<close>

fun startLoop :: "nat \<Rightarrow> object_type list \<Rightarrow> 'opts factory_state \<Rightarrow> 'opts factory_state" where
  "startLoop stopCh [] s = s"
| "startLoop stopCh (informerType # types) s =
     startLoop stopCh types
       (case fa_informers (fs_factory s) informerType of
          None \<Rightarrow> s
        | Some informer \<Rightarrow>
            if informerType \<in> fa_startedInformers (fs_factory s) then s
            else s\<lparr>fs_factory := (fs_factory s)\<lparr>fa_wg := fa_wg (fs_factory s) + 1,
                     fa_startedInformers := insert informerType (fa_startedInformers (fs_factory s))\<rparr>,
                   fs_running := fs_running s @ [(informer, stopCh)],
                   fs_runs := fs_runs s @ [(informer, stopCh)]\<rparr>)"

definition factory_Start :: "object_type list \<Rightarrow> nat \<Rightarrow> 'opts factory_state \<Rightarrow> 'opts factory_state" where
  "factory_Start order stopCh s = (if fa_shuttingDown (fs_factory s) then s else startLoop stopCh order s)"

text \<open>\<^verbatim>\<open>WaitForCacheSync\<close>: the outcome of the wait for each started informer.\<close>

definition factory_WaitForCacheSync ::
  "(nat \<Rightarrow> bool) \<Rightarrow> 'opts factory_state \<Rightarrow> object_type \<rightharpoonup> bool" where
  "factory_WaitForCacheSync waitForCacheSync s =
     (\<lambda>ty. case fa_informers (fs_factory s) ty of
        None \<Rightarrow> None
      | Some informer \<Rightarrow>
          if ty \<in> fa_startedInformers (fs_factory s) then Some (waitForCacheSync informer) else None)"

text \<open>
  The steps: calls of the factory's methods, the closing of a stop channel, the end of a
  goroutine whose channel is closed, and the two parts of \<^verbatim>\<open>Shutdown\<close>, which returns when no
  goroutine is left.
\<close>

definition finish :: "nat \<Rightarrow> 'opts factory_state \<Rightarrow> 'opts factory_state" where
  "finish i s = s\<lparr>fs_running := take i (fs_running s) @ drop (Suc i) (fs_running s),
     fs_factory := (fs_factory s)\<lparr>fa_wg := fa_wg (fs_factory s) - 1\<rparr>\<rparr>"

inductive factory_step :: "'opts factory_state \<Rightarrow> 'opts factory_state \<Rightarrow> bool" where
  request: "factory_step s (snd (InformerFor ty newFunc s))"
| start: "factory_step s (factory_Start order stopCh s)"
| close_channel: "factory_step s (s\<lparr>fs_closed := insert ch (fs_closed s)\<rparr>)"
| finish_run: "i < length (fs_running s) \<Longrightarrow> snd (fs_running s ! i) \<in> fs_closed s \<Longrightarrow> factory_step s (finish i s)"
| shutdown_call: "factory_step s (s\<lparr>fs_factory := (fs_factory s)\<lparr>fa_shuttingDown := True\<rparr>, fs_waiting := fs_waiting s + 1\<rparr>)"
| shutdown_return: "fa_wg (fs_factory s) = 0 \<Longrightarrow> 0 < fs_waiting s \<Longrightarrow>
    factory_step s (s\<lparr>fs_waiting := fs_waiting s - 1, fs_returned := fs_returned s + 1\<rparr>)"

section \<open>The listers\<close>

definition v1alpha1_Resource :: "string \<Rightarrow> GroupResource" where
  "v1alpha1_Resource resource = \<lparr>gr_Group = ''admissionregistration.x-k8s.io'', gr_Resource = resource\<rparr>"

definition policyLister_List ::
  "(string set \<Rightarrow> string list) \<Rightarrow> (ValidatingAdmissionPolicy \<Rightarrow> goerror + accessor) \<Rightarrow> ValidatingAdmissionPolicy threadSafeMap \<Rightarrow> selector \<Rightarrow>
   ValidatingAdmissionPolicy list \<times> goerror option" where
  "policyLister_List order Accessor indexer selector = ListAll order Accessor indexer selector"

definition bindingLister_List ::
  "(string set \<Rightarrow> string list) \<Rightarrow> (ValidatingAdmissionPolicyBinding \<Rightarrow> goerror + accessor) \<Rightarrow>
   ValidatingAdmissionPolicyBinding threadSafeMap \<Rightarrow> selector \<Rightarrow> ValidatingAdmissionPolicyBinding list \<times> goerror option" where
  "bindingLister_List order Accessor indexer selector = ListAll order Accessor indexer selector"

definition policyLister_Get :: "ValidatingAdmissionPolicy threadSafeMap \<Rightarrow> string \<Rightarrow> goerror + ValidatingAdmissionPolicy" where
  "policyLister_Get indexer name =
     (case cache_GetByKey name indexer of
        Inl err \<Rightarrow> Inl err
      | Inr None \<Rightarrow> Inl (NewNotFound (v1alpha1_Resource ''validatingadmissionpolicy'') name)
      | Inr (Some obj) \<Rightarrow> Inr obj)"

definition bindingLister_Get ::
  "ValidatingAdmissionPolicyBinding threadSafeMap \<Rightarrow> string \<Rightarrow> goerror + ValidatingAdmissionPolicyBinding" where
  "bindingLister_Get indexer name =
     (case cache_GetByKey name indexer of
        Inl err \<Rightarrow> Inl err
      | Inr None \<Rightarrow> Inl (NewNotFound (v1alpha1_Resource ''validatingadmissionpolicybinding'') name)
      | Inr (Some obj) \<Rightarrow> Inr obj)"

section \<open>Lemmas\<close>

inductive_cases factory_stepE: "factory_step s t"

definition factory_inv :: "'opts factory_state \<Rightarrow> bool" where
  "factory_inv s \<longleftrightarrow>
     fa_wg (fs_factory s) = length (fs_running s) \<and>
     inj_on (fa_informers (fs_factory s)) (dom (fa_informers (fs_factory s))) \<and>
     (\<forall>p \<in> ran (fa_informers (fs_factory s)). p < length (fs_heap s)) \<and>
     (\<forall>p \<in> set (map fst (fs_runs s)).
        \<exists>ty \<in> fa_startedInformers (fs_factory s). fa_informers (fs_factory s) ty = Some p) \<and>
     distinct (map fst (fs_runs s)) \<and>
     (0 < fs_waiting s + fs_returned s \<longrightarrow> fa_shuttingDown (fs_factory s)) \<and>
     (0 < fs_returned s \<longrightarrow> fs_running s = [])"

lemma inv_InformerFor: "factory_inv s \<Longrightarrow> factory_inv (snd (InformerFor ty newFunc s))"
proof (cases "fa_informers (fs_factory s) ty")
  case None
  assume inv: "factory_inv s"
  let ?p = "length (fs_heap s)"
  have fresh: "?p \<notin> ran (fa_informers (fs_factory s))" using inv unfolding factory_inv_def by blast
  have "inj_on ((fa_informers (fs_factory s))(ty \<mapsto> ?p)) (insert ty (dom (fa_informers (fs_factory s))))"
    using inv None fresh unfolding factory_inv_def inj_on_def by (auto simp: ran_def)
  moreover have "\<exists>ty' \<in> fa_startedInformers (fs_factory s). ((fa_informers (fs_factory s))(ty \<mapsto> ?p)) ty' = Some p"
    if "p \<in> set (map fst (fs_runs s))" for p
    using inv None that unfolding factory_inv_def by (metis fun_upd_other option.distinct(1))
  moreover have "\<forall>p \<in> ran ((fa_informers (fs_factory s))(ty \<mapsto> ?p)). p < Suc ?p"
    using inv None by (auto simp: factory_inv_def less_Suc_eq)
  ultimately show ?thesis
    using inv None by (simp add: factory_inv_def InformerFor_def Let_def del: fun_upd_apply)
qed (simp add: InformerFor_def)

lemma inv_startLoop:
  "factory_inv s \<Longrightarrow> \<not> fa_shuttingDown (fs_factory s) \<Longrightarrow> factory_inv (startLoop stopCh types s)"
proof (induction stopCh types s rule: startLoop.induct)
  case (2 stopCh ty types s)
  let ?f = "fs_factory s"
  show ?case
  proof (cases "\<exists>p. fa_informers ?f ty = Some p \<and> ty \<notin> fa_startedInformers ?f")
    case True
    then obtain p where p: "fa_informers ?f ty = Some p" and new: "ty \<notin> fa_startedInformers ?f" by blast
    let ?t = "s\<lparr>fs_factory := ?f\<lparr>fa_wg := fa_wg ?f + 1, fa_startedInformers := insert ty (fa_startedInformers ?f)\<rparr>,
      fs_running := fs_running s @ [(p, stopCh)], fs_runs := fs_runs s @ [(p, stopCh)]\<rparr>"
    have "p \<notin> set (map fst (fs_runs s))"
      using 2(2) p new unfolding factory_inv_def inj_on_def by (metis domI)
    moreover have "0 < fs_waiting s + fs_returned s \<longrightarrow> False" using 2(2,3) by (simp add: factory_inv_def)
    ultimately have "factory_inv ?t" using 2(2) p by (auto simp: factory_inv_def)
    then show ?thesis using 2(1) 2(3) p new by simp
  next
    case False
    then show ?thesis using 2 by (auto split: option.splits)
  qed
qed simp

lemma inv_finish: "factory_inv s \<Longrightarrow> i < length (fs_running s) \<Longrightarrow> factory_inv (finish i s)"
  by (auto simp: factory_inv_def finish_def)

interpretation factory: step_invariant factory_step factory_inv
proof
  show "factory_inv t" if "factory_step s t" and "factory_inv s" for s t :: "'a factory_state"
    using that
  proof cases
    case request
    then show ?thesis using that by (simp add: inv_InformerFor)
  next
    case start
    then show ?thesis using that by (simp add: factory_Start_def inv_startLoop)
  next
    case finish_run
    then show ?thesis using that by (simp add: inv_finish)
  next
    case close_channel
    then show ?thesis using that by (simp add: factory_inv_def)
  next
    case shutdown_call
    then show ?thesis using that by (simp add: factory_inv_def)
  next
    case shutdown_return
    then show ?thesis using that by (simp add: factory_inv_def)
  qed
qed

lemma inv_init: "factory_inv (factory_init (NewSharedInformerFactory resync))"
  by (simp add: factory_inv_def factory_init_def NewSharedInformerFactory_def NewSharedInformerFactoryWithOptions_def)

text \<open>Informers are never replaced, and the shut-down is final.\<close>

lemma startLoop_informers [simp]: "fa_informers (fs_factory (startLoop stopCh types s)) = fa_informers (fs_factory s)"
  by (induction stopCh types s rule: startLoop.induct) (auto split: option.splits)

lemma startLoop_heap [simp]: "fs_heap (startLoop stopCh types s) = fs_heap s"
  by (induction stopCh types s rule: startLoop.induct) (auto split: option.splits)

interpretation informer_kept: step_invariant factory_step
  "\<lambda>s. fa_informers (fs_factory s) ty = Some p \<and> p < length (fs_heap s) \<and> fs_heap s ! p = i" for ty p i
  by unfold_locales
    (auto elim!: factory_stepE simp: InformerFor_def Let_def factory_Start_def finish_def nth_append
      split: option.splits)

interpretation shut_down: step_invariant factory_step "\<lambda>s. fa_shuttingDown (fs_factory s) \<and> fs_runs s = runs" for runs
  by unfold_locales
    (auto elim!: factory_stepE simp: InformerFor_def Let_def factory_Start_def finish_def split: option.splits)

interpretation returned: step_invariant factory_step "\<lambda>s. 0 < fs_returned s"
proof
  have loop: "fs_returned (startLoop stopCh types s) = fs_returned s" for stopCh types and s :: "'a factory_state"
    by (induction stopCh types s rule: startLoop.induct) (auto split: option.splits)
  show "0 < fs_returned t" if "factory_step s t" and "0 < fs_returned s" for s t :: "'a factory_state"
    using that by (auto elim!: factory_stepE simp: InformerFor_def Let_def factory_Start_def finish_def loop
        split: option.splits)
qed

text \<open>The resource that stands for a type, and the accessor by resource.\<close>

fun type_resource :: "object_type \<Rightarrow> GroupVersionResource" where
  "type_resource PolicyType = v1alpha1_WithResource ''validatingadmissionpolicies''"
| "type_resource BindingType = v1alpha1_WithResource ''validatingadmissionpolicybindings''"

fun map_outcome :: "('a \<Rightarrow> 'b) \<Rightarrow> 'a result \<Rightarrow> 'b result" where
  "map_outcome f (Ret x) = Ret (f x)"
| "map_outcome f (Err e) = Err e"
| "map_outcome f (Panic m) = Panic m"

lemma ForResource_shared:
  assumes "fa_informers (fs_factory t) ty = Some p"
  shows "map_outcome generic_Informer (fst (ForResource (type_resource ty) t)) = Ret p"
  using assms by (cases ty) (simp_all add: ForResource_def policy_Informer_def binding_Informer_def InformerFor_def
      generic_Informer_def v1alpha1_WithResource_def)

section \<open>Properties\<close>

text \<open>
  C28. An informer is shared and is started once: in every state that callers of a factory can
  reach, no informer has been run twice; an informer that a type was given stays the informer
  of that type, unchanged, for everybody who asks later, through the typed informers as well as by
  resource; and once a call of \<^verbatim>\<open>Shutdown\<close> has
  returned no goroutine runs and no informer is ever started again.
\<close>

theorem informer_factory:
  assumes "factory_step\<^sup>*\<^sup>* (factory_init (NewSharedInformerFactory resync)) s"
    and "factory_step\<^sup>*\<^sup>* s t"
  shows "distinct (map fst (fs_runs s)) \<and>
    (fa_informers (fs_factory s) ty = Some p \<longrightarrow> InformerFor ty newFunc t = (p, t) \<and> fs_heap t ! p = fs_heap s ! p \<and>
       map_outcome generic_Informer (fst (ForResource (type_resource ty) t)) = Ret p) \<and>
    (0 < fs_returned s \<longrightarrow> fs_running t = [] \<and> fs_runs t = fs_runs s)"
proof (intro conjI impI)
  have inv: "factory_inv s" using assms(1) inv_init by (rule factory.steps_inv)
  then show "distinct (map fst (fs_runs s))" by (simp add: factory_inv_def)
  assume p: "fa_informers (fs_factory s) ty = Some p"
  then have "p < length (fs_heap s)" using inv by (auto simp: factory_inv_def ran_def)
  then have t: "fa_informers (fs_factory t) ty = Some p" and heap: "fs_heap t ! p = fs_heap s ! p"
    using informer_kept.steps_inv [OF assms(2), of ty p "fs_heap s ! p"] p by simp_all
  show "InformerFor ty newFunc t = (p, t)" using t by (simp add: InformerFor_def)
  show "fs_heap t ! p = fs_heap s ! p" by (rule heap)
  show "map_outcome generic_Informer (fst (ForResource (type_resource ty) t)) = Ret p" by (rule ForResource_shared [OF t])
next
  assume returned: "0 < fs_returned s"
  have inv: "factory_inv s" using assms(1) inv_init by (rule factory.steps_inv)
  then have "fa_shuttingDown (fs_factory s)" using returned by (simp add: factory_inv_def)
  then show "fs_runs t = fs_runs s" using shut_down.steps_inv [OF assms(2), of "fs_runs s"] by simp
  have "factory_inv t" using assms(2) inv by (rule factory.steps_inv)
  then show "fs_running t = []"
    using returned.steps_inv [OF assms(2) returned] by (simp add: factory_inv_def)
qed

section \<open>Witnesses\<close>

definition example_factory :: "unit factory_state" where
  "example_factory = snd (policy_Informer \<lparr>pin_tweakListOptions = None\<rparr> (factory_init (NewSharedInformerFactory 30)))"

lemma example_factory_fields:
  "fa_informers (fs_factory example_factory) = [PolicyType \<mapsto> 0]"
  "fs_runs (factory_Start [PolicyType, BindingType] 7 example_factory) = [(0, 7)]"
  by (simp_all add: example_factory_def policy_Informer_def InformerFor_def factory_init_def factory_Start_def
      NewSharedInformerFactory_def NewSharedInformerFactoryWithOptions_def Let_def)

theorem informer_factory_witness:
  "InformerFor PolicyType (\<lambda>d. NewValidatingAdmissionPolicyBindingInformer d []) (factory_Start [PolicyType, BindingType] 7 example_factory) =
     (0, factory_Start [PolicyType, BindingType] 7 example_factory)"
proof -
  have "factory_step (factory_init (NewSharedInformerFactory 30)) example_factory"
    unfolding example_factory_def policy_Informer_def by (rule factory_step.request)
  then have reach: "factory_step\<^sup>*\<^sup>* (factory_init (NewSharedInformerFactory 30)) example_factory" by blast
  have "factory_step\<^sup>*\<^sup>* example_factory (factory_Start [PolicyType, BindingType] 7 example_factory)"
    using factory_step.start by blast
  from informer_factory [OF reach this, of PolicyType 0 "\<lambda>d. NewValidatingAdmissionPolicyBindingInformer d []"]
  show ?thesis by (simp add: example_factory_fields)
qed

end
