(* ===== verification/RestClient.thy ===== *)
theory RestClient
  imports Conversion
begin

text \<open>
  The generated REST clients under \<^verbatim>\<open>pkg/generated/clientset/versioned\<close>, with the request builder
  of the vendored \<^verbatim>\<open>client-go/rest/request.go\<close> that they chain. What the transport, the codecs and
  the API server do are arguments: \<open>re_send\<close> takes a request and the state of the server to an
  answer and the next state. The lemmas show which request each operation sends, and that a
  name can never reach beyond its own resource.
\<close>

section \<open>Paths\<close>

text \<open>\<^verbatim>\<open>path.Clean\<close> and \<^verbatim>\<open>path.Join\<close>.\<close>

fun clean_segments :: "bool \<Rightarrow> string list \<Rightarrow> string list \<Rightarrow> string list" where
  "clean_segments rooted [] acc = rev acc"
| "clean_segments rooted (seg # segs) acc =
     (if seg = '''' \<or> seg = ''.'' then clean_segments rooted segs acc
      else if seg = ''..'' then
        (case acc of
           [] \<Rightarrow> clean_segments rooted segs (if rooted then [] else [''..''])
         | a # as \<Rightarrow> if a = ''..'' then clean_segments rooted segs (''..'' # acc) else clean_segments rooted segs as)
      else clean_segments rooted segs (seg # acc))"

fun join_segments :: "string list \<Rightarrow> string" where
  "join_segments [] = ''''"
| "join_segments [s] = s"
| "join_segments (s # t # segs) = s @ ''/'' @ join_segments (t # segs)"

definition path_Clean :: "string \<Rightarrow> string" where
  "path_Clean p =
     (let rooted = has_prefix p ''/''; segs = clean_segments rooted (go_split (CHR ''/'') p) [] in
      if rooted then ''/'' @ join_segments segs else if segs = [] then ''.'' else join_segments segs)"

definition path_Join :: "string list \<Rightarrow> string" where
  "path_Join elems =
     (let ne = filter (\<lambda>e. e \<noteq> '''') elems in if ne = [] then '''' else path_Clean (join_segments ne))"

section \<open>The request builder\<close>

text \<open>
  List options as far as the clients read them; the parameters an options object is encoded to
  are given by a codec.
\<close>

record rest_opts =
  ro_TimeoutSeconds :: "64 word option"
  ro_Watch :: bool
  ro_other :: "(string \<times> string) list"

record Request =
  rr_verb :: string
  rr_pathPrefix :: string
  rr_resource :: string
  rr_resourceName :: string
  rr_subresource :: string
  rr_params :: "(string \<times> string) list"
  rr_timeout :: "64 word"
  rr_body :: "json option"
  rr_err :: "goerror option"

text \<open>What is sent: the method, the path, the parameters and timeout of the query, and the body.\<close>

record http_call =
  hc_verb :: string
  hc_path :: string
  hc_params :: "(string \<times> string) list"
  hc_timeout :: "64 word"
  hc_body :: "json option"

record ('o, 's) rest_env =
  re_pathPrefix :: string
  re_clientTimeout :: "64 word"
  re_params :: "rest_opts \<Rightarrow> goerror + (string \<times> string) list"
  re_encode :: "'o \<Rightarrow> json result"
  re_encodeOptions :: "rest_opts \<Rightarrow> json"
  re_decode :: "json \<Rightarrow> 'o result"
  re_decodeList :: "json \<Rightarrow> 'o object_list result"
  re_send :: "http_call \<Rightarrow> 's \<Rightarrow> json result \<times> 's"
  re_watch :: "http_call \<Rightarrow> 's \<Rightarrow> ('s \<Rightarrow> ('o, 'o) watch_event list result) result \<times> 's"

definition NewRequest :: "('o, 's) rest_env \<Rightarrow> string \<Rightarrow> Request" where
  "NewRequest env verb = \<lparr>rr_verb = verb, rr_pathPrefix = re_pathPrefix env, rr_resource = '''',
     rr_resourceName = '''', rr_subresource = '''', rr_params = [], rr_timeout = re_clientTimeout env,
     rr_body = None, rr_err = None\<rparr>"

definition IsValidPathSegmentName :: "string \<Rightarrow> string list" where
  "IsValidPathSegmentName name =
     (if name = ''.'' \<or> name = ''..'' then [''may not be '' @ [CHR 0x27] @ name @ [CHR 0x27]]
      else concat (map (\<lambda>illegal.
        if go_contains name illegal then [''may not contain '' @ [CHR 0x27] @ illegal @ [CHR 0x27]] else [])
        [''/'', ''%'']))"

definition fmt_strings :: "string list \<Rightarrow> string" where
  "fmt_strings msgs = ''['' @ concat (map (\<lambda>m. m @ '' '') (butlast msgs)) @ (if msgs = [] then '''' else last msgs) @ '']''"

definition req_Resource :: "string \<Rightarrow> Request \<Rightarrow> Request" where
  "req_Resource resource r =
     (if rr_err r \<noteq> None then r
      else if length (rr_resource r) \<noteq> 0 then
        r\<lparr>rr_err := Some (ErrorString (''resource already set to '' @ go_quote (rr_resource r) @
          '', cannot change to '' @ go_quote resource))\<rparr>
      else if length (IsValidPathSegmentName resource) \<noteq> 0 then
        r\<lparr>rr_err := Some (ErrorString (''invalid resource '' @ go_quote resource @ '': '' @
          fmt_strings (IsValidPathSegmentName resource)))\<rparr>
      else r\<lparr>rr_resource := resource\<rparr>)"

definition req_Name :: "string \<Rightarrow> Request \<Rightarrow> Request" where
  "req_Name resourceName r =
     (if rr_err r \<noteq> None then r
      else if length resourceName = 0 then r\<lparr>rr_err := Some (ErrorString ''resource name may not be empty'')\<rparr>
      else if length (rr_resourceName r) \<noteq> 0 then
        r\<lparr>rr_err := Some (ErrorString (''resource name already set to '' @ go_quote (rr_resourceName r) @
          '', cannot change to '' @ go_quote resourceName))\<rparr>
      else if length (IsValidPathSegmentName resourceName) \<noteq> 0 then
        r\<lparr>rr_err := Some (ErrorString (''invalid resource name '' @ go_quote resourceName @ '': '' @
          fmt_strings (IsValidPathSegmentName resourceName)))\<rparr>
      else r\<lparr>rr_resourceName := resourceName\<rparr>)"

fun invalid_segment :: "string list \<Rightarrow> string option" where
  "invalid_segment [] = None"
| "invalid_segment (s # segs) = (if length (IsValidPathSegmentName s) \<noteq> 0 then Some s else invalid_segment segs)"

definition req_SubResource :: "string list \<Rightarrow> Request \<Rightarrow> Request" where
  "req_SubResource subresources r =
     (if rr_err r \<noteq> None then r
      else
        let subresource = path_Join subresources in
        if length (rr_subresource r) \<noteq> 0 then
          r\<lparr>rr_err := Some (ErrorString (''subresource already set to '' @ go_quote (rr_subresource r) @
            '', cannot change to '' @ go_quote subresource))\<rparr>
        else case invalid_segment subresources of
          Some s \<Rightarrow> r\<lparr>rr_err := Some (ErrorString (''invalid subresource '' @ go_quote s @ '': '' @
            fmt_strings (IsValidPathSegmentName s)))\<rparr>
        | None \<Rightarrow> r\<lparr>rr_subresource := subresource\<rparr>)"

definition req_VersionedParams :: "('o, 's) rest_env \<Rightarrow> rest_opts \<Rightarrow> Request \<Rightarrow> Request" where
  "req_VersionedParams env opts r =
     (if rr_err r \<noteq> None then r
      else case re_params env opts of
        Inr params \<Rightarrow> r\<lparr>rr_params := rr_params r @ params\<rparr>
      | Inl err \<Rightarrow> r\<lparr>rr_err := Some err\<rparr>)"

definition req_Timeout :: "64 word \<Rightarrow> Request \<Rightarrow> Request" where
  "req_Timeout d r = (if rr_err r \<noteq> None then r else r\<lparr>rr_timeout := d\<rparr>)"

text \<open>The body of an object (which may be nil), of options, and of the bytes of a patch.\<close>

definition req_BodyObject :: "('o, 's) rest_env \<Rightarrow> 'o option \<Rightarrow> Request \<Rightarrow> Request result" where
  "req_BodyObject env obj r =
     (if rr_err r \<noteq> None then Ret r
      else case obj of
        None \<Rightarrow> Ret r
      | Some x \<Rightarrow>
          (case re_encode env x of
             Ret data \<Rightarrow> Ret (r\<lparr>rr_body := Some data\<rparr>)
           | Err err \<Rightarrow> Ret (r\<lparr>rr_err := Some err\<rparr>)
           | Panic m \<Rightarrow> Panic m))"

definition req_BodyJson :: "json \<Rightarrow> Request \<Rightarrow> Request" where
  "req_BodyJson data r = (if rr_err r \<noteq> None then r else r\<lparr>rr_body := Some data\<rparr>)"

text \<open>\<^verbatim>\<open>URL\<close>; the resources are cluster-scoped. \<^verbatim>\<open>strings.ToLower\<close> does not change the resource names.\<close>

definition req_path :: "Request \<Rightarrow> string" where
  "req_path r =
     (let p = (if length (rr_resource r) \<noteq> 0 then path_Join [rr_pathPrefix r, rr_resource r] else rr_pathPrefix r) in
      if length (rr_resourceName r) \<noteq> 0 \<or> length (rr_subresource r) \<noteq> 0
      then path_Join [p, rr_resourceName r, rr_subresource r] else p)"

definition req_call :: "Request \<Rightarrow> http_call" where
  "req_call r = \<lparr>hc_verb = rr_verb r, hc_path = req_path r, hc_params = rr_params r,
     hc_timeout = rr_timeout r, hc_body = rr_body r\<rparr>"

text \<open>
  \<^verbatim>\<open>Do\<close>: an error of the builder is returned and nothing is sent. The preflight check passes,
  since no namespace is set.
\<close>

definition req_Do :: "('o, 's) rest_env \<Rightarrow> Request \<Rightarrow> 's \<Rightarrow> json result \<times> 's" where
  "req_Do env r s =
     (case rr_err r of Some err \<Rightarrow> (Err err, s) | None \<Rightarrow> re_send env (req_call r) s)"

definition req_Watch ::
  "('o, 's) rest_env \<Rightarrow> Request \<Rightarrow> 's \<Rightarrow> ('s \<Rightarrow> ('o, 'o) watch_event list result) result \<times> 's" where
  "req_Watch env r s =
     (case rr_err r of Some err \<Rightarrow> (Err err, s) | None \<Rightarrow> re_watch env (req_call r) s)"

section \<open>The typed clients\<close>

text \<open>The two generated clients differ in the type, the resource and \<^verbatim>\<open>UpdateStatus\<close>.\<close>

definition into_object :: "('o, 's) rest_env \<Rightarrow> json result \<times> 's \<Rightarrow> 'o option result \<times> 's" where
  "into_object env a = (case a of (res, s) \<Rightarrow> (bind_outcome (bind_outcome res (re_decode env)) (\<lambda>x. Ret (Some x)), s))"

definition timeout_of :: "rest_opts \<Rightarrow> 64 word" where
  "timeout_of opts = (case ro_TimeoutSeconds opts of None \<Rightarrow> 0 | Some sec \<Rightarrow> sec * 1000000000)"

definition rest_Get ::
  "('o, 's) rest_env \<Rightarrow> string \<Rightarrow> string \<Rightarrow> rest_opts \<Rightarrow> 's \<Rightarrow> 'o option result \<times> 's" where
  "rest_Get env resource name options s =
     into_object env (req_Do env
       (req_VersionedParams env options (req_Name name (req_Resource resource (NewRequest env ''GET'')))) s)"

definition rest_List ::
  "('o, 's) rest_env \<Rightarrow> string \<Rightarrow> rest_opts \<Rightarrow> 's \<Rightarrow> 'o object_list option result \<times> 's" where
  "rest_List env resource opts s =
     (case req_Do env
        (req_Timeout (timeout_of opts) (req_VersionedParams env opts (req_Resource resource (NewRequest env ''GET'')))) s of
        (res, s') \<Rightarrow> (bind_outcome (bind_outcome res (re_decodeList env)) (\<lambda>l. Ret (Some l)), s'))"

definition rest_Watch ::
  "('o, 's) rest_env \<Rightarrow> string \<Rightarrow> rest_opts \<Rightarrow> 's \<Rightarrow> ('s \<Rightarrow> ('o, 'o) watch_event list result) result \<times> 's" where
  "rest_Watch env resource opts0 s =
     (let opts = opts0\<lparr>ro_Watch := True\<rparr> in
      req_Watch env
        (req_Timeout (timeout_of opts0) (req_VersionedParams env opts (req_Resource resource (NewRequest env ''GET'')))) s)"

definition send_body ::
  "('o, 's) rest_env \<Rightarrow> 'o option \<Rightarrow> Request \<Rightarrow> 's \<Rightarrow> 'o option result \<times> 's" where
  "send_body env obj r s =
     (case req_BodyObject env obj r of
        Ret r' \<Rightarrow> into_object env (req_Do env r' s)
      | Err err \<Rightarrow> (Err err, s)
      | Panic m \<Rightarrow> (Panic m, s))"

definition rest_Create ::
  "('o, 's) rest_env \<Rightarrow> string \<Rightarrow> 'o option \<Rightarrow> rest_opts \<Rightarrow> 's \<Rightarrow> 'o option result \<times> 's" where
  "rest_Create env resource obj opts s =
     send_body env obj (req_VersionedParams env opts (req_Resource resource (NewRequest env ''POST''))) s"

text \<open>The name is read from the object, so a nil object panics.\<close>

definition rest_Update ::
  "('o, 's) rest_env \<Rightarrow> string \<Rightarrow> ('o \<Rightarrow> string) \<Rightarrow> 'o option \<Rightarrow> rest_opts \<Rightarrow> 's \<Rightarrow> 'o option result \<times> 's" where
  "rest_Update env resource name_of obj opts s =
     (case obj of
        None \<Rightarrow> (Panic ''invalid memory address or nil pointer dereference'', s)
      | Some x \<Rightarrow>
          send_body env obj
            (req_VersionedParams env opts (req_Name (name_of x) (req_Resource resource (NewRequest env ''PUT'')))) s)"

definition rest_UpdateStatus ::
  "('o, 's) rest_env \<Rightarrow> string \<Rightarrow> ('o \<Rightarrow> string) \<Rightarrow> 'o option \<Rightarrow> rest_opts \<Rightarrow> 's \<Rightarrow> 'o option result \<times> 's" where
  "rest_UpdateStatus env resource name_of obj opts s =
     (case obj of
        None \<Rightarrow> (Panic ''invalid memory address or nil pointer dereference'', s)
      | Some x \<Rightarrow>
          send_body env obj
            (req_VersionedParams env opts (req_SubResource [''status'']
              (req_Name (name_of x) (req_Resource resource (NewRequest env ''PUT''))))) s)"

definition error_of :: "json result \<times> 's \<Rightarrow> unit result \<times> 's" where
  "error_of a = (case a of (res, s) \<Rightarrow> (bind_outcome res (\<lambda>_. Ret ()), s))"

definition rest_Delete :: "('o, 's) rest_env \<Rightarrow> string \<Rightarrow> string \<Rightarrow> rest_opts \<Rightarrow> 's \<Rightarrow> unit result \<times> 's" where
  "rest_Delete env resource name opts s =
     error_of (req_Do env
       (req_BodyJson (re_encodeOptions env opts) (req_Name name (req_Resource resource (NewRequest env ''DELETE'')))) s)"

definition rest_DeleteCollection ::
  "('o, 's) rest_env \<Rightarrow> string \<Rightarrow> rest_opts \<Rightarrow> rest_opts \<Rightarrow> 's \<Rightarrow> unit result \<times> 's" where
  "rest_DeleteCollection env resource opts listOpts s =
     error_of (req_Do env
       (req_BodyJson (re_encodeOptions env opts) (req_Timeout (timeout_of listOpts)
         (req_VersionedParams env listOpts (req_Resource resource (NewRequest env ''DELETE''))))) s)"

definition rest_Patch ::
  "('o, 's) rest_env \<Rightarrow> string \<Rightarrow> (bytes \<Rightarrow> json) \<Rightarrow> string list \<Rightarrow> string \<Rightarrow> bytes \<Rightarrow> rest_opts \<Rightarrow> 's \<Rightarrow>
   'o option result \<times> 's" where
  "rest_Patch env resource parse subresources name data opts s =
     into_object env (req_Do env
       (req_BodyJson (parse data) (req_VersionedParams env opts (req_SubResource subresources
         (req_Name name (req_Resource resource (NewRequest env ''PATCH'')))))) s)"

definition validatingAdmissionPolicies ::
  "(ValidatingAdmissionPolicy, 's) rest_env \<Rightarrow> (bytes \<Rightarrow> json) \<Rightarrow>
   (ValidatingAdmissionPolicy, policy_event, rest_opts, 's) ClientInterface" where
  "validatingAdmissionPolicies env parse =
     (let resource = ''validatingadmissionpolicies''; name_of = (\<lambda>p. om_Name (vp_ObjectMeta p)) in
      \<lparr>cl_Create = rest_Create env resource, cl_Update = rest_Update env resource name_of,
       cl_UpdateStatus = Some (rest_UpdateStatus env resource name_of), cl_Delete = rest_Delete env resource,
       cl_DeleteCollection = rest_DeleteCollection env resource, cl_Get = rest_Get env resource,
       cl_List = rest_List env resource, cl_Watch = rest_Watch env resource,
       cl_Patch = rest_Patch env resource parse []\<rparr>)"

definition validatingAdmissionPolicyBindings ::
  "(ValidatingAdmissionPolicyBinding, 's) rest_env \<Rightarrow> (bytes \<Rightarrow> json) \<Rightarrow>
   (ValidatingAdmissionPolicyBinding, binding_event, rest_opts, 's) ClientInterface" where
  "validatingAdmissionPolicyBindings env parse =
     (let resource = ''validatingadmissionpolicybindings''; name_of = (\<lambda>b. om_Name (vb_ObjectMeta b)) in
      \<lparr>cl_Create = rest_Create env resource, cl_Update = rest_Update env resource name_of,
       cl_UpdateStatus = None, cl_Delete = rest_Delete env resource,
       cl_DeleteCollection = rest_DeleteCollection env resource, cl_Get = rest_Get env resource,
       cl_List = rest_List env resource, cl_Watch = rest_Watch env resource,
       cl_Patch = rest_Patch env resource parse []\<rparr>)"

section \<open>The clientset\<close>

text \<open>
  The configuration as far as the constructors read it. The prefix of all paths is made of the
  base path of the host and the group and version that \<^verbatim>\<open>setConfigDefaults\<close> fixes. Of the
  rate \<^verbatim>\<open>QPS\<close>, a floating-point number, only the sign is read.
\<close>

record rest_Config =
  cf_basePath :: string
  cf_APIPath :: string
  cf_Group :: string
  cf_Version :: string
  cf_UserAgent :: string
  cf_RateLimiter :: "(int \<times> int) option"
  cf_QPS :: int
  cf_Burst :: int

definition setConfigDefaults :: "string \<Rightarrow> rest_Config \<Rightarrow> rest_Config" where
  "setConfigDefaults DefaultKubernetesUserAgent config =
     (let c = config\<lparr>cf_Group := ''admissionregistration.x-k8s.io'', cf_Version := ''v1alpha1'', cf_APIPath := ''/apis''\<rparr>
      in if cf_UserAgent c = '''' then c\<lparr>cf_UserAgent := DefaultKubernetesUserAgent\<rparr> else c)"

definition versioned_path :: "rest_Config \<Rightarrow> string" where
  "versioned_path c =
     (let versionedAPIPath = path_Join [''/'', cf_APIPath c, cf_Group c, cf_Version c]
      in path_Join [''/'', cf_basePath c, versionedAPIPath])"

section \<open>Lemmas\<close>

definition good_segment :: "string \<Rightarrow> bool" where
  "good_segment s \<longleftrightarrow> s \<noteq> '''' \<and> s \<noteq> ''.'' \<and> s \<noteq> ''..'' \<and> CHR ''/'' \<notin> set s"

lemma clean_good: "list_all good_segment segs \<Longrightarrow> clean_segments rooted segs acc = rev acc @ segs"
  by (induction rooted segs acc rule: clean_segments.induct) (auto simp: good_segment_def)

lemma split_join: "segs \<noteq> [] \<Longrightarrow> list_all good_segment segs \<Longrightarrow> go_split (CHR ''/'') (join_segments segs) = segs"
proof (induction segs rule: join_segments.induct)
  case (2 s)
  then show ?case by (simp add: good_segment_def go_split_no_sep)
next
  case (3 s t segs)
  then show ?case using go_split_append [of "CHR ''/''" s] by (simp add: good_segment_def)
qed simp

lemma path_Clean_good:
  assumes "segs \<noteq> []" and "list_all good_segment segs"
  shows "path_Clean (''/'' @ join_segments segs) = ''/'' @ join_segments segs"
  using assms split_join [OF assms] clean_good [OF assms(2), of True "[]"] by (simp add: path_Clean_def Let_def)

lemma join_snoc: "segs \<noteq> [] \<Longrightarrow> join_segments (segs @ [t]) = join_segments segs @ ''/'' @ t"
  by (induction segs rule: join_segments.induct) auto

lemma path_Join_good:
  assumes "segs \<noteq> []" and "list_all good_segment segs" and "good_segment t"
  shows "path_Join [''/'' @ join_segments segs, t] = ''/'' @ join_segments (segs @ [t])"
    and "path_Join [''/'' @ join_segments segs, t, ''''] = ''/'' @ join_segments (segs @ [t])"
proof -
  have "path_Clean (''/'' @ join_segments (segs @ [t])) = ''/'' @ join_segments (segs @ [t])"
    using assms by (intro path_Clean_good) auto
  then show "path_Join [''/'' @ join_segments segs, t] = ''/'' @ join_segments (segs @ [t])"
    and "path_Join [''/'' @ join_segments segs, t, ''''] = ''/'' @ join_segments (segs @ [t])"
    using assms(1,3) by (simp_all add: path_Join_def Let_def join_snoc good_segment_def)
qed

text \<open>The names that the request builder accepts.\<close>

definition valid_name :: "string \<Rightarrow> bool" where
  "valid_name name \<longleftrightarrow> good_segment name \<and> CHR ''%'' \<notin> set name"

lemma go_contains_char: "go_contains s [c] \<longleftrightarrow> c \<in> set s"
  by (auto simp: go_contains_iff in_set_conv_decomp)

lemma IsValidPathSegmentName_iff: "name \<noteq> '''' \<Longrightarrow> IsValidPathSegmentName name = [] \<longleftrightarrow> valid_name name"
  by (auto simp: IsValidPathSegmentName_def valid_name_def good_segment_def go_contains_char)

lemma req_Name_valid: "rr_err r = None \<Longrightarrow> rr_resourceName r = '''' \<Longrightarrow> valid_name name \<Longrightarrow> req_Name name r = r\<lparr>rr_resourceName := name\<rparr>"
  using IsValidPathSegmentName_iff [of name] by (simp add: req_Name_def valid_name_def good_segment_def)

lemma req_Name_invalid: "rr_err r = None \<Longrightarrow> rr_resourceName r = '''' \<Longrightarrow> \<not> valid_name name \<Longrightarrow> rr_err (req_Name name r) \<noteq> None"
  using IsValidPathSegmentName_iff [of name] by (simp add: req_Name_def)

text \<open>A request to a named resource, at any of the prefixes a configuration gives.\<close>

lemma named_path:
  assumes "rr_pathPrefix r = ''/'' @ join_segments segs" and "segs \<noteq> []" and "list_all good_segment segs"
    and "good_segment (rr_resource r)" and "good_segment (rr_resourceName r)" and "rr_subresource r = ''''"
  shows "req_path r = ''/'' @ join_segments segs @ ''/'' @ rr_resource r @ ''/'' @ rr_resourceName r"
proof -
  have p: "path_Join [rr_pathPrefix r, rr_resource r] = ''/'' @ join_segments (segs @ [rr_resource r])"
    unfolding assms(1) using assms(2-4) by (intro path_Join_good)
  have "path_Join [''/'' @ join_segments (segs @ [rr_resource r]), rr_resourceName r, ''''] =
      ''/'' @ join_segments ((segs @ [rr_resource r]) @ [rr_resourceName r])"
    using assms(2-5) by (intro path_Join_good) auto
  then show ?thesis
    using assms(4,5) join_snoc [of "segs @ [rr_resource r]" "rr_resourceName r"]
    by (simp add: req_path_def Let_def p assms(2,6) join_snoc good_segment_def)
qed

lemma versioned_path_default:
  assumes "cf_basePath c = ''''"
  shows "versioned_path (setConfigDefaults agent c) = ''/'' @ join_segments [''apis'', ''admissionregistration.x-k8s.io'', ''v1alpha1'']"
proof -
  have "path_Join [''/'', ''/apis'', ''admissionregistration.x-k8s.io'', ''v1alpha1''] =
      ''/apis/admissionregistration.x-k8s.io/v1alpha1''"
    by code_simp
  moreover have "path_Join [''/'', '''', ''/apis/admissionregistration.x-k8s.io/v1alpha1''] =
      ''/apis/admissionregistration.x-k8s.io/v1alpha1''"
    by code_simp
  ultimately show ?thesis using assms by (simp add: versioned_path_def setConfigDefaults_def Let_def)
qed

lemma new_request:
  "IsValidPathSegmentName resource = [] \<Longrightarrow> req_Resource resource (NewRequest env verb) =
     \<lparr>rr_verb = verb, rr_pathPrefix = re_pathPrefix env, rr_resource = resource, rr_resourceName = '''',
      rr_subresource = '''', rr_params = [], rr_timeout = re_clientTimeout env, rr_body = None, rr_err = None\<rparr>"
  by (simp add: req_Resource_def NewRequest_def)

lemma resources_ok [simp]:
  "IsValidPathSegmentName ''validatingadmissionpolicies'' = []" "good_segment ''validatingadmissionpolicies''"
  "IsValidPathSegmentName ''validatingadmissionpolicybindings'' = []" "good_segment ''validatingadmissionpolicybindings''"
  by (simp_all add: IsValidPathSegmentName_def good_segment_def)

section \<open>Requests\<close>

text \<open>
  The requests of the typed clients stay in their place. For a clientset of any configuration
  without a base path: reading or deleting an object sends one request, to the path of exactly
  that name, if the name is a proper path segment; for any other name it returns an error and
  sends nothing.
\<close>

lemma rest_named_requests:
  assumes prefix: "re_pathPrefix env = versioned_path (setConfigDefaults agent c)" and base: "cf_basePath c = ''''"
    and ps: "re_params env opts = Inr ps" and ok: "IsValidPathSegmentName resource = []" "good_segment resource"
  shows "if valid_name name then
      rest_Get env resource name opts s =
        into_object env (re_send env \<lparr>hc_verb = ''GET'',
          hc_path = ''/apis/admissionregistration.x-k8s.io/v1alpha1/'' @ resource @ ''/'' @ name,
          hc_params = ps, hc_timeout = re_clientTimeout env, hc_body = None\<rparr> s) \<and>
      rest_Delete env resource name opts s =
        error_of (re_send env \<lparr>hc_verb = ''DELETE'',
          hc_path = ''/apis/admissionregistration.x-k8s.io/v1alpha1/'' @ resource @ ''/'' @ name,
          hc_params = [], hc_timeout = re_clientTimeout env,
          hc_body = Some (re_encodeOptions env opts)\<rparr> s)
    else (\<exists>e1 e2. rest_Get env resource name opts s = (Err e1, s) \<and> rest_Delete env resource name opts s = (Err e2, s))"
proof (cases "valid_name name")
  case True
  let ?segs = "[''apis'', ''admissionregistration.x-k8s.io'', ''v1alpha1'']"
  have p: "re_pathPrefix env = ''/'' @ join_segments ?segs" using prefix versioned_path_default [OF base] by simp
  have path: "req_path \<lparr>rr_verb = verb, rr_pathPrefix = re_pathPrefix env, rr_resource = resource,
      rr_resourceName = name, rr_subresource = '''', rr_params = ps, rr_timeout = t, rr_body = b, rr_err = None\<rparr> =
    ''/apis/admissionregistration.x-k8s.io/v1alpha1/'' @ resource @ ''/'' @ name" for verb ps t b
    using True ok(2) by (subst named_path [where segs = ?segs]) (auto simp: p valid_name_def good_segment_def)
  have get: "req_VersionedParams env opts (req_Name name (req_Resource resource (NewRequest env ''GET''))) =
      \<lparr>rr_verb = ''GET'', rr_pathPrefix = re_pathPrefix env, rr_resource = resource, rr_resourceName = name,
       rr_subresource = '''', rr_params = ps, rr_timeout = re_clientTimeout env, rr_body = None, rr_err = None\<rparr>"
    using True by (simp add: new_request [OF ok(1)] req_Name_valid req_VersionedParams_def ps)
  have del: "req_BodyJson d (req_Name name (req_Resource resource (NewRequest env ''DELETE''))) =
      \<lparr>rr_verb = ''DELETE'', rr_pathPrefix = re_pathPrefix env, rr_resource = resource, rr_resourceName = name,
       rr_subresource = '''', rr_params = [], rr_timeout = re_clientTimeout env, rr_body = Some d, rr_err = None\<rparr>" for d
    using True by (simp add: new_request [OF ok(1)] req_Name_valid req_BodyJson_def)
  show ?thesis
    unfolding rest_Get_def rest_Delete_def get del req_Do_def req_call_def path if_P [OF True] by simp
next
  case False
  let ?new = "\<lambda>verb. req_Resource resource (NewRequest env verb)"
  have refused: "rr_err (req_Name name (?new verb)) \<noteq> None" for verb
    by (rule req_Name_invalid [OF _ _ False]) (simp_all add: new_request [OF ok(1)])
  obtain e1 e2 where "rr_err (req_Name name (?new ''GET'')) = Some e1"
    and "rr_err (req_Name name (?new ''DELETE'')) = Some e2"
    using refused [of "''GET''"] refused [of "''DELETE''"] by blast
  then show ?thesis
    using False
    by (simp add: rest_Get_def rest_Delete_def req_VersionedParams_def req_BodyJson_def req_Do_def
        into_object_def error_of_def)
qed

text \<open>
  The timeout of a list or watch: seconds are multiplied into a 64-bit duration, exactly
  for at most 9223372036 of them; one second more turns into a negative timeout.
\<close>

lemma list_timeout:
  "(0 \<le> sint sec \<and> sint sec \<le> 9223372036 \<longrightarrow>
      sint (timeout_of \<lparr>ro_TimeoutSeconds = Some sec, ro_Watch = w, ro_other = ps\<rparr>) = sint sec * 1000000000) \<and>
   sint (timeout_of \<lparr>ro_TimeoutSeconds = Some 9223372037, ro_Watch = w, ro_other = ps\<rparr>) = - 9223372036709551616"
proof
  show "0 \<le> sint sec \<and> sint sec \<le> 9223372036 \<longrightarrow>
      sint (timeout_of \<lparr>ro_TimeoutSeconds = Some sec, ro_Watch = w, ro_other = ps\<rparr>) = sint sec * 1000000000"
  proof
    assume "0 \<le> sint sec \<and> sint sec \<le> 9223372036"
    then show "sint (timeout_of \<lparr>ro_TimeoutSeconds = Some sec, ro_Watch = w, ro_other = ps\<rparr>) = sint sec * 1000000000"
      by (simp add: timeout_of_def signed_take_bit_int_eq_self sint_word_ariths)
  qed
qed (simp add: timeout_of_def)

section \<open>An example\<close>

text \<open>A server that keeps the calls it gets and knows no object.\<close>

definition example_rest_config :: rest_Config where
  "example_rest_config = \<lparr>cf_basePath = '''', cf_APIPath = '''', cf_Group = '''', cf_Version = '''', cf_UserAgent = '''',
     cf_RateLimiter = None, cf_QPS = 5, cf_Burst = 10\<rparr>"

definition example_env :: "(ValidatingAdmissionPolicy, http_call list) rest_env" where
  "example_env =
     \<lparr>re_pathPrefix = versioned_path (setConfigDefaults ''agent'' example_rest_config), re_clientTimeout = 0,
      re_params = (\<lambda>opts. Inr (ro_other opts)),
      re_encode = (\<lambda>p. Ret JNull), re_encodeOptions = (\<lambda>opts. JNull), re_decode = (\<lambda>j. Err (ErrorString ''json'')),
      re_decodeList = (\<lambda>j. Err (ErrorString ''json'')),
      re_send = (\<lambda>call calls. (Err (ErrorString ''not found''), calls @ [call])),
      re_watch = (\<lambda>call calls. (Err (ErrorString ''no watch''), calls @ [call]))\<rparr>"

end
