(* ===== verification/Clientset.thy ===== *)
theory Clientset
  imports RestClient
begin

text \<open>
  The construction of the generated clientset, \<^verbatim>\<open>pkg/generated/clientset/versioned/clientset.go\<close> and
  the constructors of its typed client. Creating an HTTP client, a REST client and a discovery
  client belong to \<^verbatim>\<open>client-go\<close> and are arguments. The property joins the construction with the
  requests of theory \<^verbatim>\<open>RestClient\<close>.
\<close>

section \<open>Definitions\<close>

text \<open>
  A REST client, as the typed clients of the two resources use it: the same transport and paths,
  with the codecs of the respective type.
\<close>

record 's rest_client =
  rc_policies :: "(ValidatingAdmissionPolicy, 's) rest_env"
  rc_bindings :: "(ValidatingAdmissionPolicyBinding, 's) rest_env"

record ('h, 'd, 's) client_library =
  lib_DefaultKubernetesUserAgent :: string
  lib_HTTPClientFor :: "rest_Config \<Rightarrow> 'h result"
  lib_RESTClientForConfigAndClient :: "rest_Config \<Rightarrow> 'h \<Rightarrow> 's rest_client result"
  lib_NewDiscoveryClientForConfigAndClient :: "rest_Config \<Rightarrow> 'h \<Rightarrow> 'd result"
  lib_NewDiscoveryClient :: "'s rest_client \<Rightarrow> 'd"

subsection \<open>The typed client\<close>

record 's AdmissionregistrationV1alpha1Client =
  ac_restClient :: "'s rest_client"

definition typed_New :: "'s rest_client \<Rightarrow> 's AdmissionregistrationV1alpha1Client" where
  "typed_New c = \<lparr>ac_restClient = c\<rparr>"

definition typed_NewForConfigAndClient ::
  "('h, 'd, 's) client_library \<Rightarrow> rest_Config \<Rightarrow> 'h \<Rightarrow> 's AdmissionregistrationV1alpha1Client result" where
  "typed_NewForConfigAndClient lib c h =
     (let config = setConfigDefaults (lib_DefaultKubernetesUserAgent lib) c in
      bind_outcome (lib_RESTClientForConfigAndClient lib config h) (\<lambda>client. Ret \<lparr>ac_restClient = client\<rparr>))"

definition typed_NewForConfig ::
  "('h, 'd, 's) client_library \<Rightarrow> rest_Config \<Rightarrow> 's AdmissionregistrationV1alpha1Client result" where
  "typed_NewForConfig lib c =
     (let config = setConfigDefaults (lib_DefaultKubernetesUserAgent lib) c in
      bind_outcome (lib_HTTPClientFor lib config) (\<lambda>httpClient. typed_NewForConfigAndClient lib config httpClient))"

definition or_die :: "'a result \<Rightarrow> 'a result" where
  "or_die r = (case r of Err err \<Rightarrow> Panic (error_Error err) | _ \<Rightarrow> r)"

definition typed_NewForConfigOrDie ::
  "('h, 'd, 's) client_library \<Rightarrow> rest_Config \<Rightarrow> 's AdmissionregistrationV1alpha1Client result" where
  "typed_NewForConfigOrDie lib c = or_die (typed_NewForConfig lib c)"

definition ac_ValidatingAdmissionPolicies ::
  "(bytes \<Rightarrow> json) \<Rightarrow> 's AdmissionregistrationV1alpha1Client \<Rightarrow>
   (ValidatingAdmissionPolicy, policy_event, rest_opts, 's) ClientInterface" where
  "ac_ValidatingAdmissionPolicies parse c = validatingAdmissionPolicies (rc_policies (ac_restClient c)) parse"

definition ac_ValidatingAdmissionPolicyBindings ::
  "(bytes \<Rightarrow> json) \<Rightarrow> 's AdmissionregistrationV1alpha1Client \<Rightarrow>
   (ValidatingAdmissionPolicyBinding, binding_event, rest_opts, 's) ClientInterface" where
  "ac_ValidatingAdmissionPolicyBindings parse c = validatingAdmissionPolicyBindings (rc_bindings (ac_restClient c)) parse"

text \<open>Methods on a pointer that may be nil.\<close>

definition ac_RESTClient :: "'s AdmissionregistrationV1alpha1Client option \<Rightarrow> 's rest_client option" where
  "ac_RESTClient c = map_option ac_restClient c"

subsection \<open>The clientset\<close>

record ('d, 's) Clientset =
  cs_DiscoveryClient :: 'd
  cs_admissionregistrationV1alpha1 :: "'s AdmissionregistrationV1alpha1Client"

definition cs_AdmissionregistrationV1alpha1 :: "('d, 's) Clientset \<Rightarrow> 's AdmissionregistrationV1alpha1Client" where
  "cs_AdmissionregistrationV1alpha1 c = cs_admissionregistrationV1alpha1 c"

definition cs_Discovery :: "('d, 's) Clientset option \<Rightarrow> 'd option" where
  "cs_Discovery c = map_option cs_DiscoveryClient c"

definition versioned_NewForConfigAndClient ::
  "('h, 'd, 's) client_library \<Rightarrow> rest_Config \<Rightarrow> 'h \<Rightarrow> ('d, 's) Clientset result" where
  "versioned_NewForConfigAndClient lib c httpClient =
     bind_outcome
       (if cf_RateLimiter c = None \<and> cf_QPS c > 0 then
          if cf_Burst c \<le> 0 then
            Err (ErrorString ''burst is required to be greater than 0 when RateLimiter is not set and QPS is set to greater than 0'')
          else Ret (c\<lparr>cf_RateLimiter := Some (cf_QPS c, cf_Burst c)\<rparr>)
        else Ret c) (\<lambda>configShallowCopy.
     bind_outcome (typed_NewForConfigAndClient lib configShallowCopy httpClient) (\<lambda>client.
     bind_outcome (lib_NewDiscoveryClientForConfigAndClient lib configShallowCopy httpClient) (\<lambda>disco.
     Ret \<lparr>cs_DiscoveryClient = disco, cs_admissionregistrationV1alpha1 = client\<rparr>)))"

definition versioned_NewForConfig :: "('h, 'd, 's) client_library \<Rightarrow> rest_Config \<Rightarrow> ('d, 's) Clientset result" where
  "versioned_NewForConfig lib c =
     (let configShallowCopy =
        (if cf_UserAgent c = '''' then c\<lparr>cf_UserAgent := lib_DefaultKubernetesUserAgent lib\<rparr> else c) in
      bind_outcome (lib_HTTPClientFor lib configShallowCopy) (\<lambda>httpClient.
        versioned_NewForConfigAndClient lib configShallowCopy httpClient))"

definition versioned_NewForConfigOrDie :: "('h, 'd, 's) client_library \<Rightarrow> rest_Config \<Rightarrow> ('d, 's) Clientset result" where
  "versioned_NewForConfigOrDie lib c = or_die (versioned_NewForConfig lib c)"

definition versioned_New :: "('h, 'd, 's) client_library \<Rightarrow> 's rest_client \<Rightarrow> ('d, 's) Clientset" where
  "versioned_New lib c = \<lparr>cs_DiscoveryClient = lib_NewDiscoveryClient lib c, cs_admissionregistrationV1alpha1 = typed_New c\<rparr>"

section \<open>Lemmas\<close>

text \<open>
  What the code relies on from \<^verbatim>\<open>client-go\<close>: a REST client asks below the path of its
  configuration.
\<close>

definition library_paths :: "('h, 'd, 's) client_library \<Rightarrow> bool" where
  "library_paths lib \<longleftrightarrow> (\<forall>config h rc. lib_RESTClientForConfigAndClient lib config h = Ret rc \<longrightarrow>
     re_pathPrefix (rc_policies rc) = versioned_path config \<and> re_pathPrefix (rc_bindings rc) = versioned_path config)"

lemma built_clientset:
  assumes "versioned_NewForConfig lib c = Ret cs"
  obtains h config where "lib_HTTPClientFor lib (c\<lparr>cf_UserAgent := cf_UserAgent config\<rparr>) = Ret h"
    and "lib_RESTClientForConfigAndClient lib (setConfigDefaults (lib_DefaultKubernetesUserAgent lib) config) h =
      Ret (ac_restClient (cs_admissionregistrationV1alpha1 cs))"
    and "lib_NewDiscoveryClientForConfigAndClient lib config h = Ret (cs_DiscoveryClient cs)"
    and "config = c\<lparr>cf_UserAgent := (if cf_UserAgent c = '''' then lib_DefaultKubernetesUserAgent lib else cf_UserAgent c),
      cf_RateLimiter := (if cf_RateLimiter c = None \<and> cf_QPS c > 0 then Some (cf_QPS c, cf_Burst c) else cf_RateLimiter c)\<rparr>"
    and "cf_RateLimiter c = None \<Longrightarrow> cf_QPS c > 0 \<Longrightarrow> cf_Burst c > 0"
  using assms
  by (auto simp: versioned_NewForConfig_def versioned_NewForConfigAndClient_def typed_NewForConfigAndClient_def
      bind_outcome_Ret Let_def split: if_splits)


section \<open>Properties\<close>

text \<open>
  C26. A clientset that \<^verbatim>\<open>NewForConfig\<close> built asks in the custom group, whatever group, version and
  API path its configuration had. With a configuration without a base path, reading or
  deleting a policy or a binding sends exactly one request, to the path of the resource and that
  name, if the name is a proper path segment; for any other name, among them the empty one, dots
  and names with a slash or a percent sign, it returns an error and sends nothing. And if it was
  built without a rate limiter but with a rate, then with a positive burst.
\<close>

theorem clientset_requests:
  assumes "library_paths lib" and "versioned_NewForConfig lib c = Ret cs" and "cf_basePath c = ''''"
    and "rc = ac_restClient (cs_AdmissionregistrationV1alpha1 cs)"
    and "re_params (rc_policies rc) opts = Inr ps" and "re_params (rc_bindings rc) opts = Inr qs"
  shows "(let policies = ac_ValidatingAdmissionPolicies parse (cs_AdmissionregistrationV1alpha1 cs);
       bindings = ac_ValidatingAdmissionPolicyBindings parse (cs_AdmissionregistrationV1alpha1 cs);
       group = ''/apis/admissionregistration.x-k8s.io/v1alpha1/'' in
     if valid_name name then
       cl_Get policies name opts s = into_object (rc_policies rc) (re_send (rc_policies rc)
         \<lparr>hc_verb = ''GET'', hc_path = group @ ''validatingadmissionpolicies/'' @ name, hc_params = ps,
          hc_timeout = re_clientTimeout (rc_policies rc), hc_body = None\<rparr> s) \<and>
       cl_Delete policies name opts s = error_of (re_send (rc_policies rc)
         \<lparr>hc_verb = ''DELETE'', hc_path = group @ ''validatingadmissionpolicies/'' @ name, hc_params = [],
          hc_timeout = re_clientTimeout (rc_policies rc), hc_body = Some (re_encodeOptions (rc_policies rc) opts)\<rparr> s) \<and>
       cl_Get bindings name opts s = into_object (rc_bindings rc) (re_send (rc_bindings rc)
         \<lparr>hc_verb = ''GET'', hc_path = group @ ''validatingadmissionpolicybindings/'' @ name, hc_params = qs,
          hc_timeout = re_clientTimeout (rc_bindings rc), hc_body = None\<rparr> s) \<and>
       cl_Delete bindings name opts s = error_of (re_send (rc_bindings rc)
         \<lparr>hc_verb = ''DELETE'', hc_path = group @ ''validatingadmissionpolicybindings/'' @ name, hc_params = [],
          hc_timeout = re_clientTimeout (rc_bindings rc), hc_body = Some (re_encodeOptions (rc_bindings rc) opts)\<rparr> s)
     else (\<exists>e1 e2 e3 e4. cl_Get policies name opts s = (Err e1, s) \<and> cl_Delete policies name opts s = (Err e2, s) \<and>
       cl_Get bindings name opts s = (Err e3, s) \<and> cl_Delete bindings name opts s = (Err e4, s))) \<and>
    (cf_RateLimiter c = None \<and> cf_QPS c > 0 \<longrightarrow> cf_Burst c > 0)"
proof -
  obtain h config where rest: "lib_RESTClientForConfigAndClient lib (setConfigDefaults (lib_DefaultKubernetesUserAgent lib) config) h = Ret rc"
    and config: "config = c\<lparr>cf_UserAgent := (if cf_UserAgent c = '''' then lib_DefaultKubernetesUserAgent lib else cf_UserAgent c),
      cf_RateLimiter := (if cf_RateLimiter c = None \<and> cf_QPS c > 0 then Some (cf_QPS c, cf_Burst c) else cf_RateLimiter c)\<rparr>"
    and burst: "cf_RateLimiter c = None \<Longrightarrow> cf_QPS c > 0 \<Longrightarrow> cf_Burst c > 0"
    using built_clientset [OF assms(2)] assms(4) unfolding cs_AdmissionregistrationV1alpha1_def by metis
  have base: "cf_basePath config = ''''" using assms(3) config by simp
  have prefix: "re_pathPrefix (rc_policies rc) = versioned_path (setConfigDefaults (lib_DefaultKubernetesUserAgent lib) config)"
    "re_pathPrefix (rc_bindings rc) = versioned_path (setConfigDefaults (lib_DefaultKubernetesUserAgent lib) config)"
    using assms(1) rest by (auto simp: library_paths_def)
  note reqs = rest_named_requests [OF prefix(1) base assms(5) resources_ok(1,2), of name s]
    rest_named_requests [OF prefix(2) base assms(6) resources_ok(3,4), of name s]
  show ?thesis
    using reqs burst
    by (cases "valid_name name")
      (simp_all add: ac_ValidatingAdmissionPolicies_def ac_ValidatingAdmissionPolicyBindings_def Let_def
        validatingAdmissionPolicies_def validatingAdmissionPolicyBindings_def flip: assms(4))
qed

section \<open>Witnesses\<close>

text \<open>A library whose clients keep the calls they are asked for and know no object.\<close>

definition example_rest_env :: "rest_Config \<Rightarrow> ('o, http_call list) rest_env" where
  "example_rest_env config =
     \<lparr>re_pathPrefix = versioned_path config, re_clientTimeout = 0, re_params = (\<lambda>opts. Inr (ro_other opts)),
      re_encode = (\<lambda>p. Ret JNull), re_encodeOptions = (\<lambda>opts. JNull), re_decode = (\<lambda>j. Err (ErrorString ''json'')),
      re_decodeList = (\<lambda>j. Err (ErrorString ''json'')),
      re_send = (\<lambda>call calls. (Err (ErrorString ''not found''), calls @ [call])),
      re_watch = (\<lambda>call calls. (Err (ErrorString ''no watch''), calls @ [call]))\<rparr>"

definition example_library :: "(unit, unit, http_call list) client_library" where
  "example_library =
     \<lparr>lib_DefaultKubernetesUserAgent = ''agent'', lib_HTTPClientFor = (\<lambda>config. Ret ()),
      lib_RESTClientForConfigAndClient = (\<lambda>config h. Ret \<lparr>rc_policies = example_rest_env config, rc_bindings = example_rest_env config\<rparr>),
      lib_NewDiscoveryClientForConfigAndClient = (\<lambda>config h. Ret ()), lib_NewDiscoveryClient = (\<lambda>rc. ())\<rparr>"

theorem clientset_requests_witness:
  "\<exists>cs. versioned_NewForConfig example_library example_rest_config = Ret cs \<and>
     map hc_path (snd (cl_Get (ac_ValidatingAdmissionPolicies (\<lambda>d. JNull) (cs_AdmissionregistrationV1alpha1 cs)) ''p''
       \<lparr>ro_TimeoutSeconds = None, ro_Watch = False, ro_other = []\<rparr> [])) =
       [''/apis/admissionregistration.x-k8s.io/v1alpha1/validatingadmissionpolicies/p''] \<and>
     snd (cl_Get (ac_ValidatingAdmissionPolicies (\<lambda>d. JNull) (cs_AdmissionregistrationV1alpha1 cs)) ''../p''
       \<lparr>ro_TimeoutSeconds = None, ro_Watch = False, ro_other = []\<rparr> []) = []"
proof -
  let ?o = "\<lparr>ro_TimeoutSeconds = None, ro_Watch = False, ro_other = []\<rparr>"
  obtain cs config where cs: "versioned_NewForConfig example_library example_rest_config = Ret cs"
    and rc: "rc_policies (ac_restClient (cs_AdmissionregistrationV1alpha1 cs)) = example_rest_env config"
      "rc_bindings (ac_restClient (cs_AdmissionregistrationV1alpha1 cs)) = example_rest_env config"
    by (simp add: versioned_NewForConfig_def versioned_NewForConfigAndClient_def typed_NewForConfigAndClient_def
        example_library_def example_rest_config_def cs_AdmissionregistrationV1alpha1_def Let_def)
  have lib: "library_paths example_library" by (simp add: library_paths_def example_library_def example_rest_env_def)
  have base: "cf_basePath example_rest_config = ''''" by (simp add: example_rest_config_def)
  have ps: "re_params (rc_policies (ac_restClient (cs_AdmissionregistrationV1alpha1 cs))) ?o = Inr []"
    "re_params (rc_bindings (ac_restClient (cs_AdmissionregistrationV1alpha1 cs))) ?o = Inr []"
    by (simp_all add: rc example_rest_env_def)
  have "valid_name ''p''" and "\<not> valid_name ''../p''" by (simp_all add: valid_name_def good_segment_def)
  then show ?thesis
    using cs clientset_requests [OF lib cs base refl ps, of "\<lambda>d. JNull" "''p''" "[]"]
      clientset_requests [OF lib cs base refl ps, of "\<lambda>d. JNull" "''../p''" "[]"]
    by (auto simp: rc example_rest_env_def into_object_def Let_def)
qed

end
