(* ===== verification/Interceptor.thy ===== *)
theory Interceptor
  imports ApiMachinery
begin

text \<open>
  The interceptor of \<^verbatim>\<open>cmd/interceptor/main.go\<close>: a reverse proxy that sends requests for the native
  group \<^verbatim>\<open>admissionregistration.k8s.io/v1alpha1\<close> to the custom group and presents the answers as
  native. The two functions of the proxy, \<^verbatim>\<open>Rewrite\<close> and \<^verbatim>\<open>ModifyResponse\<close>, are modelled with
  what they use of \<^verbatim>\<open>net/http/httputil\<close> and \<^verbatim>\<open>bufio\<close>, and so is the set-up of the proxy; the escaping of a path by \<^verbatim>\<open>net/url\<close> is an
  argument. The lemmas concern replacing all occurrences of a word by another one.
\<close>

section \<open>Definitions\<close>

definition nativeGV :: bytes where
  "nativeGV = ''admissionregistration.k8s.io/v1alpha1''"

definition customGV :: bytes where
  "customGV = ''admissionregistration.x-k8s.io/v1alpha1''"

record URL =
  url_Scheme :: string
  url_Host :: string
  url_Path :: string
  url_RawPath :: string
  url_RawQuery :: string

record http_message =
  hm_Method :: string
  hm_URL :: URL
  hm_Host :: string
  hm_Header :: "string \<rightharpoonup> string"
  hm_Body :: bytes
  hm_ContentLength :: "64 word"

text \<open>\<^verbatim>\<open>httputil.ProxyRequest\<close>: the request that came in and the one that goes out.\<close>

record ProxyRequest =
  pr_In :: http_message
  pr_Out :: http_message

definition has_suffix :: "bytes \<Rightarrow> bytes \<Rightarrow> bool" where
  "has_suffix s p = has_prefix (rev s) (rev p)"

definition singleJoiningSlash :: "string \<Rightarrow> string \<Rightarrow> string" where
  "singleJoiningSlash a b =
     (let aslash = has_suffix a ''/''; bslash = has_prefix b ''/'' in
      if aslash \<and> bslash then a @ drop 1 b
      else if \<not> aslash \<and> \<not> bslash then a @ ''/'' @ b
      else a @ b)"

definition joinURLPath :: "(URL \<Rightarrow> string) \<Rightarrow> URL \<Rightarrow> URL \<Rightarrow> string \<times> string" where
  "joinURLPath EscapedPath a b =
     (if url_RawPath a = '''' \<and> url_RawPath b = '''' then (singleJoiningSlash (url_Path a) (url_Path b), '''')
      else
        let apath = EscapedPath a; bpath = EscapedPath b;
            aslash = has_suffix apath ''/''; bslash = has_prefix bpath ''/'' in
        if aslash \<and> bslash then (url_Path a @ drop 1 (url_Path b), apath @ drop 1 bpath)
        else if \<not> aslash \<and> \<not> bslash then (url_Path a @ ''/'' @ url_Path b, apath @ ''/'' @ bpath)
        else (url_Path a @ url_Path b, apath @ bpath))"

definition rewriteRequestURL :: "(URL \<Rightarrow> string) \<Rightarrow> URL \<Rightarrow> URL \<Rightarrow> URL" where
  "rewriteRequestURL EscapedPath u target =
     \<lparr>url_Scheme = url_Scheme target, url_Host = url_Host target,
      url_Path = fst (joinURLPath EscapedPath target u),
      url_RawPath = snd (joinURLPath EscapedPath target u),
      url_RawQuery =
        (if url_RawQuery target = '''' \<or> url_RawQuery u = '''' then url_RawQuery target @ url_RawQuery u
         else url_RawQuery target @ ''&'' @ url_RawQuery u)\<rparr>"

definition SetURL :: "(URL \<Rightarrow> string) \<Rightarrow> URL \<Rightarrow> ProxyRequest \<Rightarrow> ProxyRequest" where
  "SetURL EscapedPath target r =
     r\<lparr>pr_Out := (pr_Out r)\<lparr>hm_URL := rewriteRequestURL EscapedPath (hm_URL (pr_Out r)) target, hm_Host := ''''\<rparr>\<rparr>"

text \<open>
  \<^verbatim>\<open>bufio.Scanner\<close> with its default \<^verbatim>\<open>ScanLines\<close> and its buffer of 64 KB: the lines without their
  ends, up to the first line that does not fit into the buffer with its end.
\<close>

definition dropCR :: "bytes \<Rightarrow> bytes" where
  "dropCR l = (if l \<noteq> [] \<and> last l = CHR 0x0D then butlast l else l)"

definition lines_of :: "bytes \<Rightarrow> bytes list" where
  "lines_of b = (let ls = go_split (CHR 0x0A) b in if last ls = [] then butlast ls else ls)"

definition maxScanTokenSize :: nat where
  "maxScanTokenSize = 65536"

definition scan :: "bytes \<Rightarrow> bytes list" where
  "scan b = map dropCR (takeWhile (\<lambda>l. length l < maxScanTokenSize) (lines_of b))"

text \<open>What the goroutine writes to the pipe, which is the body of the outgoing request.\<close>

definition rewriteBody :: "bytes \<Rightarrow> bytes" where
  "rewriteBody b = concat (map (\<lambda>l. replace_all l nativeGV customGV) (scan b))"

definition Rewrite :: "(URL \<Rightarrow> string) \<Rightarrow> URL \<Rightarrow> ProxyRequest \<Rightarrow> ProxyRequest" where
  "Rewrite EscapedPath u request0 =
     (let request = SetURL EscapedPath u request0 in
      if \<not> go_contains (url_Path (hm_URL (pr_In request))) nativeGV then request
      else
        let out = pr_Out request; outURL = hm_URL out in
        request\<lparr>pr_Out := out\<lparr>
          hm_Body := rewriteBody (hm_Body (pr_In request)),
          hm_URL := outURL\<lparr>url_Path := replace_all (url_Path outURL) nativeGV customGV,
            url_RawPath := replace_all (url_RawPath outURL) nativeGV customGV\<rparr>,
          hm_Header := (hm_Header out)(''Accept'' \<mapsto> ''application/json''),
          hm_ContentLength := -1\<rparr>\<rparr>)"

text \<open>\<^verbatim>\<open>strconv.Itoa\<close> of a length.\<close>

fun go_itoa :: "nat \<Rightarrow> string" where
  "go_itoa n = (if n < 10 then [char_of (48 + n)] else go_itoa (n div 10) @ [char_of (48 + n mod 10)])"

text \<open>
  The response, with the path of the request it answers; reading its body gives some bytes and
  possibly an error, which is returned after the body has been replaced.
\<close>

record http_response =
  hr_RequestPath :: string
  hr_Header :: "string \<rightharpoonup> string"
  hr_Body :: "bytes \<times> goerror option"
  hr_ContentLength :: "64 word"

definition ModifyResponse :: "http_response \<Rightarrow> http_response \<times> goerror option" where
  "ModifyResponse response =
     (if \<not> go_contains (hr_RequestPath response) customGV then (response, None)
      else case hr_Body response of
        (b0, err) \<Rightarrow>
          let b = replace_all b0 customGV nativeGV in
          (response\<lparr>hr_Body := (b, None), hr_ContentLength := of_nat (length b),
             hr_Header := (hr_Header response)(''Content-Length'' \<mapsto> go_itoa (length b))\<rparr>, err))"

text \<open>
  \<^verbatim>\<open>runServer\<close> up to the call that serves: the configuration it loads, the transport and the target
  of the proxy it makes of it. Loading a configuration, \<^verbatim>\<open>TransportConfig\<close>, the parsers of
  \<^verbatim>\<open>net/url\<close> and \<^verbatim>\<open>crypto/tls\<close> and the server itself, which returns when it has failed, are arguments.
  The error of \<^verbatim>\<open>TransportConfig\<close> is dropped, so the nil it comes with is dereferenced.
\<close>

record tls_data =
  td_CAData :: bytes
  td_CertData :: bytes
  td_KeyData :: bytes

record 'cert proxy_transport =
  pt_RootCAs :: "bytes option"
  pt_Certificates :: "'cert list"

record ('cfg, 'cert) proxy_library =
  pl_ClientConfig :: "'cfg result"
  pl_InClusterConfig :: "'cfg result"
  pl_TransportConfig :: "'cfg \<Rightarrow> tls_data result"
  pl_Host :: "'cfg \<Rightarrow> string"
  pl_url_Parse :: "string \<Rightarrow> URL result"
  pl_X509KeyPair :: "bytes \<Rightarrow> bytes \<Rightarrow> 'cert result"
  pl_ListenAndServeTLS :: "string \<Rightarrow> string \<Rightarrow> string \<Rightarrow> 'cert proxy_transport \<Rightarrow>
    (ProxyRequest \<Rightarrow> ProxyRequest) \<Rightarrow> (http_response \<Rightarrow> http_response \<times> goerror option) \<Rightarrow> goerror"

definition proxy_loadClientConfig :: "('cfg, 'cert) proxy_library \<Rightarrow> 'cfg result" where
  "proxy_loadClientConfig lib =
     (case pl_ClientConfig lib of
        Ret config \<Rightarrow> Ret config
      | Err err \<Rightarrow> pl_InClusterConfig lib
      | Panic m \<Rightarrow> Panic m)"

definition proxyTransport :: "('cfg, 'cert) proxy_library \<Rightarrow> tls_data \<Rightarrow> 'cert proxy_transport result" where
  "proxyTransport lib t =
     (let transport = \<lparr>pt_RootCAs = (if length (td_CAData t) > 0 then Some (td_CAData t) else None), pt_Certificates = []\<rparr> in
      if length (td_CertData t) > 0 \<and> length (td_KeyData t) > 0 then
        bind_outcome (pl_X509KeyPair lib (td_CertData t) (td_KeyData t)) (\<lambda>cert.
          Ret (transport\<lparr>pt_Certificates := [cert]\<rparr>))
      else Ret transport)"

definition runServer ::
  "('cfg, 'cert) proxy_library \<Rightarrow> (URL \<Rightarrow> string) \<Rightarrow> string \<Rightarrow> string \<Rightarrow> string \<Rightarrow> unit result" where
  "runServer lib EscapedPath certFile keyFile addr =
     bind_outcome (proxy_loadClientConfig lib) (\<lambda>config.
     bind_outcome (pl_url_Parse lib (pl_Host lib config)) (\<lambda>u.
     bind_outcome
       (case pl_TransportConfig lib config of
          Ret t \<Rightarrow> Ret t
        | Err err \<Rightarrow> Panic ''invalid memory address or nil pointer dereference''
        | Panic m \<Rightarrow> Panic m) (\<lambda>t.
     bind_outcome (proxyTransport lib t) (\<lambda>transport.
     Err (pl_ListenAndServeTLS lib addr certFile keyFile transport (Rewrite EscapedPath u) ModifyResponse)))))"

text \<open>\<^verbatim>\<open>main\<close>: what it prints and its exit status.\<close>

definition interceptor_main ::
  "('cfg, 'cert) proxy_library \<Rightarrow> (URL \<Rightarrow> string) \<Rightarrow> string \<Rightarrow> string \<Rightarrow> string \<Rightarrow> (string \<times> nat) result" where
  "interceptor_main lib EscapedPath certFile keyFile addr =
     (case runServer lib EscapedPath certFile keyFile addr of
        Err err \<Rightarrow> Ret (error_Error err, 1)
      | Ret r \<Rightarrow> Ret ('''', 0)
      | Panic m \<Rightarrow> Panic m)"

section \<open>Lemmas\<close>

text \<open>
  Some of the occurrences of \<open>old\<close> replaced by \<open>new\<close>. A word that clashes nowhere with \<open>new\<close> is
  not created by replacements.
\<close>

inductive respelled :: "bytes \<Rightarrow> bytes \<Rightarrow> bytes \<Rightarrow> bytes \<Rightarrow> bool" for old new where
  respelled_nil: "respelled old new [] []"
| respelled_skip: "respelled old new s t \<Longrightarrow> respelled old new (c # s) (c # t)"
| respelled_word: "respelled old new s t \<Longrightarrow> respelled old new (old @ s) (new @ t)"

fun clash :: "bytes \<Rightarrow> bytes \<Rightarrow> bool" where
  "clash [] new = False"
| "clash (c # w) new = (has_prefix (c # w) new \<or> has_prefix new (c # w) \<or> clash w new)"

lemma prefix_compat: "a @ x = b @ y \<Longrightarrow> has_prefix a b \<or> has_prefix b a"
  by (auto simp: has_prefix_iff append_eq_append_conv2)

lemma go_contains_append: "go_contains (a @ b) w \<Longrightarrow> clash a w \<or> go_contains b w"
proof (induction a)
  case (Cons c a)
  then show ?case using prefix_compat [of "c # a" b w] by (auto simp: has_prefix_iff)
qed simp

lemma respelled_refl: "respelled old new s s"
  by (induction s) (auto intro: respelled.intros)

lemma respelled_replace_all: "respelled old new s (replace_all s old new)"
proof (induction s old new rule: replace_all.induct)
  case (1 old new)
  show ?case by (simp add: respelled_nil)
next
  case (2 c s old new)
  show ?case
  proof (cases "old \<noteq> [] \<and> has_prefix (c # s) old")
    case True
    then obtain t where "c # s = old @ t" by (auto simp: has_prefix_iff)
    then show ?thesis using True 2(1) [OF True] respelled_word by auto
  next
    case False
    then show ?thesis using 2(2) by (auto intro: respelled_skip)
  qed
qed

lemma respelled_append: "respelled old new s t \<Longrightarrow> respelled old new s' t' \<Longrightarrow> respelled old new (s @ s') (t @ t')"
proof (induction rule: respelled.induct)
  case (respelled_word s t)
  then show ?case using respelled.respelled_word [of old new "s @ s'" "t @ t'"] by simp
qed (auto intro: respelled.intros)

lemma respelled_concat:
  "respelled old new (concat ls) (concat (map (\<lambda>l. replace_all l old new) ls))"
  by (induction ls) (simp_all add: respelled_nil respelled_append respelled_replace_all)

lemma respelled_no_new_prefix:
  "respelled old new s t \<Longrightarrow> \<not> clash w new \<Longrightarrow> has_prefix t w \<Longrightarrow> has_prefix s w"
proof (induction arbitrary: w rule: respelled.induct)
  case respelled_nil
  then show ?case by simp
next
  case (respelled_skip s t c)
  then show ?case by (cases w) (auto)
next
  case (respelled_word s t)
  show ?case
  proof (cases w)
    case (Cons d w')
    then have "has_prefix w new \<or> has_prefix new w"
      using respelled_word.prems(2) prefix_compat has_prefix_iff by metis
    then show ?thesis using respelled_word.prems(1) Cons by simp
  qed simp
qed

text \<open>A word that was replaced everywhere is gone, if the new word does not help to form it.\<close>

lemma replace_all_gone:
  assumes "old \<noteq> []" and "\<not> clash old new" and "\<not> clash (tl new) old"
  shows "\<not> go_contains (replace_all s old new) old"
  using assms
proof (induction s old new rule: replace_all.induct)
  case (2 c s old new)
  show ?case
  proof (cases "has_prefix (c # s) old")
    case True
    have "\<not> has_prefix (new @ t) old" for t
      using prefix_compat [of new t old] 2(3,4) by (cases old) (auto simp: has_prefix_iff)
    moreover have "\<not> go_contains (tl new @ replace_all (drop (length old) (c # s)) old new) old"
      using go_contains_append 2(1) 2(3-5) True by blast
    ultimately show ?thesis using True 2(1) 2(3-5) by (cases new) auto
  next
    case False
    then have step: "replace_all (c # s) old new = c # replace_all s old new" by simp
    have "\<not> has_prefix (c # replace_all s old new) old"
      using False respelled_no_new_prefix [OF respelled_replace_all, where s = "c # s" and old = old and new = new and w = old] 2(4)
      unfolding step by blast
    moreover have "\<not> go_contains (replace_all s old new) old" using 2(2) 2(3-5) False by blast
    ultimately show ?thesis unfolding step by simp
  qed
qed simp

text \<open>Replacing back undoes replacements, if the new word does not overlap itself.\<close>

lemma replace_all_undo:
  assumes "respelled old new s t" and "\<not> go_contains s new" and "new \<noteq> []" and "\<not> clash (tl new) new"
  shows "replace_all t new old = s"
  using assms
proof (induction rule: respelled.induct)
  case (respelled_skip s t c)
  have "\<not> has_prefix (c # t) new"
  proof
    assume prefix: "has_prefix (c # t) new"
    then have "has_prefix t (tl new)" and "hd new = c" using \<open>new \<noteq> []\<close> by (cases new; simp)+
    then have "has_prefix s (tl new)" using respelled_no_new_prefix respelled_skip by blast
    then have "has_prefix (c # s) new" using \<open>hd new = c\<close> \<open>new \<noteq> []\<close> by (cases new) auto
    with respelled_skip.prems(1) show False by simp
  qed
  then show ?case using respelled_skip by simp
next
  case (respelled_word s t)
  have "\<not> go_contains s new" using respelled_word.prems(1) go_contains_append_left by blast
  then show ?case using respelled_word by simp
qed simp

lemma replace_all_contains: "old \<noteq> [] \<Longrightarrow> go_contains s old \<Longrightarrow> go_contains (replace_all s old new) new"
proof (induction s old new rule: replace_all.induct)
  case (2 c s old new)
  show ?case
  proof (cases "has_prefix (c # s) old")
    case True
    then show ?thesis using 2(3) by (auto simp: go_contains_iff)
  next
    case False
    then show ?thesis using 2 by auto
  qed
qed auto

lemma group_words:
  "nativeGV \<noteq> []" "customGV \<noteq> []" "\<not> clash (tl customGV) customGV"
  "\<not> clash customGV nativeGV" "\<not> clash (tl nativeGV) customGV"
  by (simp_all add: nativeGV_def customGV_def)

lemma scan_all:
  "\<forall>l \<in> set (lines_of b). length l < maxScanTokenSize \<Longrightarrow> scan b = map dropCR (lines_of b)"
  by (simp add: scan_def takeWhile_eq_all_conv [THEN iffD2])

text \<open>The path of an intercepted request leads to the custom group.\<close>

lemma joined_contains:
  assumes "has_prefix (url_Path b) ''/''" and "go_contains (url_Path b) nativeGV"
  shows "go_contains (fst (joinURLPath EscapedPath a b)) nativeGV"
proof -
  obtain p where p: "url_Path b = CHR ''/'' # p" using assms(1) by (cases "url_Path b") auto
  then have "go_contains p nativeGV" using assms(2) by (simp add: nativeGV_def)
  then show ?thesis
    using p by (simp add: joinURLPath_def singleJoiningSlash_def Let_def go_contains_append_left)
qed

lemma intercepted_path:
  assumes "hm_URL (pr_Out r) = hm_URL (pr_In r)" and "has_prefix (url_Path (hm_URL (pr_In r))) ''/''"
    and "go_contains (url_Path (hm_URL (pr_In r))) nativeGV"
  shows "go_contains (url_Path (hm_URL (pr_Out (Rewrite EscapedPath u r)))) customGV"
  using assms replace_all_contains [OF group_words(1) joined_contains]
  by (simp add: Rewrite_def SetURL_def rewriteRequestURL_def Let_def)

lemma intercepted_body:
  "go_contains (url_Path (hm_URL (pr_In r))) nativeGV \<Longrightarrow>
     hm_Body (pr_Out (Rewrite EscapedPath u r)) = rewriteBody (hm_Body (pr_In r))"
  by (simp add: Rewrite_def SetURL_def Let_def)

text \<open>The command never ends with status 0, and an unusable transport configuration makes it panic.\<close>

lemma interceptor_main_fails: "interceptor_main lib EscapedPath certFile keyFile addr \<noteq> Ret (out, 0)"
proof -
  have "runServer lib EscapedPath certFile keyFile addr \<noteq> Ret r" for r
    by (auto simp: runServer_def bind_outcome_Ret)
  then show ?thesis by (auto simp: interceptor_main_def split: outcome.split)
qed

lemma interceptor_transport_error:
  assumes "proxy_loadClientConfig lib = Ret config" and "pl_url_Parse lib (pl_Host lib config) = Ret u"
    and "pl_TransportConfig lib config = Err err"
  shows "interceptor_main lib EscapedPath certFile keyFile addr = Panic ''invalid memory address or nil pointer dereference''"
  using assms by (simp add: interceptor_main_def runServer_def)

section \<open>Properties\<close>

text \<open>
  C24. What a client writes in the native group comes back to it. For an intercepted request
  whose body has only lines that fit into the scanner's buffer and does not mention the custom
  group itself: if the server answers with the object it received, the client is given back
  what it sent, less the ends of its lines, with the length of it.
\<close>

theorem interceptor_roundtrip:
  assumes "hm_URL (pr_Out r) = hm_URL (pr_In r)" and "has_prefix (url_Path (hm_URL (pr_In r))) ''/''"
    and "go_contains (url_Path (hm_URL (pr_In r))) nativeGV"
    and "\<forall>l \<in> set (lines_of (hm_Body (pr_In r))). length l < maxScanTokenSize"
    and "sent = concat (map dropCR (lines_of (hm_Body (pr_In r))))" and "\<not> go_contains sent customGV"
    and "out = pr_Out (Rewrite EscapedPath u r)"
  shows "ModifyResponse \<lparr>hr_RequestPath = url_Path (hm_URL out), hr_Header = h,
      hr_Body = (hm_Body out, None), hr_ContentLength = n\<rparr> =
    (\<lparr>hr_RequestPath = url_Path (hm_URL out), hr_Header = h(''Content-Length'' \<mapsto> go_itoa (length sent)),
      hr_Body = (sent, None), hr_ContentLength = of_nat (length sent)\<rparr>, None)"
proof -
  have "respelled nativeGV customGV sent (rewriteBody (hm_Body (pr_In r)))"
    unfolding rewriteBody_def assms(5) scan_all [OF assms(4)] by (rule respelled_concat)
  from replace_all_undo [OF this assms(6) group_words(2,3)]
  show ?thesis
    using intercepted_path [OF assms(1-3)] intercepted_body [OF assms(3)]
    by (simp add: ModifyResponse_def Let_def assms(7))
qed

text \<open>
  The custom group stays hidden: whatever the server answers to an intercepted request,
  the body the client sees does not mention the custom group.
\<close>

lemma interceptor_hides_custom:
  assumes "hm_URL (pr_Out r) = hm_URL (pr_In r)" and "has_prefix (url_Path (hm_URL (pr_In r))) ''/''"
    and "go_contains (url_Path (hm_URL (pr_In r))) nativeGV"
    and "hr_RequestPath response = url_Path (hm_URL (pr_Out (Rewrite EscapedPath u r)))"
  shows "\<not> go_contains (fst (hr_Body (fst (ModifyResponse response)))) customGV"
  using intercepted_path [OF assms(1-3)] replace_all_gone [OF group_words(2,4,5)] assms(4)
  by (simp add: ModifyResponse_def Let_def split: prod.split)

text \<open>
  C38. A line that does not fit into the scanner's buffer ends the request body: it and all
  that follows is dropped, and the server is sent the lines before it without any error.
\<close>

theorem interceptor_truncates:
  assumes "go_contains (url_Path (hm_URL (pr_In r))) nativeGV"
    and "lines_of (hm_Body (pr_In r)) = before @ long # after"
    and "\<forall>l \<in> set before. length l < 65536" and "65536 \<le> length long"
  shows "hm_Body (pr_Out (Rewrite EscapedPath u r)) =
    concat (map (\<lambda>l. replace_all (dropCR l) nativeGV customGV) before)"
proof -
  have "takeWhile (\<lambda>l. length l < 65536) (before @ long # after) = before"
    using assms(3,4) by (simp add: takeWhile_append2 takeWhile_tail)
  then show ?thesis
    using intercepted_body [OF assms(1)] assms(2)
    by (simp add: rewriteBody_def scan_def maxScanTokenSize_def comp_def)
qed

text \<open>
  Requests that do not mention the native group are only redirected to the API server:
  body, headers, method and escaped path go through, and an answer is unchanged as long as the
  path does not lead to the custom group. If it does, the answer is rewritten although the
  request was not.
\<close>

lemma interceptor_passthrough:
  assumes "\<not> go_contains (url_Path (hm_URL (pr_In r))) nativeGV"
  shows "pr_Out (Rewrite EscapedPath u r) = (pr_Out r)\<lparr>hm_Host := '''',
      hm_URL := rewriteRequestURL EscapedPath (hm_URL (pr_Out r)) u\<rparr> \<and>
    (\<not> go_contains (hr_RequestPath response) customGV \<longrightarrow> ModifyResponse response = (response, None)) \<and>
    (go_contains (hr_RequestPath response) customGV \<longrightarrow>
      fst (hr_Body (fst (ModifyResponse response))) = replace_all (fst (hr_Body response)) customGV nativeGV)"
  using assms by (simp add: Rewrite_def SetURL_def ModifyResponse_def Let_def split: prod.split)

section \<open>Witnesses\<close>

definition example_message :: "string \<Rightarrow> bytes \<Rightarrow> http_message" where
  "example_message path body = \<lparr>hm_Method = ''POST'',
     hm_URL = \<lparr>url_Scheme = '''', url_Host = '''', url_Path = path, url_RawPath = '''', url_RawQuery = ''''\<rparr>,
     hm_Host = ''localhost'', hm_Header = Map.empty, hm_Body = body, hm_ContentLength = 0\<rparr>"

definition example_proxy_request :: "string \<Rightarrow> bytes \<Rightarrow> ProxyRequest" where
  "example_proxy_request path body =
     \<lparr>pr_In = example_message path body, pr_Out = example_message path body\<rparr>"

definition example_target :: URL where
  "example_target = \<lparr>url_Scheme = ''https'', url_Host = ''api'', url_Path = '''', url_RawPath = '''', url_RawQuery = ''''\<rparr>"

lemmas example_proxy_simps = example_proxy_request_def example_message_def nativeGV_def customGV_def
  maxScanTokenSize_def lines_of_def dropCR_def

abbreviation example_path :: string where
  "example_path \<equiv> ''/apis/admissionregistration.k8s.io/v1alpha1/x''"

theorem interceptor_roundtrip_witness:
  "fst (hr_Body (fst (ModifyResponse \<lparr>hr_RequestPath = ''/apis/admissionregistration.x-k8s.io/v1alpha1/x'',
      hr_Header = Map.empty, hr_Body = (''<admissionregistration.x-k8s.io/v1alpha1>'', None), hr_ContentLength = 0\<rparr>))) =
   ''<admissionregistration.k8s.io/v1alpha1>''"
proof -
  let ?r = "example_proxy_request example_path (''<admissionregistration.k8s.io/v1alpha1>'' @ [CHR 0x0A])"
  have out: "url_Path (hm_URL (pr_Out (Rewrite url_Path example_target ?r))) =
      ''/apis/admissionregistration.x-k8s.io/v1alpha1/x''"
    "hm_Body (pr_Out (Rewrite url_Path example_target ?r)) = ''<admissionregistration.x-k8s.io/v1alpha1>''"
    by (simp_all add: example_proxy_simps example_target_def Rewrite_def SetURL_def rewriteRequestURL_def
        joinURLPath_def singleJoiningSlash_def has_suffix_def rewriteBody_def scan_def)
  show ?thesis
    using interceptor_roundtrip [of ?r, OF _ _ _ _ refl _ refl, of url_Path example_target] out
    by (simp add: example_proxy_simps)
qed

theorem interceptor_truncates_witness:
  "hm_Body (pr_Out (Rewrite url_Path example_target
     (example_proxy_request example_path (''a'' @ CHR 0x0A # replicate 65536 (CHR ''x''))))) = ''a''"
proof -
  let ?b = "''a'' @ CHR 0x0A # replicate 65536 (CHR ''x'')"
  have lines: "lines_of ?b = [''a''] @ replicate 65536 (CHR ''x'') # []"
    unfolding lines_of_def by (subst go_split_append) (simp_all add: go_split_no_sep)
  have path: "go_contains (url_Path (hm_URL (pr_In (example_proxy_request example_path ?b)))) nativeGV"
    by (simp add: example_proxy_request_def example_message_def nativeGV_def)
  have body: "hm_Body (pr_In (example_proxy_request example_path ?b)) = ?b"
    by (simp add: example_proxy_request_def example_message_def)
  show ?thesis
    using interceptor_truncates [OF path, unfolded body, OF lines, where EscapedPath = url_Path and u = example_target]
    by (simp add: dropCR_def nativeGV_def)
qed

end
