(* ===== verification/Pki.thy ===== *)
theory Pki
  imports ApiMachinery
begin

text \<open>
  The certificates of \<^verbatim>\<open>pkg/pki\<close> and the command \<^verbatim>\<open>cmd/gentls\<close> that writes them. The random source,
  the clock, Ed25519, the encoding of certificates and keys and the file system belong to the
  runtime and are arguments of the definitions, in the record \<open>crypto\<close>; a state \<open>'r\<close> of the random
  source and the clock is passed along. What the theorems need of \<^verbatim>\<open>crypto/x509\<close> is stated in them.
\<close>

section \<open>Certificates\<close>

datatype ExtKeyUsage = ExtKeyUsageClientAuth | ExtKeyUsageServerAuth

unbundle bit_operations_syntax

definition KeyUsageDigitalSignature :: "64 word" where
  "KeyUsageDigitalSignature = push_bit 0 1"

definition KeyUsageKeyEncipherment :: "64 word" where
  "KeyUsageKeyEncipherment = push_bit 2 1"

definition KeyUsageCertSign :: "64 word" where
  "KeyUsageCertSign = push_bit 5 1"

text \<open>The fields of \<^verbatim>\<open>x509.Certificate\<close> that a template sets; times are in nanoseconds.\<close>

record template =
  ct_SerialNumber :: nat
  ct_CommonName :: string
  ct_NotBefore :: int
  ct_NotAfter :: int
  ct_KeyUsage :: "64 word"
  ct_BasicConstraintsValid :: bool
  ct_IsCA :: bool
  ct_DNSNames :: "string list"
  ct_ExtKeyUsage :: "ExtKeyUsage list"
  ct_PermittedDNSDomainsCritical :: bool
  ct_PermittedDNSDomains :: "string list"

text \<open>A parsed certificate has, besides them, its issuer, its public key and its encoding.\<close>

record 'pub Certificate = template +
  ct_Issuer :: string
  ct_PublicKey :: 'pub
  ct_Raw :: bytes

text \<open>
  \<^verbatim>\<open>x509.CreateCertificate\<close> is given the template, the parent (a template, or a certificate with a
  public key), the key of the new certificate and the key that signs it.
\<close>

record ('pub, 'priv, 'r) crypto =
  cr_GenerateKey :: "'r \<Rightarrow> ('pub \<times> 'priv) result \<times> 'r"
  cr_Read :: "nat \<Rightarrow> 'r \<Rightarrow> 8 word list result \<times> 'r"
  cr_Now :: "'r \<Rightarrow> int"
  cr_CreateCertificate :: "template \<Rightarrow> template \<times> 'pub option \<Rightarrow> 'pub \<Rightarrow> 'priv \<Rightarrow> 'r \<Rightarrow> bytes result \<times> 'r"
  cr_ParseCertificate :: "bytes \<Rightarrow> 'pub Certificate result"
  cr_MarshalPKCS8PrivateKey :: "'priv \<Rightarrow> bytes result"
  cr_EncodeToMemory :: "string \<Rightarrow> bytes \<Rightarrow> bytes"

record ('pub, 'priv) CertificateKeyPair =
  kp_PrivateKeyPem :: bytes
  kp_CertificatePem :: bytes
  kp_Certificate :: "'pub Certificate"
  kp_PrivateKey :: 'priv

record CAConfig =
  ca_CommonName :: string
  ca_PermittedDNSDomains :: "string list"
  ca_Expiry :: int

text \<open>Sequencing of calls that pass the state along.\<close>

definition and_then ::
  "('r \<Rightarrow> 'a result \<times> 'r) \<Rightarrow> ('a \<Rightarrow> 'r \<Rightarrow> 'b result \<times> 'r) \<Rightarrow> 'r \<Rightarrow> 'b result \<times> 'r" where
  "and_then m f r =
     (case m r of
        (Ret a, r') \<Rightarrow> f a r'
      | (Err e, r') \<Rightarrow> (Err e, r')
      | (Panic p, r') \<Rightarrow> (Panic p, r'))"

definition pure :: "'a result \<Rightarrow> 'r \<Rightarrow> 'a result \<times> 'r" where
  "pure x r = (x, r)"

text \<open>\<^verbatim>\<open>big.Int.SetBytes\<close>: big-endian.\<close>

definition SetBytes :: "8 word list \<Rightarrow> nat" where
  "SetBytes b = foldl (\<lambda>n w. n * 256 + unat w) 0 b"

definition serialNumber :: "('pub, 'priv, 'r) crypto \<Rightarrow> 'r \<Rightarrow> nat result \<times> 'r" where
  "serialNumber cr =
     and_then (cr_Read cr 20) (\<lambda>b. pure (
       case b of [] \<Rightarrow> Panic ''index out of range'' | b0 # bs \<Rightarrow> Ret (SetBytes ((b0 AND 0x7f) # bs))))"

definition DefaultExpiry :: int where
  "DefaultExpiry = 365 * 24 * 3600 * 1000000000"

definition populateTemplate :: "('pub, 'priv, 'r) crypto \<Rightarrow> string \<Rightarrow> int \<Rightarrow> 'r \<Rightarrow> template result \<times> 'r" where
  "populateTemplate cr commonName expiry0 =
     (let expiry = (if expiry0 = 0 then DefaultExpiry else expiry0) in
      and_then (serialNumber cr) (\<lambda>sn r.
        let now = cr_Now cr r in
        (Ret \<lparr>ct_SerialNumber = sn, ct_CommonName = commonName,
           ct_NotBefore = now - 5 * 60 * 1000000000, ct_NotAfter = now + expiry,
           ct_KeyUsage = KeyUsageKeyEncipherment OR KeyUsageDigitalSignature,
           ct_BasicConstraintsValid = True, ct_IsCA = False, ct_DNSNames = [], ct_ExtKeyUsage = [],
           ct_PermittedDNSDomainsCritical = False, ct_PermittedDNSDomains = []\<rparr>, r)))"

definition encodeKeyPair ::
  "('pub, 'priv, 'r) crypto \<Rightarrow> 'pub Certificate \<Rightarrow> 'priv \<Rightarrow> (bytes \<times> bytes) result" where
  "encodeKeyPair cr cert priv =
     bind_outcome (cr_MarshalPKCS8PrivateKey cr priv) (\<lambda>privDer.
       Ret (cr_EncodeToMemory cr ''CERTIFICATE'' (ct_Raw cert), cr_EncodeToMemory cr ''PRIVATE KEY'' privDer))"

text \<open>The common end of both functions: encode, sign, parse back and pack.\<close>

definition issue ::
  "('pub, 'priv, 'r) crypto \<Rightarrow> template \<Rightarrow> template \<times> 'pub option \<Rightarrow> 'pub \<Rightarrow> 'priv \<Rightarrow> 'priv \<Rightarrow> 'r \<Rightarrow>
   ('pub, 'priv) CertificateKeyPair result \<times> 'r" where
  "issue cr tmpl parent pub priv signer =
     and_then (cr_CreateCertificate cr tmpl parent pub signer) (\<lambda>certDer. pure (
       bind_outcome (cr_ParseCertificate cr certDer) (\<lambda>cert.
         bind_outcome (encodeKeyPair cr cert priv) (\<lambda>(certPem, privPem).
           Ret \<lparr>kp_PrivateKeyPem = privPem, kp_CertificatePem = certPem,
             kp_Certificate = cert, kp_PrivateKey = priv\<rparr>))))"

definition caTemplate :: "CAConfig \<Rightarrow> template \<Rightarrow> template" where
  "caTemplate config t0 =
     (let t1 = t0\<lparr>ct_IsCA := True, ct_KeyUsage := ct_KeyUsage t0 OR KeyUsageCertSign\<rparr>
      in if length (ca_PermittedDNSDomains config) > 0
         then t1\<lparr>ct_PermittedDNSDomainsCritical := True, ct_PermittedDNSDomains := ca_PermittedDNSDomains config\<rparr>
         else t1)"

definition GenerateCA ::
  "('pub, 'priv, 'r) crypto \<Rightarrow> CAConfig \<Rightarrow> 'r \<Rightarrow> ('pub, 'priv) CertificateKeyPair result \<times> 'r" where
  "GenerateCA cr config =
     and_then (cr_GenerateKey cr) (\<lambda>(pub, priv).
       and_then (populateTemplate cr (ca_CommonName config) (ca_Expiry config)) (\<lambda>t0.
         issue cr (caTemplate config t0) (caTemplate config t0, None) pub priv priv))"

definition CreateCertificate ::
  "('pub, 'priv, 'r) crypto \<Rightarrow> ('pub, 'priv) CertificateKeyPair \<Rightarrow> string \<Rightarrow> int \<Rightarrow> 'r \<Rightarrow>
   ('pub, 'priv) CertificateKeyPair result \<times> 'r" where
  "CreateCertificate cr c hostName expiry =
     and_then (cr_GenerateKey cr) (\<lambda>(pub, priv).
       and_then (populateTemplate cr hostName expiry) (\<lambda>t0.
         issue cr (t0\<lparr>ct_DNSNames := [hostName], ct_ExtKeyUsage := [ExtKeyUsageClientAuth, ExtKeyUsageServerAuth]\<rparr>)
           (template.truncate (kp_Certificate c), Some (ct_PublicKey (kp_Certificate c))) pub priv (kp_PrivateKey c)))"

definition NewCertPoolFromCA :: "'pub Certificate \<Rightarrow> 'pub Certificate list" where
  "NewCertPoolFromCA ca = [ca]"

section \<open>The command\<close>

type_synonym files = "string \<rightharpoonup> bytes"

definition oneYear :: int where
  "oneYear = 3600 * 1000000000 * 24 * 365"

definition generateAndWriteCertificates ::
  "('pub, 'priv, 'r) crypto \<Rightarrow> (string \<Rightarrow> bytes \<Rightarrow> files \<Rightarrow> goerror option \<times> files) \<Rightarrow> string \<Rightarrow>
   'r \<times> files \<Rightarrow> unit result \<times> 'r \<times> files" where
  "generateAndWriteCertificates cr WriteFile hostName = (\<lambda>(r, fs).
     case GenerateCA cr \<lparr>ca_CommonName = ''SelfSigned'', ca_PermittedDNSDomains = [], ca_Expiry = 0\<rparr> r of
       (Err e, r1) \<Rightarrow> (Err e, r1, fs)
     | (Panic m, r1) \<Rightarrow> (Panic m, r1, fs)
     | (Ret ca, r1) \<Rightarrow>
         (case WriteFile ''ca.pem'' (kp_CertificatePem ca) fs of
            (Some e, fs1) \<Rightarrow> (Err e, r1, fs1)
          | (None, fs1) \<Rightarrow>
              (case CreateCertificate cr ca hostName oneYear r1 of
                 (Err e, r2) \<Rightarrow> (Err e, r2, fs1)
               | (Panic m, r2) \<Rightarrow> (Panic m, r2, fs1)
               | (Ret keyPair, r2) \<Rightarrow>
                   (case WriteFile ''server.pem'' (kp_CertificatePem keyPair) fs1 of
                      (Some e, fs2) \<Rightarrow> (Err e, r2, fs2)
                    | (None, fs2) \<Rightarrow>
                        (case WriteFile ''server-key.pem'' (kp_PrivateKeyPem keyPair) fs2 of
                           (Some e, fs3) \<Rightarrow> (Err e, r2, fs3)
                         | (None, fs3) \<Rightarrow> (Ret (), r2, fs3))))))"

text \<open>
  \<^verbatim>\<open>main\<close> of gentls: the host of the command line, if one is given; the exit code and what is
  printed.
\<close>

definition gentls_main ::
  "('pub, 'priv, 'r) crypto \<Rightarrow> (string \<Rightarrow> bytes \<Rightarrow> files \<Rightarrow> goerror option \<times> files) \<Rightarrow> string option \<Rightarrow>
   'r \<times> files \<Rightarrow> (nat \<times> string) result \<times> 'r \<times> files" where
  "gentls_main cr WriteFile host s =
     (let hostName = (case host of None \<Rightarrow> ''example.com'' | Some h \<Rightarrow> h)
      in case generateAndWriteCertificates cr WriteFile hostName s of
           (Ret ok, s1) \<Rightarrow> (Ret (0, ''''), s1)
         | (Err err, s1) \<Rightarrow> (Ret (1, error_Error err @ [CHR 0x0A]), s1)
         | (Panic m, s1) \<Rightarrow> (Panic m, s1))"

section \<open>Lemmas\<close>

text \<open>
  The templates this package makes: basic constraints, the key usages of \<^verbatim>\<open>populateTemplate\<close> with or
  without that of signing certificates, and name constraints that are critical exactly if there are some.
\<close>

definition pki_template :: "template \<Rightarrow> bool" where
  "pki_template t \<longleftrightarrow> ct_BasicConstraintsValid t \<and>
     ct_KeyUsage t \<in> {KeyUsageKeyEncipherment OR KeyUsageDigitalSignature,
       KeyUsageKeyEncipherment OR KeyUsageDigitalSignature OR KeyUsageCertSign} \<and>
     (ct_PermittedDNSDomainsCritical t \<longleftrightarrow> ct_PermittedDNSDomains t \<noteq> [])"

definition seconds :: "int \<Rightarrow> int" where
  "seconds t = t div 1000000000 * 1000000000"

text \<open>
  What \<^verbatim>\<open>crypto/ed25519\<close> and \<^verbatim>\<open>crypto/x509\<close> document: generated keys belong together (\<open>keys\<close>), and a
  certificate that was created from such a template, and can be parsed, has the fields of the template, with times
  cut to seconds, the subject of the parent as issuer, the given key, and a signature that the signer's public
  key checks. Nothing is asked of other templates, of which \<^verbatim>\<open>x509\<close> does not keep every field.
\<close>

definition x509_laws ::
  "('pub, 'priv, 'r) crypto \<Rightarrow> ('pub \<Rightarrow> 'priv \<Rightarrow> bool) \<Rightarrow> ('pub \<Rightarrow> 'pub Certificate \<Rightarrow> bool) \<Rightarrow> bool" where
  "x509_laws cr keys checks \<longleftrightarrow>
     (\<forall>r pub priv r'. cr_GenerateKey cr r = (Ret (pub, priv), r') \<longrightarrow> keys pub priv) \<and>
     (\<forall>t parent pub signer r der r' cert. pki_template t \<longrightarrow>
        cr_CreateCertificate cr t parent pub signer r = (Ret der, r') \<longrightarrow> cr_ParseCertificate cr der = Ret cert \<longrightarrow>
        template.truncate cert = t\<lparr>ct_NotBefore := seconds (ct_NotBefore t), ct_NotAfter := seconds (ct_NotAfter t)\<rparr> \<and>
        ct_Issuer cert = ct_CommonName (fst parent) \<and> ct_PublicKey cert = pub \<and>
        (\<forall>k. keys k signer \<longrightarrow> checks k cert))"

text \<open>
  \<^verbatim>\<open>Certificate.VerifyHostname\<close> of a certificate that has DNS names and no IP addresses, as all
  of this package. \<open>isIP\<close> is whether \<^verbatim>\<open>net.ParseIP\<close> accepts a name: an IP address is not looked for among the DNS names.
\<close>

definition toLower :: "string \<Rightarrow> string" where
  "toLower = map (\<lambda>c. if 65 \<le> (of_char c :: nat) \<and> (of_char c :: nat) \<le> 90 then char_of ((of_char c :: nat) + 32) else c)"

definition trim_dot :: "string \<Rightarrow> string" where
  "trim_dot s = (if s \<noteq> '''' \<and> last s = CHR ''.'' then butlast s else s)"

definition label_char :: "char \<Rightarrow> bool" where
  "label_char c \<longleftrightarrow> (let n = (of_char c :: nat) in
     97 \<le> n \<and> n \<le> 122 \<or> 48 \<le> n \<and> n \<le> 57 \<or> 65 \<le> n \<and> n \<le> 90 \<or> c = CHR ''_'')"

definition validHostname :: "string \<Rightarrow> bool \<Rightarrow> bool" where
  "validHostname host isPattern \<longleftrightarrow>
     (let h = (if isPattern then host else trim_dot host); parts = go_split (CHR ''.'') h in
      h \<noteq> '''' \<and> (\<forall>i < length parts. parts ! i \<noteq> '''' \<and>
        (isPattern \<and> i = 0 \<and> parts ! i = ''*'' \<or>
         (\<forall>j < length (parts ! i). label_char (parts ! i ! j) \<or> parts ! i ! j = CHR ''-'' \<and> j \<noteq> 0))))"

definition matchHostnames :: "string \<Rightarrow> string \<Rightarrow> bool" where
  "matchHostnames pattern host \<longleftrightarrow>
     (let p = toLower pattern; h = toLower (trim_dot host);
          ps = go_split (CHR ''.'') p; hs = go_split (CHR ''.'') h in
      p \<noteq> '''' \<and> h \<noteq> '''' \<and> length ps = length hs \<and> (\<forall>i < length ps. i = 0 \<and> ps ! i = ''*'' \<or> ps ! i = hs ! i))"

definition matchExactly :: "string \<Rightarrow> string \<Rightarrow> bool" where
  "matchExactly a b \<longleftrightarrow> a \<noteq> '''' \<and> a \<noteq> ''.'' \<and> b \<noteq> '''' \<and> b \<noteq> ''.'' \<and> toLower a = toLower b"

definition candidateIP :: "string \<Rightarrow> string" where
  "candidateIP h = (if length h \<ge> 3 \<and> hd h = CHR ''['' \<and> last h = CHR '']'' then butlast (tl h) else h)"

definition VerifyHostname :: "(string \<Rightarrow> bool) \<Rightarrow> string list \<Rightarrow> string \<Rightarrow> bool" where
  "VerifyHostname isIP DNSNames h \<longleftrightarrow> \<not> isIP (candidateIP h) \<and>
     (let candidateName = toLower h in
      \<exists>match \<in> set DNSNames.
        if validHostname candidateName False \<and> validHostname match True then matchHostnames match candidateName
        else matchExactly match candidateName)"

text \<open>
  The checks a TLS client makes of a server certificate issued directly by one of its roots;
  \<open>permits\<close> is the matching of a DNS name against a name constraint.
\<close>

definition verifies ::
  "(string \<Rightarrow> bool) \<Rightarrow> (string \<Rightarrow> string \<Rightarrow> bool) \<Rightarrow> ('pub \<Rightarrow> 'pub Certificate \<Rightarrow> bool) \<Rightarrow> 'pub Certificate list \<Rightarrow>
   'pub Certificate \<Rightarrow> string \<Rightarrow> int \<Rightarrow> bool" where
  "verifies isIP permits checks pool cert host t \<longleftrightarrow>
     VerifyHostname isIP (ct_DNSNames cert) host \<and>
     (\<exists>root \<in> set pool.
        ct_Issuer cert = ct_CommonName root \<and> checks (ct_PublicKey root) cert \<and>
        ct_BasicConstraintsValid root \<and> ct_IsCA root \<and>
        (ct_KeyUsage root = 0 \<or> ct_KeyUsage root AND KeyUsageCertSign \<noteq> 0) \<and>
        (\<forall>c \<in> {root, cert}. ct_NotBefore c \<le> t \<and> t \<le> ct_NotAfter c \<and>
           (ct_ExtKeyUsage c = [] \<or> ExtKeyUsageServerAuth \<in> set (ct_ExtKeyUsage c))) \<and>
        (\<forall>name \<in> set (ct_DNSNames cert). ct_PermittedDNSDomains root = [] \<or> (\<exists>d \<in> set (ct_PermittedDNSDomains root). permits d name)))"

text \<open>The validity of a certificate made at a time, for an expiry.\<close>

definition validity :: "int \<Rightarrow> int \<Rightarrow> int set" where
  "validity now expiry =
     {seconds (now - 300000000000) .. seconds (now + (if expiry = 0 then DefaultExpiry else expiry))}"

lemma and_then_Ret:
  "and_then m f r = (Ret b, r') \<longleftrightarrow> (\<exists>a r1. m r = (Ret a, r1) \<and> f a r1 = (Ret b, r'))"
  by (auto simp: and_then_def split: prod.splits outcome.splits)

lemma truncate_fields:
  "template.truncate c = t \<Longrightarrow>
     ct_CommonName c = ct_CommonName t \<and> ct_NotBefore c = ct_NotBefore t \<and> ct_NotAfter c = ct_NotAfter t \<and>
     ct_KeyUsage c = ct_KeyUsage t \<and> ct_BasicConstraintsValid c = ct_BasicConstraintsValid t \<and>
     ct_IsCA c = ct_IsCA t \<and> ct_DNSNames c = ct_DNSNames t \<and> ct_ExtKeyUsage c = ct_ExtKeyUsage t \<and>
     ct_PermittedDNSDomains c = ct_PermittedDNSDomains t"
  by (auto simp: template.truncate_def)

lemma issue_cert:
  assumes laws: "x509_laws cr keys checks" and t: "pki_template t"
    and "issue cr t parent pub priv signer r = (Ret kp, r')"
  shows "template.truncate (kp_Certificate kp) =
      t\<lparr>ct_NotBefore := seconds (ct_NotBefore t), ct_NotAfter := seconds (ct_NotAfter t)\<rparr> \<and>
    ct_Issuer (kp_Certificate kp) = ct_CommonName (fst parent) \<and> ct_PublicKey (kp_Certificate kp) = pub \<and>
    kp_PrivateKey kp = priv \<and> (\<forall>k. keys k signer \<longrightarrow> checks k (kp_Certificate kp))"
proof -
  obtain der r1 where der: "cr_CreateCertificate cr t parent pub signer r = (Ret der, r1)"
    and rest: "bind_outcome (cr_ParseCertificate cr der) (\<lambda>cert.
      bind_outcome (encodeKeyPair cr cert priv) (\<lambda>(certPem, privPem).
        Ret \<lparr>kp_PrivateKeyPem = privPem, kp_CertificatePem = certPem, kp_Certificate = cert, kp_PrivateKey = priv\<rparr>)) =
      Ret kp"
    using assms(3) by (auto simp: issue_def and_then_Ret pure_def)
  obtain cert where cert: "cr_ParseCertificate cr der = Ret cert" "kp_Certificate kp = cert" "kp_PrivateKey kp = priv"
    using rest by (auto simp: bind_outcome_Ret_iff)
  moreover have "template.truncate cert = t\<lparr>ct_NotBefore := seconds (ct_NotBefore t), ct_NotAfter := seconds (ct_NotAfter t)\<rparr> \<and>
      ct_Issuer cert = ct_CommonName (fst parent) \<and> ct_PublicKey cert = pub \<and> (\<forall>k. keys k signer \<longrightarrow> checks k cert)"
    using laws t der cert(1) unfolding x509_laws_def by blast
  ultimately show ?thesis by simp
qed

lemma populateTemplate_fields:
  assumes "populateTemplate cr name expiry r = (Ret t, r')"
  shows "ct_NotBefore t = cr_Now cr r' - 300000000000 \<and>
      ct_NotAfter t = cr_Now cr r' + (if expiry = 0 then DefaultExpiry else expiry) \<and>
    ct_CommonName t = name \<and> ct_KeyUsage t = KeyUsageKeyEncipherment OR KeyUsageDigitalSignature \<and>
    ct_BasicConstraintsValid t \<and> \<not> ct_IsCA t \<and> ct_PermittedDNSDomains t = [] \<and>
    \<not> ct_PermittedDNSDomainsCritical t \<and> ct_ExtKeyUsage t = []"
  using assms by (auto simp: populateTemplate_def and_then_Ret Let_def)

lemma caTemplate_fields [simp]:
  "ct_CommonName (caTemplate config t) = ct_CommonName t"
  "ct_NotBefore (caTemplate config t) = ct_NotBefore t"
  "ct_NotAfter (caTemplate config t) = ct_NotAfter t"
  "ct_BasicConstraintsValid (caTemplate config t) = ct_BasicConstraintsValid t"
  "ct_KeyUsage (caTemplate config t) = ct_KeyUsage t OR KeyUsageCertSign"
  "ct_IsCA (caTemplate config t)"
  "ct_ExtKeyUsage (caTemplate config t) = ct_ExtKeyUsage t"
  "ct_PermittedDNSDomains t = [] \<Longrightarrow> ct_PermittedDNSDomains (caTemplate config t) = ca_PermittedDNSDomains config"
  by (simp_all add: caTemplate_def Let_def)

lemma pki_templates:
  assumes "populateTemplate cr name expiry r = (Ret t, r')"
  shows "pki_template (caTemplate config t)" and "pki_template (t\<lparr>ct_DNSNames := names, ct_ExtKeyUsage := usages\<rparr>)"
  using populateTemplate_fields [OF assms] by (simp_all add: pki_template_def caTemplate_def Let_def or.assoc)

text \<open>The certificate authority and the certificates it issues.\<close>

lemma GenerateCA_cert:
  assumes laws: "x509_laws cr keys checks" and "GenerateCA cr config r = (Ret ca, r')"
  shows "ct_CommonName (kp_Certificate ca) = ca_CommonName config \<and> ct_IsCA (kp_Certificate ca) \<and>
    ct_BasicConstraintsValid (kp_Certificate ca) \<and>
    ct_KeyUsage (kp_Certificate ca) = KeyUsageKeyEncipherment OR KeyUsageDigitalSignature OR KeyUsageCertSign \<and>
    ct_PermittedDNSDomains (kp_Certificate ca) = ca_PermittedDNSDomains config \<and> ct_ExtKeyUsage (kp_Certificate ca) = [] \<and>
    keys (ct_PublicKey (kp_Certificate ca)) (kp_PrivateKey ca) \<and>
    (\<exists>s. {ct_NotBefore (kp_Certificate ca) .. ct_NotAfter (kp_Certificate ca)} =
       validity (cr_Now cr s) (ca_Expiry config))"
proof -
  obtain pub priv t0 r1 r2 where key: "cr_GenerateKey cr r = (Ret (pub, priv), r1)"
    and t0: "populateTemplate cr (ca_CommonName config) (ca_Expiry config) r1 = (Ret t0, r2)"
    and ca: "issue cr (caTemplate config t0) (caTemplate config t0, None) pub priv priv r2 = (Ret ca, r')"
    using assms(2) by (auto simp: GenerateCA_def and_then_Ret)
  have "keys pub priv" using laws key unfolding x509_laws_def by blast
  then show ?thesis
    using truncate_fields [OF conjunct1 [OF issue_cert [OF laws pki_templates(1) [OF t0] ca]]]
      conjunct2 [OF issue_cert [OF laws pki_templates(1) [OF t0] ca]]
      populateTemplate_fields [OF t0]
    by (intro conjI exI [of _ r2]) (simp_all add: validity_def or.assoc)
qed

lemma CreateCertificate_cert:
  assumes laws: "x509_laws cr keys checks" and "CreateCertificate cr ca host expiry r = (Ret kp, r')"
    and "keys (ct_PublicKey (kp_Certificate ca)) (kp_PrivateKey ca)"
  shows "ct_Issuer (kp_Certificate kp) = ct_CommonName (kp_Certificate ca) \<and>
    checks (ct_PublicKey (kp_Certificate ca)) (kp_Certificate kp) \<and>
    ct_DNSNames (kp_Certificate kp) = [host] \<and>
    ct_ExtKeyUsage (kp_Certificate kp) = [ExtKeyUsageClientAuth, ExtKeyUsageServerAuth] \<and>
    \<not> ct_IsCA (kp_Certificate kp) \<and>
    (\<exists>s. {ct_NotBefore (kp_Certificate kp) .. ct_NotAfter (kp_Certificate kp)} = validity (cr_Now cr s) expiry)"
proof -
  obtain pub priv t0 r1 r2 where t0: "populateTemplate cr host expiry r1 = (Ret t0, r2)"
    and kp: "issue cr (t0\<lparr>ct_DNSNames := [host], ct_ExtKeyUsage := [ExtKeyUsageClientAuth, ExtKeyUsageServerAuth]\<rparr>)
      (template.truncate (kp_Certificate ca), Some (ct_PublicKey (kp_Certificate ca))) pub priv (kp_PrivateKey ca) r2 =
      (Ret kp, r')"
    using assms(2) by (auto simp: CreateCertificate_def and_then_Ret)
  have name: "ct_CommonName (template.truncate (kp_Certificate ca)) = ct_CommonName (kp_Certificate ca)"
    by (simp add: template.truncate_def)
  show ?thesis
    using truncate_fields [OF conjunct1 [OF issue_cert [OF laws pki_templates(2) [OF t0] kp]]]
      conjunct2 [OF issue_cert [OF laws pki_templates(2) [OF t0] kp]]
      populateTemplate_fields [OF t0] assms(3) name
    by (intro conjI exI [of _ r2]) (simp_all add: validity_def)
qed

lemma CertSign_set: "(KeyUsageKeyEncipherment OR KeyUsageDigitalSignature OR KeyUsageCertSign) AND KeyUsageCertSign \<noteq> 0"
  by (simp add: KeyUsageKeyEncipherment_def KeyUsageDigitalSignature_def KeyUsageCertSign_def)

text \<open>Numbers in a positional system, for any base.\<close>

lemma horner:
  "foldl (\<lambda>n w. n * B + f w) a b = a * B ^ length b + foldl (\<lambda>n w. n * B + f w) (0::nat) b"
proof (induction b arbitrary: a)
  case (Cons w b)
  show ?case using Cons.IH [of "a * B + f w"] Cons.IH [of "f w"] by (simp add: algebra_simps)
qed simp

lemma digit_bound: "x < B \<Longrightarrow> s < P \<Longrightarrow> x * P + s < B * P" for x :: nat
proof -
  assume "x < B" and "s < P"
  then have "x * P + s < (x + 1) * P" by simp
  also have "\<dots> \<le> B * P" using \<open>x < B\<close> by (intro mult_le_mono1) simp
  finally show ?thesis .
qed

lemma SetBytes_Cons: "SetBytes (w # b) = unat w * 256 ^ length b + SetBytes b"
  using horner [of 256 unat "unat w" b] by (simp add: SetBytes_def)

lemma SetBytes_bound: "SetBytes b < 256 ^ length b"
proof (induction b)
  case Nil
  show ?case by (simp add: SetBytes_def)
next
  case (Cons w b)
  have "unat w < 256" using unsigned_less [of w] by simp
  from digit_bound [OF this Cons] show ?case unfolding SetBytes_Cons by simp
qed

section \<open>Properties\<close>

lemma toLower_idem [simp]: "toLower (toLower s) = toLower s"
  by (auto simp: toLower_def)

lemma toLower_simps [simp]: "toLower s = '''' \<longleftrightarrow> s = ''''" "toLower s \<noteq> '''' \<Longrightarrow> last (toLower s) = CHR ''.'' \<longleftrightarrow> last s = CHR ''.''"
  by (auto simp: toLower_def last_map dest!: arg_cong [where f = "of_char :: char \<Rightarrow> nat"])

text \<open>A name that is not an IP address and has no dot at its end matches itself.\<close>

lemma VerifyHostname_self:
  assumes "host \<noteq> ''''" "last host \<noteq> CHR ''.''" "\<not> isIP (candidateIP host)"
  shows "VerifyHostname isIP [host] host"
proof -
  have "trim_dot (toLower host) = toLower host" using assms(1,2) by (simp add: trim_dot_def)
  then have "matchHostnames host (toLower host)" using assms(1) by (simp add: matchHostnames_def Let_def)
  moreover have "last (toLower host) \<noteq> CHR ''.''" using assms(1,2) by simp
  then have "host \<noteq> ''.''" "toLower host \<noteq> ''.''" using assms(2) by auto
  then have "matchExactly host (toLower host)" using assms(1) by (simp add: matchExactly_def)
  ultimately show ?thesis using assms(3) by (simp add: VerifyHostname_def)
qed

text \<open>
  C32. Certificates issued by a generated authority are accepted by a client that has the
  authority as its root, as server certificates: for exactly the names that match the host they were issued to, while both
  certificates are valid, and provided the name constraints of the authority permit the host, if it has any. The host matches
  itself, unless it is an IP address or ends in a dot.
\<close>

theorem issued_certificate_verifies:
  assumes laws: "x509_laws cr keys checks"
    and ca: "GenerateCA cr config r = (Ret ca, r1)"
    and kp: "CreateCertificate cr ca host expiry r2 = (Ret kp, r3)"
  shows "(host \<noteq> '''' \<and> last host \<noteq> CHR ''.'' \<and> \<not> isIP (candidateIP host) \<longrightarrow> VerifyHostname isIP [host] host) \<and>
    (\<exists>s1 s2. \<forall>name t.
      verifies isIP permits checks (NewCertPoolFromCA (kp_Certificate ca)) (kp_Certificate kp) name t =
      (VerifyHostname isIP [host] name \<and> t \<in> validity (cr_Now cr s1) (ca_Expiry config) \<and> t \<in> validity (cr_Now cr s2) expiry \<and>
       (ca_PermittedDNSDomains config = [] \<or> (\<exists>d \<in> set (ca_PermittedDNSDomains config). permits d host))))"
proof -
  let ?ca = "kp_Certificate ca" and ?kp = "kp_Certificate kp"
  have keys: "keys (ct_PublicKey ?ca) (kp_PrivateKey ca)" using GenerateCA_cert [OF laws ca] by simp
  obtain s1 where s1: "{ct_NotBefore ?ca .. ct_NotAfter ?ca} = validity (cr_Now cr s1) (ca_Expiry config)"
    using GenerateCA_cert [OF laws ca] by blast
  obtain s2 where s2: "{ct_NotBefore ?kp .. ct_NotAfter ?kp} = validity (cr_Now cr s2) expiry"
    using CreateCertificate_cert [OF laws kp keys] by blast
  have "\<forall>name t. verifies isIP permits checks (NewCertPoolFromCA ?ca) ?kp name t =
      (VerifyHostname isIP [host] name \<and> t \<in> validity (cr_Now cr s1) (ca_Expiry config) \<and> t \<in> validity (cr_Now cr s2) expiry \<and>
       (ca_PermittedDNSDomains config = [] \<or> (\<exists>d \<in> set (ca_PermittedDNSDomains config). permits d host)))"
    using GenerateCA_cert [OF laws ca] CreateCertificate_cert [OF laws kp keys] CertSign_set
    by (auto simp: verifies_def NewCertPoolFromCA_def simp flip: s1 s2)
  then show ?thesis using VerifyHostname_self by blast
qed

text \<open>
  A serial number has at most 159 bits: it is not negative as a number of 20 bytes, whatever
  the random source delivers.
\<close>

lemma serialNumber_bound:
  assumes "cr_Read cr 20 r = (Ret b, r')" and "length b = 20"
  shows "\<exists>n. serialNumber cr r = (Ret n, r') \<and> n < 2 ^ 159 \<and> n mod 256 ^ 19 = SetBytes (tl b)"
proof -
  obtain b0 bs where b: "b = b0 # bs" using assms(2) by (cases b) auto
  then have len: "length bs = 19" using assms(2) by simp
  have bound: "SetBytes bs < 256 ^ 19" using SetBytes_bound [of bs] len by simp
  have "b0 AND 0x7f \<le> 0x7f" by (simp add: word_and_le1)
  then have top: "unat (b0 AND 0x7f) \<le> 127" by (simp add: word_le_nat_alt)
  have n: "SetBytes ((b0 AND 0x7f) # bs) = unat (b0 AND 0x7f) * 256 ^ 19 + SetBytes bs"
    unfolding SetBytes_Cons len ..
  have "unat (b0 AND 0x7f) * 256 ^ 19 + SetBytes bs < 128 * 256 ^ 19"
    using top bound by (intro digit_bound) simp_all
  moreover have "128 * 256 ^ 19 = (2::nat) ^ 159" by simp
  ultimately have "SetBytes ((b0 AND 0x7f) # bs) < 2 ^ 159" unfolding n by (simp only:)
  moreover have "SetBytes ((b0 AND 0x7f) # bs) mod 256 ^ 19 = SetBytes bs"
    unfolding n using bound by (simp only: mod_mult_self3 mod_less)
  ultimately show ?thesis using assms(1) by (auto simp: serialNumber_def and_then_def pure_def b)
qed

text \<open>
  The command writes the authority's certificate, the server's certificate and the server's
  key, in this order, and no other file; when it succeeds the three files hold the encodings
  of one chain. The authority's private key is not written.
\<close>

lemma gentls_files:
  assumes written: "\<And>name b fs e fs'. WriteFile name b fs = (e, fs') \<Longrightarrow>
      (\<forall>other. other \<noteq> name \<longrightarrow> fs' other = fs other) \<and> (e = None \<longrightarrow> fs' name = Some b)"
    and run: "generateAndWriteCertificates cr WriteFile host (r, fs) = (res, r', fs')"
  shows "(\<forall>name. name \<notin> {''ca.pem'', ''server.pem'', ''server-key.pem''} \<longrightarrow> fs' name = fs name) \<and>
    (res = Ret () \<longrightarrow> (\<exists>ca r1 kp.
       GenerateCA cr \<lparr>ca_CommonName = ''SelfSigned'', ca_PermittedDNSDomains = [], ca_Expiry = 0\<rparr> r = (Ret ca, r1) \<and>
       CreateCertificate cr ca host oneYear r1 = (Ret kp, r') \<and>
       fs' ''ca.pem'' = Some (kp_CertificatePem ca) \<and> fs' ''server.pem'' = Some (kp_CertificatePem kp) \<and>
       fs' ''server-key.pem'' = Some (kp_PrivateKeyPem kp)))"
proof -
  have keep: "fs' other = fs other" if "WriteFile name b fs = (e, fs')" and "other \<noteq> name" for name b fs e fs' other
    using written [OF that(1)] that(2) by blast
  have stored: "fs' name = Some b" if "WriteFile name b fs = (None, fs')" for name b fs fs'
    using written [OF that] by blast
  show ?thesis
    using run unfolding generateAndWriteCertificates_def
    by (auto simp: keep stored split: prod.splits outcome.splits option.splits)
qed

text \<open>An exit code of zero means that the three files of one chain were written; a failure prints its error.\<close>

lemma gentls_exit:
  assumes written: "\<And>name b fs e fs'. WriteFile name b fs = (e, fs') \<Longrightarrow>
      (\<forall>other. other \<noteq> name \<longrightarrow> fs' other = fs other) \<and> (e = None \<longrightarrow> fs' name = Some b)"
    and run: "gentls_main cr WriteFile (Some host) (r, fs) = (Ret (code, out), r', fs')"
  shows "if code = 0 then out = '''' \<and> (\<exists>ca r1 kp.
       GenerateCA cr \<lparr>ca_CommonName = ''SelfSigned'', ca_PermittedDNSDomains = [], ca_Expiry = 0\<rparr> r = (Ret ca, r1) \<and>
       CreateCertificate cr ca host oneYear r1 = (Ret kp, r') \<and>
       fs' ''ca.pem'' = Some (kp_CertificatePem ca) \<and> fs' ''server.pem'' = Some (kp_CertificatePem kp) \<and>
       fs' ''server-key.pem'' = Some (kp_PrivateKeyPem kp))
     else code = 1 \<and> (\<exists>err. generateAndWriteCertificates cr WriteFile host (r, fs) = (Err err, r', fs') \<and> out = error_Error err @ [CHR 0x0A])"
proof -
  obtain res s1 where gen: "generateAndWriteCertificates cr WriteFile host (r, fs) = (res, s1)" by (rule prod.exhaust)
  have "s1 = (r', fs') \<and> (case res of Ret u \<Rightarrow> code = 0 \<and> out = '''' | Err err \<Rightarrow> code = 1 \<and> out = error_Error err @ [CHR 0x0A] | Panic m \<Rightarrow> False)"
    using run unfolding gentls_main_def by (cases res) (simp_all add: gen eq_commute [of s1])
  note final = this
  have "generateAndWriteCertificates cr WriteFile host (r, fs) = (res, r', fs')" using gen final by simp
  with gentls_files [OF written this] final show ?thesis by (cases res) simp_all
qed

section \<open>Witnesses\<close>

text \<open>
  Keys that are numbers, a random source that counts the keys and delivers zeros, a clock that
  stands still, and an encoding that knows two certificates: one chain can be made.
\<close>

definition example_template :: "string \<Rightarrow> template" where
  "example_template name =
     \<lparr>ct_SerialNumber = 0, ct_CommonName = name, ct_NotBefore = 0,
      ct_NotAfter = 300000000000 + DefaultExpiry,
      ct_KeyUsage = KeyUsageKeyEncipherment OR KeyUsageDigitalSignature,
      ct_BasicConstraintsValid = True, ct_IsCA = False, ct_DNSNames = [], ct_ExtKeyUsage = [],
      ct_PermittedDNSDomainsCritical = False, ct_PermittedDNSDomains = []\<rparr>"

definition example_ca :: template where
  "example_ca = caTemplate \<lparr>ca_CommonName = ''SelfSigned'', ca_PermittedDNSDomains = [], ca_Expiry = 0\<rparr>
     (example_template ''SelfSigned'')"

definition example_server_cert :: template where
  "example_server_cert = (example_template ''h'')\<lparr>ct_DNSNames := [''h''],
     ct_ExtKeyUsage := [ExtKeyUsageClientAuth, ExtKeyUsageServerAuth]\<rparr>"

definition example_crypto :: "(nat, nat, nat) crypto" where
  "example_crypto =
     \<lparr>cr_GenerateKey = (\<lambda>r. (Ret (r, r), Suc r)),
      cr_Read = (\<lambda>n r. (Ret (replicate n 0), r)),
      cr_Now = (\<lambda>r. 300000000000),
      cr_CreateCertificate = (\<lambda>t parent pub signer r.
        if t = example_ca \<and> ct_CommonName (fst parent) = ''SelfSigned'' \<and> pub = 0 \<and> signer = 0 then (Ret ''ca'', r)
        else if t = example_server_cert \<and> ct_CommonName (fst parent) = ''SelfSigned'' \<and> pub = 1 \<and> signer = 0
          then (Ret ''server'', r)
        else (Err (ErrorString ''x509''), r)),
      cr_ParseCertificate = (\<lambda>der.
        if der = ''ca'' then Ret (template.extend example_ca
          (Certificate.fields ''SelfSigned'' 0 ''ca''))
        else Ret (template.extend example_server_cert (Certificate.fields ''SelfSigned'' 1 ''server''))),
      cr_MarshalPKCS8PrivateKey = (\<lambda>priv. Ret (if priv = 0 then ''0'' else ''1'')),
      cr_EncodeToMemory = (\<lambda>ty der. ty @ '':'' @ der)\<rparr>"

lemma example_seconds:
  "ct_NotBefore example_ca = 0" "ct_NotAfter example_ca = 31536300000000000"
  "ct_NotBefore example_server_cert = 0" "ct_NotAfter example_server_cert = 31536300000000000"
  by (simp_all add: example_ca_def example_server_cert_def example_template_def DefaultExpiry_def)

lemma example_laws: "x509_laws example_crypto (=) (\<lambda>k cert. k = 0)"
  unfolding x509_laws_def
proof (intro conjI [OF _ allI] allI impI)
  show "pub = priv" if "cr_GenerateKey example_crypto r = (Ret (pub, priv), r')" for r pub priv r'
    using that by (simp add: example_crypto_def)
next
  fix t parent pub signer r der r' cert
  assume "cr_CreateCertificate example_crypto t parent pub signer r = (Ret der, r')" and cert: "cr_ParseCertificate example_crypto der = Ret cert"
  then consider
      "t = example_ca" "der = ''ca''" "pub = 0" "signer = 0" "ct_CommonName (fst parent) = ''SelfSigned''"
    | "t = example_server_cert" "der = ''server''" "pub = 1" "signer = 0" "ct_CommonName (fst parent) = ''SelfSigned''"
    by (auto simp: example_crypto_def split: if_splits)
  then show "template.truncate cert = t\<lparr>ct_NotBefore := seconds (ct_NotBefore t), ct_NotAfter := seconds (ct_NotAfter t)\<rparr> \<and>
      ct_Issuer cert = ct_CommonName (fst parent) \<and> ct_PublicKey cert = pub \<and> (\<forall>k. k = signer \<longrightarrow> k = 0)"
    by cases (use cert in \<open>auto simp: example_crypto_def seconds_def example_seconds template.defs Certificate.defs\<close>)
qed

lemma example_populate:
  "populateTemplate example_crypto name 0 r = (Ret (example_template name), r)"
  "populateTemplate example_crypto name oneYear r = (Ret (example_template name), r)"
proof -
  have sn: "serialNumber example_crypto r = (Ret 0, r)"
    by (simp add: serialNumber_def and_then_def pure_def example_crypto_def SetBytes_def numeral_eq_Suc)
  have year: "oneYear = DefaultExpiry" and "oneYear \<noteq> 0" by (simp_all add: oneYear_def DefaultExpiry_def)
  show "populateTemplate example_crypto name 0 r = (Ret (example_template name), r)"
    "populateTemplate example_crypto name oneYear r = (Ret (example_template name), r)"
    using \<open>oneYear \<noteq> 0\<close>
    by (simp_all add: populateTemplate_def and_then_def sn example_template_def year Let_def)
      (simp_all add: example_crypto_def)
qed

abbreviation example_ca_config :: CAConfig where
  "example_ca_config \<equiv> \<lparr>ca_CommonName = ''SelfSigned'', ca_PermittedDNSDomains = [], ca_Expiry = 0\<rparr>"

definition example_ca_pair :: "(nat, nat) CertificateKeyPair" where
  "example_ca_pair = \<lparr>kp_PrivateKeyPem = ''PRIVATE KEY:0'', kp_CertificatePem = ''CERTIFICATE:ca'',
     kp_Certificate = template.extend example_ca (Certificate.fields ''SelfSigned'' 0 ''ca''), kp_PrivateKey = 0\<rparr>"

definition example_server_pair :: "(nat, nat) CertificateKeyPair" where
  "example_server_pair = \<lparr>kp_PrivateKeyPem = ''PRIVATE KEY:1'', kp_CertificatePem = ''CERTIFICATE:server'',
     kp_Certificate = template.extend example_server_cert (Certificate.fields ''SelfSigned'' 1 ''server''),
     kp_PrivateKey = 1\<rparr>"

lemma example_names: "ct_CommonName example_ca = ''SelfSigned''"
  by (simp add: example_ca_def example_template_def)

lemma example_chain:
  "GenerateCA example_crypto example_ca_config 0 = (Ret example_ca_pair, 1)"
  "CreateCertificate example_crypto example_ca_pair ''h'' oneYear 1 = (Ret example_server_pair, 2)"
proof -
  have ca: "caTemplate example_ca_config (example_template ''SelfSigned'') = example_ca"
    by (simp add: example_ca_def)
  have server: "(example_template ''h'')\<lparr>ct_DNSNames := [''h''],
      ct_ExtKeyUsage := [ExtKeyUsageClientAuth, ExtKeyUsageServerAuth]\<rparr> = example_server_cert"
    by (simp add: example_server_cert_def)
  have differ: "example_server_cert \<noteq> example_ca"
    by (simp add: example_server_cert_def example_ca_def caTemplate_def example_template_def)
  have key: "cr_GenerateKey example_crypto r = (Ret (r, r), Suc r)" for r by (simp add: example_crypto_def)
  show "GenerateCA example_crypto example_ca_config 0 = (Ret example_ca_pair, 1)"
    by (simp add: GenerateCA_def and_then_def key example_populate ca)
      (simp add: issue_def and_then_def pure_def encodeKeyPair_def example_crypto_def example_names
        example_ca_pair_def Certificate.defs template.defs)
  show "CreateCertificate example_crypto example_ca_pair ''h'' oneYear 1 = (Ret example_server_pair, 2)"
    by (simp add: CreateCertificate_def and_then_def key example_populate server)
      (simp add: issue_def and_then_def pure_def encodeKeyPair_def example_crypto_def example_names differ
        example_ca_pair_def example_server_pair_def Certificate.defs template.defs)
qed

theorem issued_certificate_verifies_witness:
  "verifies (\<lambda>name. name = ''10.0.0.1'') (\<lambda>d h. False) (\<lambda>k cert. k = 0) (NewCertPoolFromCA (kp_Certificate example_ca_pair))
     (kp_Certificate example_server_pair) ''h'' 1000000000"
  using issued_certificate_verifies [OF example_laws example_chain, of "\<lambda>name. name = ''10.0.0.1''" "\<lambda>d h. False"]
  by (auto simp: example_crypto_def validity_def seconds_def DefaultExpiry_def oneYear_def candidateIP_def)

end
