(* ===== verification/MainProcess.thy ===== *)
theory MainProcess
  imports Server
begin

text \<open>
  The process of \<^verbatim>\<open>cmd/cel-admission-webhook/main.go\<close>: the set-up with its early returns, and the
  goroutines of the plugin and of the webhook server with the context and the wait group they
  share. The webhook server is the one of theory \<^verbatim>\<open>Server\<close>; of the plugin it matters when
  its \<^verbatim>\<open>Run\<close> returns, which is after its stop channel was closed.
\<close>

section \<open>Set-up\<close>

record 'cfg loaders =
  ld_ClientConfig :: "'cfg result"
  ld_InClusterConfig :: "'cfg result"
  ld_customClient :: "'cfg \<Rightarrow> unit result"
  ld_kubeClient :: "'cfg \<Rightarrow> unit result"
  ld_dynamicClient :: "'cfg \<Rightarrow> unit result"
  ld_apiextensionsClient :: "'cfg \<Rightarrow> unit result"

definition loadClientConfig :: "'cfg loaders \<Rightarrow> 'cfg result" where
  "loadClientConfig ld =
     (case ld_ClientConfig ld of
        Ret config \<Rightarrow> Ret config
      | Err err \<Rightarrow> ld_InClusterConfig ld
      | Panic m \<Rightarrow> Panic m)"

text \<open>Every failure ends \<^verbatim>\<open>main\<close> before any goroutine is started; the result is the configuration.\<close>

definition main_setup :: "'cfg loaders \<Rightarrow> 'cfg result" where
  "main_setup ld =
     bind_outcome (loadClientConfig ld) (\<lambda>restConfig.
     bind_outcome (ld_customClient ld restConfig) (\<lambda>_.
     bind_outcome (ld_kubeClient ld restConfig) (\<lambda>_.
     bind_outcome (ld_dynamicClient ld restConfig) (\<lambda>_.
     bind_outcome (ld_apiextensionsClient ld restConfig) (\<lambda>_. Ret restConfig)))))"

section \<open>The running process\<close>

text \<open>
  \<^verbatim>\<open>main\<close> starts the three informer factories after the goroutines, then waits for the wait
  group, then exits.
\<close>

datatype main_pc = StartFactories nat | WaitGroup | Exited

record main_state =
  ms_pc :: main_pc
  ms_signal :: bool
  ms_serverCancel :: bool
  ms_pluginRuns :: bool
  ms_web :: run_state
  ms_webRuns :: bool
  ms_waitGroup :: nat

definition main_init :: main_state where
  "main_init = \<lparr>ms_pc = StartFactories 3, ms_signal = False, ms_serverCancel = False,
     ms_pluginRuns = True, ms_web = run_init, ms_webRuns = True, ms_waitGroup = 2\<rparr>"

text \<open>\<^verbatim>\<open>serverContext.Done()\<close>: the context derives from the one that signals cancel.\<close>

definition serverContext_done :: "main_state \<Rightarrow> bool" where
  "serverContext_done s \<longleftrightarrow> ms_signal s \<or> ms_serverCancel s"

text \<open>
  The steps: a signal arrives; the webhook's \<^verbatim>\<open>Run\<close> sees the cancelled context or makes a step of
  its own; the plugin's \<^verbatim>\<open>Run\<close> returns and its goroutine cancels the context; the webhook's
  goroutine does the same in its deferred function; \<^verbatim>\<open>main\<close> starts the factories, waits and exits.
\<close>

inductive main_step :: "bool \<Rightarrow> main_state \<Rightarrow> main_state \<Rightarrow> bool" for changes where
  signal: "main_step changes s (s\<lparr>ms_signal := True\<rparr>)"
| web_cancel: "serverContext_done s \<Longrightarrow> run_ctxErr (ms_web s) = None \<Longrightarrow>
    main_step changes s (s\<lparr>ms_web := (ms_web s)\<lparr>run_ctxErr := Some context_Canceled\<rparr>\<rparr>)"
| web_runs: "run_step changes (ms_web s) w \<Longrightarrow> run_ctxErr w = run_ctxErr (ms_web s) \<Longrightarrow>
    main_step changes s (s\<lparr>ms_web := w\<rparr>)"
| plugin_returns: "ms_pluginRuns s \<Longrightarrow> serverContext_done s \<Longrightarrow>
    main_step changes s (s\<lparr>ms_pluginRuns := False, ms_serverCancel := True, ms_waitGroup := ms_waitGroup s - 1\<rparr>)"
| web_returns: "ms_webRuns s \<Longrightarrow> run_at (ms_web s) = Returned x \<Longrightarrow>
    main_step changes s (s\<lparr>ms_webRuns := False, ms_serverCancel := True, ms_waitGroup := ms_waitGroup s - 1\<rparr>)"
| start_factory: "ms_pc s = StartFactories (Suc n) \<Longrightarrow>
    main_step changes s (s\<lparr>ms_pc := if n = 0 then WaitGroup else StartFactories n\<rparr>)"
| main_exits: "ms_pc s = WaitGroup \<Longrightarrow> ms_waitGroup s = 0 \<Longrightarrow> main_step changes s (s\<lparr>ms_pc := Exited\<rparr>)"

section \<open>Lemmas\<close>

inductive_cases main_stepE: "main_step changes s t"

definition main_inv :: "bool \<Rightarrow> main_state \<Rightarrow> bool" where
  "main_inv changes s \<longleftrightarrow>
     (run_step changes)\<^sup>*\<^sup>* run_init (ms_web s) \<and>
     ms_waitGroup s = (if ms_pluginRuns s then 1 else 0) + (if ms_webRuns s then 1 else 0) \<and>
     (\<not> ms_webRuns s \<longrightarrow> (\<exists>x. run_at (ms_web s) = Returned x)) \<and>
     (\<not> ms_webRuns s \<or> \<not> ms_pluginRuns s \<longrightarrow> ms_serverCancel s) \<and>
     (ms_pc s = Exited \<longrightarrow> ms_waitGroup s = 0)"

lemma returned_stays: "run_step changes w v \<Longrightarrow> run_at w = Returned x \<Longrightarrow> run_at v = Returned x"
  by (erule run_step.cases) (auto simp: launchServer_def)

interpretation main: step_invariant "main_step changes" "main_inv changes" for changes
proof
  fix s t
  assume step: "main_step changes s t" and inv: "main_inv changes s"
  have reach: "(run_step changes)\<^sup>*\<^sup>* run_init w" if "run_step changes (ms_web s) w" for w
    using inv that by (auto simp: main_inv_def intro: rtranclp.rtrancl_into_rtrancl)
  have cancel: "run_step changes (ms_web s) ((ms_web s)\<lparr>run_ctxErr := Some context_Canceled\<rparr>)"
    if "run_ctxErr (ms_web s) = None" using that by (auto intro: run_step.cancel)
  from step show "main_inv changes t"
  proof cases
    case web_cancel
    then show ?thesis using inv reach [OF cancel] by (auto simp: main_inv_def)
  next
    case (web_runs w)
    then show ?thesis using inv reach returned_stays by (auto simp: main_inv_def)
  qed (use inv in \<open>auto simp: main_inv_def split: if_splits\<close>)
qed

lemma main_inv_init: "main_inv changes main_init"
  by (simp add: main_inv_def main_init_def)

lemma web_stuck:
  assumes "main_step changes s t" and "main_inv changes s" and "run_at (ms_web s) = Waiting x" and "x \<noteq> ByServer"
  shows "run_at (ms_web t) = Waiting x"
  using assms(1)
proof cases
  case (web_runs w)
  have "run_inv (ms_web s)" using assms(2) reachable_run_inv by (auto simp: main_inv_def)
  then show ?thesis using web_runs run_stuck_step assms(3,4) by auto
qed (use assms in auto)

section \<open>Properties\<close>

text \<open>
  C29. The process ends only through its HTTP server: \<^verbatim>\<open>main\<close> exits only after the webhook's \<^verbatim>\<open>Run\<close>
  returned because a server failed, and after the plugin has stopped. In particular, a
  signal that makes \<^verbatim>\<open>Run\<close> leave its loop does not end the process: in no later state has \<^verbatim>\<open>main\<close>
  exited. When one of the two goroutines has ended, the context of the other is cancelled.
\<close>

theorem process_exit:
  assumes "(main_step changes)\<^sup>*\<^sup>* main_init s" and "(main_step changes)\<^sup>*\<^sup>* s t"
  shows "(ms_pc s = Exited \<longrightarrow> run_at (ms_web s) = Returned ByServer \<and> \<not> ms_pluginRuns s) \<and>
    (run_at (ms_web s) = Waiting x \<and> x \<noteq> ByServer \<longrightarrow> ms_pc t \<noteq> Exited) \<and>
    (\<not> ms_webRuns s \<or> \<not> ms_pluginRuns s \<longrightarrow> serverContext_done s)"
proof (intro conjI impI)
  have inv: "main_inv changes s" using assms(1) main_inv_init by (rule main.steps_inv)
  show "run_at (ms_web s) = Returned ByServer" if "ms_pc s = Exited"
  proof -
    have "\<not> ms_webRuns s" and "(run_step changes)\<^sup>*\<^sup>* run_init (ms_web s)"
      using inv that by (auto simp: main_inv_def split: if_splits)
    moreover obtain y where "run_at (ms_web s) = Returned y" using inv calculation by (auto simp: main_inv_def)
    ultimately show ?thesis using run_returned_inv by blast
  qed
  show "\<not> ms_pluginRuns s" if "ms_pc s = Exited" using inv that by (auto simp: main_inv_def split: if_splits)
  show "serverContext_done s" if "\<not> ms_webRuns s \<or> \<not> ms_pluginRuns s"
    using inv that by (auto simp: main_inv_def serverContext_done_def)
  show "ms_pc t \<noteq> Exited" if x: "run_at (ms_web s) = Waiting x \<and> x \<noteq> ByServer"
  proof -
    from assms(2) have "main_inv changes t \<and> run_at (ms_web t) = Waiting x"
    proof (induction rule: rtranclp_induct)
      case base
      then show ?case using inv x by simp
    next
      case (step t u)
      then show ?case using web_stuck x main.step_inv by blast
    qed
    then show ?thesis by (auto simp: main_inv_def split: if_splits)
  qed
qed

section \<open>Witnesses\<close>

definition example_signalled :: main_state where
  "example_signalled = main_init\<lparr>ms_signal := True, ms_web := example_cancelled\<rparr>"

lemma example_signalled_reachable: "(main_step False)\<^sup>*\<^sup>* main_init example_signalled"
proof -
  let ?s1 = "main_init\<lparr>ms_signal := True\<rparr>"
  let ?w = "run_init\<lparr>run_ctxErr := Some context_Canceled\<rparr>"
  have 1: "main_step False main_init ?s1" by (rule main_step.signal)
  have 2: "main_step False ?s1 (?s1\<lparr>ms_web := ?w\<rparr>)"
    using main_step.web_cancel [of ?s1 False] by (simp add: main_init_def serverContext_done_def run_init_def)
  have "run_step False ?w example_cancelled"
    using run_step.ctx_done [of ?w context_Canceled False] by (simp add: run_init_def example_cancelled_def)
  then have 3: "main_step False (?s1\<lparr>ms_web := ?w\<rparr>) example_signalled"
    using main_step.web_runs [of False "?s1\<lparr>ms_web := ?w\<rparr>" example_cancelled]
    by (simp add: example_signalled_def example_cancelled_def break_loop_def)
  from 1 2 3 show ?thesis by (meson rtranclp.rtrancl_into_rtrancl rtranclp.rtrancl_refl)
qed

theorem process_exit_witness:
  "run_at (ms_web example_signalled) = Waiting ByContext \<and> ms_pc example_signalled \<noteq> Exited"
proof -
  have "run_at (ms_web example_signalled) = Waiting ByContext"
    by (simp add: example_signalled_def example_cancelled_def break_loop_def)
  then show ?thesis
    using process_exit [OF example_signalled_reachable rtranclp.rtrancl_refl, of ByContext] by simp
qed

end
