(* ===== verification/GoHeap.thy ===== *)
theory GoHeap
  imports Prelude "HOL-Library.Word" "HOL-Library.AList"
begin

text \<open>
  Memory as Go programs see it: values that hold pointers, slices and maps, and the cells these
  refer to. A shape says where a Go type has such references; a value is read along its shape
  into a tree, which is what the program observes of it. The statements the copy generator
  emits are functions on this memory. A function is a deep copier of a shape (locale
  \<open>deep_copier\<close>) if it leaves all existing cells alone and returns a value that reads the same
  and only refers to new cells; the lemmas show that the emitted statements make deep copiers out
  of deep copiers.
\<close>

section \<open>Values, cells and shapes\<close>

datatype basic = GoString string | GoBool bool | GoInt64 "64 word" | GoByte "8 word" | GoTime "int option"

text \<open>A slice is a part of an array: its cell, the offset of the first element and the length.\<close>

datatype gval =
    VBasic basic
  | VPtr "nat option"
  | VSlice "(nat \<times> nat \<times> nat) option"
  | VMap "nat option"
  | VStruct "(string \<times> gval) list"

datatype cell = Obj gval | Arr "gval list" | MapCell "(string \<times> basic) list"

type_synonym heap = "cell list"

datatype shape = SBasic | SPtr shape | SSlice shape | SMap | SStruct "(string \<times> shape) list"

datatype tree =
    TBasic basic
  | TNil
  | TPtr tree
  | TSlice "tree list"
  | TMap "string \<rightharpoonup> basic"
  | TStruct "(string \<times> tree) list"

definition cell_at :: "heap \<Rightarrow> nat \<Rightarrow> cell option" where
  "cell_at h a = (if a < length h then Some (h ! a) else None)"

definition elems :: "gval list \<Rightarrow> nat \<Rightarrow> nat \<Rightarrow> gval list" where
  "elems ws off n = take n (drop off ws)"

text \<open>What a value shows; \<open>None\<close> when it does not have the shape.\<close>

fun readv :: "heap \<Rightarrow> shape \<Rightarrow> gval \<Rightarrow> tree option"
  and read_fields :: "heap \<Rightarrow> (string \<times> shape) list \<Rightarrow> (string \<times> gval) list \<Rightarrow> (string \<times> tree) list option" where
  "readv h SBasic v = (case v of VBasic b \<Rightarrow> Some (TBasic b) | _ \<Rightarrow> None)"
| "readv h (SPtr s) v =
     (case v of
        VPtr None \<Rightarrow> Some TNil
      | VPtr (Some a) \<Rightarrow> (case cell_at h a of Some (Obj w) \<Rightarrow> map_option TPtr (readv h s w) | _ \<Rightarrow> None)
      | _ \<Rightarrow> None)"
| "readv h (SSlice s) v =
     (case v of
        VSlice None \<Rightarrow> Some TNil
      | VSlice (Some (a, off, n)) \<Rightarrow>
          (case cell_at h a of
             Some (Arr ws) \<Rightarrow>
               if off + n \<le> length ws then map_option TSlice (those (map (readv h s) (elems ws off n))) else None
           | _ \<Rightarrow> None)
      | _ \<Rightarrow> None)"
| "readv h SMap v =
     (case v of
        VMap None \<Rightarrow> Some TNil
      | VMap (Some a) \<Rightarrow> (case cell_at h a of Some (MapCell m) \<Rightarrow> Some (TMap (map_of m)) | _ \<Rightarrow> None)
      | _ \<Rightarrow> None)"
| "readv h (SStruct fs) v = (case v of VStruct vs \<Rightarrow> map_option TStruct (read_fields h fs vs) | _ \<Rightarrow> None)"
| "read_fields h [] vs = (if vs = [] then Some [] else None)"
| "read_fields h ((n, s) # fs) vs =
     (case vs of
        (m, v) # vs' \<Rightarrow>
          if n = m then
            (case readv h s v of
               Some t \<Rightarrow> map_option (\<lambda>ts. (n, t) # ts) (read_fields h fs vs')
             | None \<Rightarrow> None)
          else None
      | [] \<Rightarrow> None)"

text \<open>The cells a value refers to, directly or through others.\<close>

fun cells :: "heap \<Rightarrow> shape \<Rightarrow> gval \<Rightarrow> nat set"
  and cells_fields :: "heap \<Rightarrow> (string \<times> shape) list \<Rightarrow> (string \<times> gval) list \<Rightarrow> nat set" where
  "cells h SBasic v = {}"
| "cells h (SPtr s) v =
     (case v of
        VPtr (Some a) \<Rightarrow> insert a (case cell_at h a of Some (Obj w) \<Rightarrow> cells h s w | _ \<Rightarrow> {})
      | _ \<Rightarrow> {})"
| "cells h (SSlice s) v =
     (case v of
        VSlice (Some (a, off, n)) \<Rightarrow>
          insert a (case cell_at h a of Some (Arr ws) \<Rightarrow> \<Union> (set (map (cells h s) (elems ws off n))) | _ \<Rightarrow> {})
      | _ \<Rightarrow> {})"
| "cells h SMap v = (case v of VMap (Some a) \<Rightarrow> {a} | _ \<Rightarrow> {})"
| "cells h (SStruct fs) v = (case v of VStruct vs \<Rightarrow> cells_fields h fs vs | _ \<Rightarrow> {})"
| "cells_fields h [] vs = {}"
| "cells_fields h ((n, s) # fs) vs =
     (case vs of (m, v) # vs' \<Rightarrow> cells h s v \<union> cells_fields h fs vs' | [] \<Rightarrow> {})"

section \<open>The statements of the copy generator\<close>

type_synonym copier = "gval \<Rightarrow> heap \<Rightarrow> gval \<times> heap"

text \<open>\<^verbatim>\<open>*out = *in\<close>\<close>

definition copy_shallow :: copier where
  "copy_shallow v h = (v, h)"

text \<open>Fresh storage before its first assignment.\<close>

definition zeroed :: gval where
  "zeroed = VStruct []"

text \<open>
  \<^verbatim>\<open>if in.F != nil { *out = new(T); (*in).DeepCopyInto(*out) }\<close>. Where \<^verbatim>\<open>T\<close> is a basic type, the
  assignment \<^verbatim>\<open>**out = **in\<close> takes the place of the call.
\<close>

definition copy_ptr :: "copier \<Rightarrow> copier" where
  "copy_ptr f v h =
     (case v of
        VPtr (Some a) \<Rightarrow>
          (case cell_at h a of
             Some (Obj w) \<Rightarrow>
               let b = length h; (w', h') = f w (h @ [Obj zeroed])
               in (VPtr (Some b), h'[b := Obj w'])
           | _ \<Rightarrow> (v, h))
      | _ \<Rightarrow> (v, h))"

text \<open>\<^verbatim>\<open>if in.F != nil { *out = make([]T, len(*in)); for i := range *in { (*in)[i].DeepCopyInto(&(*out)[i]) } }\<close>\<close>

fun copy_loop :: "copier \<Rightarrow> nat \<Rightarrow> nat \<Rightarrow> gval list \<Rightarrow> heap \<Rightarrow> heap" where
  "copy_loop f b i [] h = h"
| "copy_loop f b i (w # ws) h =
     (let (w', h') = f w h
      in copy_loop f b (Suc i) ws (case h' ! b of Arr xs \<Rightarrow> h'[b := Arr (xs[i := w'])] | _ \<Rightarrow> h'))"

definition copy_slice :: "copier \<Rightarrow> copier" where
  "copy_slice f v h =
     (case v of
        VSlice (Some (a, off, n)) \<Rightarrow>
          (case cell_at h a of
             Some (Arr ws) \<Rightarrow>
               (VSlice (Some (length h, 0, n)),
                copy_loop f (length h) 0 (elems ws off n) (h @ [Arr (replicate n zeroed)]))
           | _ \<Rightarrow> (v, h))
      | _ \<Rightarrow> (v, h))"

text \<open>\<^verbatim>\<open>if in.F != nil { *out = make([]T, len(*in)); copy(*out, *in) }\<close>\<close>

definition copy_slice_flat :: copier where
  "copy_slice_flat v h =
     (case v of
        VSlice (Some (a, off, n)) \<Rightarrow>
          (case cell_at h a of
             Some (Arr ws) \<Rightarrow> (VSlice (Some (length h, 0, n)), h @ [Arr (elems ws off n)])
           | _ \<Rightarrow> (v, h))
      | _ \<Rightarrow> (v, h))"

text \<open>\<^verbatim>\<open>if in.F != nil { *out = make(map[string]string, len(*in)); for key, val := range *in { (*out)[key] = val } }\<close>\<close>

definition copy_map :: copier where
  "copy_map v h =
     (case v of
        VMap (Some a) \<Rightarrow>
          (case cell_at h a of
             Some (MapCell m) \<Rightarrow>
               (VMap (Some (length h)), h @ [MapCell (fold (\<lambda>(key, val) out. AList.update key val out) (rev m) [])])
           | _ \<Rightarrow> (v, h))
      | _ \<Rightarrow> (v, h))"

text \<open>
  The body of a \<^verbatim>\<open>DeepCopyInto\<close>: \<^verbatim>\<open>*out = *in\<close>, then for each listed field of \<^verbatim>\<open>in\<close> its copy into
  the field of \<^verbatim>\<open>out\<close>.
\<close>

definition set_field :: "string \<Rightarrow> gval \<Rightarrow> (string \<times> gval) list \<Rightarrow> (string \<times> gval) list" where
  "set_field n v fs = map (\<lambda>(m, w). if m = n then (m, v) else (m, w)) fs"

fun copy_steps ::
  "(string \<times> copier) list \<Rightarrow> (string \<times> gval) list \<Rightarrow> (string \<times> gval) list \<Rightarrow> heap \<Rightarrow> (string \<times> gval) list \<times> heap" where
  "copy_steps [] ins outs h = (outs, h)"
| "copy_steps ((n, f) # steps) ins outs h =
     (case map_of ins n of
        None \<Rightarrow> copy_steps steps ins outs h
      | Some v \<Rightarrow> let (v', h') = f v h in copy_steps steps ins (set_field n v' outs) h')"

definition copy_struct :: "(string \<times> copier) list \<Rightarrow> copier" where
  "copy_struct steps v h =
     (case v of
        VStruct fs \<Rightarrow> let (outs, h') = copy_steps steps fs fs h in (VStruct outs, h')
      | _ \<Rightarrow> (v, h))"

section \<open>Lemmas\<close>

subsection \<open>Reading depends on the reached cells only\<close>

lemma those_map_Some:
  "those (map f xs) = Some ys \<longleftrightarrow> length ys = length xs \<and> (\<forall>i < length xs. f (xs ! i) = Some (ys ! i))"
proof (induction xs arbitrary: ys)
  case (Cons x xs)
  show ?case
  proof (cases ys)
    case (Cons y ys')
    then show ?thesis using Cons.IH [of ys'] by (auto simp: less_Suc_eq_0_disj split: option.split)
  qed (auto split: option.split)
qed auto

lemma read_fields_Some:
  "read_fields h fs vs = Some ts \<longleftrightarrow> map fst vs = map fst fs \<and> map fst ts = map fst fs \<and>
     (\<forall>i < length fs. readv h (snd (fs ! i)) (snd (vs ! i)) = Some (snd (ts ! i)))"
proof (induction fs arbitrary: vs ts)
  case (Cons f fs)
  obtain n s where f: "f = (n, s)" by (cases f)
  show ?case
  proof (cases vs)
    case Nil
    then show ?thesis by (simp add: f)
  next
    case v: (Cons v vs')
    show ?thesis
    proof (cases ts)
      case Nil
      then show ?thesis by (auto simp: f v split: prod.splits option.splits)
    next
      case t: (Cons t ts')
      show ?thesis
        using Cons.IH [of vs' ts'] by (cases v; cases t) (auto simp: f v(1) t less_Suc_eq_0_disj split: option.splits)
    qed
  qed
qed auto

lemma cells_fields_nth:
  "map fst vs = map fst fs \<Longrightarrow> cells_fields h fs vs = (\<Union>i < length fs. cells h (snd (fs ! i)) (snd (vs ! i)))"
proof (induction fs arbitrary: vs)
  case (Cons f fs)
  obtain v vs' where vs: "vs = v # vs'" using Cons.prems by (cases vs) auto
  have "cells_fields h fs vs' = (\<Union>i < length fs. cells h (snd (fs ! i)) (snd (vs' ! i)))"
    using Cons vs by auto
  then show ?case by (cases f; cases v) (simp add: vs lessThan_Suc_eq_insert_0)
qed simp

lemma frame:
  "readv h s v = Some t \<Longrightarrow> (\<And>a. a \<in> cells h s v \<Longrightarrow> cell_at h' a = cell_at h a) \<Longrightarrow>
     readv h' s v = Some t \<and> cells h' s v = cells h s v"
  "read_fields h fs vs = Some ts \<Longrightarrow> (\<And>a. a \<in> cells_fields h fs vs \<Longrightarrow> cell_at h' a = cell_at h a) \<Longrightarrow>
     read_fields h' fs vs = Some ts \<and> cells_fields h' fs vs = cells_fields h fs vs"
proof (induction h s v and h fs vs arbitrary: t and ts rule: readv_read_fields.induct)
  case (3 h s v)
  show ?case
  proof (cases v)
    case (VSlice sl)
    show ?thesis
    proof (cases sl)
      case (Some p)
      obtain a off n where p: "p = (a, off, n)" by (cases p)
      obtain ws us where ws: "cell_at h a = Some (Arr ws)" "off + n \<le> length ws"
        and us: "those (map (readv h s) (elems ws off n)) = Some us" "t = TSlice us"
        using "3.prems"(1) by (auto simp: VSlice Some p split: option.splits cell.splits if_splits)
      have same: "cell_at h' a = Some (Arr ws)" using "3.prems"(2) [of a] ws by (simp add: VSlice Some p)
      have "readv h' s w = Some u \<and> cells h' s w = cells h s w" if "w \<in> set (elems ws off n)" "readv h s w = Some u" for w u
        using "3.IH" [OF VSlice Some p [symmetric] refl ws(1) refl ws(2) that] "3.prems"(2) that ws
        by (auto simp: VSlice Some p)
      note elem = this
      have readable: "\<exists>u. readv h s w = Some u" if "w \<in> set (elems ws off n)" for w
        using that us(1) by (auto simp: those_map_Some in_set_conv_nth)
      have "cells h' s w = cells h s w" if "w \<in> set (elems ws off n)" for w
        using elem readable that by blast
      then have "\<Union> (set (map (cells h' s) (elems ws off n))) = \<Union> (set (map (cells h s) (elems ws off n)))"
        by simp
      moreover have "those (map (readv h' s) (elems ws off n)) = Some us"
        using us(1) elem by (simp add: those_map_Some)
      ultimately show ?thesis using us(2) ws same by (simp add: VSlice Some p)
    qed (use "3.prems" in \<open>simp add: VSlice\<close>)
  qed (use "3.prems" in simp_all)
next
  case (7 h n s fs vs)
  obtain v vs' t ts' where vs: "vs = (n, v) # vs'" and t: "readv h s v = Some t"
    and ts: "read_fields h fs vs' = Some ts'" "ts = (n, t) # ts'"
    using "7.prems"(1) by (auto split: list.splits if_splits option.splits)
  have "readv h' s v = Some t \<and> cells h' s v = cells h s v"
    using "7.IH"(1) [OF vs refl refl t] "7.prems"(2) by (simp add: vs)
  moreover have "read_fields h' fs vs' = Some ts' \<and> cells_fields h' fs vs' = cells_fields h fs vs'"
    using "7.IH"(2) [OF vs refl refl t ts(1)] "7.prems"(2) by (simp add: vs)
  ultimately show ?case by (simp add: vs ts(2))
qed (auto split: gval.splits option.splits cell.splits list.splits if_splits)

lemma bounded:
  "readv h s v = Some t \<Longrightarrow> cells h s v \<subseteq> {..<length h}"
  "read_fields h fs vs = Some ts \<Longrightarrow> cells_fields h fs vs \<subseteq> {..<length h}"
proof (induction h s v and h fs vs arbitrary: t and ts rule: readv_read_fields.induct)
  case (3 h s v)
  show ?case
  proof (cases v)
    case (VSlice sl)
    show ?thesis
    proof (cases sl)
      case (Some p)
      obtain a off n where p: "p = (a, off, n)" by (cases p)
      obtain ws us where ws: "cell_at h a = Some (Arr ws)" "off + n \<le> length ws"
        and us: "those (map (readv h s) (elems ws off n)) = Some us"
        using "3.prems"(1) by (auto simp: VSlice Some p split: option.splits cell.splits if_splits)
      have "cells h s w \<subseteq> {..<length h}" if "w \<in> set (elems ws off n)" for w
        using "3.IH" [OF VSlice Some p [symmetric] refl ws(1) refl ws(2) that] that us
        by (auto simp: those_map_Some in_set_conv_nth)
      then show ?thesis using ws by (auto simp: VSlice Some p cell_at_def split: if_splits)
    qed (simp add: VSlice)
  qed simp_all
next
  case (7 h n s fs vs)
  obtain v vs' t ts' where vs: "vs = (n, v) # vs'" and t: "readv h s v = Some t"
    and ts: "read_fields h fs vs' = Some ts'"
    using "7.prems"(1) by (auto split: list.splits if_splits option.splits)
  show ?case using "7.IH"(1) [OF vs refl refl t] "7.IH"(2) [OF vs refl refl t ts] by (simp add: vs)
qed (auto simp: cell_at_def split: gval.splits option.splits cell.splits if_splits)

text \<open>Growing the memory changes nothing of what can be read.\<close>

definition grows :: "heap \<Rightarrow> heap \<Rightarrow> bool" where
  "grows h h' \<longleftrightarrow> (\<exists>cs. h' = h @ cs)"

lemma grows_refl [simp]: "grows h h"
  by (simp add: grows_def)

lemma grows_trans: "grows h1 h2 \<Longrightarrow> grows h2 h3 \<Longrightarrow> grows h1 h3"
  by (auto simp: grows_def)

lemma grows_append [simp]: "grows h (h @ cs)"
  by (simp add: grows_def)

lemma grows_length: "grows h h' \<Longrightarrow> length h \<le> length h'"
  by (auto simp: grows_def)

lemma grows_at: "grows h h' \<Longrightarrow> a < length h \<Longrightarrow> cell_at h' a = cell_at h a"
  by (auto simp: grows_def cell_at_def nth_append)

lemma grows_read: "grows h h' \<Longrightarrow> readv h s v = Some t \<Longrightarrow> readv h' s v = Some t \<and> cells h' s v = cells h s v"
  using bounded(1) grows_at by (intro frame(1)) blast+

lemma grows_update: "grows h h' \<Longrightarrow> length h \<le> b \<Longrightarrow> grows h (h'[b := c])"
  by (auto simp: grows_def list_update_append)

lemma update_read:
  "readv h s v = Some t \<Longrightarrow> b \<notin> cells h s v \<Longrightarrow>
     readv (h[b := c]) s v = Some t \<and> cells (h[b := c]) s v = cells h s v"
  by (intro frame(1)) (simp_all add: cell_at_def, metis nth_list_update_neq)

subsection \<open>Deep copiers\<close>

text \<open>
  The contract of a \<^verbatim>\<open>DeepCopyInto\<close>. Its consequences are that the original and the copy share
  nothing, so that writing to the cells of one of them is not seen through the other.
\<close>

locale deep_copier =
  fixes shape :: shape and copy :: copier
  assumes copied: "readv h shape v = Some t \<Longrightarrow> copy v h = (v', h') \<Longrightarrow>
    grows h h' \<and> readv h' shape v' = Some t \<and> cells h' shape v' \<subseteq> {length h..<length h'}"
begin

lemma original_kept:
  assumes "readv h shape v = Some t" and "copy v h = (v', h')"
  shows "readv h' shape v = Some t \<and> cells h' shape v = cells h shape v"
  using copied [OF assms] assms(1) grows_read by blast

lemma disjoint:
  assumes "readv h shape v = Some t" and "copy v h = (v', h')"
  shows "cells h' shape v \<inter> cells h' shape v' = {}"
  using copied [OF assms] original_kept [OF assms] bounded(1) [OF assms(1)] by fastforce

lemma isolated:
  assumes "readv h shape v = Some t" and "copy v h = (v', h')"
  shows "(\<And>a. a \<notin> cells h' shape v' \<Longrightarrow> cell_at h2 a = cell_at h' a) \<Longrightarrow> readv h2 shape v = Some t"
    and "(\<And>a. a \<notin> cells h' shape v \<Longrightarrow> cell_at h2 a = cell_at h' a) \<Longrightarrow> readv h2 shape v' = Some t"
  using frame(1) [of h' shape v t h2] frame(1) [of h' shape v' t h2] original_kept [OF assms] copied [OF assms]
    disjoint [OF assms] by blast+

end

text \<open>Types without references are copied by an assignment.\<close>

fun flat :: "shape \<Rightarrow> bool" where
  "flat SBasic = True"
| "flat (SStruct fs) = (\<forall>(n, s) \<in> set fs. flat s)"
| "flat _ = False"

lemma flat_cells: "flat s \<Longrightarrow> cells h s v = {}"
  and flat_cells_fields: "(\<forall>(n, s) \<in> set fs. flat s) \<Longrightarrow> cells_fields h fs vs = {}"
  by (induction h s v and h fs vs rule: cells_cells_fields.induct) (auto split: gval.split list.split)

lemma deep_shallow: "flat s \<Longrightarrow> deep_copier s copy_shallow"
  by unfold_locales (auto simp: copy_shallow_def flat_cells)

lemma deep_ptr:
  assumes f: "deep_copier s f"
  shows "deep_copier (SPtr s) (copy_ptr f)"
proof
  fix h v t v' h'
  assume r: "readv h (SPtr s) v = Some t" and c: "copy_ptr f v h = (v', h')"
  show "grows h h' \<and> readv h' (SPtr s) v' = Some t \<and> cells h' (SPtr s) v' \<subseteq> {length h..<length h'}"
  proof (cases "v = VPtr None")
    case True
    then show ?thesis using r c by (auto simp: copy_ptr_def)
  next
    case False
    with r obtain a w u where v: "v = VPtr (Some a)" and w: "cell_at h a = Some (Obj w)"
      and u: "readv h s w = Some u" "t = TPtr u"
      by (auto split: gval.splits option.splits cell.splits)
    let ?b = "length h" and ?h = "h @ [Obj zeroed]"
    obtain w' h1 where run: "f w ?h = (w', h1)" by (cases "f w ?h")
    have out: "v' = VPtr (Some ?b)" "h' = h1[?b := Obj w']" using c by (auto simp: copy_ptr_def v w run Let_def)
    have "readv ?h s w = Some u" using grows_read [OF grows_append u(1)] by blast
    from deep_copier.copied [OF f this run]
    have d: "grows ?h h1" "readv h1 s w' = Some u" "cells h1 s w' \<subseteq> {length ?h..<length h1}" by auto
    have len: "?b < length h1" using grows_length [OF d(1)] by simp
    have "?b \<notin> cells h1 s w'" using d(3) by auto
    from update_read [OF d(2) this, of "Obj w'"] len
    have "readv h' (SPtr s) v' = Some t" and "cells h' (SPtr s) v' = insert ?b (cells h1 s w')"
      by (simp_all add: cell_at_def out u(2))
    moreover have "grows h h'"
      unfolding out using d(1) by (intro grows_update) (auto intro: grows_trans [OF grows_append])
    ultimately show ?thesis using d(3) len by (auto simp: out)
  qed
qed

lemma deep_map: "deep_copier SMap copy_map"
proof
  fix h v t v' h'
  assume r: "readv h SMap v = Some t" and c: "copy_map v h = (v', h')"
  have upd: "map_of (fold (\<lambda>(key, val) out. AList.update key val out) (rev m) []) = map_of m" for m :: "(string \<times> basic) list"
  proof (induction m)
    case (Cons p m)
    then show ?case by (cases p) (simp add: update_conv')
  qed simp
  show "grows h h' \<and> readv h' SMap v' = Some t \<and> cells h' SMap v' \<subseteq> {length h..<length h'}"
    using r c by (auto simp: copy_map_def cell_at_def upd split: gval.splits option.splits cell.splits if_splits)
qed

lemma elems_all [simp]: "length xs = n \<Longrightarrow> elems xs 0 n = xs"
  by (simp add: elems_def)

lemma length_elems: "off + n \<le> length ws \<Longrightarrow> length (elems ws off n) = n"
  by (simp add: elems_def)

text \<open>A slice that can be read is nil or a part of an array whose elements can be read.\<close>

lemma read_sliceE:
  assumes "readv h (SSlice s) v = Some t"
  obtains "v = VSlice None" "t = TNil"
  | a off n ws us where "v = VSlice (Some (a, off, n))" "cell_at h a = Some (Arr ws)" "off + n \<le> length ws"
      "those (map (readv h s) (elems ws off n)) = Some us" "t = TSlice us"
  using assms by (auto split: gval.splits option.splits cell.splits if_splits)

lemma deep_slice_flat:
  assumes "flat s"
  shows "deep_copier (SSlice s) copy_slice_flat"
proof
  fix h v t v' h'
  assume r: "readv h (SSlice s) v = Some t" and c: "copy_slice_flat v h = (v', h')"
  from r show "grows h h' \<and> readv h' (SSlice s) v' = Some t \<and> cells h' (SSlice s) v' \<subseteq> {length h..<length h'}"
  proof (cases rule: read_sliceE)
    case 1
    then show ?thesis using c by (auto simp: copy_slice_flat_def)
  next
    case (2 a off n ws us)
    have h': "h' = h @ [Arr (elems ws off n)]" "v' = VSlice (Some (length h, 0, n))"
      using c by (auto simp: copy_slice_flat_def 2(1,2))
    have "those (map (readv h' s) (elems ws off n)) = Some us"
      using 2(4) grows_read [of h h'] by (simp add: those_map_Some h')
    then show ?thesis
      using 2(3,5) by (auto simp: h' cell_at_def length_elems flat_cells [OF assms])
  qed
qed

text \<open>Elements that avoid a cell read the same after the memory grew and the cell was written.\<close>

lemma elements_kept:
  assumes g: "grows h h1" and r: "those (map (readv h s) ws) = Some us" and b: "\<forall>w \<in> set ws. b \<notin> cells h s w"
  shows "those (map (readv (h1[b := c]) s) ws) = Some us" and "\<forall>w \<in> set ws. b \<notin> cells (h1[b := c]) s w"
proof -
  have read: "readv (h1[b := c]) s x = Some y \<and> cells (h1[b := c]) s x = cells h s x" if "readv h s x = Some y" "b \<notin> cells h s x" for x y
    using grows_read [OF g that(1)] update_read [of h1 s x y b] that(2) by auto
  then show "those (map (readv (h1[b := c]) s) ws) = Some us" using r b by (auto simp: those_map_Some)
  show "\<forall>w \<in> set ws. b \<notin> cells (h1[b := c]) s w"
    using r b read by (metis in_set_conv_nth those_map_Some)
qed

text \<open>
  The loop over a slice: it writes to the array \<open>b\<close> only, besides growing the memory, and what
  it writes there are deep copies.
\<close>

lemma copy_loop_deep:
  assumes f: "deep_copier s f"
  shows "b < length h \<Longrightarrow> h ! b = Arr xs \<Longrightarrow> i + length ws \<le> length xs \<Longrightarrow>
    those (map (readv h s) ws) = Some us \<Longrightarrow> \<forall>w \<in> set ws. b \<notin> cells h s w \<Longrightarrow>
    \<exists>ws' cs. copy_loop f b i ws h = (h @ cs)[b := Arr (take i xs @ ws' @ drop (i + length ws) xs)] \<and>
      length ws' = length ws \<and> those (map (readv (copy_loop f b i ws h) s) ws') = Some us \<and>
      (\<forall>w \<in> set ws'. cells (copy_loop f b i ws h) s w \<subseteq> {length h..<length h + length cs})"
proof (induction ws arbitrary: i h xs us)
  case Nil
  then have "h[b := Arr xs] = h" by (metis list_update_id)
  with Nil show ?case by (intro exI [of _ "[]"]) simp
next
  case (Cons w ws)
  obtain u us' where us: "us = u # us'" "readv h s w = Some u" "those (map (readv h s) ws) = Some us'"
    using Cons.prems(4) by (auto split: option.splits)
  obtain w' h1 where run: "f w h = (w', h1)" by (cases "f w h")
  have d: "grows h h1" "readv h1 s w' = Some u" "cells h1 s w' \<subseteq> {length h..<length h1}"
    using deep_copier.copied [OF f us(2) run] by auto
  obtain cs1 where h1: "h1 = h @ cs1" using d(1) by (auto simp: grows_def)
  have b: "h1 ! b = Arr xs" using Cons.prems(1,2) by (simp add: h1 nth_append)
  let ?xs = "xs[i := w']" and ?h = "h1[b := Arr (xs[i := w'])]"
  let ?fin = "copy_loop f b (Suc i) ws ?h"
  have loop: "copy_loop f b i (w # ws) h = copy_loop f b (Suc i) ws ?h" by (simp add: run b)
  have bh: "b < length ?h" "?h ! b = Arr ?xs" using Cons.prems(1) by (simp_all add: h1)
  have "\<forall>x \<in> set ws. b \<notin> cells h s x" and "Suc i + length ws \<le> length ?xs" using Cons.prems(3,5) by simp_all
  with elements_kept [OF d(1) us(3), of b "Arr ?xs"] obtain ws' cs where ih: "?fin = (?h @ cs)[b := Arr (take (Suc i) ?xs @ ws' @ drop (Suc i + length ws) ?xs)]"
    "length ws' = length ws" "those (map (readv ?fin s) ws') = Some us'"
    "\<forall>w \<in> set ws'. cells ?fin s w \<subseteq> {length ?h..<length ?h + length cs}"
    using Cons.IH [OF bh] by blast
  have "i < length xs" using Cons.prems(3) by simp
  then have xs: "take (Suc i) ?xs @ ws' @ drop (Suc i + length ws) ?xs = take i xs @ (w' # ws') @ drop (i + length (w # ws)) xs"
    by (simp add: take_Suc_conv_app_nth)
  have fin_eq: "?fin = (h @ cs1 @ cs)[b := Arr (take i xs @ (w' # ws') @ drop (i + length (w # ws)) xs)]"
    using Cons.prems(1) unfolding ih(1) xs by (simp add: h1 list_update_append)
  have "b \<notin> cells h1 s w'" using d(3) Cons.prems(1) by auto
  then have "readv ?fin s w' = Some u \<and> cells ?fin s w' = cells h1 s w'"
    using d(2,3) Cons.prems(1) unfolding fin_eq
    by (intro frame(1)) (auto simp: cell_at_def h1 nth_append list_update_append nth_list_update)
  note head = this
  have all: "those (map (readv ?fin s) (w' # ws')) = Some us" using ih(3) head by (simp add: us(1))
  have fresh: "cells ?fin s x \<subseteq> {length h..<length h + length (cs1 @ cs)}" if "x \<in> set (w' # ws')" for x
  proof -
    have "cells ?fin s x \<subseteq> {length h..<length h1} \<or> cells ?fin s x \<subseteq> {length h1..<length h1 + length cs}"
      using that head d(3) ih(4) by auto
    then show ?thesis unfolding h1 by fastforce
  qed
  from all fresh show ?case
    unfolding loop using fin_eq ih(2) by (intro exI [of _ "w' # ws'"] exI [of _ "cs1 @ cs"]) auto
qed

lemma deep_slice:
  assumes f: "deep_copier s f"
  shows "deep_copier (SSlice s) (copy_slice f)"
proof
  fix h v t v' h'
  assume r: "readv h (SSlice s) v = Some t" and c: "copy_slice f v h = (v', h')"
  from r show "grows h h' \<and> readv h' (SSlice s) v' = Some t \<and> cells h' (SSlice s) v' \<subseteq> {length h..<length h'}"
  proof (cases rule: read_sliceE)
    case 1
    then show ?thesis using c by (auto simp: copy_slice_def)
  next
    case (2 a off n ws us)
    let ?b = "length h" and ?ws = "elems ws off n"
    let ?h = "h @ [Arr (replicate n zeroed)]"
    have out: "v' = VSlice (Some (?b, 0, n))" "h' = copy_loop f ?b 0 ?ws ?h"
      using c by (auto simp: copy_slice_def 2(1,2))
    have n: "length ?ws = n" using 2(3) by (rule length_elems)
    have read: "readv ?h s w = Some u \<and> cells ?h s w = cells h s w" if "readv h s w = Some u" for w u
      using grows_read [OF grows_append that] .
    have "those (map (readv ?h s) ?ws) = Some us" using 2(4) read by (simp add: those_map_Some)
    moreover have "\<forall>w \<in> set ?ws. ?b \<notin> cells ?h s w"
    proof
      fix w assume "w \<in> set ?ws"
      then obtain u where "readv h s w = Some u" using 2(4) by (auto simp: those_map_Some in_set_conv_nth)
      then show "?b \<notin> cells ?h s w" using read bounded(1) [of h s w u] by auto
    qed
    ultimately obtain ws' cs where loop: "h' = (?h @ cs)[?b := Arr (take 0 (replicate n zeroed) @ ws' @ drop (0 + length ?ws) (replicate n zeroed))]"
      "length ws' = length ?ws" "those (map (readv h' s) ws') = Some us"
      "\<forall>w \<in> set ws'. cells h' s w \<subseteq> {length ?h..<length ?h + length cs}"
      using copy_loop_deep [OF f, of ?b ?h "replicate n zeroed" 0 ?ws us] unfolding out(2) by (auto simp: n)
    have h': "h' = h @ Arr ws' # cs" using loop(1) by (simp add: n list_update_append)
    then have at: "cell_at h' ?b = Some (Arr ws')" by (simp add: cell_at_def)
    have "readv h' (SSlice s) v' = Some t" using at loop(2,3) n by (simp add: out(1) 2(5))
    moreover have "cells h' (SSlice s) v' \<subseteq> {length h..<length h'}"
      using at loop(2,4) n by (fastforce simp: out(1) h' subset_iff)
    ultimately show ?thesis by (simp add: h' grows_def)
  qed
qed

subsection \<open>Structs\<close>

lemma set_field_nth:
  "i < length fs \<Longrightarrow> set_field n v fs ! i = (fst (fs ! i), if fst (fs ! i) = n then v else snd (fs ! i))"
  by (auto simp: set_field_def split: prod.split)

lemma set_field_fst [simp]: "map fst (set_field n v fs) = map fst fs"
  by (auto simp: set_field_def)

text \<open>One field is replaced by a copy, while the memory grows.\<close>

lemma field_copied:
  assumes names: "distinct (map fst fs)" and k: "k < length fs" "fst (fs ! k) = n"
    and outs: "read_fields h fs outs = Some ts" and g: "grows h h1"
    and copy: "readv h1 (snd (fs ! k)) v' = Some (snd (ts ! k))"
  shows "read_fields h1 fs (set_field n v' outs) = Some ts"
    and "i < length fs \<Longrightarrow> cells h1 (snd (fs ! i)) (snd (set_field n v' outs ! i)) =
      (if fst (fs ! i) = n then cells h1 (snd (fs ! k)) v' else cells h (snd (fs ! i)) (snd (outs ! i)))"
proof -
  have outs_fst: "map fst outs = map fst fs" using outs by (simp add: read_fields_Some)
  then have len: "length outs = length fs" by (metis length_map)
  have only: "i = k \<longleftrightarrow> fst (fs ! i) = n" if "i < length fs" for i
    using names that k by (metis distinct_conv_nth length_map nth_map)
  have outs_nth: "fst (outs ! i) = fst (fs ! i)" if "i < length fs" for i
    using arg_cong [OF outs_fst, of "\<lambda>xs. xs ! i"] that len by simp
  have field: "snd (set_field n v' outs ! i) = (if i = k then v' else snd (outs ! i))" if "i < length fs" for i
    using that only [OF that] outs_nth [OF that] len by (simp add: set_field_nth)
  have kept: "readv h1 (snd (fs ! i)) (snd (outs ! i)) = Some (snd (ts ! i)) \<and>
      cells h1 (snd (fs ! i)) (snd (outs ! i)) = cells h (snd (fs ! i)) (snd (outs ! i))" if "i < length fs" for i
    using outs that grows_read [OF g] by (simp add: read_fields_Some)
  show "read_fields h1 fs (set_field n v' outs) = Some ts"
    unfolding read_fields_Some set_field_fst using outs kept field copy outs_fst by (simp add: read_fields_Some)
  show "cells h1 (snd (fs ! i)) (snd (set_field n v' outs ! i)) =
      (if fst (fs ! i) = n then cells h1 (snd (fs ! k)) v' else cells h (snd (fs ! i)) (snd (outs ! i)))" if "i < length fs"
    using field [OF that] kept [OF that] only [OF that] by auto
qed

text \<open>
  The steps of a body, from a memory \<open>h0\<close> in which the input reads as \<open>ts\<close>: the fields done so far
  refer to new cells only.
\<close>

lemma copy_steps_deep:
  assumes names: "distinct (map fst fs)" and ins: "read_fields h0 fs ins = Some ts"
  shows "distinct (map fst steps) \<Longrightarrow> fst ` set steps \<subseteq> fst ` set fs \<Longrightarrow>
    (\<And>n s f. (n, s) \<in> set fs \<Longrightarrow> (n, f) \<in> set steps \<Longrightarrow> deep_copier s f) \<Longrightarrow>
    grows h0 h \<Longrightarrow> read_fields h fs outs = Some ts \<Longrightarrow>
    (\<And>i. i < length fs \<Longrightarrow> fst (fs ! i) \<notin> fst ` set steps \<Longrightarrow>
      cells h (snd (fs ! i)) (snd (outs ! i)) \<subseteq> {length h0..<length h}) \<Longrightarrow>
    copy_steps steps ins outs h = (outs', h') \<Longrightarrow>
    grows h0 h' \<and> read_fields h' fs outs' = Some ts \<and>
    (\<forall>i < length fs. cells h' (snd (fs ! i)) (snd (outs' ! i)) \<subseteq> {length h0..<length h'})"
proof (induction steps arbitrary: outs h)
  case (Cons st steps)
  obtain n f where st: "st = (n, f)" by (cases st)
  have ins_fst: "map fst ins = map fst fs" using ins by (simp add: read_fields_Some)
  then have len: "length ins = length fs" by (metis length_map)
  obtain k where k: "k < length fs" "fst (fs ! k) = n" using Cons.prems(2) by (auto simp: st in_set_conv_nth)
  let ?s = "snd (fs ! k)" and ?v = "snd (ins ! k)" and ?t = "snd (ts ! k)"
  have nk: "ins ! k = (n, ?v)" using ins_fst k len by (metis nth_map prod.collapse)
  have "map_of ins n = Some ?v" using nk k len names ins_fst by (metis map_of_eq_Some_iff nth_mem)
  moreover obtain v' h1 where run: "f ?v h = (v', h1)" by (cases "f ?v h")
  ultimately have steps: "copy_steps steps ins (set_field n v' outs) h1 = (outs', h')"
    using Cons.prems(7) by (simp add: st)
  have "deep_copier ?s f" using Cons.prems(3) k by (metis list.set_intros(1) nth_mem prod.collapse st)
  moreover have "readv h ?s ?v = Some ?t" using ins k Cons.prems(4) grows_read by (simp add: read_fields_Some)
  ultimately have d: "grows h h1" "readv h1 ?s v' = Some ?t" "cells h1 ?s v' \<subseteq> {length h..<length h1}"
    using deep_copier.copied run by blast+
  note fields = field_copied [OF names k Cons.prems(5) d(1,2)]
  have lens: "length h0 \<le> length h" "length h \<le> length h1" using Cons.prems(4) d(1) grows_length by blast+
  have fresh: "cells h1 (snd (fs ! i)) (snd (set_field n v' outs ! i)) \<subseteq> {length h0..<length h1}"
    if "i < length fs" "fst (fs ! i) \<notin> fst ` set steps" for i
  proof (cases "fst (fs ! i) = n")
    case True
    then show ?thesis using fields(2) [OF that(1)] d(3) lens by auto
  next
    case False
    then have "cells h (snd (fs ! i)) (snd (outs ! i)) \<subseteq> {length h0..<length h}"
      using Cons.prems(6) that by (auto simp: st)
    then show ?thesis using fields(2) [OF that(1)] False lens by auto
  qed
  show ?case
  proof (rule Cons.IH [OF _ _ _ _ fields(1) _ steps])
    show "distinct (map fst steps)" and "fst ` set steps \<subseteq> fst ` set fs" using Cons.prems(1,2) by (auto simp: st)
    show "deep_copier s g" if "(m, s) \<in> set fs" "(m, g) \<in> set steps" for m s g using Cons.prems(3) that by simp
    show "grows h0 h1" using Cons.prems(4) d(1) by (rule grows_trans)
  qed (rule fresh)
qed simp

lemma deep_struct:
  assumes "distinct (map fst fs)" and "distinct (map fst steps)" and "fst ` set steps \<subseteq> fst ` set fs"
    and deep: "\<And>n s f. (n, s) \<in> set fs \<Longrightarrow> (n, f) \<in> set steps \<Longrightarrow> deep_copier s f"
    and rest: "\<And>n s. (n, s) \<in> set fs \<Longrightarrow> n \<notin> fst ` set steps \<Longrightarrow> flat s"
  shows "deep_copier (SStruct fs) (copy_struct steps)"
proof
  fix h v t v' h'
  assume r: "readv h (SStruct fs) v = Some t" and c: "copy_struct steps v h = (v', h')"
  obtain vs ts where v: "v = VStruct vs" and ts: "read_fields h fs vs = Some ts" "t = TStruct ts"
    using r by (auto split: gval.splits)
  obtain outs where run: "copy_steps steps vs vs h = (outs, h')" and v': "v' = VStruct outs"
    using c by (auto simp: copy_struct_def v split: prod.splits)
  have "grows h h' \<and> read_fields h' fs outs = Some ts \<and>
      (\<forall>i < length fs. cells h' (snd (fs ! i)) (snd (outs ! i)) \<subseteq> {length h..<length h'})"
  proof (rule copy_steps_deep [OF assms(1) ts(1) assms(2,3) deep grows_refl ts(1) _ run])
    show "cells h (snd (fs ! i)) (snd (vs ! i)) \<subseteq> {length h..<length h}"
      if "i < length fs" "fst (fs ! i) \<notin> fst ` set steps" for i
      using rest [of "fst (fs ! i)" "snd (fs ! i)"] that flat_cells by simp
  qed
  then show "grows h h' \<and> readv h' (SStruct fs) v' = Some t \<and> cells h' (SStruct fs) v' \<subseteq> {length h..<length h'}"
    using cells_fields_nth [of outs fs h'] by (auto simp: v' ts(2) read_fields_Some)
qed

text \<open>The same as a check along the fields, which the simplifier can run.\<close>

named_theorems deep_rules

lemma deep_fields:
  assumes "distinct (map fst fs)" and "distinct (map fst steps)" and "list_all (\<lambda>n. n \<in> set (map fst fs)) (map fst steps)"
    and all: "list_all (\<lambda>(n, s). case map_of steps n of Some f \<Rightarrow> deep_copier s f | None \<Rightarrow> flat s) fs"
  shows "deep_copier (SStruct fs) (copy_struct steps)"
proof (rule deep_struct [OF assms(1,2)])
  show "fst ` set steps \<subseteq> fst ` set fs" using assms(3) by (auto simp: list_all_iff)
  show "deep_copier s f" if "(n, s) \<in> set fs" "(n, f) \<in> set steps" for n s f
    using all that map_of_is_SomeI [OF assms(2)] by (fastforce simp: list_all_iff)
  show "flat s" if "(n, s) \<in> set fs" "n \<notin> fst ` set steps" for n s
  proof -
    have "map_of steps n = None" using that(2) by (simp add: map_of_eq_None_iff)
    with all that(1) show ?thesis by (auto simp: list_all_iff)
  qed
qed

lemmas [deep_rules] = deep_shallow deep_ptr deep_map deep_slice deep_slice_flat

end
