(* ===== verification/DeepCopy.thy ===== *)
theory DeepCopy
  imports GoHeap
begin

text \<open>
  The generated \<^verbatim>\<open>DeepCopyInto\<close> and \<^verbatim>\<open>DeepCopy\<close> functions of
  \<^verbatim>\<open>pkg/apis/admissionregistration.x-k8s.io/v1alpha1/zz_generated.deepcopy.go\<close>, with those of the
  vendored metadata types they call. For each type there are its fields, from the declaration
  of the type, and the body of its \<^verbatim>\<open>DeepCopyInto\<close>, statement by statement from the generated
  file; a field that the body does not name is only assigned. That the two fit together, so that
  nothing is shared, is the interpretation of \<open>deep_copier\<close> for every type.
\<close>

section \<open>Types and bodies of the vendored packages\<close>

definition TypeMeta_type :: shape where
  "TypeMeta_type = SStruct [(''Kind'', SBasic), (''APIVersion'', SBasic)]"

text \<open>A time is an immutable value.\<close>

definition Time_DeepCopyInto :: copier where
  "Time_DeepCopyInto = copy_shallow"

definition LabelSelectorRequirement_type :: shape where
  "LabelSelectorRequirement_type = SStruct
     [(''Key'', SBasic), (''Operator'', SBasic), (''Values'', SSlice SBasic)]"

definition LabelSelectorRequirement_DeepCopyInto :: copier where
  "LabelSelectorRequirement_DeepCopyInto = copy_struct
     [(''Values'', copy_slice_flat)]"

definition LabelSelector_type :: shape where
  "LabelSelector_type = SStruct
     [(''MatchLabels'', SMap), (''MatchExpressions'', SSlice LabelSelectorRequirement_type)]"

definition LabelSelector_DeepCopyInto :: copier where
  "LabelSelector_DeepCopyInto = copy_struct
     [(''MatchLabels'', copy_map),
      (''MatchExpressions'', copy_slice LabelSelectorRequirement_DeepCopyInto)]"

definition FieldsV1_type :: shape where
  "FieldsV1_type = SStruct
     [(''Raw'', SSlice SBasic)]"

definition FieldsV1_DeepCopyInto :: copier where
  "FieldsV1_DeepCopyInto = copy_struct
     [(''Raw'', copy_slice_flat)]"

definition ManagedFieldsEntry_type :: shape where
  "ManagedFieldsEntry_type = SStruct
     [(''Manager'', SBasic), (''Operation'', SBasic), (''APIVersion'', SBasic),
      (''Time'', SPtr SBasic), (''FieldsType'', SBasic), (''FieldsV1'', SPtr FieldsV1_type),
      (''Subresource'', SBasic)]"

definition ManagedFieldsEntry_DeepCopyInto :: copier where
  "ManagedFieldsEntry_DeepCopyInto = copy_struct
     [(''Time'', copy_ptr Time_DeepCopyInto), (''FieldsV1'', copy_ptr FieldsV1_DeepCopyInto)]"

definition OwnerReference_type :: shape where
  "OwnerReference_type = SStruct
     [(''APIVersion'', SBasic), (''Kind'', SBasic), (''Name'', SBasic), (''UID'', SBasic),
      (''Controller'', SPtr SBasic), (''BlockOwnerDeletion'', SPtr SBasic)]"

definition OwnerReference_DeepCopyInto :: copier where
  "OwnerReference_DeepCopyInto = copy_struct
     [(''Controller'', copy_ptr copy_shallow), (''BlockOwnerDeletion'', copy_ptr copy_shallow)]"

definition ObjectMeta_type :: shape where
  "ObjectMeta_type = SStruct
     [(''Name'', SBasic), (''GenerateName'', SBasic), (''Namespace'', SBasic),
      (''SelfLink'', SBasic), (''UID'', SBasic), (''ResourceVersion'', SBasic),
      (''Generation'', SBasic), (''CreationTimestamp'', SBasic),
      (''DeletionTimestamp'', SPtr SBasic), (''DeletionGracePeriodSeconds'', SPtr SBasic),
      (''Labels'', SMap), (''Annotations'', SMap), (''OwnerReferences'', SSlice OwnerReference_type),
      (''Finalizers'', SSlice SBasic), (''ManagedFields'', SSlice ManagedFieldsEntry_type)]"

definition ObjectMeta_DeepCopyInto :: copier where
  "ObjectMeta_DeepCopyInto = copy_struct
     [(''CreationTimestamp'', Time_DeepCopyInto),
      (''DeletionTimestamp'', copy_ptr Time_DeepCopyInto),
      (''DeletionGracePeriodSeconds'', copy_ptr copy_shallow), (''Labels'', copy_map),
      (''Annotations'', copy_map), (''OwnerReferences'', copy_slice OwnerReference_DeepCopyInto),
      (''Finalizers'', copy_slice_flat),
      (''ManagedFields'', copy_slice ManagedFieldsEntry_DeepCopyInto)]"

definition ListMeta_type :: shape where
  "ListMeta_type = SStruct
     [(''SelfLink'', SBasic), (''ResourceVersion'', SBasic), (''Continue'', SBasic),
      (''RemainingItemCount'', SPtr SBasic)]"

definition ListMeta_DeepCopyInto :: copier where
  "ListMeta_DeepCopyInto = copy_struct
     [(''RemainingItemCount'', copy_ptr copy_shallow)]"

definition Condition_type :: shape where
  "Condition_type = SStruct
     [(''Type'', SBasic), (''Status'', SBasic), (''ObservedGeneration'', SBasic),
      (''LastTransitionTime'', SBasic), (''Reason'', SBasic), (''Message'', SBasic)]"

definition Condition_DeepCopyInto :: copier where
  "Condition_DeepCopyInto = copy_struct
     [(''LastTransitionTime'', Time_DeepCopyInto)]"

definition Rule_type :: shape where
  "Rule_type = SStruct
     [(''APIGroups'', SSlice SBasic), (''APIVersions'', SSlice SBasic),
      (''Resources'', SSlice SBasic), (''Scope'', SPtr SBasic)]"

definition Rule_DeepCopyInto :: copier where
  "Rule_DeepCopyInto = copy_struct
     [(''APIGroups'', copy_slice_flat), (''APIVersions'', copy_slice_flat),
      (''Resources'', copy_slice_flat), (''Scope'', copy_ptr copy_shallow)]"

definition RuleWithOperations_type :: shape where
  "RuleWithOperations_type = SStruct
     [(''Operations'', SSlice SBasic), (''Rule'', Rule_type)]"

definition RuleWithOperations_DeepCopyInto :: copier where
  "RuleWithOperations_DeepCopyInto = copy_struct
     [(''Operations'', copy_slice_flat), (''Rule'', Rule_DeepCopyInto)]"

section \<open>Types and bodies of the repository\<close>

definition AuditAnnotation_type :: shape where
  "AuditAnnotation_type = SStruct
     [(''Key'', SBasic), (''ValueExpression'', SBasic)]"

definition AuditAnnotation_DeepCopyInto :: copier where
  "AuditAnnotation_DeepCopyInto = copy_struct []"

definition ExpressionWarning_type :: shape where
  "ExpressionWarning_type = SStruct
     [(''FieldRef'', SBasic), (''Warning'', SBasic)]"

definition ExpressionWarning_DeepCopyInto :: copier where
  "ExpressionWarning_DeepCopyInto = copy_struct []"

definition MatchCondition_type :: shape where
  "MatchCondition_type = SStruct
     [(''Name'', SBasic), (''Expression'', SBasic)]"

definition MatchCondition_DeepCopyInto :: copier where
  "MatchCondition_DeepCopyInto = copy_struct []"

definition NamedRuleWithOperations_type :: shape where
  "NamedRuleWithOperations_type = SStruct
     [(''ResourceNames'', SSlice SBasic), (''RuleWithOperations'', RuleWithOperations_type)]"

definition NamedRuleWithOperations_DeepCopyInto :: copier where
  "NamedRuleWithOperations_DeepCopyInto = copy_struct
     [(''ResourceNames'', copy_slice_flat), (''RuleWithOperations'', RuleWithOperations_DeepCopyInto)]"

definition MatchResources_type :: shape where
  "MatchResources_type = SStruct
     [(''NamespaceSelector'', SPtr LabelSelector_type),
      (''ObjectSelector'', SPtr LabelSelector_type),
      (''ResourceRules'', SSlice NamedRuleWithOperations_type),
      (''ExcludeResourceRules'', SSlice NamedRuleWithOperations_type), (''MatchPolicy'', SPtr SBasic)]"

definition MatchResources_DeepCopyInto :: copier where
  "MatchResources_DeepCopyInto = copy_struct
     [(''NamespaceSelector'', copy_ptr LabelSelector_DeepCopyInto),
      (''ObjectSelector'', copy_ptr LabelSelector_DeepCopyInto),
      (''ResourceRules'', copy_slice NamedRuleWithOperations_DeepCopyInto),
      (''ExcludeResourceRules'', copy_slice NamedRuleWithOperations_DeepCopyInto),
      (''MatchPolicy'', copy_ptr copy_shallow)]"

definition ParamKind_type :: shape where
  "ParamKind_type = SStruct
     [(''APIVersion'', SBasic), (''Kind'', SBasic)]"

definition ParamKind_DeepCopyInto :: copier where
  "ParamKind_DeepCopyInto = copy_struct []"

definition ParamRef_type :: shape where
  "ParamRef_type = SStruct
     [(''Name'', SBasic), (''Namespace'', SBasic)]"

definition ParamRef_DeepCopyInto :: copier where
  "ParamRef_DeepCopyInto = copy_struct []"

definition TypeChecking_type :: shape where
  "TypeChecking_type = SStruct
     [(''ExpressionWarnings'', SSlice ExpressionWarning_type)]"

definition TypeChecking_DeepCopyInto :: copier where
  "TypeChecking_DeepCopyInto = copy_struct
     [(''ExpressionWarnings'', copy_slice_flat)]"

definition Validation_type :: shape where
  "Validation_type = SStruct
     [(''Expression'', SBasic), (''Message'', SBasic), (''Reason'', SPtr SBasic),
      (''MessageExpression'', SBasic)]"

definition Validation_DeepCopyInto :: copier where
  "Validation_DeepCopyInto = copy_struct
     [(''Reason'', copy_ptr copy_shallow)]"

definition ValidatingAdmissionPolicySpec_type :: shape where
  "ValidatingAdmissionPolicySpec_type = SStruct
     [(''ParamKind'', SPtr ParamKind_type), (''MatchConstraints'', SPtr MatchResources_type),
      (''Validations'', SSlice Validation_type), (''FailurePolicy'', SPtr SBasic),
      (''AuditAnnotations'', SSlice AuditAnnotation_type),
      (''MatchConditions'', SSlice MatchCondition_type)]"

definition ValidatingAdmissionPolicySpec_DeepCopyInto :: copier where
  "ValidatingAdmissionPolicySpec_DeepCopyInto = copy_struct
     [(''ParamKind'', copy_ptr copy_shallow),
      (''MatchConstraints'', copy_ptr MatchResources_DeepCopyInto),
      (''Validations'', copy_slice Validation_DeepCopyInto),
      (''FailurePolicy'', copy_ptr copy_shallow), (''AuditAnnotations'', copy_slice_flat),
      (''MatchConditions'', copy_slice_flat)]"

definition ValidatingAdmissionPolicyStatus_type :: shape where
  "ValidatingAdmissionPolicyStatus_type = SStruct
     [(''ObservedGeneration'', SBasic), (''TypeChecking'', SPtr TypeChecking_type),
      (''Conditions'', SSlice Condition_type)]"

definition ValidatingAdmissionPolicyStatus_DeepCopyInto :: copier where
  "ValidatingAdmissionPolicyStatus_DeepCopyInto = copy_struct
     [(''TypeChecking'', copy_ptr TypeChecking_DeepCopyInto),
      (''Conditions'', copy_slice Condition_DeepCopyInto)]"

definition ValidatingAdmissionPolicy_type :: shape where
  "ValidatingAdmissionPolicy_type = SStruct
     [(''TypeMeta'', TypeMeta_type), (''ObjectMeta'', ObjectMeta_type),
      (''Spec'', ValidatingAdmissionPolicySpec_type),
      (''Status'', ValidatingAdmissionPolicyStatus_type)]"

definition ValidatingAdmissionPolicy_DeepCopyInto :: copier where
  "ValidatingAdmissionPolicy_DeepCopyInto = copy_struct
     [(''TypeMeta'', copy_shallow), (''ObjectMeta'', ObjectMeta_DeepCopyInto),
      (''Spec'', ValidatingAdmissionPolicySpec_DeepCopyInto),
      (''Status'', ValidatingAdmissionPolicyStatus_DeepCopyInto)]"

definition ValidatingAdmissionPolicyList_type :: shape where
  "ValidatingAdmissionPolicyList_type = SStruct
     [(''TypeMeta'', TypeMeta_type), (''ListMeta'', ListMeta_type),
      (''Items'', SSlice ValidatingAdmissionPolicy_type)]"

definition ValidatingAdmissionPolicyList_DeepCopyInto :: copier where
  "ValidatingAdmissionPolicyList_DeepCopyInto = copy_struct
     [(''TypeMeta'', copy_shallow), (''ListMeta'', ListMeta_DeepCopyInto),
      (''Items'', copy_slice ValidatingAdmissionPolicy_DeepCopyInto)]"

definition ValidatingAdmissionPolicyBindingSpec_type :: shape where
  "ValidatingAdmissionPolicyBindingSpec_type = SStruct
     [(''PolicyName'', SBasic), (''ParamRef'', SPtr ParamRef_type),
      (''MatchResources'', SPtr MatchResources_type), (''ValidationActions'', SSlice SBasic)]"

definition ValidatingAdmissionPolicyBindingSpec_DeepCopyInto :: copier where
  "ValidatingAdmissionPolicyBindingSpec_DeepCopyInto = copy_struct
     [(''ParamRef'', copy_ptr copy_shallow),
      (''MatchResources'', copy_ptr MatchResources_DeepCopyInto),
      (''ValidationActions'', copy_slice_flat)]"

definition ValidatingAdmissionPolicyBinding_type :: shape where
  "ValidatingAdmissionPolicyBinding_type = SStruct
     [(''TypeMeta'', TypeMeta_type), (''ObjectMeta'', ObjectMeta_type),
      (''Spec'', ValidatingAdmissionPolicyBindingSpec_type)]"

definition ValidatingAdmissionPolicyBinding_DeepCopyInto :: copier where
  "ValidatingAdmissionPolicyBinding_DeepCopyInto = copy_struct
     [(''TypeMeta'', copy_shallow), (''ObjectMeta'', ObjectMeta_DeepCopyInto),
      (''Spec'', ValidatingAdmissionPolicyBindingSpec_DeepCopyInto)]"

definition ValidatingAdmissionPolicyBindingList_type :: shape where
  "ValidatingAdmissionPolicyBindingList_type = SStruct
     [(''TypeMeta'', TypeMeta_type), (''ListMeta'', ListMeta_type),
      (''Items'', SSlice ValidatingAdmissionPolicyBinding_type)]"

definition ValidatingAdmissionPolicyBindingList_DeepCopyInto :: copier where
  "ValidatingAdmissionPolicyBindingList_DeepCopyInto = copy_struct
     [(''TypeMeta'', copy_shallow), (''ListMeta'', ListMeta_DeepCopyInto),
      (''Items'', copy_slice ValidatingAdmissionPolicyBinding_DeepCopyInto)]"

section \<open>Copies of objects\<close>

text \<open>
  \<^verbatim>\<open>func (in *T) DeepCopy() *T\<close>: nil for nil, otherwise the copy in a new cell. \<^verbatim>\<open>DeepCopyObject\<close>
  returns the same pointer as an interface, or the nil interface.
\<close>

definition DeepCopy :: "copier \<Rightarrow> copier" where
  "DeepCopy DeepCopyInto p h =
     (case p of
        VPtr None \<Rightarrow> (VPtr None, h)
      | VPtr (Some a) \<Rightarrow>
          (case cell_at h a of
             Some (Obj v) \<Rightarrow>
               let out = length h; (v', h') = DeepCopyInto v (h @ [Obj zeroed])
               in (VPtr (Some out), h'[out := Obj v'])
           | _ \<Rightarrow> (p, h))
      | _ \<Rightarrow> (p, h))"

definition DeepCopyObject :: "copier \<Rightarrow> copier" where
  "DeepCopyObject in_DeepCopy p h =
     (case in_DeepCopy p h of
        (c, h') \<Rightarrow> if c \<noteq> VPtr None then (c, h') else (VPtr None, h'))"

definition AuditAnnotation_DeepCopy :: copier where
  "AuditAnnotation_DeepCopy = DeepCopy AuditAnnotation_DeepCopyInto"

definition ExpressionWarning_DeepCopy :: copier where
  "ExpressionWarning_DeepCopy = DeepCopy ExpressionWarning_DeepCopyInto"

definition MatchCondition_DeepCopy :: copier where
  "MatchCondition_DeepCopy = DeepCopy MatchCondition_DeepCopyInto"

definition NamedRuleWithOperations_DeepCopy :: copier where
  "NamedRuleWithOperations_DeepCopy = DeepCopy NamedRuleWithOperations_DeepCopyInto"

definition MatchResources_DeepCopy :: copier where
  "MatchResources_DeepCopy = DeepCopy MatchResources_DeepCopyInto"

definition ParamKind_DeepCopy :: copier where
  "ParamKind_DeepCopy = DeepCopy ParamKind_DeepCopyInto"

definition ParamRef_DeepCopy :: copier where
  "ParamRef_DeepCopy = DeepCopy ParamRef_DeepCopyInto"

definition TypeChecking_DeepCopy :: copier where
  "TypeChecking_DeepCopy = DeepCopy TypeChecking_DeepCopyInto"

definition Validation_DeepCopy :: copier where
  "Validation_DeepCopy = DeepCopy Validation_DeepCopyInto"

definition ValidatingAdmissionPolicySpec_DeepCopy :: copier where
  "ValidatingAdmissionPolicySpec_DeepCopy = DeepCopy ValidatingAdmissionPolicySpec_DeepCopyInto"

definition ValidatingAdmissionPolicyStatus_DeepCopy :: copier where
  "ValidatingAdmissionPolicyStatus_DeepCopy = DeepCopy ValidatingAdmissionPolicyStatus_DeepCopyInto"

definition ValidatingAdmissionPolicy_DeepCopy :: copier where
  "ValidatingAdmissionPolicy_DeepCopy = DeepCopy ValidatingAdmissionPolicy_DeepCopyInto"

definition ValidatingAdmissionPolicyList_DeepCopy :: copier where
  "ValidatingAdmissionPolicyList_DeepCopy = DeepCopy ValidatingAdmissionPolicyList_DeepCopyInto"

definition ValidatingAdmissionPolicyBindingSpec_DeepCopy :: copier where
  "ValidatingAdmissionPolicyBindingSpec_DeepCopy = DeepCopy ValidatingAdmissionPolicyBindingSpec_DeepCopyInto"

definition ValidatingAdmissionPolicyBinding_DeepCopy :: copier where
  "ValidatingAdmissionPolicyBinding_DeepCopy = DeepCopy ValidatingAdmissionPolicyBinding_DeepCopyInto"

definition ValidatingAdmissionPolicyBindingList_DeepCopy :: copier where
  "ValidatingAdmissionPolicyBindingList_DeepCopy = DeepCopy ValidatingAdmissionPolicyBindingList_DeepCopyInto"

definition ValidatingAdmissionPolicy_DeepCopyObject :: copier where
  "ValidatingAdmissionPolicy_DeepCopyObject = DeepCopyObject ValidatingAdmissionPolicy_DeepCopy"

definition ValidatingAdmissionPolicyList_DeepCopyObject :: copier where
  "ValidatingAdmissionPolicyList_DeepCopyObject = DeepCopyObject ValidatingAdmissionPolicyList_DeepCopy"

definition ValidatingAdmissionPolicyBinding_DeepCopyObject :: copier where
  "ValidatingAdmissionPolicyBinding_DeepCopyObject = DeepCopyObject ValidatingAdmissionPolicyBinding_DeepCopy"

definition ValidatingAdmissionPolicyBindingList_DeepCopyObject :: copier where
  "ValidatingAdmissionPolicyBindingList_DeepCopyObject = DeepCopyObject ValidatingAdmissionPolicyBindingList_DeepCopy"

section \<open>Every body is a deep copier\<close>

lemma DeepCopy_eq: "DeepCopy f = copy_ptr f"
  by (auto simp: fun_eq_iff DeepCopy_def copy_ptr_def split: gval.split option.split)

lemma DeepCopyObject_eq: "DeepCopyObject f = f"
  by (auto simp: fun_eq_iff DeepCopyObject_def split: prod.split)

interpretation Time: deep_copier SBasic Time_DeepCopyInto
  unfolding Time_DeepCopyInto_def by (rule deep_shallow) simp

lemmas Time_deep [deep_rules] = Time.deep_copier_axioms

lemma flat_types [simp]:
  "flat TypeMeta_type" "flat ExpressionWarning_type" "flat AuditAnnotation_type" "flat MatchCondition_type"
  "flat ParamKind_type" "flat ParamRef_type"
  by (simp_all add: TypeMeta_type_def ExpressionWarning_type_def AuditAnnotation_type_def MatchCondition_type_def
      ParamKind_type_def ParamRef_type_def)

interpretation LabelSelectorRequirement: deep_copier LabelSelectorRequirement_type LabelSelectorRequirement_DeepCopyInto
  unfolding LabelSelectorRequirement_type_def LabelSelectorRequirement_DeepCopyInto_def
  by (rule deep_fields) (simp_all add: deep_rules)

lemmas LabelSelectorRequirement_deep [deep_rules] = LabelSelectorRequirement.deep_copier_axioms

interpretation LabelSelector: deep_copier LabelSelector_type LabelSelector_DeepCopyInto
  unfolding LabelSelector_type_def LabelSelector_DeepCopyInto_def
  by (rule deep_fields) (simp_all add: deep_rules)

lemmas LabelSelector_deep [deep_rules] = LabelSelector.deep_copier_axioms

interpretation FieldsV1: deep_copier FieldsV1_type FieldsV1_DeepCopyInto
  unfolding FieldsV1_type_def FieldsV1_DeepCopyInto_def
  by (rule deep_fields) (simp_all add: deep_rules)

lemmas FieldsV1_deep [deep_rules] = FieldsV1.deep_copier_axioms

interpretation ManagedFieldsEntry: deep_copier ManagedFieldsEntry_type ManagedFieldsEntry_DeepCopyInto
  unfolding ManagedFieldsEntry_type_def ManagedFieldsEntry_DeepCopyInto_def
  by (rule deep_fields) (simp_all add: deep_rules)

lemmas ManagedFieldsEntry_deep [deep_rules] = ManagedFieldsEntry.deep_copier_axioms

interpretation OwnerReference: deep_copier OwnerReference_type OwnerReference_DeepCopyInto
  unfolding OwnerReference_type_def OwnerReference_DeepCopyInto_def
  by (rule deep_fields) (simp_all add: deep_rules)

lemmas OwnerReference_deep [deep_rules] = OwnerReference.deep_copier_axioms

interpretation ObjectMeta: deep_copier ObjectMeta_type ObjectMeta_DeepCopyInto
  unfolding ObjectMeta_type_def ObjectMeta_DeepCopyInto_def
  by (rule deep_fields) (simp_all add: deep_rules)

lemmas ObjectMeta_deep [deep_rules] = ObjectMeta.deep_copier_axioms

interpretation ListMeta: deep_copier ListMeta_type ListMeta_DeepCopyInto
  unfolding ListMeta_type_def ListMeta_DeepCopyInto_def
  by (rule deep_fields) (simp_all add: deep_rules)

lemmas ListMeta_deep [deep_rules] = ListMeta.deep_copier_axioms

interpretation Condition: deep_copier Condition_type Condition_DeepCopyInto
  unfolding Condition_type_def Condition_DeepCopyInto_def
  by (rule deep_fields) (simp_all add: deep_rules)

lemmas Condition_deep [deep_rules] = Condition.deep_copier_axioms

interpretation Rule: deep_copier Rule_type Rule_DeepCopyInto
  unfolding Rule_type_def Rule_DeepCopyInto_def
  by (rule deep_fields) (simp_all add: deep_rules)

lemmas Rule_deep [deep_rules] = Rule.deep_copier_axioms

interpretation RuleWithOperations: deep_copier RuleWithOperations_type RuleWithOperations_DeepCopyInto
  unfolding RuleWithOperations_type_def RuleWithOperations_DeepCopyInto_def
  by (rule deep_fields) (simp_all add: deep_rules)

lemmas RuleWithOperations_deep [deep_rules] = RuleWithOperations.deep_copier_axioms

interpretation AuditAnnotation: deep_copier AuditAnnotation_type AuditAnnotation_DeepCopyInto
  unfolding AuditAnnotation_type_def AuditAnnotation_DeepCopyInto_def
  by (rule deep_fields) (simp_all add: deep_rules)

lemmas AuditAnnotation_deep [deep_rules] = AuditAnnotation.deep_copier_axioms

interpretation ExpressionWarning: deep_copier ExpressionWarning_type ExpressionWarning_DeepCopyInto
  unfolding ExpressionWarning_type_def ExpressionWarning_DeepCopyInto_def
  by (rule deep_fields) (simp_all add: deep_rules)

lemmas ExpressionWarning_deep [deep_rules] = ExpressionWarning.deep_copier_axioms

interpretation MatchCondition: deep_copier MatchCondition_type MatchCondition_DeepCopyInto
  unfolding MatchCondition_type_def MatchCondition_DeepCopyInto_def
  by (rule deep_fields) (simp_all add: deep_rules)

lemmas MatchCondition_deep [deep_rules] = MatchCondition.deep_copier_axioms

interpretation NamedRuleWithOperations: deep_copier NamedRuleWithOperations_type NamedRuleWithOperations_DeepCopyInto
  unfolding NamedRuleWithOperations_type_def NamedRuleWithOperations_DeepCopyInto_def
  by (rule deep_fields) (simp_all add: deep_rules)

lemmas NamedRuleWithOperations_deep [deep_rules] = NamedRuleWithOperations.deep_copier_axioms

interpretation MatchResources: deep_copier MatchResources_type MatchResources_DeepCopyInto
  unfolding MatchResources_type_def MatchResources_DeepCopyInto_def
  by (rule deep_fields) (simp_all add: deep_rules)

lemmas MatchResources_deep [deep_rules] = MatchResources.deep_copier_axioms

interpretation ParamKind: deep_copier ParamKind_type ParamKind_DeepCopyInto
  unfolding ParamKind_type_def ParamKind_DeepCopyInto_def
  by (rule deep_fields) (simp_all add: deep_rules)

lemmas ParamKind_deep [deep_rules] = ParamKind.deep_copier_axioms

interpretation ParamRef: deep_copier ParamRef_type ParamRef_DeepCopyInto
  unfolding ParamRef_type_def ParamRef_DeepCopyInto_def
  by (rule deep_fields) (simp_all add: deep_rules)

lemmas ParamRef_deep [deep_rules] = ParamRef.deep_copier_axioms

interpretation TypeChecking: deep_copier TypeChecking_type TypeChecking_DeepCopyInto
  unfolding TypeChecking_type_def TypeChecking_DeepCopyInto_def
  by (rule deep_fields) (simp_all add: deep_rules)

lemmas TypeChecking_deep [deep_rules] = TypeChecking.deep_copier_axioms

interpretation Validation: deep_copier Validation_type Validation_DeepCopyInto
  unfolding Validation_type_def Validation_DeepCopyInto_def
  by (rule deep_fields) (simp_all add: deep_rules)

lemmas Validation_deep [deep_rules] = Validation.deep_copier_axioms

interpretation ValidatingAdmissionPolicySpec: deep_copier ValidatingAdmissionPolicySpec_type ValidatingAdmissionPolicySpec_DeepCopyInto
  unfolding ValidatingAdmissionPolicySpec_type_def ValidatingAdmissionPolicySpec_DeepCopyInto_def
  by (rule deep_fields) (simp_all add: deep_rules)

lemmas ValidatingAdmissionPolicySpec_deep [deep_rules] = ValidatingAdmissionPolicySpec.deep_copier_axioms

interpretation ValidatingAdmissionPolicyStatus: deep_copier ValidatingAdmissionPolicyStatus_type ValidatingAdmissionPolicyStatus_DeepCopyInto
  unfolding ValidatingAdmissionPolicyStatus_type_def ValidatingAdmissionPolicyStatus_DeepCopyInto_def
  by (rule deep_fields) (simp_all add: deep_rules)

lemmas ValidatingAdmissionPolicyStatus_deep [deep_rules] = ValidatingAdmissionPolicyStatus.deep_copier_axioms

interpretation ValidatingAdmissionPolicy: deep_copier ValidatingAdmissionPolicy_type ValidatingAdmissionPolicy_DeepCopyInto
  unfolding ValidatingAdmissionPolicy_type_def ValidatingAdmissionPolicy_DeepCopyInto_def
  by (rule deep_fields) (simp_all add: deep_rules)

lemmas ValidatingAdmissionPolicy_deep [deep_rules] = ValidatingAdmissionPolicy.deep_copier_axioms

interpretation ValidatingAdmissionPolicyList: deep_copier ValidatingAdmissionPolicyList_type ValidatingAdmissionPolicyList_DeepCopyInto
  unfolding ValidatingAdmissionPolicyList_type_def ValidatingAdmissionPolicyList_DeepCopyInto_def
  by (rule deep_fields) (simp_all add: deep_rules)

lemmas ValidatingAdmissionPolicyList_deep [deep_rules] = ValidatingAdmissionPolicyList.deep_copier_axioms

interpretation ValidatingAdmissionPolicyBindingSpec: deep_copier ValidatingAdmissionPolicyBindingSpec_type ValidatingAdmissionPolicyBindingSpec_DeepCopyInto
  unfolding ValidatingAdmissionPolicyBindingSpec_type_def ValidatingAdmissionPolicyBindingSpec_DeepCopyInto_def
  by (rule deep_fields) (simp_all add: deep_rules)

lemmas ValidatingAdmissionPolicyBindingSpec_deep [deep_rules] = ValidatingAdmissionPolicyBindingSpec.deep_copier_axioms

interpretation ValidatingAdmissionPolicyBinding: deep_copier ValidatingAdmissionPolicyBinding_type ValidatingAdmissionPolicyBinding_DeepCopyInto
  unfolding ValidatingAdmissionPolicyBinding_type_def ValidatingAdmissionPolicyBinding_DeepCopyInto_def
  by (rule deep_fields) (simp_all add: deep_rules)

lemmas ValidatingAdmissionPolicyBinding_deep [deep_rules] = ValidatingAdmissionPolicyBinding.deep_copier_axioms

interpretation ValidatingAdmissionPolicyBindingList: deep_copier ValidatingAdmissionPolicyBindingList_type ValidatingAdmissionPolicyBindingList_DeepCopyInto
  unfolding ValidatingAdmissionPolicyBindingList_type_def ValidatingAdmissionPolicyBindingList_DeepCopyInto_def
  by (rule deep_fields) (simp_all add: deep_rules)

lemmas ValidatingAdmissionPolicyBindingList_deep [deep_rules] = ValidatingAdmissionPolicyBindingList.deep_copier_axioms

section \<open>Properties\<close>

text \<open>The types of the repository, as declared, with their generated functions.\<close>

definition generated_copies :: "(shape \<times> copier) list" where
  "generated_copies =
     [(AuditAnnotation_type, AuditAnnotation_DeepCopy),
      (ExpressionWarning_type, ExpressionWarning_DeepCopy),
      (MatchCondition_type, MatchCondition_DeepCopy),
      (NamedRuleWithOperations_type, NamedRuleWithOperations_DeepCopy),
      (MatchResources_type, MatchResources_DeepCopy),
      (ParamKind_type, ParamKind_DeepCopy),
      (ParamRef_type, ParamRef_DeepCopy),
      (TypeChecking_type, TypeChecking_DeepCopy),
      (Validation_type, Validation_DeepCopy),
      (ValidatingAdmissionPolicySpec_type, ValidatingAdmissionPolicySpec_DeepCopy),
      (ValidatingAdmissionPolicyStatus_type, ValidatingAdmissionPolicyStatus_DeepCopy),
      (ValidatingAdmissionPolicy_type, ValidatingAdmissionPolicy_DeepCopy),
      (ValidatingAdmissionPolicyList_type, ValidatingAdmissionPolicyList_DeepCopy),
      (ValidatingAdmissionPolicyBindingSpec_type, ValidatingAdmissionPolicyBindingSpec_DeepCopy),
      (ValidatingAdmissionPolicyBinding_type, ValidatingAdmissionPolicyBinding_DeepCopy),
      (ValidatingAdmissionPolicyBindingList_type, ValidatingAdmissionPolicyBindingList_DeepCopy),
      (ValidatingAdmissionPolicy_type, ValidatingAdmissionPolicy_DeepCopyObject),
      (ValidatingAdmissionPolicyList_type, ValidatingAdmissionPolicyList_DeepCopyObject),
      (ValidatingAdmissionPolicyBinding_type, ValidatingAdmissionPolicyBinding_DeepCopyObject),
      (ValidatingAdmissionPolicyBindingList_type, ValidatingAdmissionPolicyBindingList_DeepCopyObject)]"

lemmas generated_defs =
    AuditAnnotation_DeepCopy_def ExpressionWarning_DeepCopy_def MatchCondition_DeepCopy_def
    NamedRuleWithOperations_DeepCopy_def MatchResources_DeepCopy_def ParamKind_DeepCopy_def ParamRef_DeepCopy_def
    TypeChecking_DeepCopy_def Validation_DeepCopy_def ValidatingAdmissionPolicySpec_DeepCopy_def
    ValidatingAdmissionPolicyStatus_DeepCopy_def ValidatingAdmissionPolicy_DeepCopy_def
    ValidatingAdmissionPolicyList_DeepCopy_def ValidatingAdmissionPolicyBindingSpec_DeepCopy_def
    ValidatingAdmissionPolicyBinding_DeepCopy_def ValidatingAdmissionPolicyBindingList_DeepCopy_def
    ValidatingAdmissionPolicy_DeepCopyObject_def ValidatingAdmissionPolicyList_DeepCopyObject_def
    ValidatingAdmissionPolicyBinding_DeepCopyObject_def ValidatingAdmissionPolicyBindingList_DeepCopyObject_def

lemma generated_deep: "(T, copy) \<in> set generated_copies \<Longrightarrow> deep_copier (SPtr T) copy"
  by (auto simp: generated_copies_def generated_defs DeepCopyObject_eq DeepCopy_eq intro: deep_rules)

text \<open>
  C25. Copies are deep. For each type of the repository, \<^verbatim>\<open>DeepCopy\<close> and \<^verbatim>\<open>DeepCopyObject\<close> of a pointer
  return a pointer that reads the same as the original, change no cell that existed, and
  share no cell with the original. So whatever is written later to the cells of the copy, the
  original still reads as before, and the other way round.
\<close>

theorem deepcopy_isolated:
  assumes "(T, copy) \<in> set generated_copies" and "readv h (SPtr T) p = Some t" and "copy p h = (q, h')"
  shows "take (length h) h' = h \<and> readv h' (SPtr T) q = Some t \<and> cells h' (SPtr T) p \<inter> cells h' (SPtr T) q = {} \<and>
    (\<forall>h2. (\<forall>a. a \<notin> cells h' (SPtr T) q \<longrightarrow> cell_at h2 a = cell_at h' a) \<longrightarrow> readv h2 (SPtr T) p = Some t) \<and>
    (\<forall>h2. (\<forall>a. a \<notin> cells h' (SPtr T) p \<longrightarrow> cell_at h2 a = cell_at h' a) \<longrightarrow> readv h2 (SPtr T) q = Some t)"
proof -
  note deep = generated_deep [OF assms(1)]
  have "take (length h) h' = h" using deep_copier.copied [OF deep assms(2,3)] by (auto simp: grows_def)
  with deep_copier.copied [OF deep assms(2,3)] deep_copier.disjoint [OF deep assms(2,3)]
    deep_copier.isolated [OF deep assms(2,3)]
  show ?thesis by auto
qed

section \<open>Witnesses\<close>

text \<open>A validation with a reason, and the same memory after the reason of the copy was overwritten.\<close>

definition example_memory :: heap where
  "example_memory =
     [Obj (VStruct [(''Expression'', VBasic (GoString ''object.ok'')), (''Message'', VBasic (GoString '''')),
        (''Reason'', VPtr (Some 1)), (''MessageExpression'', VBasic (GoString ''''))]),
      Obj (VBasic (GoString ''Invalid''))]"

theorem deepcopy_isolated_witness:
  "Validation_DeepCopy (VPtr (Some 0)) example_memory = (VPtr (Some 2), example_memory @
     [Obj (VStruct [(''Expression'', VBasic (GoString ''object.ok'')), (''Message'', VBasic (GoString '''')),
        (''Reason'', VPtr (Some 3)), (''MessageExpression'', VBasic (GoString ''''))]),
      Obj (VBasic (GoString ''Invalid''))]) \<and>
   readv ((snd (Validation_DeepCopy (VPtr (Some 0)) example_memory))[3 := Obj (VBasic (GoString ''Unknown''))])
     (SPtr Validation_type) (VPtr (Some 0)) = readv example_memory (SPtr Validation_type) (VPtr (Some 0))"
proof -
  let ?new = "example_memory @
     [Obj (VStruct [(''Expression'', VBasic (GoString ''object.ok'')), (''Message'', VBasic (GoString '''')),
        (''Reason'', VPtr (Some 3)), (''MessageExpression'', VBasic (GoString ''''))]),
      Obj (VBasic (GoString ''Invalid''))]"
  have gen: "(Validation_type, Validation_DeepCopy) \<in> set generated_copies"
    by (simp add: generated_copies_def)
  have run: "Validation_DeepCopy (VPtr (Some 0)) example_memory = (VPtr (Some 2), ?new)"
    by (simp add: Validation_DeepCopy_def DeepCopy_def Validation_DeepCopyInto_def copy_struct_def example_memory_def cell_at_def copy_ptr_def
        copy_shallow_def set_field_def)
  obtain t where t: "readv example_memory (SPtr Validation_type) (VPtr (Some 0)) = Some t"
    by (simp add: Validation_type_def example_memory_def cell_at_def)
  have cells: "cells ?new (SPtr Validation_type) (VPtr (Some 2)) = {2, 3}"
    by (auto simp: Validation_type_def example_memory_def cell_at_def)
  have later: "\<forall>a. a \<notin> cells ?new (SPtr Validation_type) (VPtr (Some 2)) \<longrightarrow>
      cell_at (?new[3 := Obj (VBasic (GoString ''Unknown''))]) a = cell_at ?new a"
    unfolding cells by (simp add: cell_at_def)
  have "readv (?new[3 := Obj (VBasic (GoString ''Unknown''))]) (SPtr Validation_type) (VPtr (Some 0)) = Some t"
    using deepcopy_isolated [OF gen t run] later by blast
  then show ?thesis using run t by simp
qed

end
