(* ===== verification/Scheme.thy ===== *)
theory Scheme
  imports ApiMachinery
begin

text \<open>
  The registry of API types (\<^verbatim>\<open>runtime.Scheme\<close>, vendored under
  \<^verbatim>\<open>k8s.io/apimachinery/pkg/runtime/scheme.go\<close>) and the registration of the policy types in it by
  \<^verbatim>\<open>pkg/apis/admissionregistration.x-k8s.io/v1alpha1/zz_generated.register.go\<close> and the generated
  \<^verbatim>\<open>scheme\<close> and \<^verbatim>\<open>fake\<close> packages. The tables of conversion and defaulting functions of a scheme are
  left out; registering such functions neither reads nor writes the tables that are modelled.
  The lemmas show that the two directions of the registry agree after any registration.
\<close>

section \<open>Definitions\<close>

text \<open>\<^verbatim>\<open>reflect.Type\<close> of a struct; a registered object is a pointer to it.\<close>

record goType =
  ty_PkgPath :: string
  ty_Name :: string

record GroupVersion =
  gv_Group :: string
  gv_Version :: string

definition WithKind :: "GroupVersion \<Rightarrow> string \<Rightarrow> GroupVersionKind" where
  "WithKind gv kind = \<lparr>gvk_Group = gv_Group gv, gvk_Version = gv_Version gv, gvk_Kind = kind\<rparr>"

definition gvk_GroupVersion :: "GroupVersionKind \<Rightarrow> GroupVersion" where
  "gvk_GroupVersion gvk = \<lparr>gv_Group = gvk_Group gvk, gv_Version = gvk_Version gvk\<rparr>"

definition fmt_GVK :: "GroupVersionKind \<Rightarrow> string" where
  "fmt_GVK gvk = gvk_Group gvk @ ''/'' @ gvk_Version gvk @ '', Kind='' @ gvk_Kind gvk"

record Scheme =
  sch_gvkToType :: "GroupVersionKind \<rightharpoonup> goType"
  sch_typeToGVK :: "goType \<Rightarrow> GroupVersionKind list"
  sch_unversionedTypes :: "goType \<rightharpoonup> GroupVersionKind"
  sch_unversionedKinds :: "string \<rightharpoonup> goType"
  sch_observedVersions :: "GroupVersion list"
  sch_schemeName :: string

definition NewScheme :: "string \<Rightarrow> Scheme" where
  "NewScheme name = \<lparr>sch_gvkToType = Map.empty, sch_typeToGVK = (\<lambda>t. []), sch_unversionedTypes = Map.empty,
     sch_unversionedKinds = Map.empty, sch_observedVersions = [], sch_schemeName = name\<rparr>"

definition APIVersionInternal :: string where
  "APIVersionInternal = ''__internal''"

definition addObservedVersion :: "GroupVersion \<Rightarrow> Scheme \<Rightarrow> Scheme" where
  "addObservedVersion version s =
     (if length (gv_Version version) = 0 \<or> gv_Version version = APIVersionInternal then s
      else if version \<in> set (sch_observedVersions s) then s
      else s\<lparr>sch_observedVersions := sch_observedVersions s @ [version]\<rparr>)"

definition AddKnownTypeWithName :: "GroupVersionKind \<Rightarrow> goType \<Rightarrow> Scheme \<Rightarrow> Scheme result" where
  "AddKnownTypeWithName gvk t s0 =
     (let s = addObservedVersion (gvk_GroupVersion gvk) s0 in
      if length (gvk_Version gvk) = 0 then
        Panic (''version is required on all types: '' @ fmt_GVK gvk @ '' *'' @ ty_PkgPath t @ ''.'' @ ty_Name t)
      else if sch_gvkToType s gvk \<noteq> None \<and> sch_gvkToType s gvk \<noteq> Some t then
        (let oldT = the (sch_gvkToType s gvk) in
         Panic (''Double registration of different types for '' @ fmt_GVK gvk @ '': old='' @ ty_PkgPath oldT @ ''.'' @
           ty_Name oldT @ '', new='' @ ty_PkgPath t @ ''.'' @ ty_Name t @ '' in scheme '' @ go_quote (sch_schemeName s)))
      else
        let s1 = s\<lparr>sch_gvkToType := (sch_gvkToType s)(gvk \<mapsto> t)\<rparr> in
        if gvk \<in> set (sch_typeToGVK s1 t) then Ret s1
        else Ret (s1\<lparr>sch_typeToGVK := (sch_typeToGVK s1)(t := sch_typeToGVK s1 t @ [gvk])\<rparr>))"

fun knownTypesLoop :: "GroupVersion \<Rightarrow> goType list \<Rightarrow> Scheme \<Rightarrow> Scheme result" where
  "knownTypesLoop gv [] s = Ret s"
| "knownTypesLoop gv (t # types) s =
     bind_outcome (AddKnownTypeWithName (WithKind gv (ty_Name t)) t s) (knownTypesLoop gv types)"

definition AddKnownTypes :: "GroupVersion \<Rightarrow> goType list \<Rightarrow> Scheme \<Rightarrow> Scheme result" where
  "AddKnownTypes gv types s = knownTypesLoop gv types (addObservedVersion gv s)"

fun unversionedLoop :: "GroupVersion \<Rightarrow> goType list \<Rightarrow> Scheme \<Rightarrow> Scheme result" where
  "unversionedLoop version [] s = Ret s"
| "unversionedLoop version (t # types) s0 =
     (let gvk = WithKind version (ty_Name t);
          s = s0\<lparr>sch_unversionedTypes := (sch_unversionedTypes s0)(t \<mapsto> gvk)\<rparr> in
      if sch_unversionedKinds s (gvk_Kind gvk) \<noteq> None \<and> sch_unversionedKinds s (gvk_Kind gvk) \<noteq> Some t then
        (let old = the (sch_unversionedKinds s (gvk_Kind gvk)) in
         Panic (ty_PkgPath old @ ''.'' @ ty_Name old @ '' has already been registered as unversioned kind '' @
           go_quote (fmt_GVK gvk) @ '' - kind name must be unique in scheme '' @ go_quote (sch_schemeName s)))
      else
        unversionedLoop version types (s\<lparr>sch_unversionedKinds := (sch_unversionedKinds s)(gvk_Kind gvk \<mapsto> t)\<rparr>))"

definition AddUnversionedTypes :: "GroupVersion \<Rightarrow> goType list \<Rightarrow> Scheme \<Rightarrow> Scheme result" where
  "AddUnversionedTypes version types s =
     bind_outcome (AddKnownTypes version types (addObservedVersion version s)) (unversionedLoop version types)"

definition scheme_New :: "GroupVersionKind \<Rightarrow> Scheme \<Rightarrow> goType result" where
  "scheme_New kind s =
     (case sch_gvkToType s kind of
        Some t \<Rightarrow> Ret t
      | None \<Rightarrow>
          (case sch_unversionedKinds s (gvk_Kind kind) of
             Some t \<Rightarrow> Ret t
           | None \<Rightarrow> Err (NotRegisteredErr (''no kind '' @ go_quote (gvk_Kind kind) @ '' is registered in scheme '' @
               go_quote (sch_schemeName s)))))"

text \<open>\<^verbatim>\<open>ObjectKinds\<close> of a typed object.\<close>

definition ObjectKinds :: "goType \<Rightarrow> Scheme \<Rightarrow> (GroupVersionKind list \<times> bool) result" where
  "ObjectKinds t s =
     (if sch_typeToGVK s t = [] then
        Err (NotRegisteredErr (''no kind is registered for the type '' @ ty_Name t @ '' in scheme '' @ go_quote (sch_schemeName s)))
      else Ret (sch_typeToGVK s t, sch_unversionedTypes s t \<noteq> None))"

definition Recognizes :: "GroupVersionKind \<Rightarrow> Scheme \<Rightarrow> bool" where
  "Recognizes gvk s \<longleftrightarrow> sch_gvkToType s gvk \<noteq> None"

text \<open>\<^verbatim>\<open>SchemeBuilder.AddToScheme\<close>: the functions in order, up to the first error.\<close>

fun builder_AddToScheme :: "(Scheme \<Rightarrow> Scheme result) list \<Rightarrow> Scheme \<Rightarrow> Scheme result" where
  "builder_AddToScheme [] s = Ret s"
| "builder_AddToScheme (f # fs) s = bind_outcome (f s) (builder_AddToScheme fs)"

subsection \<open>The metadata types of every group\<close>

definition meta_type :: "string \<Rightarrow> goType" where
  "meta_type name = \<lparr>ty_PkgPath = ''k8s.io/apimachinery/pkg/apis/meta/v1'', ty_Name = name\<rparr>"

definition optionsTypes :: "goType list" where
  "optionsTypes = map meta_type [''ListOptions'', ''GetOptions'', ''DeleteOptions'', ''CreateOptions'', ''UpdateOptions'', ''PatchOptions'']"

definition Unversioned :: GroupVersion where
  "Unversioned = \<lparr>gv_Group = '''', gv_Version = ''v1''\<rparr>"

definition unversionedTypes :: "goType list" where
  "unversionedTypes = map meta_type [''Status'', ''APIVersions'', ''APIGroupList'', ''APIGroup'', ''APIResourceList'']"

definition AddToGroupVersion :: "GroupVersion \<Rightarrow> Scheme \<Rightarrow> Scheme result" where
  "AddToGroupVersion groupVersion s =
     bind_outcome (AddKnownTypeWithName (WithKind groupVersion ''WatchEvent'') (meta_type ''WatchEvent'') s) (\<lambda>s1.
     bind_outcome (AddKnownTypeWithName (WithKind \<lparr>gv_Group = gv_Group groupVersion, gv_Version = APIVersionInternal\<rparr> ''WatchEvent'')
       (meta_type ''InternalEvent'') s1) (\<lambda>s2.
     bind_outcome (AddKnownTypes groupVersion optionsTypes s2) (\<lambda>s3.
     AddUnversionedTypes Unversioned unversionedTypes s3)))"

subsection \<open>Registration of the policy types\<close>

definition GroupName :: string where
  "GroupName = ''admissionregistration.x-k8s.io''"

definition SchemeGroupVersion :: GroupVersion where
  "SchemeGroupVersion = \<lparr>gv_Group = GroupName, gv_Version = ''v1alpha1''\<rparr>"

definition policy_type :: "string \<Rightarrow> goType" where
  "policy_type name =
     \<lparr>ty_PkgPath = ''k8s.io/cel-admission-webhook/pkg/apis/admissionregistration.x-k8s.io/v1alpha1'', ty_Name = name\<rparr>"

definition policyTypes :: "goType list" where
  "policyTypes = map policy_type [''ValidatingAdmissionPolicy'', ''ValidatingAdmissionPolicyBinding'',
     ''ValidatingAdmissionPolicyBindingList'', ''ValidatingAdmissionPolicyList'']"

definition addKnownTypes :: "Scheme \<Rightarrow> Scheme result" where
  "addKnownTypes s =
     bind_outcome (AddKnownTypes SchemeGroupVersion policyTypes s) (AddToGroupVersion SchemeGroupVersion)"

text \<open>The builder of the types' package, to which its \<^verbatim>\<open>init\<close> adds one function.\<close>

definition v1alpha1_AddToScheme :: "Scheme \<Rightarrow> Scheme result" where
  "v1alpha1_AddToScheme = builder_AddToScheme [addKnownTypes]"

text \<open>The builders and the initialised schemes of the generated clientset and of the fake one.\<close>

definition clientset_AddToScheme :: "Scheme \<Rightarrow> Scheme result" where
  "clientset_AddToScheme = builder_AddToScheme [v1alpha1_AddToScheme]"

definition must :: "'a result \<Rightarrow> 'a result" where
  "must r = (case r of Err err \<Rightarrow> Panic (error_Error err) | _ \<Rightarrow> r)"

definition clientset_Scheme :: "Scheme result" where
  "clientset_Scheme =
     bind_outcome (AddToGroupVersion \<lparr>gv_Group = '''', gv_Version = ''v1''\<rparr> (NewScheme ''scheme''))
       (\<lambda>s. must (clientset_AddToScheme s))"

definition fake_AddToScheme :: "Scheme \<Rightarrow> Scheme result" where
  "fake_AddToScheme = builder_AddToScheme [v1alpha1_AddToScheme]"

definition fake_scheme :: "Scheme result" where
  "fake_scheme =
     bind_outcome (AddToGroupVersion \<lparr>gv_Group = '''', gv_Version = ''v1''\<rparr> (NewScheme ''fake''))
       (\<lambda>s. must (fake_AddToScheme s))"

section \<open>Lemmas\<close>

text \<open>The two directions of the registry agree.\<close>

definition scheme_ok :: "Scheme \<Rightarrow> bool" where
  "scheme_ok s \<longleftrightarrow>
     (\<forall>gvk t. sch_gvkToType s gvk = Some t \<longleftrightarrow> gvk \<in> set (sch_typeToGVK s t)) \<and>
     (\<forall>t. distinct (sch_typeToGVK s t)) \<and> distinct (sch_observedVersions s) \<and>
     (\<forall>kind t. sch_unversionedKinds s kind = Some t \<longrightarrow> sch_unversionedTypes s t \<noteq> None)"

lemma observed_fields [simp]:
  "sch_gvkToType (addObservedVersion v s) = sch_gvkToType s"
  "sch_typeToGVK (addObservedVersion v s) = sch_typeToGVK s"
  "sch_unversionedTypes (addObservedVersion v s) = sch_unversionedTypes s"
  "sch_unversionedKinds (addObservedVersion v s) = sch_unversionedKinds s"
  "sch_schemeName (addObservedVersion v s) = sch_schemeName s"
  by (simp_all add: addObservedVersion_def)

lemma observed_ok: "scheme_ok s \<Longrightarrow> scheme_ok (addObservedVersion v s)"
  by (auto simp: scheme_ok_def addObservedVersion_def)


text \<open>
  What an operation registers: types under kinds, and kinds that are known in every version. The
  registrations have to fit: versions are given, and a kind has at most one type, in the list as
  well as in the scheme. Then the operation succeeds and the scheme knows the union.
\<close>

definition consistent :: "('k \<times> 'v) list \<Rightarrow> bool" where
  "consistent xs \<longleftrightarrow> (\<forall>k t u. (k, t) \<in> set xs \<longrightarrow> (k, u) \<in> set xs \<longrightarrow> t = u)"

definition fits :: "Scheme \<Rightarrow> (GroupVersionKind \<times> goType) list \<Rightarrow> (string \<times> goType) list \<Rightarrow> bool" where
  "fits s regs kinds \<longleftrightarrow> consistent regs \<and> consistent kinds \<and>
     (\<forall>gvk t. (gvk, t) \<in> set regs \<longrightarrow> gvk_Version gvk \<noteq> '''' \<and> sch_gvkToType s gvk \<in> {None, Some t}) \<and>
     (\<forall>kind t. (kind, t) \<in> set kinds \<longrightarrow> sch_unversionedKinds s kind \<in> {None, Some t})"

lemma consistent_map_of: "consistent xs \<Longrightarrow> map_of xs k = Some t \<longleftrightarrow> (k, t) \<in> set xs"
  by (metis consistent_def map_of_SomeD weak_map_of_SomeI)

locale registration =
  fixes add :: "Scheme \<Rightarrow> Scheme result" and regs :: "(GroupVersionKind \<times> goType) list" and kinds :: "(string \<times> goType) list"
  assumes registers: "scheme_ok s \<Longrightarrow> fits s regs kinds \<Longrightarrow>
    \<exists>s'. add s = Ret s' \<and> scheme_ok s' \<and> sch_gvkToType s' = sch_gvkToType s ++ map_of regs \<and>
      sch_unversionedKinds s' = sch_unversionedKinds s ++ map_of kinds"
begin

lemma again:
  assumes "scheme_ok s" and "fits s regs kinds" and "add s = Ret s'"
  shows "fits s' regs kinds"
  using registers [OF assms(1,2)] assms(2,3) by (auto simp: fits_def map_add_Some_iff consistent_map_of)

end

lemma consistent_append:
  assumes "consistent (xs @ ys)"
  shows "m ++ map_of xs ++ map_of ys = m ++ map_of (xs @ ys)" and "consistent xs" and "consistent ys"
proof -
  show c: "consistent xs" "consistent ys" using assms unfolding consistent_def by auto
  show "m ++ map_of xs ++ map_of ys = m ++ map_of (xs @ ys)"
  proof
    fix k
    show "(m ++ map_of xs ++ map_of ys) k = (m ++ map_of (xs @ ys)) k"
    proof (cases "map_of ys k")
      case None
      then show ?thesis by (simp add: map_add_def split: option.split)
    next
      case (Some t)
      then have "map_of (xs @ ys) k = Some t" using consistent_map_of [OF assms] map_of_SomeD by fastforce
      then show ?thesis using Some by (simp add: map_add_def)
    qed
  qed
qed

lemma fits_append:
  assumes "fits s (r1 @ r2) (k1 @ k2)"
  shows "fits s r1 k1"
    and "sch_gvkToType s' = sch_gvkToType s ++ map_of r1 \<Longrightarrow>
      sch_unversionedKinds s' = sch_unversionedKinds s ++ map_of k1 \<Longrightarrow> fits s' r2 k2"
proof -
  have r: "consistent (r1 @ r2)" and k: "consistent (k1 @ k2)" using assms by (simp_all add: fits_def)
  note cr = consistent_append(2,3) [OF r] and ck = consistent_append(2,3) [OF k]
  show "fits s r1 k1" using assms cr ck by (simp add: fits_def)
  assume s': "sch_gvkToType s' = sch_gvkToType s ++ map_of r1"
    "sch_unversionedKinds s' = sch_unversionedKinds s ++ map_of k1"
  have keep: "(m ++ map_of xs) q \<in> {None, Some t}"
    if "consistent (xs @ ys)" "(q, t) \<in> set ys" "m q \<in> {None, Some t}" for m :: "'k \<rightharpoonup> 'v" and xs ys q t
  proof (cases "map_of xs q")
    case (Some u)
    then have "u = t" using that(1,2) map_of_SomeD unfolding consistent_def by fastforce
    then show ?thesis using Some by (simp add: map_add_def)
  qed (use that(3) in \<open>simp add: map_add_def\<close>)
  show "fits s' r2 k2"
    unfolding fits_def s' using assms cr ck keep [OF r] keep [OF k] by (simp add: fits_def)
qed

lemma registration_then:
  assumes f: "registration f r1 k1" and g: "registration g r2 k2"
  shows "registration (\<lambda>s. bind_outcome (f s) g) (r1 @ r2) (k1 @ k2)"
proof
  fix s
  assume ok: "scheme_ok s" and fit: "fits s (r1 @ r2) (k1 @ k2)"
  obtain s1 where s1: "f s = Ret s1" "scheme_ok s1" "sch_gvkToType s1 = sch_gvkToType s ++ map_of r1"
      "sch_unversionedKinds s1 = sch_unversionedKinds s ++ map_of k1"
    using registration.registers [OF f ok fits_append(1) [OF fit]] by blast
  obtain s2 where s2: "g s1 = Ret s2" "scheme_ok s2" "sch_gvkToType s2 = sch_gvkToType s1 ++ map_of r2"
      "sch_unversionedKinds s2 = sch_unversionedKinds s1 ++ map_of k2"
    using registration.registers [OF g s1(2) fits_append(2) [OF fit s1(3,4)]] by blast
  have "consistent (r1 @ r2)" and "consistent (k1 @ k2)" using fit by (simp_all add: fits_def)
  from consistent_append(1) [OF this(1)] consistent_append(1) [OF this(2)]
  show "\<exists>s'. bind_outcome (f s) g = Ret s' \<and> scheme_ok s' \<and> sch_gvkToType s' = sch_gvkToType s ++ map_of (r1 @ r2) \<and>
      sch_unversionedKinds s' = sch_unversionedKinds s ++ map_of (k1 @ k2)"
    using s1 s2 by auto
qed

lemma registration_one: "registration (AddKnownTypeWithName gvk t) [(gvk, t)] []"
proof
  fix s
  assume ok: "scheme_ok s" and fit: "fits s [(gvk, t)] []"
  have v: "gvk_Version gvk \<noteq> ''''" and known: "sch_gvkToType s gvk = None \<or> sch_gvkToType s gvk = Some t"
    using fit by (auto simp: fits_def)
  let ?s = "addObservedVersion (gvk_GroupVersion gvk) s"
  have "\<exists>s'. AddKnownTypeWithName gvk t s = Ret s' \<and> sch_gvkToType s' = (sch_gvkToType s)(gvk \<mapsto> t) \<and>
      sch_typeToGVK s' = (sch_typeToGVK s)(t := if gvk \<in> set (sch_typeToGVK s t) then sch_typeToGVK s t else sch_typeToGVK s t @ [gvk]) \<and>
      sch_unversionedKinds s' = sch_unversionedKinds s \<and> sch_unversionedTypes s' = sch_unversionedTypes s \<and>
      sch_observedVersions s' = sch_observedVersions ?s"
    using v known by (auto simp: AddKnownTypeWithName_def Let_def)
  then obtain s' where s': "AddKnownTypeWithName gvk t s = Ret s'" "sch_gvkToType s' = (sch_gvkToType s)(gvk \<mapsto> t)"
      "sch_typeToGVK s' = (sch_typeToGVK s)(t := if gvk \<in> set (sch_typeToGVK s t) then sch_typeToGVK s t else sch_typeToGVK s t @ [gvk])"
      "sch_unversionedKinds s' = sch_unversionedKinds s" "sch_unversionedTypes s' = sch_unversionedTypes s"
      "sch_observedVersions s' = sch_observedVersions ?s" by blast
  have types: "\<And>g u. sch_gvkToType s g = Some u \<longleftrightarrow> g \<in> set (sch_typeToGVK s u)" "\<And>u. distinct (sch_typeToGVK s u)"
    using ok by (auto simp: scheme_ok_def)
  have ok_s': "\<forall>g u. sch_gvkToType s' g = Some u \<longleftrightarrow> g \<in> set (sch_typeToGVK s' u)" "\<forall>u. distinct (sch_typeToGVK s' u)"
    using types known unfolding s' by (auto simp flip: types(1))
  have "scheme_ok s'"
    using ok_s' ok observed_ok [OF ok, of "gvk_GroupVersion gvk"] by (simp add: scheme_ok_def s'(4-6))
  then show "\<exists>s'. AddKnownTypeWithName gvk t s = Ret s' \<and> scheme_ok s' \<and> sch_gvkToType s' = sch_gvkToType s ++ map_of [(gvk, t)] \<and>
      sch_unversionedKinds s' = sch_unversionedKinds s ++ map_of []"
    using s' by auto
qed

lemma registration_observed:
  assumes "registration f regs kinds"
  shows "registration (\<lambda>s. f (addObservedVersion v s)) regs kinds"
proof
  fix s
  assume "scheme_ok s" and "fits s regs kinds"
  then show "\<exists>s'. f (addObservedVersion v s) = Ret s' \<and> scheme_ok s' \<and> sch_gvkToType s' = sch_gvkToType s ++ map_of regs \<and>
      sch_unversionedKinds s' = sch_unversionedKinds s ++ map_of kinds"
    using registration.registers [OF assms observed_ok, of s v] by (simp add: fits_def)
qed

definition kinds_in :: "GroupVersion \<Rightarrow> goType list \<Rightarrow> (GroupVersionKind \<times> goType) list" where
  "kinds_in gv types = map (\<lambda>t. (WithKind gv (ty_Name t), t)) types"

lemma registration_loop: "registration (knownTypesLoop gv types) (kinds_in gv types) []"
proof (induction types)
  case Nil
  show ?case by unfold_locales (simp add: kinds_in_def)
next
  case (Cons t types)
  from registration_then [OF registration_one Cons.IH] show ?case by (simp add: kinds_in_def)
qed

lemma registration_known: "registration (AddKnownTypes gv types) (kinds_in gv types) []"
  using registration_observed [OF registration_loop] by (simp add: AddKnownTypes_def [abs_def])

lemma registration_unversioned_loop: "registration (unversionedLoop v types) [] (map (\<lambda>t. (ty_Name t, t)) types)"
proof (induction types)
  case Nil
  show ?case by unfold_locales simp
next
  case (Cons t types)
  let ?set = "\<lambda>s. if sch_unversionedKinds s (ty_Name t) \<in> {None, Some t}
    then Ret (s\<lparr>sch_unversionedTypes := (sch_unversionedTypes s)(t \<mapsto> WithKind v (ty_Name t)),
      sch_unversionedKinds := (sch_unversionedKinds s)(ty_Name t \<mapsto> t)\<rparr>)
    else unversionedLoop v [t] s"
  have "registration ?set [] [(ty_Name t, t)]"
    by unfold_locales (auto simp: fits_def scheme_ok_def)
  from registration_then [OF this Cons.IH]
  have "registration (\<lambda>s. bind_outcome (?set s) (unversionedLoop v types)) [] (map (\<lambda>t. (ty_Name t, t)) (t # types))"
    by simp
  moreover have "unversionedLoop v (t # types) s = bind_outcome (?set s) (unversionedLoop v types)" for s
    by (auto simp: WithKind_def Let_def)
  ultimately show ?case by presburger
qed

lemma registration_unversioned:
  "registration (AddUnversionedTypes v types) (kinds_in v types) (map (\<lambda>t. (ty_Name t, t)) types)"
  using registration_observed [OF registration_then [OF registration_known registration_unversioned_loop]]
  by (simp add: AddUnversionedTypes_def [abs_def])

definition meta_regs :: "GroupVersion \<Rightarrow> (GroupVersionKind \<times> goType) list" where
  "meta_regs gv =
     (WithKind gv ''WatchEvent'', meta_type ''WatchEvent'') #
     (WithKind \<lparr>gv_Group = gv_Group gv, gv_Version = APIVersionInternal\<rparr> ''WatchEvent'', meta_type ''InternalEvent'') #
     kinds_in gv optionsTypes @ kinds_in Unversioned unversionedTypes"

definition meta_kinds :: "(string \<times> goType) list" where
  "meta_kinds = map (\<lambda>t. (ty_Name t, t)) unversionedTypes"

interpretation group_version: registration "AddToGroupVersion gv" "meta_regs gv" meta_kinds for gv
  using registration_then [OF registration_one [of "WithKind gv ''WatchEvent''" "meta_type ''WatchEvent''"]
      registration_then [OF registration_one [of "WithKind \<lparr>gv_Group = gv_Group gv, gv_Version = APIVersionInternal\<rparr> ''WatchEvent''"
        "meta_type ''InternalEvent''"] registration_then [OF registration_known [of gv optionsTypes]
        registration_unversioned [of Unversioned unversionedTypes]]]]
  by (simp add: AddToGroupVersion_def [abs_def] meta_regs_def meta_kinds_def)

definition policy_regs :: "(GroupVersionKind \<times> goType) list" where
  "policy_regs = kinds_in SchemeGroupVersion policyTypes @ meta_regs SchemeGroupVersion"

lemma builder_single: "builder_AddToScheme [f] = f"
proof
  show "builder_AddToScheme [f] s = f s" for s by (cases "f s") simp_all
qed

interpretation policies_added: registration clientset_AddToScheme policy_regs meta_kinds
  using registration_then [OF registration_known [of SchemeGroupVersion policyTypes] group_version.registration_axioms [of SchemeGroupVersion]]
  by (simp add: clientset_AddToScheme_def v1alpha1_AddToScheme_def builder_single addKnownTypes_def [abs_def] policy_regs_def)

lemma policy_regs_known:
  "t \<in> set policyTypes \<Longrightarrow> (WithKind SchemeGroupVersion (ty_Name t), t) \<in> set policy_regs"
  by (auto simp: policy_regs_def kinds_in_def)

lemma meta_kinds_consistent: "consistent meta_kinds"
  by (simp add: consistent_def meta_kinds_def unversionedTypes_def meta_type_def)

lemma policy_regs_consistent: "consistent policy_regs"
proof -
  have "distinct (map fst policy_regs)"
    by (simp add: policy_regs_def kinds_in_def meta_regs_def policyTypes_def optionsTypes_def unversionedTypes_def
        WithKind_def policy_type_def meta_type_def SchemeGroupVersion_def GroupName_def Unversioned_def APIVersionInternal_def)
  then show ?thesis unfolding consistent_def by (metis map_of_is_SomeI option.inject)
qed

lemma policy_regs_cases:
  assumes "(gvk, t) \<in> set policy_regs"
  shows "gvk_Version gvk \<noteq> '''' \<and> (gvk_Group gvk = GroupName \<or> t \<in> set unversionedTypes \<and> gvk = WithKind Unversioned (ty_Name t))"
  using assms
  by (auto simp: policy_regs_def kinds_in_def meta_regs_def WithKind_def SchemeGroupVersion_def Unversioned_def APIVersionInternal_def)

text \<open>A scheme in which the group is new and the metadata kinds, if known, are those of the metadata package.\<close>

definition open_scheme :: "Scheme \<Rightarrow> bool" where
  "open_scheme s \<longleftrightarrow>
     (\<forall>gvk. gvk_Group gvk = GroupName \<longrightarrow> sch_gvkToType s gvk = None) \<and>
     (\<forall>t \<in> set unversionedTypes. sch_gvkToType s (WithKind Unversioned (ty_Name t)) \<in> {None, Some t} \<and>
        sch_unversionedKinds s (ty_Name t) \<in> {None, Some t})"

lemma open_fits:
  assumes "open_scheme s"
  shows "fits s policy_regs meta_kinds"
proof -
  have "sch_gvkToType s gvk \<in> {None, Some t}" if "(gvk, t) \<in> set policy_regs" for gvk t
  proof (cases "gvk_Group gvk = GroupName")
    case True
    then show ?thesis using assms by (simp add: open_scheme_def)
  next
    case False
    then have "t \<in> set unversionedTypes" "gvk = WithKind Unversioned (ty_Name t)" using policy_regs_cases [OF that] by auto
    then show ?thesis using assms by (simp add: open_scheme_def)
  qed
  then show ?thesis
    using assms policy_regs_cases policy_regs_consistent meta_kinds_consistent
    by (auto simp: fits_def open_scheme_def meta_kinds_def)
qed

lemma initial_scheme:
  "\<exists>s. AddToGroupVersion \<lparr>gv_Group = '''', gv_Version = ''v1''\<rparr> (NewScheme name) = Ret s \<and> scheme_ok s \<and> open_scheme s"
proof -
  let ?gv = "\<lparr>gv_Group = '''', gv_Version = ''v1''\<rparr>"
  have "distinct (map fst (meta_regs ?gv))"
    by (simp add: kinds_in_def meta_regs_def optionsTypes_def unversionedTypes_def WithKind_def meta_type_def
        Unversioned_def APIVersionInternal_def)
  then have c: "consistent (meta_regs ?gv)" unfolding consistent_def by (metis map_of_is_SomeI option.inject)
  have v: "gvk_Version gvk \<noteq> '''' \<and> gvk_Group gvk = ''''" if "(gvk, t) \<in> set (meta_regs ?gv)" for gvk t
    using that by (auto simp: kinds_in_def meta_regs_def WithKind_def Unversioned_def APIVersionInternal_def)
  have "scheme_ok (NewScheme name)" and "fits (NewScheme name) (meta_regs ?gv) meta_kinds"
    using c v meta_kinds_consistent by (auto simp: scheme_ok_def NewScheme_def fits_def)
  then obtain s where s: "AddToGroupVersion ?gv (NewScheme name) = Ret s" "scheme_ok s"
      "sch_gvkToType s = map_of (meta_regs ?gv)" "sch_unversionedKinds s = map_of meta_kinds"
    using group_version.registers [of "NewScheme name" ?gv] by (auto simp: NewScheme_def)
  have "sch_gvkToType s gvk = None" if "gvk_Group gvk = GroupName" for gvk
    using that v by (auto simp: s(3) GroupName_def map_of_eq_None_iff)
  moreover have "(WithKind Unversioned (ty_Name t), t) \<in> set (meta_regs ?gv)" "(ty_Name t, t) \<in> set meta_kinds"
    if "t \<in> set unversionedTypes" for t
    using that by (auto simp: meta_regs_def kinds_in_def meta_kinds_def)
  ultimately have "open_scheme s"
    unfolding open_scheme_def s(3,4) using consistent_map_of [OF c] consistent_map_of [OF meta_kinds_consistent]
    by (metis insertI1 insertI2)
  with s show ?thesis by blast
qed

section \<open>Properties\<close>

text \<open>
  C27. Registering the policy types, as \<^verbatim>\<open>main\<close> does with the scheme of the Kubernetes client, never
  panics on a scheme in which the group is new and the metadata kinds are those of the metadata
  package, and can be repeated. Afterwards each of the four kinds is created as the type of that
  name and each of these types is known under its kind, and every kind known before is still
  created as its type. In particular the initialisations of the generated clientset and of the
  fake one succeed.
\<close>

theorem policies_registered:
  assumes "scheme_ok s" and "open_scheme s"
  shows "(\<exists>s'. clientset_AddToScheme s = Ret s' \<and>
      (\<forall>t \<in> set policyTypes. scheme_New (WithKind SchemeGroupVersion (ty_Name t)) s' = Ret t \<and>
        (\<exists>kinds unversioned. ObjectKinds t s' = Ret (kinds, unversioned) \<and> WithKind SchemeGroupVersion (ty_Name t) \<in> set kinds)) \<and>
      (\<forall>gvk t. sch_gvkToType s gvk = Some t \<longrightarrow> scheme_New gvk s' = Ret t) \<and>
      (\<exists>s''. clientset_AddToScheme s' = Ret s'' \<and> sch_gvkToType s'' = sch_gvkToType s')) \<and>
    (\<exists>s0. clientset_Scheme = Ret s0) \<and> (\<exists>s0. fake_scheme = Ret s0)"
proof -
  have reg: "\<exists>s'. clientset_AddToScheme s = Ret s' \<and> scheme_ok s' \<and> sch_gvkToType s' = sch_gvkToType s ++ map_of policy_regs \<and>
      fits s' policy_regs meta_kinds" if "scheme_ok s" "open_scheme s" for s
    using policies_added.registers [OF that(1) open_fits [OF that(2)]] policies_added.again [OF that(1) open_fits [OF that(2)]]
    by blast
  have fake: "fake_AddToScheme = clientset_AddToScheme" by (simp add: fake_AddToScheme_def clientset_AddToScheme_def)
  have init: "\<exists>s0. bind_outcome (AddToGroupVersion \<lparr>gv_Group = '''', gv_Version = ''v1''\<rparr> (NewScheme name))
      (\<lambda>s. must (clientset_AddToScheme s)) = Ret s0" for name
  proof -
    obtain s s1 where "AddToGroupVersion \<lparr>gv_Group = [], gv_Version = ''v1''\<rparr> (NewScheme name) = Ret s"
      and "clientset_AddToScheme s = Ret s1" using initial_scheme [of name] reg by blast
    then show ?thesis by (simp add: must_def)
  qed
  from reg [OF assms] obtain s' where s': "clientset_AddToScheme s = Ret s'" "scheme_ok s'"
      "sch_gvkToType s' = sch_gvkToType s ++ map_of policy_regs" "fits s' policy_regs meta_kinds" by blast
  have new: "sch_gvkToType s' gvk = Some t" if "(gvk, t) \<in> set policy_regs" for gvk t
    using consistent_map_of [OF policy_regs_consistent] that by (simp add: s'(3))
  have old: "sch_gvkToType s' gvk = Some t" if "sch_gvkToType s gvk = Some t" for gvk t
  proof (cases "map_of policy_regs gvk")
    case None
    then show ?thesis using that by (simp add: s'(3) map_add_def)
  next
    case (Some u)
    then have "(gvk, u) \<in> set policy_regs" by (rule map_of_SomeD)
    then have "sch_gvkToType s gvk \<in> {None, Some u}" using open_fits [OF assms(2)] by (simp add: fits_def)
    then have "u = t" using that by simp
    then show ?thesis using Some by (simp add: s'(3))
  qed
  have kinds: "WithKind SchemeGroupVersion (ty_Name t) \<in> set (sch_typeToGVK s' t)" if "t \<in> set policyTypes" for t
    using s'(2) new [OF policy_regs_known [OF that]] by (auto simp: scheme_ok_def)
  from policies_added.registers [OF s'(2,4)]
  have "\<exists>s''. clientset_AddToScheme s' = Ret s'' \<and> sch_gvkToType s'' = sch_gvkToType s'"
    by (auto simp: s'(3) fun_eq_iff map_add_def split: option.split)
  then show ?thesis
    using s'(1) new [OF policy_regs_known] old kinds init
    by (fastforce simp: scheme_New_def ObjectKinds_def clientset_Scheme_def fake_scheme_def fake)
qed

section \<open>Witnesses\<close>

theorem policies_registered_witness:
  "\<exists>s s'. AddToGroupVersion \<lparr>gv_Group = '''', gv_Version = ''v1''\<rparr> (NewScheme ''client'') = Ret s \<and>
     clientset_AddToScheme s = Ret s' \<and>
     scheme_New (WithKind SchemeGroupVersion ''ValidatingAdmissionPolicy'') s' = Ret (policy_type ''ValidatingAdmissionPolicy'')"
proof -
  obtain s where s: "AddToGroupVersion \<lparr>gv_Group = '''', gv_Version = ''v1''\<rparr> (NewScheme ''client'') = Ret s"
    "scheme_ok s" "open_scheme s" using initial_scheme [of "''client''"] by blast
  have "policy_type ''ValidatingAdmissionPolicy'' \<in> set policyTypes" by (simp add: policyTypes_def)
  with policies_registered [OF s(2,3)] s(1) show ?thesis by (fastforce simp: policy_type_def)
qed

end
