(* ===== verification/SharedInformer.thy ===== *)
theory SharedInformer
  imports Lister
begin

text \<open>
  How a shared informer feeds an event handler, from the vendored \<^verbatim>\<open>client-go/tools/cache\<close>: the
  deltas of an object are applied to the indexer and turned into notifications
  (\<^verbatim>\<open>processDeltas\<close> of \<^verbatim>\<open>controller.go\<close>, \<^verbatim>\<open>OnAdd\<close>, \<^verbatim>\<open>OnUpdate\<close> and \<^verbatim>\<open>OnDelete\<close> of
  \<^verbatim>\<open>shared_informer.go\<close>), which wait in the buffer of the listener until its goroutine hands them to
  the handler one by one. The trackers of \<^verbatim>\<open>synctrack.go\<close> tell when all of the initial list has
  been handled. The informer is seen by one listener; a write to the indexer and the
  notification that follows it are separate operations, since readers of the indexer run in between.
\<close>

section \<open>Trackers\<close>

text \<open>\<^verbatim>\<open>AsyncTracker\<close>: the keys of the initial list that are not yet processed. A nil set is empty.\<close>

type_synonym AsyncTracker = "string set"

definition AsyncTracker_Start :: "string \<Rightarrow> AsyncTracker \<Rightarrow> AsyncTracker" where
  "AsyncTracker_Start key t = insert key t"

definition AsyncTracker_Finished :: "string \<Rightarrow> AsyncTracker \<Rightarrow> AsyncTracker" where
  "AsyncTracker_Finished key t = t - {key}"

definition AsyncTracker_HasSynced :: "bool \<Rightarrow> AsyncTracker \<Rightarrow> bool" where
  "AsyncTracker_HasSynced upstreamHasSynced t \<longleftrightarrow> (if \<not> upstreamHasSynced then False else t = {})"

text \<open>
  \<^verbatim>\<open>SingleFileTracker\<close>: a counter. It is an \<^verbatim>\<open>int64\<close> in the source; a count of undelivered
  notifications in memory does not reach its bound.
\<close>

definition SingleFileTracker_Start :: "int \<Rightarrow> int" where
  "SingleFileTracker_Start count = count + 1"

definition SingleFileTracker_Finished :: "int \<Rightarrow> int result" where
  "SingleFileTracker_Finished count =
     (let result = count - 1
      in if result < 0 then Panic ''synctrack: negative counter; this logic error means HasSynced may return incorrect value''
         else Ret result)"

definition SingleFileTracker_HasSynced :: "bool \<Rightarrow> int \<Rightarrow> bool" where
  "SingleFileTracker_HasSynced upstreamHasSynced count \<longleftrightarrow> (if \<not> upstreamHasSynced then False else count \<le> 0)"

section \<open>Notifications\<close>

datatype 'obj notification =
    addNotification 'obj bool
  | updateNotification 'obj 'obj
  | deleteNotification "'obj ev_obj"

fun isInitial :: "'obj notification \<Rightarrow> bool" where
  "isInitial (addNotification newObj isInInitialList) = isInInitialList"
| "isInitial n = False"

text \<open>
  The listener: its notifications in the order of the two channels and the ring buffer between
  them, whether its goroutine has still to count the notification it handled, whether it takes part in
  the current resync, and its tracker.
\<close>

record 'obj processorListener =
  pl_pending :: "'obj notification list"
  pl_handled :: bool
  pl_isSyncing :: bool
  pl_count :: int

definition newProcessListener :: "'obj processorListener" where
  "newProcessListener = \<lparr>pl_pending = [], pl_handled = False, pl_isSyncing = True, pl_count = 0\<rparr>"

definition listener_add :: "'obj notification \<Rightarrow> 'obj processorListener \<Rightarrow> 'obj processorListener" where
  "listener_add n p =
     (let p1 = (if isInitial n then p\<lparr>pl_count := SingleFileTracker_Start (pl_count p)\<rparr> else p)
      in p1\<lparr>pl_pending := pl_pending p1 @ [n]\<rparr>)"

definition listener_HasSynced :: "bool \<Rightarrow> 'obj processorListener \<Rightarrow> bool" where
  "listener_HasSynced hasSynced p = SingleFileTracker_HasSynced hasSynced (pl_count p)"

section \<open>The informer\<close>

text \<open>A delta of an object; the object of a deletion may be a tombstone.\<close>

datatype 'obj Delta = Added 'obj | Updated 'obj | Replaced 'obj | Sync 'obj | Deleted "'obj ev_obj"

text \<open>
  Besides the indexer and the life cycle: the deltas that the current call of \<^verbatim>\<open>HandleDeltas\<close>
  has still to process, its argument \<^verbatim>\<open>isInInitialList\<close>, and the notification, with the argument
  \<^verbatim>\<open>sync\<close>, that it has still to distribute.
\<close>

record 'obj sharedIndexInformer =
  si_indexer :: "'obj threadSafeMap"
  si_started :: bool
  si_stopped :: bool
  si_synced :: bool
  si_deltas :: "'obj Delta list"
  si_isInInitialList :: bool
  si_notification :: "('obj notification \<times> bool) option"
  si_listener :: "'obj processorListener option"

definition NewSharedIndexInformer :: "(string \<times> 'obj indexFunc) list \<Rightarrow> 'obj sharedIndexInformer" where
  "NewSharedIndexInformer indexers =
     \<lparr>si_indexer = NewIndexer indexers, si_started = False, si_stopped = False, si_synced = False, si_deltas = [],
      si_isInInitialList = False, si_notification = None, si_listener = None\<rparr>"

definition informer_idle :: "'obj sharedIndexInformer \<Rightarrow> bool" where
  "informer_idle i \<longleftrightarrow> si_deltas i = [] \<and> si_notification i = None"

text \<open>What the methods of the API objects and the formatting of errors give.\<close>

record 'obj object_env =
  oe_Accessor :: "'obj \<Rightarrow> goerror + accessor"
  oe_render :: "'obj ev_obj \<Rightarrow> string"

definition DeletionHandlingMetaNamespaceKeyFunc :: "'obj object_env \<Rightarrow> 'obj ev_obj \<Rightarrow> goerror + string" where
  "DeletionHandlingMetaNamespaceKeyFunc oe obj =
     (case obj of
        Tombstone key final \<Rightarrow> Inr key
      | _ \<Rightarrow> MetaNamespaceKeyFunc (oe_Accessor oe) obj)"

definition indexer_KeyError :: "'obj object_env \<Rightarrow> 'obj ev_obj \<Rightarrow> goerror \<Rightarrow> goerror" where
  "indexer_KeyError oe obj err =
     WrapError (''couldn'' @ [CHR 0x27] @ ''t create key for object '' @ oe_render oe obj @ '': '' @ error_Error err) err"

text \<open>\<^verbatim>\<open>indexer.Get\<close>, \<^verbatim>\<open>Add\<close>, \<^verbatim>\<open>Update\<close> and \<^verbatim>\<open>Delete\<close> with the key function of the informer.\<close>

definition indexer_Get :: "'obj object_env \<Rightarrow> 'obj \<Rightarrow> 'obj threadSafeMap \<Rightarrow> goerror + 'obj option" where
  "indexer_Get oe obj c =
     (case DeletionHandlingMetaNamespaceKeyFunc oe (EvObject obj) of
        Inl err \<Rightarrow> Inl (indexer_KeyError oe (EvObject obj) err)
      | Inr key \<Rightarrow> cache_GetByKey key c)"

definition indexer_Add :: "'obj object_env \<Rightarrow> 'obj \<Rightarrow> 'obj threadSafeMap \<Rightarrow> 'obj threadSafeMap result" where
  "indexer_Add oe obj c =
     cache_Add (\<lambda>x. oe_render oe (EvObject x)) (\<lambda>x. DeletionHandlingMetaNamespaceKeyFunc oe (EvObject x)) obj c"

definition indexer_Update :: "'obj object_env \<Rightarrow> 'obj \<Rightarrow> 'obj threadSafeMap \<Rightarrow> 'obj threadSafeMap result" where
  "indexer_Update oe obj c =
     cache_Update (\<lambda>x. oe_render oe (EvObject x)) (\<lambda>x. DeletionHandlingMetaNamespaceKeyFunc oe (EvObject x)) obj c"

definition indexer_Delete :: "'obj object_env \<Rightarrow> 'obj ev_obj \<Rightarrow> 'obj threadSafeMap \<Rightarrow> 'obj threadSafeMap result" where
  "indexer_Delete oe obj c =
     (case DeletionHandlingMetaNamespaceKeyFunc oe obj of
        Inl err \<Rightarrow> Err (indexer_KeyError oe obj err)
      | Inr key \<Rightarrow> tsm_Delete key c)"

text \<open>An update that keeps the resource version is a resync event.\<close>

definition informer_isSync :: "'obj object_env \<Rightarrow> 'obj \<Rightarrow> 'obj \<Rightarrow> bool" where
  "informer_isSync oe old new =
     (case (oe_Accessor oe new, oe_Accessor oe old) of
        (Inr accessor, Inr oldAccessor) \<Rightarrow> acc_ResourceVersion accessor = acc_ResourceVersion oldAccessor
      | _ \<Rightarrow> False)"

text \<open>
  The loop body of \<^verbatim>\<open>processDeltas\<close> up to the call of the informer's own handler: the new
  indexer, and the notification with the argument \<^verbatim>\<open>sync\<close> that the handler will distribute.
\<close>

definition upsertDelta ::
  "'obj object_env \<Rightarrow> bool \<Rightarrow> 'obj \<Rightarrow> 'obj threadSafeMap \<Rightarrow> ('obj threadSafeMap \<times> 'obj notification \<times> bool) result" where
  "upsertDelta oe isInInitialList obj c =
     (case indexer_Get oe obj c of
        Inr (Some old) \<Rightarrow>
          bind_outcome (indexer_Update oe obj c) (\<lambda>c1. Ret (c1, updateNotification old obj, informer_isSync oe old obj))
      | _ \<Rightarrow>
          bind_outcome (indexer_Add oe obj c) (\<lambda>c1. Ret (c1, addNotification obj isInInitialList, False)))"

fun processDelta ::
  "'obj object_env \<Rightarrow> bool \<Rightarrow> 'obj Delta \<Rightarrow> 'obj threadSafeMap \<Rightarrow> ('obj threadSafeMap \<times> 'obj notification \<times> bool) result" where
  "processDelta oe isInInitialList (Sync obj) c = upsertDelta oe isInInitialList obj c"
| "processDelta oe isInInitialList (Replaced obj) c = upsertDelta oe isInInitialList obj c"
| "processDelta oe isInInitialList (Added obj) c = upsertDelta oe isInInitialList obj c"
| "processDelta oe isInInitialList (Updated obj) c = upsertDelta oe isInInitialList obj c"
| "processDelta oe isInInitialList (Deleted obj) c =
     bind_outcome (indexer_Delete oe obj c) (\<lambda>c1. Ret (c1, deleteNotification obj, False))"

text \<open>
  \<^verbatim>\<open>DeltaFIFO.Pop\<close> holds the lock of the FIFO while it calls \<^verbatim>\<open>HandleDeltas\<close>: the objects belong to
  the initial list as long as the FIFO has not synced. \<^verbatim>\<open>processDeltas\<close> takes the next delta, and
  returns at the first error.
\<close>

definition informer_Pop :: "'obj Delta list \<Rightarrow> 'obj sharedIndexInformer \<Rightarrow> 'obj sharedIndexInformer" where
  "informer_Pop deltas i = i\<lparr>si_deltas := deltas, si_isInInitialList := \<not> si_synced i\<rparr>"

definition informer_next :: "'obj object_env \<Rightarrow> 'obj sharedIndexInformer \<Rightarrow> 'obj sharedIndexInformer result" where
  "informer_next oe i =
     (case si_deltas i of
        [] \<Rightarrow> Ret i
      | d # deltas \<Rightarrow>
          (case processDelta oe (si_isInInitialList i) d (si_indexer i) of
             Ret (c, n, sync) \<Rightarrow> Ret (i\<lparr>si_indexer := c, si_deltas := deltas, si_notification := Some (n, sync)\<rparr>)
           | Err err \<Rightarrow> Ret (i\<lparr>si_deltas := []\<rparr>)
           | Panic m \<Rightarrow> Panic m))"

text \<open>\<^verbatim>\<open>distribute\<close> for the one listener: a resync event only reaches a listener that is syncing.\<close>

definition distribute :: "'obj sharedIndexInformer \<Rightarrow> 'obj sharedIndexInformer" where
  "distribute i =
     (case si_notification i of
        None \<Rightarrow> i
      | Some (n, sync) \<Rightarrow>
          i\<lparr>si_notification := None,
            si_listener := map_option (\<lambda>p. if \<not> sync \<or> pl_isSyncing p then listener_add n p else p) (si_listener i)\<rparr>)"

text \<open>
  \<^verbatim>\<open>AddEventHandler\<close>. A handler that joins a started informer is told of the objects in the
  indexer, in the order \<open>keys\<close> in which the runtime enumerates it, as part of its initial list;
  \<open>repr\<close> is the \<^verbatim>\<open>%v\<close> rendering of the handler.
\<close>

definition AddEventHandler :: "string \<Rightarrow> string list \<Rightarrow> 'obj sharedIndexInformer \<Rightarrow> goerror + 'obj sharedIndexInformer" where
  "AddEventHandler repr keys i =
     (if si_stopped i then Inl (ErrorString (''handler '' @ repr @ '' was not added to shared informer because it has stopped already''))
      else if \<not> si_started i then Inr (i\<lparr>si_listener := Some newProcessListener\<rparr>)
      else Inr (i\<lparr>si_listener := Some (fold (\<lambda>item. listener_add (addNotification item True)) (tsm_List keys (si_indexer i)) newProcessListener)\<rparr>))"

definition RemoveEventHandler :: "'obj sharedIndexInformer \<Rightarrow> 'obj sharedIndexInformer" where
  "RemoveEventHandler i = i\<lparr>si_listener := None\<rparr>"

definition registration_HasSynced :: "'obj sharedIndexInformer \<Rightarrow> bool" where
  "registration_HasSynced i \<longleftrightarrow> (case si_listener i of None \<Rightarrow> False | Some p \<Rightarrow> listener_HasSynced (si_synced i) p)"

section \<open>Steps\<close>

text \<open>
  The objects \<open>V\<close> that the API server serves have metadata, and a namespace and a name without a
  slash; a tombstone has the key of such an object.
\<close>

definition object_key :: "'obj object_env \<Rightarrow> 'obj \<Rightarrow> string" where
  "object_key oe obj =
     (case DeletionHandlingMetaNamespaceKeyFunc oe (EvObject obj) of Inl err \<Rightarrow> '''' | Inr key \<Rightarrow> key)"

definition wf_key :: "string \<Rightarrow> bool" where
  "wf_key key \<longleftrightarrow> (\<exists>namespace name. CHR ''/'' \<notin> set namespace \<and> CHR ''/'' \<notin> set name \<and>
     key = (if namespace = '''' then name else namespace @ CHR ''/'' # name))"

definition well_named :: "'obj object_env \<Rightarrow> 'obj set \<Rightarrow> bool" where
  "well_named oe V \<longleftrightarrow> (\<forall>obj \<in> V. \<exists>acc. oe_Accessor oe obj = Inr acc \<and>
     CHR ''/'' \<notin> set (acc_Namespace acc) \<and> CHR ''/'' \<notin> set (acc_Name acc))"

fun served :: "'obj object_env \<Rightarrow> 'obj set \<Rightarrow> 'obj Delta \<Rightarrow> bool" where
  "served oe V (Added obj) = (obj \<in> V)"
| "served oe V (Updated obj) = (obj \<in> V)"
| "served oe V (Replaced obj) = (obj \<in> V)"
| "served oe V (Sync obj) = (obj \<in> V)"
| "served oe V (Deleted obj) =
     (case obj of EvObject final \<Rightarrow> final \<in> V | Tombstone key final \<Rightarrow> wf_key key | ExplicitKey key \<Rightarrow> False)"

text \<open>
  The informer starts, pops deltas, works through them, becomes synced between two calls of
  \<^verbatim>\<open>Pop\<close> and is stopped; the resync timer decides which listeners are syncing. The notifications that
  the processor drops when it is stopped stay in the list of the listener and are never delivered, so
  the counter of its tracker keeps counting them, as in the source.
\<close>

inductive informer_step ::
  "'obj object_env \<Rightarrow> 'obj set \<Rightarrow> 'obj sharedIndexInformer \<Rightarrow> 'obj sharedIndexInformer \<Rightarrow> bool" for oe V where
  start: "informer_step oe V i (i\<lparr>si_started := True\<rparr>)"
| pop: "si_started i \<Longrightarrow> informer_idle i \<Longrightarrow> list_all (served oe V) deltas \<Longrightarrow> informer_step oe V i (informer_Pop deltas i)"
| next_delta: "si_notification i = None \<Longrightarrow> informer_next oe i = Ret i' \<Longrightarrow> informer_step oe V i i'"
| notify: "informer_step oe V i (distribute i)"
| synced: "si_started i \<Longrightarrow> informer_idle i \<Longrightarrow> informer_step oe V i (i\<lparr>si_synced := True\<rparr>)"
| resync: "informer_step oe V i (i\<lparr>si_listener := map_option (\<lambda>p. p\<lparr>pl_isSyncing := b\<rparr>) (si_listener i)\<rparr>)"
| stop: "informer_step oe V i (i\<lparr>si_stopped := True\<rparr>)"

section \<open>The invariant\<close>

text \<open>The key that the controller's handler enqueues for a notification.\<close>

fun note_key :: "'obj object_env \<Rightarrow> 'obj notification \<Rightarrow> string option" where
  "note_key oe (addNotification newObj isInInitialList) = Some (object_key oe newObj)"
| "note_key oe (updateNotification oldObj newObj) =
     (if informer_isSync oe oldObj newObj then None else Some (object_key oe newObj))"
| "note_key oe (deleteNotification obj) =
     (case DeletionHandlingMetaNamespaceKeyFunc oe obj of Inl err \<Rightarrow> None | Inr key \<Rightarrow> Some key)"

fun note_served :: "'obj object_env \<Rightarrow> 'obj set \<Rightarrow> 'obj notification \<Rightarrow> bool" where
  "note_served oe V (addNotification newObj isInInitialList) = (newObj \<in> V)"
| "note_served oe V (updateNotification oldObj newObj) = (oldObj \<in> V \<and> newObj \<in> V)"
| "note_served oe V (deleteNotification obj) = served oe V (Deleted obj)"

definition listened :: "'obj sharedIndexInformer \<Rightarrow> 'obj notification list" where
  "listened i = (case si_listener i of None \<Rightarrow> [] | Some p \<Rightarrow> pl_pending p)"

definition undelivered :: "'obj sharedIndexInformer \<Rightarrow> 'obj notification set" where
  "undelivered i = set (listened i) \<union> fst ` set_option (si_notification i)"

text \<open>The keys on their way to the handler, and those of them that belong to the initial list.\<close>

definition coming :: "'obj object_env \<Rightarrow> 'obj sharedIndexInformer \<Rightarrow> string set" where
  "coming oe i = {key. \<exists>n \<in> undelivered i. note_key oe n = Some key}"

definition initials :: "'obj object_env \<Rightarrow> 'obj sharedIndexInformer \<Rightarrow> string set" where
  "initials oe i = {key. \<exists>n \<in> undelivered i. isInitial n \<and> note_key oe n = Some key}"

definition listener_ok :: "'obj processorListener \<Rightarrow> bool" where
  "listener_ok p \<longleftrightarrow> pl_count p = int (length (filter isInitial (pl_pending p))) + (if pl_handled p then 1 else 0)"

definition items_ok :: "'obj object_env \<Rightarrow> 'obj set \<Rightarrow> (string \<rightharpoonup> 'obj) \<Rightarrow> bool" where
  "items_ok oe V items \<longleftrightarrow> (\<forall>key obj. items key = Some obj \<longrightarrow> obj \<in> V \<and> object_key oe obj = key)"

definition informer_ok :: "'obj object_env \<Rightarrow> 'obj set \<Rightarrow> 'obj sharedIndexInformer \<Rightarrow> bool" where
  "informer_ok oe V i \<longleftrightarrow>
     items_ok oe V (tsm_items (si_indexer i)) \<and>
     list_all (served oe V) (si_deltas i) \<and> (\<forall>n \<in> undelivered i. note_served oe V n) \<and>
     (\<not> si_started i \<longrightarrow> tsm_items (si_indexer i) = Map.empty \<and> \<not> si_synced i \<and> informer_idle i) \<and>
     (si_deltas i \<noteq> [] \<longrightarrow> si_isInInitialList i = (\<not> si_synced i)) \<and>
     (\<forall>n sync. si_notification i = Some (n, sync) \<longrightarrow> (isInitial n \<longrightarrow> \<not> si_synced i \<and> \<not> sync) \<and> (sync \<longrightarrow> note_key oe n = None)) \<and>
     pred_option listener_ok (si_listener i)"

lemma object_key_wf: "well_named oe V \<Longrightarrow> obj \<in> V \<Longrightarrow> wf_key (object_key oe obj)"
  unfolding well_named_def wf_key_def object_key_def DeletionHandlingMetaNamespaceKeyFunc_def MetaNamespaceKeyFunc_def
  by fastforce

lemma served_key:
  assumes "well_named oe V" "obj \<in> V"
  shows "DeletionHandlingMetaNamespaceKeyFunc oe (EvObject obj) = Inr (object_key oe obj)"
  using assms by (fastforce simp: well_named_def object_key_def DeletionHandlingMetaNamespaceKeyFunc_def MetaNamespaceKeyFunc_def)

lemma informer_ok_New: "informer_ok oe V (NewSharedIndexInformer indexers)"
  by (simp add: informer_ok_def NewSharedIndexInformer_def NewIndexer_def NewThreadSafeStore_def items_ok_def
      informer_idle_def undelivered_def listened_def)

subsection \<open>Deltas\<close>

text \<open>What a delta does to the items, and the notification it causes.\<close>

lemma upsertDelta_effect:
  assumes wn: "well_named oe V" and ok: "items_ok oe V (tsm_items c)" and obj: "obj \<in> V"
    and run: "upsertDelta oe ini obj c = Ret (c1, n, sync)"
  shows "tsm_items c1 = (tsm_items c)(object_key oe obj \<mapsto> obj) \<and>
    (case tsm_items c (object_key oe obj) of
       None \<Rightarrow> n = addNotification obj ini \<and> \<not> sync
     | Some old \<Rightarrow> n = updateNotification old obj \<and> sync = informer_isSync oe old obj)"
  using run
  by (auto simp: upsertDelta_def indexer_Get_def indexer_Update_def indexer_Add_def cache_Add_def cache_Update_def
      cache_GetByKey_def tsm_Get_def tsm_Add_def served_key [OF wn obj] bind_outcome_Ret dest!: tsm_Update_Ret split: option.splits)

lemma indexer_Delete_effect:
  assumes "indexer_Delete oe obj c = Ret c1"
  shows "\<exists>key. DeletionHandlingMetaNamespaceKeyFunc oe obj = Inr key \<and> tsm_items c1 = (tsm_items c)(key := None)"
  using assms by (auto simp: indexer_Delete_def dest: tsm_Delete_Ret split: sum.splits)

text \<open>
  In general: at most one key changes, and the notification is about it unless it is a resync event.
  A new object that is found while the initial list is processed is announced as part of it.
\<close>

definition delta_effect ::
  "'obj object_env \<Rightarrow> 'obj set \<Rightarrow> bool \<Rightarrow> 'obj threadSafeMap \<Rightarrow> 'obj threadSafeMap \<Rightarrow> 'obj notification \<Rightarrow> bool \<Rightarrow> bool" where
  "delta_effect oe V ini c c1 n sync \<longleftrightarrow>
     items_ok oe V (tsm_items c1) \<and> note_served oe V n \<and> (isInitial n \<longrightarrow> ini \<and> \<not> sync) \<and> (sync \<longrightarrow> note_key oe n = None) \<and>
     (\<forall>key. tsm_items c1 key = tsm_items c key \<or> note_key oe n = Some key \<or>
        (\<exists>old new. tsm_items c key = Some old \<and> tsm_items c1 key = Some new \<and> informer_isSync oe old new)) \<and>
     (\<forall>key. tsm_items c key = None \<longrightarrow> tsm_items c1 key \<noteq> None \<longrightarrow> ini \<longrightarrow> isInitial n \<and> note_key oe n = Some key)"

lemma upsertDelta_changes:
  assumes wn: "well_named oe V" and ok: "items_ok oe V (tsm_items c)" and obj: "obj \<in> V"
    and run: "upsertDelta oe ini obj c = Ret (c1, n, sync)"
  shows "delta_effect oe V ini c c1 n sync"
proof -
  have items: "tsm_items c1 = (tsm_items c)(object_key oe obj \<mapsto> obj)"
    and n: "case tsm_items c (object_key oe obj) of
       None \<Rightarrow> n = addNotification obj ini \<and> \<not> sync
     | Some old \<Rightarrow> n = updateNotification old obj \<and> sync = informer_isSync oe old obj"
    using upsertDelta_effect [OF assms] by auto
  have "items_ok oe V (tsm_items c1)" using ok obj by (auto simp: items_ok_def items)
  moreover have "old \<in> V" if "tsm_items c (object_key oe obj) = Some old" for old
    using ok that by (auto simp: items_ok_def)
  ultimately show ?thesis using n obj by (auto simp: delta_effect_def items split: option.splits)
qed

lemma processDelta_changes:
  assumes wn: "well_named oe V" and ok: "items_ok oe V (tsm_items c)" and d: "served oe V d"
    and run: "processDelta oe ini d c = Ret (c1, n, sync)"
  shows "delta_effect oe V ini c c1 n sync"
proof (cases d)
  case (Deleted obj)
  then obtain key where "DeletionHandlingMetaNamespaceKeyFunc oe obj = Inr key" "tsm_items c1 = (tsm_items c)(key := None)"
    "n = deleteNotification obj" "\<not> sync"
    using run indexer_Delete_effect by (fastforce simp: bind_outcome_Ret)
  with ok d Deleted show ?thesis by (auto simp: delta_effect_def items_ok_def)
qed (use upsertDelta_changes [OF wn ok] d run in auto)

subsection \<open>Steps\<close>

text \<open>
  What a step of the informer guarantees to a registered handler: the life cycle only moves on; no
  notification is lost; an item that changed other than by a resync event is announced; and an
  object that appears before the informer has synced is announced as part of the initial list.
\<close>

definition informer_effect :: "'obj object_env \<Rightarrow> 'obj sharedIndexInformer \<Rightarrow> 'obj sharedIndexInformer \<Rightarrow> bool" where
  "informer_effect oe i i' \<longleftrightarrow>
     (si_started i \<longrightarrow> si_started i') \<and> (si_synced i \<longrightarrow> si_synced i') \<and> (si_listener i' = None) = (si_listener i = None) \<and>
     (si_listener i \<noteq> None \<longrightarrow> coming oe i \<subseteq> coming oe i' \<and> initials oe i \<subseteq> initials oe i' \<and>
       (\<forall>key. tsm_items (si_indexer i') key = tsm_items (si_indexer i) key \<or> key \<in> coming oe i' \<or>
          (\<exists>old new. tsm_items (si_indexer i) key = Some old \<and> tsm_items (si_indexer i') key = Some new \<and> informer_isSync oe old new)) \<and>
       (\<not> si_synced i' \<longrightarrow> (\<forall>key. tsm_items (si_indexer i) key = None \<longrightarrow> tsm_items (si_indexer i') key \<noteq> None \<longrightarrow> key \<in> initials oe i'))) \<and>
     (si_synced i \<noteq> si_synced i' \<longrightarrow> tsm_items (si_indexer i') = tsm_items (si_indexer i))"

lemma next_delta_ok:
  assumes wn: "well_named oe V" and ok: "informer_ok oe V i" and free: "si_notification i = None"
    and run: "informer_next oe i = Ret i'"
  shows "informer_ok oe V i' \<and> informer_effect oe i i'"
proof (cases "si_deltas i")
  case Nil
  then have "i' = i" using run by (simp add: informer_next_def)
  with ok show ?thesis by (auto simp: informer_effect_def)
next
  case (Cons d ds)
  have started: "si_started i" using ok Cons by (auto simp: informer_ok_def informer_idle_def)
  have ini: "si_isInInitialList i = (\<not> si_synced i)" using ok Cons by (simp add: informer_ok_def)
  show ?thesis
  proof (cases "processDelta oe (si_isInInitialList i) d (si_indexer i)")
    case (Ret r)
    obtain c n sync where r: "r = (c, n, sync)" by (rule prod_cases3)
    have i': "i' = i\<lparr>si_indexer := c, si_deltas := ds, si_notification := Some (n, sync)\<rparr>"
      using run Cons Ret r by (simp add: informer_next_def)
    have eff: "delta_effect oe V (\<not> si_synced i) (si_indexer i) c n sync"
      using processDelta_changes [OF wn, of "si_indexer i" d] Ret r ok Cons ini by (simp add: informer_ok_def)
    have u: "undelivered i' = insert n (undelivered i)" using free by (simp add: i' undelivered_def listened_def)
    have "informer_ok oe V i'"
      using ok eff ini Cons started unfolding informer_ok_def u by (auto simp: i' delta_effect_def informer_ok_def)
    moreover have "informer_effect oe i i'"
      using eff unfolding informer_effect_def coming_def initials_def u by (auto simp: i' delta_effect_def)
    ultimately show ?thesis by blast
  next
    case (Err err)
    then have i': "i' = i\<lparr>si_deltas := []\<rparr>" using run Cons by (simp add: informer_next_def)
    then have u: "undelivered i' = undelivered i" by (simp add: undelivered_def listened_def)
    show ?thesis using ok started free
      by (auto simp: i' informer_ok_def informer_effect_def coming_def initials_def u [unfolded i'])
  next
    case (Panic m)
    then show ?thesis using run Cons by (simp add: informer_next_def)
  qed
qed

lemma listener_add_simps [simp]:
  "pl_pending (listener_add n p) = pl_pending p @ [n]" "pl_handled (listener_add n p) = pl_handled p"
  by (simp_all add: listener_add_def Let_def)

lemma listener_add_ok: "listener_ok p \<Longrightarrow> listener_ok (listener_add n p)"
  by (auto simp: listener_ok_def listener_add_def SingleFileTracker_Start_def)

lemma distribute_ok:
  assumes ok: "informer_ok oe V i"
  shows "informer_ok oe V (distribute i) \<and> informer_effect oe i (distribute i)"
proof (cases "si_notification i")
  case None
  with ok show ?thesis by (auto simp: distribute_def informer_effect_def)
next
  case (Some ns)
  obtain n sync where ns: "ns = (n, sync)" by (rule prod.exhaust)
  have sync: "isInitial n \<Longrightarrow> \<not> sync" "sync \<Longrightarrow> note_key oe n = None" using ok Some ns by (auto simp: informer_ok_def)
  show ?thesis
  proof (cases "si_listener i")
    case None
    with ok Some ns show ?thesis
      by (auto simp: distribute_def informer_ok_def informer_effect_def undelivered_def listened_def informer_idle_def)
  next
    case (Some p)
    let ?p = "if \<not> sync \<or> pl_isSyncing p then listener_add n p else p"
    have u: "undelivered (distribute i) \<subseteq> undelivered i" "undelivered i \<subseteq> insert n (undelivered (distribute i))"
      "n \<notin> undelivered (distribute i) \<Longrightarrow> sync"
      using Some \<open>si_notification i = _\<close> ns by (auto simp: distribute_def undelivered_def listened_def split: if_splits)
    have c: "coming oe i \<subseteq> coming oe (distribute i)" "initials oe i \<subseteq> initials oe (distribute i)"
      using u sync unfolding coming_def initials_def by fastforce+
    have "informer_ok oe V (distribute i)"
      using ok u(1) listener_add_ok [of p n] Some \<open>si_notification i = _\<close> ns
      unfolding informer_ok_def by (auto simp: distribute_def informer_idle_def)
    moreover have "informer_effect oe i (distribute i)"
      using c Some \<open>si_notification i = _\<close> ns by (auto simp: informer_effect_def distribute_def)
    ultimately show ?thesis by blast
  qed
qed

lemma informer_step_ok:
  assumes wn: "well_named oe V" and step: "informer_step oe V i i'" and ok: "informer_ok oe V i"
  shows "informer_ok oe V i' \<and> informer_effect oe i i'"
  using step
proof cases
  case next_delta
  then show ?thesis using next_delta_ok [OF wn ok] by blast
next
  case notify
  then show ?thesis using distribute_ok [OF ok] by simp
next
  case (resync b)
  have l: "listened i' = listened i" by (auto simp: resync listened_def split: option.splits)
  then have u: "undelivered i' = undelivered i" by (simp add: undelivered_def resync)
  have p: "pred_option listener_ok (si_listener i')"
    using ok by (cases "si_listener i") (auto simp: informer_ok_def resync listener_ok_def)
  show ?thesis using ok p unfolding informer_ok_def informer_effect_def coming_def initials_def u
    by (auto simp: resync informer_idle_def)
qed (use ok in \<open>auto simp: informer_ok_def informer_effect_def coming_def initials_def undelivered_def listened_def informer_Pop_def informer_idle_def\<close>)

subsection \<open>Joining\<close>

lemma fold_listener_add:
  "pl_pending (fold (\<lambda>x. listener_add (addNotification x True)) xs p) = pl_pending p @ map (\<lambda>x. addNotification x True) xs"
  "pl_handled (fold (\<lambda>x. listener_add (addNotification x True)) xs p) = pl_handled p"
  by (induction xs arbitrary: p) simp_all

lemma fold_listener_ok: "listener_ok p \<Longrightarrow> listener_ok (fold (\<lambda>x. listener_add (addNotification x True)) xs p)"
  by (induction xs arbitrary: p) (simp_all add: listener_add_ok)

text \<open>A handler that joins is told of every object in the indexer, as part of its initial list.\<close>

lemma AddEventHandler_ok:
  assumes ok: "informer_ok oe V i" and idle: "informer_idle i" and keys: "set keys = dom (tsm_items (si_indexer i))"
    and add: "AddEventHandler repr keys i = Inr i'"
  shows "informer_ok oe V i' \<and> si_indexer i' = si_indexer i \<and> si_synced i' = si_synced i \<and> si_started i' = si_started i \<and>
    informer_idle i' \<and> (\<exists>p. si_listener i' = Some p \<and> \<not> pl_handled p) \<and> dom (tsm_items (si_indexer i)) \<subseteq> initials oe i'"
proof -
  let ?xs = "if si_started i then tsm_List keys (si_indexer i) else []"
  let ?p = "fold (\<lambda>x. listener_add (addNotification x True)) ?xs newProcessListener :: 'a processorListener"
  have i': "i' = i\<lparr>si_listener := Some ?p\<rparr>"
    using add by (auto simp: AddEventHandler_def split: if_splits)
  have empty: "\<not> si_started i \<Longrightarrow> tsm_items (si_indexer i) = Map.empty" using ok by (simp add: informer_ok_def)
  have xs: "set ?xs = ran (tsm_items (si_indexer i))"
    using keys empty set_tsm_List [of keys "si_indexer i"] by (cases "si_started i") simp_all
  define xs where "xs = ?xs"
  have u: "undelivered i' = (\<lambda>x. addNotification x True) ` ran (tsm_items (si_indexer i))"
    using idle unfolding undelivered_def listened_def i' xs [symmetric] xs_def [symmetric]
    by (simp add: informer_idle_def fold_listener_add) (simp add: newProcessListener_def)
  have V: "x \<in> V" "\<exists>key. tsm_items (si_indexer i) key = Some x \<and> object_key oe x = key" if "x \<in> ran (tsm_items (si_indexer i))" for x
    using ok that by (auto simp: informer_ok_def items_ok_def ran_def)
  have l: "listener_ok ?p" by (rule fold_listener_ok) (simp add: listener_ok_def newProcessListener_def)
  have "dom (tsm_items (si_indexer i)) \<subseteq> initials oe i'"
  proof
    fix key
    assume "key \<in> dom (tsm_items (si_indexer i))"
    then obtain x where "tsm_items (si_indexer i) key = Some x" by blast
    moreover from this have "object_key oe x = key" using ok by (auto simp: informer_ok_def items_ok_def)
    ultimately show "key \<in> initials oe i'" unfolding initials_def u by (auto intro: ranI)
  qed
  moreover have "informer_ok oe V i'"
    using ok V(1) l unfolding informer_ok_def u by (auto simp: i' informer_idle_def)
  moreover have "\<not> pl_handled ?p" by (simp add: fold_listener_add newProcessListener_def)
  ultimately show ?thesis using idle by (simp add: i' informer_idle_def)
qed

lemma RemoveEventHandler_ok: "informer_ok oe V i \<Longrightarrow> informer_ok oe V (RemoveEventHandler i)"
  by (auto simp: informer_ok_def RemoveEventHandler_def undelivered_def listened_def informer_idle_def)

text \<open>Once the registration has synced, nothing of the initial list is left to deliver.\<close>

lemma registration_delivered:
  assumes "informer_ok oe V i" "registration_HasSynced i"
  shows "initials oe i = {} \<and> si_synced i"
proof -
  obtain p where p: "si_listener i = Some p" "pl_count p \<le> 0" "si_synced i"
    using assms(2) by (auto simp: registration_HasSynced_def listener_HasSynced_def SingleFileTracker_HasSynced_def split: option.splits if_splits)
  have "pl_count p = int (length (filter isInitial (pl_pending p))) + (if pl_handled p then 1 else 0)"
    using assms(1) p(1) by (simp add: informer_ok_def listener_ok_def)
  with p(2) have "filter isInitial (pl_pending p) = []" by (auto split: if_splits)
  then have "\<forall>n \<in> set (listened i). \<not> isInitial n" by (auto simp: listened_def p(1) filter_empty_conv)
  moreover have "\<forall>n sync. si_notification i = Some (n, sync) \<longrightarrow> \<not> isInitial n" using assms(1) p(3) by (auto simp: informer_ok_def)
  ultimately show ?thesis using p(3) by (auto simp: initials_def undelivered_def)
qed

end
