(* ===== verification/EvaluatorController.thy ===== *)
theory EvaluatorController
  imports SharedInformer Controller
begin

text \<open>
  The generic controller that the policy evaluator uses, from the vendored
  \<^verbatim>\<open>validatingadmissionpolicy/internal/generic/controller.go\<close>. It is not the one of
  \<^verbatim>\<open>pkg/controller/generic.go\<close>: it handles tombstones, it tracks which objects of the initial list have been
  reconciled, and it drops its queue when it is stopped. A step relation runs it together with its
  informer: the critical sections of the goroutines, the lookup of an object and the call of the
  reconciler being separate steps. The lemmas, for a reconciler that records what it is called with, show that what is
  recorded converges to what the informer's store holds, and that a controller that reports
  to have synced has reconciled all of the initial list.
\<close>

section \<open>Data\<close>

record ('obj, 'r, 'b) gcontroller =
  gc_options :: ControllerOptions
  gc_reconciler :: "string \<Rightarrow> string \<Rightarrow> 'obj option \<Rightarrow> 'r \<Rightarrow> (goerror option \<times> 'r) result"
  gc_objects :: "'obj object_env"
  gc_Reserve :: "'b \<Rightarrow> int \<times> 'b"

text \<open>\<open>typeName\<close> is the \<^verbatim>\<open>%T\<close> rendering of the zero object.\<close>

definition NewController ::
  "string \<Rightarrow> 'obj object_env \<Rightarrow> ('b \<Rightarrow> int \<times> 'b) \<Rightarrow>
   (string \<Rightarrow> string \<Rightarrow> 'obj option \<Rightarrow> 'r \<Rightarrow> (goerror option \<times> 'r) result) \<Rightarrow> ControllerOptions \<Rightarrow> ('obj, 'r, 'b) gcontroller" where
  "NewController typeName oe Reserve reconciler options =
     (let options1 = (if opt_Workers options = 0 then options\<lparr>opt_Workers := 2\<rparr> else options);
          options2 = (if length (opt_Name options1) = 0
            then options1\<lparr>opt_Name := typeName @ ''-controller''\<rparr> else options1)
      in \<lparr>gc_options = options2, gc_reconciler = reconciler, gc_objects = oe, gc_Reserve = Reserve\<rparr>)"

text \<open>
  A worker has not been scheduled, is in \<^verbatim>\<open>queue.Get\<close>, has an item, has looked up the object of a
  key, has a failed key to put back, has still to tell the tracker, has still to call
  \<^verbatim>\<open>queue.Done\<close>, has left \<^verbatim>\<open>runWorker\<close> or never entered it.
\<close>

datatype 'obj gworker =
    GNotStarted | GAtGet | GTaken item | GLooked string string string "'obj option"
  | GFailed string goerror | GProcessed string | GTracked item | GExited | GSkipped

datatype gphase = GInit | GSyncing | GRunning | GJoining | GReturned goerror

text \<open>The function in \<^verbatim>\<open>notificationsDelivered\<close>: none, \<^verbatim>\<open>registration.HasSynced\<close>, or constantly false.\<close>

datatype delivered = DeliveredNil | DeliveredRegistration | DeliveredFalse

record ('obj, 'b) gc_state =
  gs_informer :: "'obj sharedIndexInformer"
  gs_queue :: "item delayingType"
  gs_limiter :: "(item, 'b) rateLimiter"
  gs_notificationsDelivered :: delivered
  gs_hasProcessed :: AsyncTracker
  gs_errors :: "goerror list"
  gs_ctxErr :: "goerror option"
  gs_phase :: gphase
  gs_workers :: "'obj gworker list"

definition gc_init :: "(string \<times> 'obj indexFunc) list \<Rightarrow> 'b \<Rightarrow> ('obj, 'b) gc_state" where
  "gc_init indexers b =
     \<lparr>gs_informer = NewSharedIndexInformer indexers, gs_queue = newDelayingQueue,
      gs_limiter = \<lparr>rl_failures = Map.empty, rl_bucket = b\<rparr>, gs_notificationsDelivered = DeliveredNil,
      gs_hasProcessed = {}, gs_errors = [], gs_ctxErr = None, gs_phase = GInit, gs_workers = []\<rparr>"

section \<open>Operations\<close>

definition gc_HandleError :: "goerror \<Rightarrow> ('obj, 'b) gc_state \<Rightarrow> ('obj, 'b) gc_state" where
  "gc_HandleError err s = s\<lparr>gs_errors := gs_errors s @ [err]\<rparr>"

definition gc_enqueue ::
  "('obj, 'r, 'b) gcontroller \<Rightarrow> 'obj ev_obj \<Rightarrow> bool \<Rightarrow> ('obj, 'b) gc_state \<Rightarrow> ('obj, 'b) gc_state" where
  "gc_enqueue c obj isInInitialList s =
     (case DeletionHandlingMetaNamespaceKeyFunc (gc_objects c) obj of
        Inl err \<Rightarrow> gc_HandleError err s
      | Inr key \<Rightarrow>
          let s1 = (if isInInitialList then s\<lparr>gs_hasProcessed := AsyncTracker_Start key (gs_hasProcessed s)\<rparr> else s)
          in s1\<lparr>gs_queue := (gs_queue s1)\<lparr>dq_q := wq_Add (StringItem key) (dq_q (gs_queue s1))\<rparr>\<rparr>)"

definition gc_onUpdate ::
  "('obj, 'r, 'b) gcontroller \<Rightarrow> 'obj \<Rightarrow> 'obj \<Rightarrow> ('obj, 'b) gc_state \<Rightarrow> ('obj, 'b) gc_state" where
  "gc_onUpdate c oldObj newObj s =
     (case (oe_Accessor (gc_objects c) oldObj, oe_Accessor (gc_objects c) newObj) of
        (Inr oldMeta, Inr newMeta) \<Rightarrow>
          if acc_ResourceVersion oldMeta = acc_ResourceVersion newMeta then s
          else gc_enqueue c (EvObject newObj) False s
      | (Inl err1, Inl err2) \<Rightarrow> gc_HandleError err2 (gc_HandleError err1 s)
      | (Inl err1, Inr newMeta) \<Rightarrow> gc_HandleError err1 s
      | (Inr oldMeta, Inl err2) \<Rightarrow> gc_HandleError err2 s)"

fun gc_handle ::
  "('obj, 'r, 'b) gcontroller \<Rightarrow> 'obj notification \<Rightarrow> ('obj, 'b) gc_state \<Rightarrow> ('obj, 'b) gc_state" where
  "gc_handle c (addNotification newObj isInInitialList) s = gc_enqueue c (EvObject newObj) isInInitialList s"
| "gc_handle c (updateNotification oldObj newObj) s = gc_onUpdate c oldObj newObj s"
| "gc_handle c (deleteNotification obj) s = gc_enqueue c obj False s"

definition gc_HasSynced :: "('obj, 'b) gc_state \<Rightarrow> bool" where
  "gc_HasSynced s =
     AsyncTracker_HasSynced
       (case gs_notificationsDelivered s of
          DeliveredNil \<Rightarrow> False
        | DeliveredRegistration \<Rightarrow> registration_HasSynced (gs_informer s)
        | DeliveredFalse \<Rightarrow> False)
       (gs_hasProcessed s)"

text \<open>The lister's lookup: \<^verbatim>\<open>Namespaced(namespace).Get(name)\<close>, or \<^verbatim>\<open>Get(name)\<close> of an object without a namespace.\<close>

definition glister_Get :: "string \<Rightarrow> string \<Rightarrow> 'obj threadSafeMap \<Rightarrow> goerror + 'obj" where
  "glister_Get namespace name indexer =
     (case cache_GetByKey (if length namespace > 0 then namespace @ ''/'' @ name else name) indexer of
        Inl err \<Rightarrow> Inl err
      | Inr None \<Rightarrow> Inl (StatusError \<lparr>status_Status = ''Failure'', status_Message = name @ '' not found'',
          status_Reason = StatusReasonNotFound, status_Details = None, status_Code = 404\<rparr>)
      | Inr (Some obj) \<Rightarrow> Inr obj)"

definition put_worker :: "nat \<Rightarrow> 'obj gworker \<Rightarrow> ('obj, 'b) gc_state \<Rightarrow> ('obj, 'b) gc_state" where
  "put_worker i w s = s\<lparr>gs_workers := (gs_workers s)[i := w]\<rparr>"

definition gc_Forget :: "item \<Rightarrow> ('obj, 'b) gc_state \<Rightarrow> ('obj, 'b) gc_state" where
  "gc_Forget item s = s\<lparr>gs_limiter := controller_Forget item (gs_limiter s)\<rparr>"

text \<open>
  A worker with an item: an item that is not a string is only reported; a key that does not
  split is reported and forgotten; otherwise the object is looked up, and no object stands for a deleted one.
\<close>

definition gc_lookup :: "nat \<Rightarrow> item \<Rightarrow> ('obj, 'b) gc_state \<Rightarrow> ('obj, 'b) gc_state" where
  "gc_lookup i item s =
     (case item of
        OtherItem repr \<Rightarrow>
          put_worker i (GTracked item) (gc_HandleError (ErrorString (''expected string in workqueue but got '' @ repr)) s)
      | StringItem key \<Rightarrow>
          (case SplitMetaNamespaceKey key of
             Inl err \<Rightarrow>
               put_worker i (GProcessed key) (gc_Forget item (gc_HandleError (ErrorString (''invalid resource key: '' @ key)) s))
           | Inr (namespace, name) \<Rightarrow>
               (case glister_Get namespace name (si_indexer (gs_informer s)) of
                  Inl err \<Rightarrow>
                    if \<not> IsNotFound (Some err) then put_worker i (GFailed key err) s
                    else put_worker i (GLooked key namespace name None) s
                | Inr newObj \<Rightarrow> put_worker i (GLooked key namespace name (Some newObj)) s)))"

text \<open>After the reconciler: success forgets the item, a failure has to be put back.\<close>

definition gc_reconciled :: "nat \<Rightarrow> string \<Rightarrow> goerror option \<Rightarrow> ('obj, 'b) gc_state \<Rightarrow> ('obj, 'b) gc_state" where
  "gc_reconciled i key err s =
     (case err of
        None \<Rightarrow> put_worker i (GProcessed key) (gc_Forget (StringItem key) s)
      | Some e \<Rightarrow> put_worker i (GFailed key e) s)"

text \<open>\<^verbatim>\<open>AddRateLimited\<close> at time \<open>now\<close>, \<open>None\<close> while it blocks, and the report of the error.\<close>

definition gc_requeue ::
  "('obj, 'r, 'b) gcontroller \<Rightarrow> int \<Rightarrow> nat \<Rightarrow> string \<Rightarrow> goerror \<Rightarrow> ('obj, 'b) gc_state \<Rightarrow> ('obj, 'b) gc_state option" where
  "gc_requeue c now i key err s =
     (let (delay, limiter) = controller_When (gc_Reserve c) (StringItem key) (gs_limiter s)
      in case dq_AddAfter now (StringItem key) delay (gs_queue s) of
           None \<Rightarrow> None
         | Some q \<Rightarrow> Some (put_worker i (GProcessed key)
             (gc_HandleError (ErrorString (''error syncing '' @ [CHR 0x27] @ key @ [CHR 0x27] @ '': '' @ error_Error err @ '', requeuing''))
               (s\<lparr>gs_limiter := limiter, gs_queue := q\<rparr>))))"

definition gc_set_queue :: "item workqueue \<Rightarrow> ('obj, 'b) gc_state \<Rightarrow> ('obj, 'b) gc_state" where
  "gc_set_queue q s = s\<lparr>gs_queue := (gs_queue s)\<lparr>dq_q := q\<rparr>\<rparr>"

definition gc_ShutDown :: "('obj, 'b) gc_state \<Rightarrow> ('obj, 'b) gc_state" where
  "gc_ShutDown s = gc_set_queue (wq_ShutDown (dq_q (gs_queue s))) s"

text \<open>
  The beginning of \<^verbatim>\<open>Run\<close>: a new queue with a rate limiter in the state \<open>b\<close>, and the registration of
  the handlers; \<open>repr\<close> and \<open>keys\<close> as for \<^verbatim>\<open>AddEventHandler\<close>. The deferred calls at its end.
\<close>

definition gc_start :: "string \<Rightarrow> string list \<Rightarrow> 'b \<Rightarrow> ('obj, 'b) gc_state \<Rightarrow> ('obj, 'b) gc_state" where
  "gc_start repr keys b s =
     (let s1 = s\<lparr>gs_queue := newDelayingQueue, gs_limiter := \<lparr>rl_failures = Map.empty, rl_bucket = b\<rparr>\<rparr>
      in case AddEventHandler repr keys (gs_informer s1) of
           Inl err \<Rightarrow> (gc_ShutDown s1)\<lparr>gs_phase := GReturned err\<rparr>
         | Inr informer \<Rightarrow>
             s1\<lparr>gs_informer := informer, gs_notificationsDelivered := DeliveredRegistration, gs_phase := GSyncing\<rparr>)"

definition gc_return :: "goerror \<Rightarrow> ('obj, 'b) gc_state \<Rightarrow> ('obj, 'b) gc_state" where
  "gc_return err s =
     (gc_ShutDown (s\<lparr>gs_notificationsDelivered := DeliveredFalse, gs_informer := RemoveEventHandler (gs_informer s)\<rparr>))
       \<lparr>gs_phase := GReturned err\<rparr>"

text \<open>The goroutine of the listener takes the next notification, and counts it when it was handled.\<close>

definition gc_deliver ::
  "('obj, 'r, 'b) gcontroller \<Rightarrow> 'obj processorListener \<Rightarrow> 'obj notification \<Rightarrow> 'obj notification list \<Rightarrow>
   ('obj, 'b) gc_state \<Rightarrow> ('obj, 'b) gc_state" where
  "gc_deliver c p n ns s =
     gc_handle c n (s\<lparr>gs_informer := (gs_informer s)\<lparr>si_listener := Some (p\<lparr>pl_pending := ns, pl_handled := isInitial n\<rparr>)\<rparr>\<rparr>)"

definition gc_count :: "'obj processorListener \<Rightarrow> int \<Rightarrow> ('obj, 'b) gc_state \<Rightarrow> ('obj, 'b) gc_state" where
  "gc_count p k s =
     s\<lparr>gs_informer := (gs_informer s)\<lparr>si_listener := Some (p\<lparr>pl_count := k, pl_handled := False\<rparr>)\<rparr>\<rparr>"

text \<open>The steps, on the state of the controller and the state \<open>r\<close> of its reconciler.\<close>

inductive gc_step ::
  "('obj, 'r, 'b) gcontroller \<Rightarrow> 'obj set \<Rightarrow> ('obj, 'b) gc_state \<times> 'r \<Rightarrow> ('obj, 'b) gc_state \<times> 'r \<Rightarrow> bool" for c V where
  inform: "informer_step (gc_objects c) V (gs_informer s) informer \<Longrightarrow> gc_step c V (s, r) (s\<lparr>gs_informer := informer\<rparr>, r)"
| deliver: "si_listener (gs_informer s) = Some p \<Longrightarrow> \<not> pl_handled p \<Longrightarrow> pl_pending p = n # ns \<Longrightarrow>
    gc_step c V (s, r) (gc_deliver c p n ns s, r)"
| count: "si_listener (gs_informer s) = Some p \<Longrightarrow> pl_handled p \<Longrightarrow> SingleFileTracker_Finished (pl_count p) = Ret k \<Longrightarrow>
    gc_step c V (s, r) (gc_count p k s, r)"
| delay: "dq_step now (gs_queue s) q \<Longrightarrow> gc_step c V (s, r) (s\<lparr>gs_queue := q\<rparr>, r)"
| cancel: "gs_ctxErr s = None \<Longrightarrow> gc_step c V (s, r) (s\<lparr>gs_ctxErr := Some err\<rparr>, r)"
| run_start: "gs_phase s = GInit \<Longrightarrow> informer_idle (gs_informer s) \<Longrightarrow>
    set keys = dom (tsm_items (si_indexer (gs_informer s))) \<Longrightarrow> gc_step c V (s, r) (gc_start repr keys b s, r)"
| sync_done: "gs_phase s = GSyncing \<Longrightarrow> si_synced (gs_informer s) \<Longrightarrow>
    gc_step c V (s, r) (s\<lparr>gs_phase := GRunning, gs_workers := replicate (opt_Workers (gc_options c)) GNotStarted\<rparr>, r)"
| sync_failed: "gs_phase s = GSyncing \<Longrightarrow> gs_ctxErr s \<noteq> None \<Longrightarrow> informer_idle (gs_informer s) \<Longrightarrow>
    gc_step c V (s, r) (gc_return (syncError (gs_ctxErr s)) s, r)"
| worker_start: "i < length (gs_workers s) \<Longrightarrow> gs_workers s ! i = GNotStarted \<Longrightarrow> gs_ctxErr s = None \<Longrightarrow>
    gc_step c V (s, r) (put_worker i GAtGet s, r)"
| worker_skip: "i < length (gs_workers s) \<Longrightarrow> gs_workers s ! i = GNotStarted \<Longrightarrow> gs_ctxErr s \<noteq> None \<Longrightarrow>
    gc_step c V (s, r) (put_worker i GSkipped s, r)"
| get_item: "i < length (gs_workers s) \<Longrightarrow> gs_workers s ! i = GAtGet \<Longrightarrow>
    wq_Get (dq_q (gs_queue s)) = Some (Some item, q) \<Longrightarrow> gc_step c V (s, r) (put_worker i (GTaken item) (gc_set_queue q s), r)"
| get_shutdown: "i < length (gs_workers s) \<Longrightarrow> gs_workers s ! i = GAtGet \<Longrightarrow>
    wq_Get (dq_q (gs_queue s)) = Some (None, q) \<Longrightarrow> gc_step c V (s, r) (put_worker i GExited (gc_set_queue q s), r)"
| look_up: "i < length (gs_workers s) \<Longrightarrow> gs_workers s ! i = GTaken item \<Longrightarrow> gc_step c V (s, r) (gc_lookup i item s, r)"
| reconcile: "i < length (gs_workers s) \<Longrightarrow> gs_workers s ! i = GLooked key namespace name newObj \<Longrightarrow>
    gc_reconciler c namespace name newObj r = Ret (err, r') \<Longrightarrow> gc_step c V (s, r) (gc_reconciled i key err s, r')"
| requeue: "i < length (gs_workers s) \<Longrightarrow> gs_workers s ! i = GFailed key err \<Longrightarrow>
    gc_requeue c now i key err s = Some s1 \<Longrightarrow> gc_step c V (s, r) (s1, r)"
| track: "i < length (gs_workers s) \<Longrightarrow> gs_workers s ! i = GProcessed key \<Longrightarrow>
    gc_step c V (s, r) (put_worker i (GTracked (StringItem key)) (s\<lparr>gs_hasProcessed := AsyncTracker_Finished key (gs_hasProcessed s)\<rparr>), r)"
| finish: "i < length (gs_workers s) \<Longrightarrow> gs_workers s ! i = GTracked item \<Longrightarrow>
    gc_step c V (s, r) (put_worker i GAtGet (gc_set_queue (wq_Done item (dq_q (gs_queue s))) s), r)"
| ctx_done: "gs_phase s = GRunning \<Longrightarrow> gs_ctxErr s \<noteq> None \<Longrightarrow>
    gc_step c V (s, r) ((gc_ShutDown s)\<lparr>gs_phase := GJoining\<rparr>, r)"
| run_return: "gs_phase s = GJoining \<Longrightarrow> set (gs_workers s) \<subseteq> {GExited, GSkipped} \<Longrightarrow> gs_ctxErr s = Some err \<Longrightarrow>
    informer_idle (gs_informer s) \<Longrightarrow> gc_step c V (s, r) (gc_return err s, r)"

section \<open>The invariant\<close>

subsection \<open>Workers and queue\<close>

text \<open>The queue is used as by the controller of this repository, whose workers have coarser states.\<close>

fun as_worker :: "'obj gworker \<Rightarrow> worker" where
  "as_worker GNotStarted = NotStarted"
| "as_worker GAtGet = AtGet"
| "as_worker (GTaken item) = Working item"
| "as_worker (GLooked key namespace name obj) = Working (StringItem key)"
| "as_worker (GFailed key err) = Working (StringItem key)"
| "as_worker (GProcessed key) = Finishing (StringItem key)"
| "as_worker (GTracked item) = Finishing item"
| "as_worker GExited = Exited"
| "as_worker GSkipped = Skipped"

fun as_phase :: "gphase \<Rightarrow> phase" where
  "as_phase GInit = Syncing"
| "as_phase GSyncing = Syncing"
| "as_phase GRunning = Running"
| "as_phase GJoining = Joining"
| "as_phase (GReturned err) = RunReturned err"

definition keys_ok :: "item delayingType \<Rightarrow> bool" where
  "keys_ok q \<longleftrightarrow> (\<forall>key. StringItem key \<in> wq_dirty (dq_q q) \<union> wq_processing (dq_q q) \<union> dq_delayed q \<longrightarrow> wf_key key)"

definition queue_ok :: "('obj, 'b) gc_state \<Rightarrow> bool" where
  "queue_ok s \<longleftrightarrow> ctl_ok (gs_queue s) (map as_worker (gs_workers s)) (as_phase (gs_phase s)) \<and> keys_ok (gs_queue s)"

text \<open>The phase in which the controller takes part in the flow of changes.\<close>

definition gc_open :: "gphase \<Rightarrow> bool" where
  "gc_open ph \<longleftrightarrow> ph = GSyncing \<or> ph = GRunning"

abbreviation gc_items :: "('obj, 'b) gc_state \<Rightarrow> string \<rightharpoonup> 'obj" where
  "gc_items s \<equiv> tsm_items (si_indexer (gs_informer s))"

abbreviation gc_synced :: "('obj, 'b) gc_state \<Rightarrow> bool" where
  "gc_synced s \<equiv> si_synced (gs_informer s)"

definition phases_ok :: "('obj, 'b) gc_state \<Rightarrow> (string \<rightharpoonup> 'spec) \<Rightarrow> bool" where
  "phases_ok s m \<longleftrightarrow>
     (gs_phase s \<in> {GInit, GSyncing} \<longrightarrow> gs_workers s = [] \<and> (\<forall>key. wf_key key \<longrightarrow> m key = None)) \<and>
     (gs_workers s \<noteq> [] \<or> gs_phase s \<in> {GRunning, GJoining} \<longrightarrow> gc_synced s) \<and>
     (gs_phase s = GInit \<longrightarrow> gs_hasProcessed s = {} \<and> si_listener (gs_informer s) = None) \<and>
     (gs_phase s \<in> {GSyncing, GRunning, GJoining} \<longrightarrow> si_listener (gs_informer s) \<noteq> None) \<and>
     (gs_notificationsDelivered s = DeliveredRegistration \<longleftrightarrow> gs_phase s \<in> {GSyncing, GRunning, GJoining})"

subsection \<open>Convergence\<close>

definition queued :: "item delayingType \<Rightarrow> string set" where
  "queued q = {key. StringItem key \<in> wq_dirty (dq_q q) \<union> dq_delayed q}"

text \<open>
  Each key is recorded with what the store holds, or it is on its way in \<open>P\<close>, or a worker has it; and a
  worker that has looked up something else than the store now holds knows that the key is on its way again.
\<close>

definition conv_ok ::
  "('obj \<Rightarrow> 'spec) \<Rightarrow> (string \<rightharpoonup> 'obj) \<Rightarrow> string set \<Rightarrow> 'obj gworker set \<Rightarrow> (string \<rightharpoonup> 'spec) \<Rightarrow> bool" where
  "conv_ok spec items P W m \<longleftrightarrow> (\<forall>key. wf_key key \<longrightarrow>
     (m key = map_option spec (items key) \<or> key \<in> P \<or> GTaken (StringItem key) \<in> W \<or>
        (\<exists>namespace name v. GLooked key namespace name v \<in> W)) \<and>
     (\<forall>namespace name v. GLooked key namespace name v \<in> W \<longrightarrow> map_option spec v = map_option spec (items key) \<or> key \<in> P))"

subsection \<open>Readiness\<close>

text \<open>
  \<open>H\<close> says which values a key has had in the store since the informer synced. A key is recorded with one
  of them, or it is owed: its notification of the initial list or its entry in the tracker is still there.
\<close>

definition recorded :: "('obj \<Rightarrow> 'spec) \<Rightarrow> (string \<Rightarrow> 'obj option \<Rightarrow> bool) \<Rightarrow> (string \<rightharpoonup> 'spec) \<Rightarrow> string \<Rightarrow> bool" where
  "recorded spec H m key \<longleftrightarrow> (\<exists>v. H key v \<and> m key = map_option spec v)"

definition owed :: "'obj object_env \<Rightarrow> ('obj, 'b) gc_state \<Rightarrow> string \<Rightarrow> bool" where
  "owed oe s key \<longleftrightarrow> gs_phase s = GInit \<or> key \<in> initials oe (gs_informer s) \<or> key \<in> gs_hasProcessed s"

definition ready_ok ::
  "'obj object_env \<Rightarrow> ('obj \<Rightarrow> 'spec) \<Rightarrow> (string \<Rightarrow> 'obj option \<Rightarrow> bool) \<Rightarrow> ('obj, 'b) gc_state \<Rightarrow> (string \<rightharpoonup> 'spec) \<Rightarrow> bool" where
  "ready_ok oe spec H s m \<longleftrightarrow> (\<forall>key. wf_key key \<longrightarrow>
     recorded spec H m key \<or> owed oe s key \<or> (\<not> gc_synced s \<and> gc_items s key = None))"

definition workers_ok ::
  "'obj set \<Rightarrow> ('obj \<Rightarrow> 'spec) \<Rightarrow> (string \<Rightarrow> 'obj option \<Rightarrow> bool) \<Rightarrow> 'obj gworker set \<Rightarrow> (string \<rightharpoonup> 'spec) \<Rightarrow> bool" where
  "workers_ok V spec H W m \<longleftrightarrow>
     (\<forall>key namespace name v. GLooked key namespace name v \<in> W \<longrightarrow>
        wf_key key \<and> SplitMetaNamespaceKey key = Inr (namespace, name) \<and> H key v \<and> set_option v \<subseteq> V) \<and>
     (\<forall>key err. GFailed key err \<in> W \<longrightarrow> recorded spec H m key) \<and>
     (\<forall>key. GProcessed key \<in> W \<longrightarrow> recorded spec H m key)"

text \<open>A key that the tracker waits for is queued or held by a worker that will tell the tracker.\<close>

fun tracking :: "string \<Rightarrow> 'obj gworker \<Rightarrow> bool" where
  "tracking key (GTaken item) = (item = StringItem key)"
| "tracking key (GLooked key' namespace name v) = (key' = key)"
| "tracking key (GFailed key' err) = (key' = key)"
| "tracking key (GProcessed key') = (key' = key)"
| "tracking key w = False"

definition tracker_ok :: "AsyncTracker \<Rightarrow> item set \<Rightarrow> 'obj gworker set \<Rightarrow> bool" where
  "tracker_ok t dirty W \<longleftrightarrow> (\<forall>key \<in> t. StringItem key \<in> dirty \<or> (\<exists>w \<in> W. tracking key w))"

definition gc_inv ::
  "('obj, 'r, 'b) gcontroller \<Rightarrow> 'obj set \<Rightarrow> ('obj \<Rightarrow> 'spec) \<Rightarrow> (string \<Rightarrow> 'obj option \<Rightarrow> bool) \<Rightarrow> ('obj, 'b) gc_state \<Rightarrow> (string \<rightharpoonup> 'spec) \<Rightarrow> bool" where
  "gc_inv c V spec H s m \<longleftrightarrow>
     informer_ok (gc_objects c) V (gs_informer s) \<and> queue_ok s \<and> phases_ok s m \<and>
     (gc_synced s \<longrightarrow> (\<forall>key. H key (gc_items s key))) \<and>
     workers_ok V spec H (set (gs_workers s)) m \<and>
     (gc_open (gs_phase s) \<longrightarrow>
        conv_ok spec (gc_items s) (coming (gc_objects c) (gs_informer s) \<union> queued (gs_queue s)) (set (gs_workers s)) m \<and>
        tracker_ok (gs_hasProcessed s) (wq_dirty (dq_q (gs_queue s))) (set (gs_workers s))) \<and>
     ((\<forall>err. gs_phase s \<noteq> GReturned err) \<longrightarrow> ready_ok (gc_objects c) spec H s m)"

lemma gc_invD:
  assumes "gc_inv c V spec H s m"
  shows "informer_ok (gc_objects c) V (gs_informer s)" and "queue_ok s" and "phases_ok s m"
    and "workers_ok V spec H (set (gs_workers s)) m"
    and "gc_synced s \<Longrightarrow> H key (gc_items s key)"
    and "gc_open (gs_phase s) \<Longrightarrow>
      conv_ok spec (gc_items s) (coming (gc_objects c) (gs_informer s) \<union> queued (gs_queue s)) (set (gs_workers s)) m"
    and "gc_open (gs_phase s) \<Longrightarrow> tracker_ok (gs_hasProcessed s) (wq_dirty (dq_q (gs_queue s))) (set (gs_workers s))"
    and "\<forall>err. gs_phase s \<noteq> GReturned err \<Longrightarrow> ready_ok (gc_objects c) spec H s m"
  using assms by (auto simp: gc_inv_def)

text \<open>What the objects of the API server satisfy: a changed specification has a changed resource version.\<close>

definition serves :: "'obj object_env \<Rightarrow> ('obj \<Rightarrow> bool) \<Rightarrow> ('obj \<Rightarrow> 'spec) \<Rightarrow> 'obj set \<Rightarrow> bool" where
  "serves oe valid spec V \<longleftrightarrow> well_named oe V \<and> (\<forall>obj \<in> V. valid obj) \<and>
     (\<forall>old \<in> V. \<forall>new \<in> V. object_key oe old = object_key oe new \<longrightarrow> informer_isSync oe old new \<longrightarrow> spec old = spec new)"

text \<open>The values seen so far, after a step.\<close>

definition extends ::
  "(string \<Rightarrow> 'obj option \<Rightarrow> bool) \<Rightarrow> ('obj, 'b) gc_state \<Rightarrow> (string \<Rightarrow> 'obj option \<Rightarrow> bool) \<Rightarrow> bool" where
  "extends H s H' \<longleftrightarrow> (\<forall>key v. H key v \<longrightarrow> H' key v) \<and> (gc_synced s \<longrightarrow> (\<forall>key. H' key (gc_items s key)))"

lemma gc_inv_init: "(\<And>key. wf_key key \<Longrightarrow> m key = None) \<Longrightarrow> gc_inv c V spec H (gc_init indexers b) m"
  by (simp add: gc_inv_def gc_init_def informer_ok_New queue_ok_def ctl_ok_defs held_ok_def newDelayingQueue_def
      dq_delayed_def wq_inv_new keys_ok_def phases_ok_def workers_ok_def gc_open_def ready_ok_def owed_def)
    (simp add: newQueue_def NewSharedIndexInformer_def)

subsection \<open>The interface of a recording reconciler\<close>

text \<open>
  A reconciler that never panics in a state that is \<open>ok\<close>, and that records under a key, whether it
  fails or not, what it was called with; the objects have to be \<open>valid\<close>.
\<close>

locale recording_reconciler =
  fixes reconciler :: "string \<Rightarrow> string \<Rightarrow> 'obj option \<Rightarrow> 'r \<Rightarrow> (goerror option \<times> 'r) result"
    and valid :: "'obj \<Rightarrow> bool"
    and spec :: "'obj \<Rightarrow> 'spec"
    and book :: "'r \<Rightarrow> string \<rightharpoonup> 'spec"
    and ok :: "'r \<Rightarrow> bool"
  assumes records: "ok r \<Longrightarrow> wf_key key \<Longrightarrow> SplitMetaNamespaceKey key = Inr (namespace, name) \<Longrightarrow> pred_option valid obj \<Longrightarrow>
    \<exists>err r'. reconciler namespace name obj r = Ret (err, r') \<and> ok r' \<and>
      (\<forall>k. wf_key k \<longrightarrow> book r' k = (if k = key then map_option spec obj else book r k))"

subsection \<open>Frame lemmas\<close>

lemma conv_ok_mono: "conv_ok spec items P W m \<Longrightarrow> P \<subseteq> P' \<Longrightarrow> conv_ok spec items P' W m"
  unfolding conv_ok_def by blast

lemma conv_ok_items:
  assumes "conv_ok spec items P W m" "P \<subseteq> P'" "\<And>key. map_option spec (items' key) = map_option spec (items key) \<or> key \<in> P'"
  shows "conv_ok spec items' P' W m"
  using assms unfolding conv_ok_def by (metis (no_types, lifting) subsetD)

lemma workers_ok_seen:
  "extends H s H' \<Longrightarrow> workers_ok V spec H W m \<Longrightarrow> workers_ok V spec H' W m"
  unfolding workers_ok_def recorded_def extends_def by metis

lemma recorded_seen: "extends H s H' \<Longrightarrow> recorded spec H m key \<Longrightarrow> recorded spec H' m key"
  unfolding recorded_def extends_def by blast

lemma set_update_cases: "w \<in> set (ws[i := w']) \<Longrightarrow> w = w' \<or> w \<in> set ws"
  using set_update_subset_insert [of ws i w'] by auto

lemma set_update_keeps: "w \<in> set ws \<Longrightarrow> i < length ws \<Longrightarrow> w \<noteq> ws ! i \<Longrightarrow> w \<in> set (ws[i := w'])"
  by (metis in_set_conv_nth length_list_update nth_list_update_neq)

lemma wq_ShutDown_fields:
  "wq_queue (wq_ShutDown q) = wq_queue q" "wq_dirty (wq_ShutDown q) = wq_dirty q"
  "wq_processing (wq_ShutDown q) = wq_processing q" "wq_shuttingDown (wq_ShutDown q)"
  "wq_inv (wq_ShutDown q) = wq_inv q"
  by (simp_all add: wq_ShutDown_def wq_shutdown_def wq_setDrain_def wq_inv_def)

lemma wf_key_split: "wf_key key \<Longrightarrow> \<exists>namespace name. SplitMetaNamespaceKey key = Inr (namespace, name) \<and>
    key = (if length namespace > 0 then namespace @ ''/'' @ name else name)"
  by (auto simp: wf_key_def SplitMetaNamespaceKey_name SplitMetaNamespaceKey_pair split: if_splits)

lemma glister_Get_items:
  assumes "key = (if length namespace > 0 then namespace @ ''/'' @ name else name)"
  shows "(case glister_Get namespace name c of Inl err \<Rightarrow> IsNotFound (Some err) \<and> tsm_items c key = None | Inr obj \<Rightarrow> tsm_items c key = Some obj)"
  unfolding glister_Get_def assms [symmetric]
  by (simp add: cache_GetByKey_def tsm_Get_def IsNotFound_def reasonAndCodeForError_def split: option.split)

text \<open>A worker with a well-formed key has looked up what the store holds.\<close>

lemma gc_lookup_wf:
  assumes "wf_key key"
  shows "\<exists>namespace name. SplitMetaNamespaceKey key = Inr (namespace, name) \<and>
    gc_lookup i (StringItem key) s = put_worker i (GLooked key namespace name (gc_items s key)) s"
proof -
  obtain namespace name where sp: "SplitMetaNamespaceKey key = Inr (namespace, name)"
    and key: "key = (if length namespace > 0 then namespace @ ''/'' @ name else name)"
    using wf_key_split [OF assms] by blast
  from glister_Get_items [OF key, of "si_indexer (gs_informer s)"] sp show ?thesis
    by (auto simp: gc_lookup_def split: sum.splits)
qed

lemma gc_inv_seen:
  assumes inv: "gc_inv c V spec H s m" and ext: "extends H s H'"
  shows "gc_inv c V spec H' s m"
proof -
  have "workers_ok V spec H' (set (gs_workers s)) m" by (rule workers_ok_seen [OF ext gc_invD(4) [OF inv]])
  moreover have "ready_ok (gc_objects c) spec H' s m" if "\<forall>err. gs_phase s \<noteq> GReturned err"
    using gc_invD(8) [OF inv that] recorded_seen [OF ext] unfolding ready_ok_def by blast
  ultimately show ?thesis using inv ext by (simp add: gc_inv_def extends_def)
qed

subsection \<open>Steps of the informer\<close>

lemma conv_informer:
  assumes srv: "serves oe valid spec V" and ok: "informer_ok oe V i" "informer_ok oe V i'" and eff: "informer_effect oe i i'"
    and l: "si_listener i \<noteq> None" and conv: "conv_ok spec (tsm_items (si_indexer i)) (coming oe i \<union> Q) W m"
  shows "conv_ok spec (tsm_items (si_indexer i')) (coming oe i' \<union> Q) W m"
proof (rule conv_ok_items [OF conv])
  show "coming oe i \<union> Q \<subseteq> coming oe i' \<union> Q" using eff l by (auto simp: informer_effect_def)
  fix key
  have in_V: "obj \<in> V \<and> object_key oe obj = key" if "tsm_items (si_indexer j) key = Some obj" "informer_ok oe V j" for obj j
    using that by (simp add: informer_ok_def items_ok_def)
  have "spec old = spec new"
    if "tsm_items (si_indexer i) key = Some old" "tsm_items (si_indexer i') key = Some new" "informer_isSync oe old new" for old new
    using srv that in_V [OF that(1) ok(1)] in_V [OF that(2) ok(2)] unfolding serves_def by metis
  moreover have "tsm_items (si_indexer i') key = tsm_items (si_indexer i) key \<or> key \<in> coming oe i' \<or>
      (\<exists>old new. tsm_items (si_indexer i) key = Some old \<and> tsm_items (si_indexer i') key = Some new \<and> informer_isSync oe old new)"
    using eff l unfolding informer_effect_def by blast
  ultimately show "map_option spec (tsm_items (si_indexer i') key) = map_option spec (tsm_items (si_indexer i) key) \<or> key \<in> coming oe i' \<union> Q"
    by fastforce
qed

lemma ready_informer:
  assumes eff: "informer_effect oe (gs_informer s) i'" and phases: "phases_ok s m"
    and ready: "ready_ok oe spec H s m" and ext: "extends H (s\<lparr>gs_informer := i'\<rparr>) H'"
    and live: "\<forall>err. gs_phase s \<noteq> GReturned err"
  shows "ready_ok oe spec H' (s\<lparr>gs_informer := i'\<rparr>) m"
  unfolding ready_ok_def
proof (intro allI impI)
  fix key
  assume wf: "wf_key key"
  let ?s = "s\<lparr>gs_informer := i'\<rparr>"
  have l: "gs_phase s \<noteq> GInit \<Longrightarrow> si_listener (gs_informer s) \<noteq> None"
    using phases live by (cases "gs_phase s") (auto simp: phases_ok_def)
  have owed: "owed oe ?s key" if "owed oe s key"
    using that eff l by (cases "gs_phase s = GInit") (auto simp: owed_def informer_effect_def)
  have "recorded spec H m key \<or> owed oe s key \<or> (\<not> gc_synced s \<and> gc_items s key = None)"
    using ready wf unfolding ready_ok_def by simp
  then consider "recorded spec H m key" | "owed oe s key" | "\<not> gc_synced s" "gc_items s key = None" "\<not> owed oe s key" by argo
  then show "recorded spec H' m key \<or> owed oe ?s key \<or> (\<not> gc_synced ?s \<and> gc_items ?s key = None)"
  proof cases
    case 1
    then show ?thesis using recorded_seen [OF ext] by blast
  next
    case 2
    then show ?thesis using owed by blast
  next
    case 3
    then have init: "gs_phase s \<noteq> GInit" by (simp add: owed_def)
    then have none: "m key = None" using phases 3 wf live by (cases "gs_phase s") (auto simp: phases_ok_def)
    show ?thesis
    proof (cases "si_synced i'")
      case True
      then have "gc_items ?s key = None" using eff 3 by (auto simp: informer_effect_def)
      then have "H' key None" using ext True unfolding extends_def by (metis gc_state.select_convs(1) gc_state.surjective gc_state.update_convs(1))
      then show ?thesis using none by (auto simp: recorded_def)
    next
      case False
      then have "gc_items ?s key \<noteq> None \<longrightarrow> key \<in> initials oe i'" using eff l [OF init] 3 by (auto simp: informer_effect_def)
      then show ?thesis using False by (auto simp: owed_def)
    qed
  qed
qed

lemma inv_inform:
  assumes srv: "serves (gc_objects c) valid spec V" and inv: "gc_inv c V spec H s m"
    and step: "informer_step (gc_objects c) V (gs_informer s) i'" and ext: "extends H (s\<lparr>gs_informer := i'\<rparr>) H'"
  shows "gc_inv c V spec H' (s\<lparr>gs_informer := i'\<rparr>) m"
proof -
  let ?s = "s\<lparr>gs_informer := i'\<rparr>" and ?oe = "gc_objects c"
  have ok: "informer_ok ?oe V (gs_informer s)" using inv by (simp add: gc_inv_def)
  have ok': "informer_ok ?oe V i'" and eff: "informer_effect ?oe (gs_informer s) i'"
    using informer_step_ok [OF _ step ok] srv by (simp_all add: serves_def)
  have ph: "phases_ok s m" using inv by (simp add: gc_inv_def)
  have "phases_ok ?s m" using ph eff by (auto simp: phases_ok_def informer_effect_def)
  moreover have "queue_ok ?s" using inv by (simp add: gc_inv_def queue_ok_def)
  moreover have "gc_synced ?s \<longrightarrow> (\<forall>key. H' key (gc_items ?s key))" using ext by (simp add: extends_def)
  moreover have "workers_ok V spec H' (set (gs_workers ?s)) m" using workers_ok_seen [OF ext gc_invD(4) [OF inv]] by simp
  moreover have "conv_ok spec (gc_items ?s) (coming ?oe i' \<union> queued (gs_queue s)) (set (gs_workers s)) m" if "gc_open (gs_phase s)"
    using conv_informer [OF srv ok ok' eff _ gc_invD(6) [OF inv that]] that ph by (auto simp: gc_open_def phases_ok_def)
  moreover have "ready_ok ?oe spec H' ?s m" if "\<forall>err. gs_phase s \<noteq> GReturned err"
    by (rule ready_informer [OF eff ph gc_invD(8) [OF inv that] ext that])
  ultimately show ?thesis using inv ok' by (simp add: gc_inv_def)
qed

subsection \<open>Delivery of a notification\<close>

text \<open>What handling a served notification does: the key is added to the queue, and to the tracker.\<close>

lemma gc_handle_effect:
  assumes wn: "well_named (gc_objects c) V" and n: "note_served (gc_objects c) V n"
  shows "\<exists>errs. gc_handle c n s = (case note_key (gc_objects c) n of
      None \<Rightarrow> s\<lparr>gs_errors := errs\<rparr>
    | Some key \<Rightarrow> s\<lparr>gs_errors := errs, gs_hasProcessed := (if isInitial n then {key} else {}) \<union> gs_hasProcessed s,
        gs_queue := (gs_queue s)\<lparr>dq_q := wq_Add (StringItem key) (dq_q (gs_queue s))\<rparr>\<rparr>)"
proof (cases n)
  case (addNotification obj b)
  then show ?thesis using served_key [OF wn, of obj] n
    by (auto simp: gc_enqueue_def Let_def AsyncTracker_Start_def intro!: exI [of _ "gs_errors s"])
next
  case (updateNotification old new)
  obtain a b where "oe_Accessor (gc_objects c) old = Inr a" "oe_Accessor (gc_objects c) new = Inr b"
    using wn n updateNotification unfolding well_named_def by (metis note_served.simps(2))
  then show ?thesis using served_key [OF wn, of new] n updateNotification
    by (auto simp: gc_onUpdate_def informer_isSync_def gc_enqueue_def Let_def intro!: exI [of _ "gs_errors s"])
next
  case (deleteNotification obj)
  then obtain key where "DeletionHandlingMetaNamespaceKeyFunc (gc_objects c) obj = Inr key"
    using n served_key [OF wn] by (cases obj) (auto simp: DeletionHandlingMetaNamespaceKeyFunc_def)
  then show ?thesis by (auto simp: deleteNotification gc_enqueue_def Let_def intro!: exI [of _ "gs_errors s"])
qed

lemma note_key_wf:
  assumes wn: "well_named oe V" and n: "note_served oe V n" and k: "note_key oe n = Some key"
  shows "wf_key key"
proof (cases n)
  case (deleteNotification obj)
  show ?thesis
  proof (cases obj)
    case (EvObject x)
    then show ?thesis using n k served_key [OF wn, of x] object_key_wf [OF wn, of x] by (simp add: deleteNotification)
  qed (use n k in \<open>auto simp: deleteNotification DeletionHandlingMetaNamespaceKeyFunc_def\<close>)
qed (use n k object_key_wf [OF wn] in \<open>auto split: if_splits\<close>)

lemma open_queue: "queue_ok s \<Longrightarrow> gc_open (gs_phase s) \<Longrightarrow> \<not> wq_shuttingDown (dq_q (gs_queue s))"
  by (auto simp: queue_ok_def ctl_ok_defs gc_open_def)

lemma queue_ok_add:
  assumes "queue_ok s" and "wf_key key" and "gs_queue s' = (gs_queue s)\<lparr>dq_q := wq_Add (StringItem key) (dq_q (gs_queue s))\<rparr>"
    "gs_workers s' = gs_workers s" "gs_phase s' = gs_phase s"
  shows "queue_ok s'"
proof -
  have "keys_ok (gs_queue s')" using assms by (auto simp: queue_ok_def keys_ok_def wq_fields dq_delayed_def)
  then show ?thesis using assms ctl_ok_add [of "gs_queue s" _ _ "StringItem key"] by (simp add: queue_ok_def is_string_def)
qed

text \<open>The listener without its first notification.\<close>

definition delivering :: "'obj processorListener \<Rightarrow> 'obj notification \<Rightarrow> 'obj notification list \<Rightarrow> 'obj sharedIndexInformer \<Rightarrow> 'obj sharedIndexInformer" where
  "delivering p n ns i = i\<lparr>si_listener := Some (p\<lparr>pl_pending := ns, pl_handled := isInitial n\<rparr>)\<rparr>"

lemma delivering_ok:
  assumes ok: "informer_ok oe V i" and p: "si_listener i = Some p" "\<not> pl_handled p" "pl_pending p = n # ns"
  shows "informer_ok oe V (delivering p n ns i)" and "note_served oe V n"
    and "coming oe i \<subseteq> coming oe (delivering p n ns i) \<union> set_option (note_key oe n)"
    and "initials oe i \<subseteq> initials oe (delivering p n ns i) \<union> (if isInitial n then set_option (note_key oe n) else {})"
proof -
  let ?i = "delivering p n ns i"
  have u: "undelivered i = insert n (undelivered ?i)" by (auto simp: undelivered_def listened_def delivering_def p)
  have "listener_ok p" using ok p(1) by (simp add: informer_ok_def)
  then have "listener_ok (p\<lparr>pl_pending := ns, pl_handled := isInitial n\<rparr>)" using p by (auto simp: listener_ok_def)
  then show "informer_ok oe V ?i" using ok u unfolding informer_ok_def by (auto simp: delivering_def informer_idle_def)
  show "note_served oe V n" using ok u by (simp add: informer_ok_def)
  show "coming oe i \<subseteq> coming oe ?i \<union> set_option (note_key oe n)" by (auto simp: coming_def u)
  show "initials oe i \<subseteq> initials oe ?i \<union> (if isInitial n then set_option (note_key oe n) else {})" by (auto simp: initials_def u)
qed

lemma inv_deliver:
  assumes srv: "serves (gc_objects c) valid spec V" and inv: "gc_inv c V spec H s m"
    and p: "si_listener (gs_informer s) = Some p" "\<not> pl_handled p" "pl_pending p = n # ns"
  shows "gc_inv c V spec H (gc_deliver c p n ns s) m"
proof -
  let ?oe = "gc_objects c" and ?s = "gc_deliver c p n ns s" and ?i = "delivering p n ns (gs_informer s)"
  have wn: "well_named ?oe V" using srv by (simp add: serves_def)
  note del = delivering_ok [OF gc_invD(1) [OF inv] p]
  obtain errs where s': "?s = (case note_key ?oe n of
      None \<Rightarrow> s\<lparr>gs_informer := ?i, gs_errors := errs\<rparr>
    | Some key \<Rightarrow> s\<lparr>gs_informer := ?i, gs_errors := errs, gs_hasProcessed := (if isInitial n then {key} else {}) \<union> gs_hasProcessed s,
        gs_queue := (gs_queue s)\<lparr>dq_q := wq_Add (StringItem key) (dq_q (gs_queue s))\<rparr>\<rparr>)"
    using gc_handle_effect [OF wn del(2), of "s\<lparr>gs_informer := ?i\<rparr>"]
    by (cases "note_key ?oe n") (auto simp: gc_deliver_def delivering_def [symmetric])
  have f: "gs_informer ?s = ?i" "gs_workers ?s = gs_workers s" "gs_phase ?s = gs_phase s"
    "gs_notificationsDelivered ?s = gs_notificationsDelivered s" "gc_items ?s = gc_items s" "gc_synced ?s = gc_synced s"
    by (simp_all add: s' delivering_def split: option.split)
  have init: "gs_phase s \<noteq> GInit" using gc_invD(3) [OF inv] p(1) by (auto simp: phases_ok_def)
  have q: "queue_ok ?s"
  proof (cases "note_key ?oe n")
    case (Some key)
    then show ?thesis
      using queue_ok_add [OF gc_invD(2) [OF inv] note_key_wf [OF wn del(2) Some], of ?s] by (simp add: f) (simp add: s')
  qed (use gc_invD(2) [OF inv] in \<open>simp add: s' queue_ok_def\<close>)
  have ph: "phases_ok ?s m"
    using gc_invD(3) [OF inv] init unfolding phases_ok_def f by (auto simp: delivering_def)
  have "conv_ok spec (tsm_items (si_indexer ?i)) (coming ?oe ?i \<union> queued (gs_queue ?s)) (set (gs_workers s)) m \<and>
      tracker_ok (gs_hasProcessed ?s) (wq_dirty (dq_q (gs_queue ?s))) (set (gs_workers s))" if op: "gc_open (gs_phase s)"
  proof -
    have sh: "\<not> wq_shuttingDown (dq_q (gs_queue s))" by (rule open_queue [OF gc_invD(2) [OF inv] op])
    have "coming ?oe (gs_informer s) \<union> queued (gs_queue s) \<subseteq> coming ?oe ?i \<union> queued (gs_queue ?s)"
      using del(3) sh by (auto simp: s' queued_def wq_fields dq_delayed_def split: option.splits)
    then have "conv_ok spec (gc_items s) (coming ?oe ?i \<union> queued (gs_queue ?s)) (set (gs_workers s)) m"
      by (rule conv_ok_mono [OF gc_invD(6) [OF inv op]])
    moreover have "tracker_ok (gs_hasProcessed ?s) (wq_dirty (dq_q (gs_queue ?s))) (set (gs_workers s))"
      using gc_invD(7) [OF inv op] sh by (cases "note_key ?oe n") (auto simp: s' tracker_ok_def wq_fields)
    ultimately show ?thesis by (simp add: delivering_def)
  qed
  moreover have "ready_ok ?oe spec H ?s m" if "\<forall>err. gs_phase s \<noteq> GReturned err"
  proof -
    have "owed ?oe ?s key" if "owed ?oe s key" for key
      using that del(4) init unfolding owed_def f by (cases "note_key ?oe n"; cases "isInitial n") (auto simp: s')
    then show ?thesis using gc_invD(8) [OF inv that] unfolding ready_ok_def f(5,6) by metis
  qed
  ultimately show ?thesis
    using del(1) q ph gc_invD(4,5) [OF inv] unfolding gc_inv_def f by (simp add: delivering_def)
qed

lemma inv_count:
  assumes inv: "gc_inv c V spec H s m"
    and p: "si_listener (gs_informer s) = Some p" "pl_handled p" "SingleFileTracker_Finished (pl_count p) = Ret k"
  shows "gc_inv c V spec H (gc_count p k s) m"
proof -
  let ?i = "(gs_informer s)\<lparr>si_listener := Some (p\<lparr>pl_count := k, pl_handled := False\<rparr>)\<rparr>"
  have s': "gc_count p k s = s\<lparr>gs_informer := ?i\<rparr>" by (simp add: gc_count_def)
  have k: "k = pl_count p - 1" using p(3) by (auto simp: SingleFileTracker_Finished_def Let_def split: if_splits)
  have u: "undelivered ?i = undelivered (gs_informer s)" by (simp add: undelivered_def listened_def p)
  then have ci: "coming oe ?i = coming oe (gs_informer s)" "initials oe ?i = initials oe (gs_informer s)" for oe
    by (simp_all add: coming_def initials_def)
  have "listener_ok p" using gc_invD(1) [OF inv] p(1) by (simp add: informer_ok_def)
  then have "listener_ok (p\<lparr>pl_count := k, pl_handled := False\<rparr>)" using p k by (simp add: listener_ok_def)
  then have "informer_ok (gc_objects c) V ?i" using gc_invD(1) [OF inv] unfolding informer_ok_def u by (auto simp: informer_idle_def)
  moreover have "phases_ok (gc_count p k s) m" using gc_invD(3) [OF inv] p(1) by (auto simp: s' phases_ok_def)
  ultimately show ?thesis using inv unfolding gc_inv_def s' by (simp add: ci queue_ok_def ready_ok_def owed_def)
qed

subsection \<open>Steps of the workers\<close>

fun relevant :: "'obj gworker \<Rightarrow> bool" where
  "relevant (GTaken item) = True"
| "relevant (GLooked key namespace name v) = True"
| "relevant w = False"

lemma conv_ok_neutral:
  assumes "conv_ok spec items P W m" "P \<subseteq> P'" "\<And>w. relevant w \<Longrightarrow> w \<in> W' \<longleftrightarrow> w \<in> W"
  shows "conv_ok spec items P' W' m"
proof -
  have "GTaken x \<in> W' \<longleftrightarrow> GTaken x \<in> W" "GLooked k a b v \<in> W' \<longleftrightarrow> GLooked k a b v \<in> W" for x k a b v
    using assms(3) by simp_all
  then show ?thesis using assms(1,2) unfolding conv_ok_def by (metis subsetD)
qed

lemma relevant_update:
  assumes "i < length ws" "\<not> relevant (ws ! i)" "\<not> relevant w'" "relevant w"
  shows "w \<in> set (ws[i := w']) \<longleftrightarrow> w \<in> set ws"
  using assms set_update_cases [of w ws i w'] set_update_keeps [of w ws i w'] by auto

lemma conv_update:
  assumes "conv_ok spec items P (set ws) m" "P \<subseteq> P'" "i < length ws" "\<not> relevant (ws ! i)" "\<not> relevant w'"
  shows "conv_ok spec items P' (set (ws[i := w'])) m"
  using conv_ok_neutral [OF assms(1,2) relevant_update [OF assms(3-5)]] by blast

lemma tracker_update:
  assumes "tracker_ok t dirty (set ws)" "dirty \<subseteq> dirty'" "t' \<subseteq> t" "i < length ws"
    "\<And>key. key \<in> t' \<Longrightarrow> tracking key (ws ! i) \<Longrightarrow> tracking key w' \<or> StringItem key \<in> dirty'"
  shows "tracker_ok t' dirty' (set (ws[i := w']))"
  unfolding tracker_ok_def
proof
  fix key
  assume key: "key \<in> t'"
  then consider "StringItem key \<in> dirty" | w where "w \<in> set ws" "tracking key w" using assms(1,3) unfolding tracker_ok_def by blast
  then show "StringItem key \<in> dirty' \<or> (\<exists>w \<in> set (ws[i := w']). tracking key w)"
  proof cases
    case (2 w)
    then show ?thesis
      using set_update_keeps [of w ws i w'] set_update_memI [OF assms(4), of w'] assms(5) [OF key] assms(4) by (cases "w = ws ! i") auto
  qed (use assms(2) in blast)
qed

lemma workers_update:
  assumes "workers_ok V spec H (set ws) m"
    and "\<And>key err. w' = GFailed key err \<or> w' = GProcessed key \<Longrightarrow> recorded spec H m key"
    and "\<And>key namespace name v. w' = GLooked key namespace name v \<Longrightarrow>
      wf_key key \<and> SplitMetaNamespaceKey key = Inr (namespace, name) \<and> H key v \<and> set_option v \<subseteq> V"
  shows "workers_ok V spec H (set (ws[i := w'])) m"
  using assms(1) assms(2,3) set_update_cases [of _ ws i w'] unfolding workers_ok_def by metis

text \<open>A step of a worker that leaves the informer, the phase and the book as they are.\<close>

lemma inv_worker:
  assumes inv: "gc_inv c V spec H s m"
    and f: "gs_informer s' = gs_informer s" "gs_phase s' = gs_phase s" "gs_notificationsDelivered s' = gs_notificationsDelivered s"
      "gs_workers s' = (gs_workers s)[i := w']" and i: "i < length (gs_workers s)"
    and q: "queue_ok s'"
    and w: "workers_ok V spec H (set ((gs_workers s)[i := w'])) m"
    and conv: "gc_open (gs_phase s) \<Longrightarrow>
      conv_ok spec (gc_items s) (coming (gc_objects c) (gs_informer s) \<union> queued (gs_queue s')) (set ((gs_workers s)[i := w'])) m \<and>
      tracker_ok (gs_hasProcessed s') (wq_dirty (dq_q (gs_queue s'))) (set ((gs_workers s)[i := w']))"
    and t: "gs_hasProcessed s' \<subseteq> gs_hasProcessed s" "\<And>key. key \<in> gs_hasProcessed s - gs_hasProcessed s' \<Longrightarrow> recorded spec H m key"
  shows "gc_inv c V spec H s' m"
proof -
  have "gs_phase s \<notin> {GInit, GSyncing}" using gc_invD(3) [OF inv] i by (auto simp: phases_ok_def)
  then have "phases_ok s' m" using gc_invD(3) [OF inv] i unfolding phases_ok_def f by auto
  moreover have "ready_ok (gc_objects c) spec H s' m" if "\<forall>err. gs_phase s \<noteq> GReturned err"
    using gc_invD(8) [OF inv that] t unfolding ready_ok_def owed_def f by blast
  ultimately show ?thesis using gc_invD(1,5) [OF inv] q w conv unfolding gc_inv_def f by simp
qed

text \<open>The item that a worker holds is a well-formed key.\<close>

lemma held_wf:
  assumes q: "queue_ok s" and i: "i < length (gs_workers s)" and h: "held (as_worker (gs_workers s ! i)) = Some item"
  shows "\<exists>key. item = StringItem key \<and> wf_key key"
proof -
  have "held_ok (wq_processing (dq_q (gs_queue s))) (map as_worker (gs_workers s))" "strings_ok (gs_queue s)"
    using q by (simp_all add: queue_ok_def ctl_ok_def)
  then have "item \<in> wq_processing (dq_q (gs_queue s))" "is_string item"
    using i h by (auto simp: held_ok_def strings_ok_def)
  then show ?thesis using q by (auto simp: queue_ok_def keys_ok_def is_string_def)
qed

lemma put_worker_fields [simp]:
  "gs_informer (put_worker i w s) = gs_informer s" "gs_queue (put_worker i w s) = gs_queue s"
  "gs_phase (put_worker i w s) = gs_phase s" "gs_hasProcessed (put_worker i w s) = gs_hasProcessed s"
  "gs_notificationsDelivered (put_worker i w s) = gs_notificationsDelivered s"
  "gs_workers (put_worker i w s) = (gs_workers s)[i := w]"
  by (simp_all add: put_worker_def)

lemma gc_set_queue_fields [simp]:
  "gs_informer (gc_set_queue q s) = gs_informer s" "gs_queue (gc_set_queue q s) = (gs_queue s)\<lparr>dq_q := q\<rparr>"
  "gs_phase (gc_set_queue q s) = gs_phase s" "gs_hasProcessed (gc_set_queue q s) = gs_hasProcessed s"
  "gs_notificationsDelivered (gc_set_queue q s) = gs_notificationsDelivered s" "gs_workers (gc_set_queue q s) = gs_workers s"
  by (simp_all add: gc_set_queue_def)

lemma gc_other_fields [simp]:
  "gs_informer (gc_Forget x s) = gs_informer s" "gs_queue (gc_Forget x s) = gs_queue s" "gs_phase (gc_Forget x s) = gs_phase s"
  "gs_hasProcessed (gc_Forget x s) = gs_hasProcessed s" "gs_workers (gc_Forget x s) = gs_workers s"
  "gs_notificationsDelivered (gc_Forget x s) = gs_notificationsDelivered s"
  "gs_informer (gc_HandleError e s) = gs_informer s" "gs_queue (gc_HandleError e s) = gs_queue s"
  "gs_phase (gc_HandleError e s) = gs_phase s" "gs_hasProcessed (gc_HandleError e s) = gs_hasProcessed s"
  "gs_workers (gc_HandleError e s) = gs_workers s" "gs_notificationsDelivered (gc_HandleError e s) = gs_notificationsDelivered s"
  by (simp_all add: gc_Forget_def gc_HandleError_def)

lemma queue_ok_ctl: "queue_ok s \<Longrightarrow> ctl_ok (gs_queue s) (map as_worker (gs_workers s)) (as_phase (gs_phase s))"
  by (simp add: queue_ok_def)

lemma inv_start:
  assumes inv: "gc_inv c V spec H s m" and i: "i < length (gs_workers s)" "gs_workers s ! i = GNotStarted" and w: "w \<in> {GAtGet, GSkipped}"
  shows "gc_inv c V spec H (put_worker i w s) m"
proof (rule inv_worker [OF inv, where i = i and w' = w])
  show "queue_ok (put_worker i w s)"
    using ctl_ok_start [OF queue_ok_ctl [OF gc_invD(2) [OF inv]], of i "as_worker w"] gc_invD(2) [OF inv] i w
    by (auto simp: queue_ok_def map_update)
qed (use w i workers_update [OF gc_invD(4) [OF inv], of w] conv_update [OF gc_invD(6) [OF inv], of _ i w]
    tracker_update [OF gc_invD(7) [OF inv], of _ _ i w] in auto)

text \<open>A worker takes an item that no other worker holds.\<close>

lemma conv_take:
  assumes conv: "conv_ok spec items P (set ws) m" and i: "i < length ws" "ws ! i = GAtGet"
    and free: "\<And>w. w \<in> set ws \<Longrightarrow> held (as_worker w) \<noteq> Some item"
    and P: "\<And>key. key \<in> P \<Longrightarrow> StringItem key \<noteq> item \<Longrightarrow> key \<in> P'"
  shows "conv_ok spec items P' (set (ws[i := GTaken item])) m"
  unfolding conv_ok_def
proof (intro allI impI conjI)
  fix key
  assume wf: "wf_key key"
  have new: "GTaken item \<in> set (ws[i := GTaken item])" using i by (simp add: set_update_memI)
  have W: "w \<in> set (ws[i := GTaken item]) \<longleftrightarrow> w \<in> set ws \<or> w = GTaken item" if "relevant w" for w
    using that i set_update_cases [of w ws i "GTaken item"] set_update_keeps [of w ws i "GTaken item"] new by (cases "w = GAtGet") auto
  show "m key = map_option spec (items key) \<or> key \<in> P' \<or>
      GTaken (StringItem key) \<in> set (ws[i := GTaken item]) \<or> (\<exists>namespace name v. GLooked key namespace name v \<in> set (ws[i := GTaken item]))"
    using conv wf P [of key] W new unfolding conv_ok_def by (cases "StringItem key = item") auto
  fix namespace name v
  assume "GLooked key namespace name v \<in> set (ws[i := GTaken item])"
  then have l: "GLooked key namespace name v \<in> set ws" using W by simp
  then have "StringItem key \<noteq> item" using free [OF l] by auto
  then show "map_option spec v = map_option spec (items key) \<or> key \<in> P'"
    using conv wf P [of key] l unfolding conv_ok_def by blast
qed

lemma tracker_take:
  assumes t: "tracker_ok t dirty (set ws)" and i: "i < length ws" "ws ! i = GAtGet"
  shows "tracker_ok t (dirty - {item}) (set (ws[i := GTaken item]))"
  unfolding tracker_ok_def
proof
  fix key
  assume "key \<in> t"
  then consider "StringItem key \<in> dirty" | w where "w \<in> set ws" "tracking key w"
    using t unfolding tracker_ok_def by auto
  then show "StringItem key \<in> dirty - {item} \<or> (\<exists>w \<in> set (ws[i := GTaken item]). tracking key w)"
  proof cases
    case 1
    have "GTaken item \<in> set (ws[i := GTaken item])" using i by (simp add: set_update_memI)
    then show ?thesis using 1 bexI [of "tracking key" "GTaken item"] by (cases "StringItem key = item") auto
  next
    case (2 w)
    then show ?thesis using set_update_keeps [of w ws i "GTaken item"] i by (cases "w = GAtGet") auto
  qed
qed

lemma inv_get_item:
  assumes inv: "gc_inv c V spec H s m" and i: "i < length (gs_workers s)" "gs_workers s ! i = GAtGet"
    and get: "wq_Get (dq_q (gs_queue s)) = Some (Some item, q)"
  shows "gc_inv c V spec H (put_worker i (GTaken item) (gc_set_queue q s)) m"
proof (rule inv_worker [OF inv, where i = i and w' = "GTaken item"])
  let ?s = "put_worker i (GTaken item) (gc_set_queue q s)" and ?ws = "gs_workers s"
  have ctl: "ctl_ok (gs_queue s) (map as_worker ?ws) (as_phase (gs_phase s))" by (rule queue_ok_ctl [OF gc_invD(2) [OF inv]])
  have take: "wq_inv q \<and> item \<in> wq_dirty (dq_q (gs_queue s)) \<and> item \<notin> wq_processing (dq_q (gs_queue s)) \<and>
      wq_dirty q = wq_dirty (dq_q (gs_queue s)) - {item} \<and> wq_processing q = insert item (wq_processing (dq_q (gs_queue s)))"
    using wq.take_item [OF _ get] ctl by (simp add: ctl_ok_def)
  have "keys_ok ((gs_queue s)\<lparr>dq_q := q\<rparr>)"
    using gc_invD(2) [OF inv] take by (auto simp: queue_ok_def keys_ok_def dq_delayed_def)
  then show "queue_ok ?s" using ctl_ok_get [OF ctl, of i] i get by (simp add: queue_ok_def map_update)
  show "workers_ok V spec H (set (?ws[i := GTaken item])) m" by (rule workers_update [OF gc_invD(4) [OF inv]]) auto
  assume op: "gc_open (gs_phase s)"
  have free: "held (as_worker w) \<noteq> Some item" if w: "w \<in> set ?ws" for w
  proof -
    obtain j where "j < length ?ws" "w = ?ws ! j" using w by (auto simp: in_set_conv_nth)
    then show ?thesis using ctl take by (auto simp: ctl_ok_def held_ok_def)
  qed
  have "conv_ok spec (gc_items s) (coming (gc_objects c) (gs_informer s) \<union> queued (gs_queue ?s)) (set (?ws[i := GTaken item])) m"
    by (rule conv_take [OF gc_invD(6) [OF inv op] i free]) (use take in \<open>auto simp: queued_def dq_delayed_def\<close>)
  with tracker_take [OF gc_invD(7) [OF inv op] i, of item] take
  show "conv_ok spec (gc_items s) (coming (gc_objects c) (gs_informer s) \<union> queued (gs_queue ?s)) (set (?ws[i := GTaken item])) m \<and>
      tracker_ok (gs_hasProcessed ?s) (wq_dirty (dq_q (gs_queue ?s))) (set (?ws[i := GTaken item]))" by simp
qed (use i in auto)

lemma inv_get_shutdown:
  assumes inv: "gc_inv c V spec H s m" and i: "i < length (gs_workers s)" "gs_workers s ! i = GAtGet"
    and get: "wq_Get (dq_q (gs_queue s)) = Some (None, q)"
  shows "gc_inv c V spec H (put_worker i GExited (gc_set_queue q s)) m"
proof (rule inv_worker [OF inv, where i = i and w' = GExited])
  have q: "q = dq_q (gs_queue s)" using wq.take_end [OF get] by simp
  show "queue_ok (put_worker i GExited (gc_set_queue q s))"
    using ctl_ok_shutdown [OF queue_ok_ctl [OF gc_invD(2) [OF inv]], of i q] gc_invD(2) [OF inv] i get q
    by (simp add: queue_ok_def map_update)
qed (use wq.take_end [OF get] i workers_update [OF gc_invD(4) [OF inv], of GExited] conv_update [OF gc_invD(6) [OF inv], of _ i GExited]
    tracker_update [OF gc_invD(7) [OF inv], of _ _ i GExited] in auto)

lemma inv_look_up:
  assumes inv: "gc_inv c V spec H s m" and i: "i < length (gs_workers s)" "gs_workers s ! i = GTaken item"
  shows "gc_inv c V spec H (gc_lookup i item s) m"
proof -
  obtain key where item: "item = StringItem key" and wf: "wf_key key"
    using held_wf [OF gc_invD(2) [OF inv] i(1), of item] i(2) by auto
  obtain namespace name where sp: "SplitMetaNamespaceKey key = Inr (namespace, name)"
    and s': "gc_lookup i item s = put_worker i (GLooked key namespace name (gc_items s key)) s"
    using gc_lookup_wf [OF wf] unfolding item by blast
  let ?w = "GLooked key namespace name (gc_items s key)" and ?ws = "gs_workers s"
  have synced: "gc_synced s" using gc_invD(3) [OF inv] i(1) by (auto simp: phases_ok_def)
  have V: "set_option (gc_items s key) \<subseteq> V" using gc_invD(1) [OF inv] by (auto simp: informer_ok_def items_ok_def)
  have old: "?ws ! i = GTaken (StringItem key)" using i(2) item by simp
  have new: "?w \<in> set (?ws[i := ?w])" using i(1) by (rule set_update_memI)
  have W: "w = ?w \<or> w \<in> set ?ws" if "w \<in> set (?ws[i := ?w])" for w using set_update_cases [OF that] .
  have keep: "w \<in> set (?ws[i := ?w])" if "w \<in> set ?ws" "w \<noteq> GTaken (StringItem key)" for w
    using set_update_keeps [OF that(1) i(1)] that(2) old by simp
  show ?thesis
    unfolding s'
  proof (rule inv_worker [OF inv, where i = i and w' = ?w])
    show "queue_ok (put_worker i ?w s)"
      using gc_invD(2) [OF inv] list_update_id [of "map as_worker ?ws" i] i(1) old by (simp add: queue_ok_def map_update)
    show "workers_ok V spec H (set (?ws[i := ?w])) m"
      using gc_invD(5) [OF inv synced] V sp wf by (intro workers_update [OF gc_invD(4) [OF inv]]) auto
    assume op: "gc_open (gs_phase s)"
    have "conv_ok spec (gc_items s) (coming (gc_objects c) (gs_informer s) \<union> queued (gs_queue s)) (set (?ws[i := ?w])) m"
      unfolding conv_ok_def
    proof (intro allI impI conjI)
      fix k
      assume k: "wf_key k"
      note conv = gc_invD(6) [OF inv op, unfolded conv_ok_def, rule_format, OF k]
      show "m k = map_option spec (gc_items s k) \<or> k \<in> coming (gc_objects c) (gs_informer s) \<union> queued (gs_queue s) \<or>
          GTaken (StringItem k) \<in> set (?ws[i := ?w]) \<or> (\<exists>namespace name v. GLooked k namespace name v \<in> set (?ws[i := ?w]))"
        using conv keep new by (cases "k = key") blast+
      fix a b v
      assume "GLooked k a b v \<in> set (?ws[i := ?w])"
      from W [OF this] show "map_option spec v = map_option spec (gc_items s k) \<or> k \<in> coming (gc_objects c) (gs_informer s) \<union> queued (gs_queue s)"
        using conv by auto
    qed
    moreover have "tracker_ok (gs_hasProcessed s) (wq_dirty (dq_q (gs_queue s))) (set (?ws[i := ?w]))"
      by (rule tracker_update [OF gc_invD(7) [OF inv op] subset_refl subset_refl i(1)]) (simp add: old)
    ultimately show "conv_ok spec (gc_items s) (coming (gc_objects c) (gs_informer s) \<union> queued (gs_queue (put_worker i ?w s))) (set (?ws[i := ?w])) m \<and>
        tracker_ok (gs_hasProcessed (put_worker i ?w s)) (wq_dirty (dq_q (gs_queue (put_worker i ?w s)))) (set (?ws[i := ?w]))" by simp
  qed (use i(1) in auto)
qed

lemma inv_requeue:
  assumes inv: "gc_inv c V spec H s m" and i: "i < length (gs_workers s)" "gs_workers s ! i = GFailed key err"
    and s1: "gc_requeue c now i key err s = Some s1"
  shows "gc_inv c V spec H s1 m"
proof -
  let ?ws = "gs_workers s"
  have wf: "wf_key key" using held_wf [OF gc_invD(2) [OF inv] i(1), of "StringItem key"] i(2) by simp
  obtain d q where q: "dq_AddAfter now (StringItem key) d (gs_queue s) = Some q"
    and f: "gs_informer s1 = gs_informer s" "gs_phase s1 = gs_phase s" "gs_notificationsDelivered s1 = gs_notificationsDelivered s"
      "gs_workers s1 = ?ws[i := GProcessed key]" "gs_queue s1 = q" "gs_hasProcessed s1 = gs_hasProcessed s"
    using s1 by (auto simp: gc_requeue_def split: prod.splits option.splits)
  have dirty: "wq_dirty (dq_q (gs_queue s)) \<subseteq> wq_dirty (dq_q q)" by (rule dirty_AddAfter [OF q])
  have delayed: "dq_delayed (gs_queue s) \<subseteq> dq_delayed q" "dq_delayed q \<subseteq> insert (StringItem key) (dq_delayed (gs_queue s))"
    "wq_dirty (dq_q q) \<subseteq> insert (StringItem key) (wq_dirty (dq_q (gs_queue s)))" "wq_processing (dq_q q) = wq_processing (dq_q (gs_queue s))"
    using q by (auto simp: dq_AddAfter_def dq_delayed_def wq_fields split: if_splits)
  show ?thesis
  proof (rule inv_worker [OF inv, where i = i and w' = "GProcessed key"])
    have "keys_ok q" using gc_invD(2) [OF inv] delayed wf unfolding queue_ok_def keys_ok_def by blast
    then show "queue_ok s1"
      using ctl_ok_process [OF queue_ok_ctl [OF gc_invD(2) [OF inv]], of i "StringItem key" q now] i q
      by (auto simp: queue_ok_def map_update f)
    have "recorded spec H m key" using gc_invD(4) [OF inv] i nth_mem [OF i(1)] unfolding workers_ok_def by metis
    then show "workers_ok V spec H (set (?ws[i := GProcessed key])) m" by (intro workers_update [OF gc_invD(4) [OF inv]]) auto
    assume op: "gc_open (gs_phase s)"
    have P: "coming (gc_objects c) (gs_informer s) \<union> queued (gs_queue s) \<subseteq> coming (gc_objects c) (gs_informer s) \<union> queued (gs_queue s1)"
      using dirty delayed(1) by (auto simp: queued_def f)
    show "conv_ok spec (gc_items s) (coming (gc_objects c) (gs_informer s) \<union> queued (gs_queue s1)) (set (?ws[i := GProcessed key])) m \<and>
      tracker_ok (gs_hasProcessed s1) (wq_dirty (dq_q (gs_queue s1))) (set (?ws[i := GProcessed key]))"
      using conv_update [OF gc_invD(6) [OF inv op] P i(1)] tracker_update [OF gc_invD(7) [OF inv op] _ _ i(1)] dirty i(2) f by simp
  qed (use i(1) f in auto)
qed

lemma inv_track:
  assumes inv: "gc_inv c V spec H s m" and i: "i < length (gs_workers s)" "gs_workers s ! i = GProcessed key"
  shows "gc_inv c V spec H (put_worker i (GTracked (StringItem key)) (s\<lparr>gs_hasProcessed := AsyncTracker_Finished key (gs_hasProcessed s)\<rparr>)) m"
proof (rule inv_worker [OF inv, where i = i and w' = "GTracked (StringItem key)"])
  show "recorded spec H m k"
    if "k \<in> gs_hasProcessed s - gs_hasProcessed (put_worker i (GTracked (StringItem key)) (s\<lparr>gs_hasProcessed := AsyncTracker_Finished key (gs_hasProcessed s)\<rparr>))" for k
  proof -
    have "k = key" using that by (auto simp: AsyncTracker_Finished_def)
    moreover have "GProcessed key \<in> set (gs_workers s)" using i nth_mem [OF i(1)] by simp
    ultimately show ?thesis using gc_invD(4) [OF inv] unfolding workers_ok_def by blast
  qed
  show "queue_ok (put_worker i (GTracked (StringItem key)) (s\<lparr>gs_hasProcessed := AsyncTracker_Finished key (gs_hasProcessed s)\<rparr>))"
    using gc_invD(2) [OF inv] list_update_id [of "map as_worker (gs_workers s)" i] i by (simp add: queue_ok_def map_update)
qed (use i workers_update [OF gc_invD(4) [OF inv], of "GTracked (StringItem key)"] conv_update [OF gc_invD(6) [OF inv], of _ i "GTracked (StringItem key)"]
    tracker_update [OF gc_invD(7) [OF inv], of _ "gs_hasProcessed s - {key}" i "GTracked (StringItem key)"] in \<open>auto simp: AsyncTracker_Finished_def\<close>)

lemma inv_done:
  assumes inv: "gc_inv c V spec H s m" and i: "i < length (gs_workers s)" "gs_workers s ! i = GTracked item"
  shows "gc_inv c V spec H (put_worker i GAtGet (gc_set_queue (wq_Done item (dq_q (gs_queue s))) s)) m"
proof (rule inv_worker [OF inv, where i = i and w' = GAtGet])
  show "queue_ok (put_worker i GAtGet (gc_set_queue (wq_Done item (dq_q (gs_queue s))) s))"
    using ctl_ok_finish [OF queue_ok_ctl [OF gc_invD(2) [OF inv]], of i item] gc_invD(2) [OF inv] i
    by (auto simp: queue_ok_def map_update keys_ok_def wq_fields dq_delayed_def)
qed (use i workers_update [OF gc_invD(4) [OF inv], of GAtGet] conv_update [OF gc_invD(6) [OF inv], of _ i GAtGet]
    tracker_update [OF gc_invD(7) [OF inv], of _ _ i GAtGet] in \<open>auto simp: queued_def wq_fields dq_delayed_def\<close>)

text \<open>The reconciler is called with a value that was seen, and records it.\<close>

lemma conv_record:
  assumes conv: "conv_ok spec items P (set ws) m" and i: "i < length ws" "ws ! i = GLooked key namespace name v"
    and w: "\<not> relevant w" and m': "\<And>k. wf_key k \<Longrightarrow> m' k = (if k = key then map_option spec v else m k)"
  shows "conv_ok spec items P (set (ws[i := w])) m'"
  unfolding conv_ok_def
proof (intro allI impI conjI)
  fix k
  assume k: "wf_key k"
  note conv' = conv [unfolded conv_ok_def, rule_format, OF k]
  have old: "GLooked key namespace name v \<in> set ws" using i nth_mem [OF i(1)] by simp
  show "m' k = map_option spec (items k) \<or> k \<in> P \<or>
      GTaken (StringItem k) \<in> set (ws[i := w]) \<or> (\<exists>namespace name v. GLooked k namespace name v \<in> set (ws[i := w]))"
  proof (cases "k = key")
    case True
    then show ?thesis using conv' old m' [OF k] by auto
  next
    case False
    have "GTaken (StringItem k) \<in> set ws \<Longrightarrow> GTaken (StringItem k) \<in> set (ws[i := w])"
      "GLooked k a b x \<in> set ws \<Longrightarrow> GLooked k a b x \<in> set (ws[i := w])" for a b x
      using set_update_keeps [of _ ws i w] i False by simp_all
    with conv' show ?thesis unfolding m' [OF k] if_not_P [OF False] by blast
  qed
  fix a b x
  assume "GLooked k a b x \<in> set (ws[i := w])"
  then have "GLooked k a b x \<in> set ws" using set_update_cases w by (metis relevant.simps(2))
  then show "map_option spec x = map_option spec (items k) \<or> k \<in> P" using conv' by blast
qed

lemma queue_ok_reconciled:
  assumes q: "queue_ok s" and i: "i < length (gs_workers s)" "gs_workers s ! i = GLooked key namespace name v"
  shows "queue_ok (gc_reconciled i key err s)"
proof (cases err)
  case None
  then show ?thesis
    using q ctl_ok_process [OF queue_ok_ctl [OF q], of i "StringItem key" "gs_queue s"] i by (simp add: queue_ok_def gc_reconciled_def map_update)
next
  case (Some e)
  then show ?thesis
    using q list_update_id [of "map as_worker (gs_workers s)" i] i by (simp add: queue_ok_def gc_reconciled_def map_update)
qed

lemma inv_reconcile:
  assumes inv: "gc_inv c V spec H s m" and i: "i < length (gs_workers s)" "gs_workers s ! i = GLooked key namespace name v"
    and m': "\<And>k. wf_key k \<Longrightarrow> m' k = (if k = key then map_option spec v else m k)"
  shows "gc_inv c V spec H (gc_reconciled i key err s) m'"
proof -
  let ?ws = "gs_workers s" and ?w = "case err of None \<Rightarrow> GProcessed key | Some e \<Rightarrow> GFailed key e"
  let ?s = "gc_reconciled i key err s"
  have f: "gs_informer ?s = gs_informer s" "gs_phase ?s = gs_phase s" "gs_notificationsDelivered ?s = gs_notificationsDelivered s"
    "gs_queue ?s = gs_queue s" "gs_hasProcessed ?s = gs_hasProcessed s" "gs_workers ?s = ?ws[i := ?w]"
    by (auto simp: gc_reconciled_def split: option.split)
  have "GLooked key namespace name v \<in> set ?ws" using i nth_mem [OF i(1)] by simp
  then have wf: "wf_key key" and seen: "H key v" using gc_invD(4) [OF inv] unfolding workers_ok_def by blast+
  have rec: "recorded spec H m' key" using m' [OF wf] seen by (auto simp: recorded_def)
  have rec': "recorded spec H m' k" if "wf_key k" "recorded spec H m k" for k
    using that m' [OF that(1)] rec by (cases "k = key") (auto simp: recorded_def)
  have wfs: "wf_key k" if "w \<in> set ?ws" "held (as_worker w) = Some (StringItem k)" for w k
    using held_wf [OF gc_invD(2) [OF inv], of _ "StringItem k"] that by (auto simp: in_set_conv_nth)
  have "\<not> relevant ?w" by (cases err) auto
  then have "conv_ok spec (gc_items s) (coming (gc_objects c) (gs_informer s) \<union> queued (gs_queue s)) (set (?ws[i := ?w])) m'"
    if "gc_open (gs_phase s)" using conv_record [OF gc_invD(6) [OF inv that] i] m' by blast
  moreover have "workers_ok V spec H (set ?ws) m'"
    using gc_invD(4) [OF inv] rec' wfs unfolding workers_ok_def by (metis as_worker.simps(5,6) held.simps(1,2))
  then have "workers_ok V spec H (set (?ws[i := ?w])) m'" by (rule workers_update) (use rec in \<open>auto split: option.splits\<close>)
  moreover have "gs_phase s \<notin> {GInit, GSyncing}" using gc_invD(3) [OF inv] i(1) by (auto simp: phases_ok_def)
  then have "phases_ok ?s m'" using gc_invD(3) [OF inv] i(1) unfolding phases_ok_def f by auto
  moreover have "tracker_ok (gs_hasProcessed s) (wq_dirty (dq_q (gs_queue s))) (set (?ws[i := ?w]))" if op: "gc_open (gs_phase s)"
    by (rule tracker_update [OF gc_invD(7) [OF inv op] subset_refl subset_refl i(1)]) (simp add: i(2) split: option.split)
  moreover have "ready_ok (gc_objects c) spec H ?s m'" if "\<forall>err. gs_phase s \<noteq> GReturned err"
    using gc_invD(8) [OF inv that] rec' unfolding ready_ok_def owed_def f by metis
  ultimately show ?thesis
    using gc_invD(1,5) [OF inv] queue_ok_reconciled [OF gc_invD(2) [OF inv] i, of err] unfolding gc_inv_def f by simp
qed

subsection \<open>Steps of Run\<close>

lemma inv_delay:
  assumes inv: "gc_inv c V spec H s m" and step: "dq_step now (gs_queue s) q"
  shows "gc_inv c V spec H (s\<lparr>gs_queue := q\<rparr>) m"
proof -
  have fields: "wq_dirty (dq_q q) \<union> dq_delayed q \<subseteq> wq_dirty (dq_q (gs_queue s)) \<union> dq_delayed (gs_queue s)"
    "wq_processing (dq_q q) = wq_processing (dq_q (gs_queue s))"
    using step by (cases rule: dq_step.cases; auto simp: dq_delayed_def dq_insert_data wq_fields dest: set_remove1_subset [THEN subsetD])+
  have "queue_ok (s\<lparr>gs_queue := q\<rparr>)"
    using ctl_ok_dq_step [OF _ step] gc_invD(2) [OF inv] fields unfolding queue_ok_def keys_ok_def by auto
  moreover have "conv_ok spec (gc_items s) (coming (gc_objects c) (gs_informer s) \<union> queued q) (set (gs_workers s)) m \<and>
      tracker_ok (gs_hasProcessed s) (wq_dirty (dq_q q)) (set (gs_workers s))" if op: "gc_open (gs_phase s)"
  proof -
    have sh: "\<not> wq_shuttingDown (dq_q (gs_queue s))" by (rule open_queue [OF gc_invD(2) [OF inv] op])
    have d: "wq_dirty (dq_q (gs_queue s)) \<subseteq> wq_dirty (dq_q q)" by (rule dirty_dq_step [OF step])
    then have "queued (gs_queue s) \<subseteq> queued q" using dq_step_keeps [OF step _ sh] by (auto simp: queued_def)
    then have "coming (gc_objects c) (gs_informer s) \<union> queued (gs_queue s) \<subseteq> coming (gc_objects c) (gs_informer s) \<union> queued q" by blast
    from conv_ok_mono [OF gc_invD(6) [OF inv op] this] show ?thesis using gc_invD(7) [OF inv op] d by (auto simp: tracker_ok_def)
  qed
  ultimately show ?thesis using inv by (simp add: gc_inv_def phases_ok_def ready_ok_def owed_def)
qed

lemma inv_run_start:
  assumes inv: "gc_inv c V spec H s m" and ph: "gs_phase s = GInit" and idle: "informer_idle (gs_informer s)"
    and keys: "set keys = dom (gc_items s)"
  shows "gc_inv c V spec H (gc_start repr keys b s) m"
proof (cases "AddEventHandler repr keys (gs_informer s)")
  case (Inl err)
  let ?s = "gc_start repr keys b s"
  have f: "gs_informer ?s = gs_informer s" "gs_phase ?s = GReturned err" "gs_workers ?s = gs_workers s" "gs_notificationsDelivered ?s = gs_notificationsDelivered s"
    "dq_q (gs_queue ?s) = wq_ShutDown newQueue" "dq_delayed (gs_queue ?s) = {}"
    using Inl by (simp_all add: gc_start_def Let_def gc_ShutDown_def newDelayingQueue_def dq_delayed_def)
  have ws: "gs_workers s = []" using gc_invD(3) [OF inv] ph by (simp add: phases_ok_def)
  have "queue_ok ?s" unfolding queue_ok_def ctl_ok_defs keys_ok_def f ws
    by (simp add: held_ok_def wq_ShutDown_fields wq_inv_new) (simp add: newQueue_def)
  then show ?thesis using gc_invD(1,3,4,5) [OF inv] ph unfolding gc_inv_def f by (auto simp: phases_ok_def f gc_open_def)
next
  case (Inr i')
  let ?s = "gc_start repr keys b s" and ?oe = "gc_objects c"
  have f: "gs_informer ?s = i'" "gs_phase ?s = GSyncing" "gs_workers ?s = gs_workers s" "gs_notificationsDelivered ?s = DeliveredRegistration"
    "gs_queue ?s = newDelayingQueue" "gs_hasProcessed ?s = gs_hasProcessed s"
    using Inr by (simp_all add: gc_start_def Let_def)
  note add = AddEventHandler_ok [OF gc_invD(1) [OF inv] idle keys Inr]
  have pz: "phases_ok s m" by (rule gc_invD(3) [OF inv])
  have ws: "gs_workers s = []" "gs_hasProcessed s = {}" and m: "\<And>key. wf_key key \<Longrightarrow> m key = None" using pz ph by (auto simp: phases_ok_def)
  have "queue_ok ?s" unfolding queue_ok_def f ws
    by (simp add: ctl_ok_defs held_ok_def newDelayingQueue_def dq_delayed_def wq_inv_new keys_ok_def) (simp add: newQueue_def)
  moreover have "phases_ok ?s m" unfolding phases_ok_def f using ws m add by auto
  moreover have "initials ?oe i' \<subseteq> coming ?oe i'" by (auto simp: initials_def coming_def)
  then have "dom (gc_items s) \<subseteq> coming ?oe i'" using add by blast
  then have "conv_ok spec (tsm_items (si_indexer i')) (coming ?oe i' \<union> queued newDelayingQueue) {} m"
    using m add unfolding conv_ok_def by (metis UnI1 domIff empty_iff option.map_disc_iff subsetD)
  moreover have "ready_ok ?oe spec H ?s m"
    unfolding ready_ok_def owed_def f
  proof (intro allI impI)
    fix key
    assume wf: "wf_key key"
    have "recorded spec H m key" if "si_synced i'" "tsm_items (si_indexer i') key = None"
      using gc_invD(5) [OF inv, of key] that add m [OF wf] by (auto simp: recorded_def intro: exI [of _ None])
    then show "recorded spec H m key \<or> (GSyncing = GInit \<or> key \<in> initials ?oe i' \<or> key \<in> gs_hasProcessed s) \<or>
        \<not> si_synced i' \<and> tsm_items (si_indexer i') key = None"
      using add by (cases "tsm_items (si_indexer i') key") auto
  qed
  ultimately show ?thesis
    using gc_invD(4,5) [OF inv] add unfolding gc_inv_def f ws by (simp add: tracker_ok_def)
qed

lemma inv_sync_done:
  assumes inv: "gc_inv c V spec H s m" and ph: "gs_phase s = GSyncing" and synced: "gc_synced s"
  shows "gc_inv c V spec H (s\<lparr>gs_phase := GRunning, gs_workers := replicate n GNotStarted\<rparr>) m"
proof -
  let ?s = "s\<lparr>gs_phase := GRunning, gs_workers := replicate n GNotStarted\<rparr>"
  have pz: "phases_ok s m" by (rule gc_invD(3) [OF inv])
  have ws: "gs_workers s = []" using pz ph by (simp add: phases_ok_def)
  have op: "gc_open (gs_phase s)" by (simp add: ph gc_open_def)
  have "ctl_ok (gs_queue s) [] Syncing" using gc_invD(2) [OF inv] ws ph by (simp add: queue_ok_def)
  then have "queue_ok ?s" using gc_invD(2) [OF inv] open_queue [OF gc_invD(2) [OF inv] op] held_ok_replicate
    by (auto simp: queue_ok_def ctl_ok_defs)
  moreover have "phases_ok ?s m" using pz ph synced by (auto simp: phases_ok_def)
  moreover have "conv_ok spec (gc_items s) (coming (gc_objects c) (gs_informer s) \<union> queued (gs_queue s)) (set (replicate n GNotStarted)) m"
    using gc_invD(6) [OF inv op] ws by (auto simp: conv_ok_def)
  moreover have "tracker_ok (gs_hasProcessed s) (wq_dirty (dq_q (gs_queue s))) (set (replicate n GNotStarted :: 'a gworker list))"
    using gc_invD(7) [OF inv op] ws by (auto simp: tracker_ok_def)
  moreover have "ready_ok (gc_objects c) spec H ?s m"
    using gc_invD(8) [OF inv] ph by (simp add: ready_ok_def owed_def)
  moreover have "workers_ok V spec H (set (replicate n GNotStarted)) m" by (auto simp: workers_ok_def)
  ultimately show ?thesis using gc_invD(1,5) [OF inv] by (simp add: gc_inv_def)
qed

lemma inv_return:
  assumes inv: "gc_inv c V spec H s m" and ph: "gs_phase s = GSyncing \<or> gs_phase s = GJoining \<and> set (gs_workers s) \<subseteq> {GExited, GSkipped}"
  shows "gc_inv c V spec H (gc_return err s) m"
proof -
  let ?s = "gc_return err s"
  have f: "gs_informer ?s = RemoveEventHandler (gs_informer s)" "gs_phase ?s = GReturned err" "gs_workers ?s = gs_workers s"
    "gs_notificationsDelivered ?s = DeliveredFalse" "gs_queue ?s = (gs_queue s)\<lparr>dq_q := wq_ShutDown (dq_q (gs_queue s))\<rparr>"
    by (simp_all add: gc_return_def gc_ShutDown_def)
  have i: "si_indexer (RemoveEventHandler (gs_informer s)) = si_indexer (gs_informer s)" "si_synced (RemoveEventHandler (gs_informer s)) = gc_synced s"
    by (simp_all add: RemoveEventHandler_def)
  have ws: "set (gs_workers s) \<subseteq> {GExited, GSkipped}" using ph gc_invD(3) [OF inv] by (auto simp: phases_ok_def)
  then have "set (map as_worker (gs_workers s)) \<subseteq> {Exited, Skipped}" by auto
  then have "queue_ok ?s" using gc_invD(2) [OF inv] unfolding queue_ok_def ctl_ok_defs keys_ok_def f
    by (auto simp: wq_ShutDown_fields dq_delayed_def)
  moreover have "phases_ok ?s m" using gc_invD(3) [OF inv] unfolding phases_ok_def f i by auto
  ultimately show ?thesis
    using RemoveEventHandler_ok [OF gc_invD(1) [OF inv]] gc_invD(4,5) [OF inv] unfolding gc_inv_def f i by (simp add: gc_open_def)
qed

lemma inv_ctx_done:
  assumes inv: "gc_inv c V spec H s m" and ph: "gs_phase s = GRunning"
  shows "gc_inv c V spec H ((gc_ShutDown s)\<lparr>gs_phase := GJoining\<rparr>) m"
proof -
  let ?s = "(gc_ShutDown s)\<lparr>gs_phase := GJoining\<rparr>"
  have f: "gs_informer ?s = gs_informer s" "gs_phase ?s = GJoining" "gs_workers ?s = gs_workers s" "gs_hasProcessed ?s = gs_hasProcessed s"
    "gs_notificationsDelivered ?s = gs_notificationsDelivered s" "gs_queue ?s = (gs_queue s)\<lparr>dq_q := wq_ShutDown (dq_q (gs_queue s))\<rparr>"
    by (simp_all add: gc_ShutDown_def)
  have "queue_ok ?s" using gc_invD(2) [OF inv] ph unfolding queue_ok_def ctl_ok_defs keys_ok_def f
    by (auto simp: wq_ShutDown_fields dq_delayed_def)
  moreover have "phases_ok ?s m" using gc_invD(3) [OF inv] ph unfolding phases_ok_def f by auto
  moreover have "ready_ok (gc_objects c) spec H ?s m" using gc_invD(8) [OF inv] ph unfolding ready_ok_def owed_def f by simp
  ultimately show ?thesis using gc_invD(1,4,5) [OF inv] unfolding gc_inv_def f by (simp add: gc_open_def)
qed

section \<open>What the invariant gives\<close>

text \<open>A controller that reports to have synced has recorded, for every key, a value that the store has held since it was complete.\<close>

lemma synced_recorded:
  assumes inv: "gc_inv c V spec H s m" and synced: "gc_HasSynced s" and wf: "wf_key key"
  shows "recorded spec H m key"
proof -
  have reg: "registration_HasSynced (gs_informer s)" "gs_hasProcessed s = {}" "gs_notificationsDelivered s = DeliveredRegistration"
    using synced by (auto simp: gc_HasSynced_def AsyncTracker_HasSynced_def split: delivered.splits if_splits)
  then have ph: "gs_phase s \<in> {GSyncing, GRunning, GJoining}" using gc_invD(3) [OF inv] by (simp add: phases_ok_def)
  have del: "initials (gc_objects c) (gs_informer s) = {} \<and> gc_synced s" by (rule registration_delivered [OF gc_invD(1) [OF inv] reg(1)])
  have "ready_ok (gc_objects c) spec H s m" using gc_invD(8) [OF inv] ph by auto
  then have "recorded spec H m key \<or> owed (gc_objects c) s key \<or> (\<not> gc_synced s \<and> gc_items s key = None)"
    using wf by (simp add: ready_ok_def)
  moreover have "\<not> owed (gc_objects c) s key" using del reg(2) ph by (auto simp: owed_def)
  ultimately show ?thesis using del by blast
qed

text \<open>Nothing is on its way: no delta, no notification, no queued or delayed item, and no worker at work.\<close>

definition gc_quiet :: "('obj, 'b) gc_state \<Rightarrow> bool" where
  "gc_quiet s \<longleftrightarrow> gs_phase s = GRunning \<and> informer_idle (gs_informer s) \<and>
     (case si_listener (gs_informer s) of None \<Rightarrow> True | Some p \<Rightarrow> pl_pending p = [] \<and> \<not> pl_handled p) \<and>
     wq_dirty (dq_q (gs_queue s)) = {} \<and> dq_waitingForAddCh (gs_queue s) = [] \<and> dq_waiting (gs_queue s) = [] \<and>
     list_all (\<lambda>w. held (as_worker w) = None) (gs_workers s)"

lemma quiet_current:
  assumes inv: "gc_inv c V spec H s m" and quiet: "gc_quiet s"
  shows "gc_HasSynced s \<and> (\<forall>key. wf_key key \<longrightarrow> m key = map_option spec (gc_items s key))"
proof -
  have op: "gc_open (gs_phase s)" using quiet by (simp add: gc_quiet_def gc_open_def)
  have pz: "phases_ok s m" by (rule gc_invD(3) [OF inv])
  then obtain p where p: "si_listener (gs_informer s) = Some p" "gs_notificationsDelivered s = DeliveredRegistration" "gc_synced s"
    using quiet by (auto simp: phases_ok_def gc_quiet_def)
  have free: "held (as_worker w) = None" if "w \<in> set (gs_workers s)" for w
    using quiet that by (auto simp: gc_quiet_def list_all_iff)
  have "pl_pending p = []" "\<not> pl_handled p" using quiet p(1) by (simp_all add: gc_quiet_def)
  then have count: "pl_count p = 0" using gc_invD(1) [OF inv] p(1) by (simp add: informer_ok_def listener_ok_def)
  have "\<not> tracking key w" if "w \<in> set (gs_workers s)" for key w using free [OF that] by (cases w) auto
  then have "gs_hasProcessed s = {}" using gc_invD(7) [OF inv op] quiet unfolding tracker_ok_def gc_quiet_def by auto
  then have "gc_HasSynced s"
    using p count by (simp add: gc_HasSynced_def AsyncTracker_HasSynced_def registration_HasSynced_def listener_HasSynced_def SingleFileTracker_HasSynced_def)
  moreover have "coming (gc_objects c) (gs_informer s) \<union> queued (gs_queue s) = {}"
    using quiet p(1) by (auto simp: gc_quiet_def coming_def undelivered_def listened_def informer_idle_def queued_def dq_delayed_def)
  then have "m key = map_option spec (gc_items s key)" if "wf_key key" for key
    using gc_invD(6) [OF inv op] that free unfolding conv_ok_def
    by (metis as_worker.simps(3,4) empty_iff held.simps(1) option.distinct(1))
  ultimately show ?thesis by blast
qed

text \<open>Only the reconciler changes its state.\<close>

lemma gc_step_state:
  assumes "gc_step c V (s, r) (s', r')"
  shows "r' = r \<or> (\<exists>namespace name obj err. gc_reconciler c namespace name obj r = Ret (err, r'))"
  using assms by cases auto

context recording_reconciler
begin

lemma gc_step_inv:
  assumes step: "gc_step c V (s, r) (s', r')" and c: "gc_reconciler c = reconciler" and srv: "serves (gc_objects c) valid spec V"
    and r: "ok r" and inv: "gc_inv c V spec H s (book r)" and ext: "extends H s' H'"
  shows "ok r' \<and> gc_inv c V spec H' s' (book r')"
proof -
  have seen: ?thesis if "gc_inv c V spec H s' (book r)" "r' = r" using gc_inv_seen [OF that(1) ext] that(2) r by simp
  from step show ?thesis
  proof cases
    case (reconcile i key namespace name newObj err)
    have mem: "GLooked key namespace name newObj \<in> set (gs_workers s)" using reconcile nth_mem by metis
    then have looked: "wf_key key" "SplitMetaNamespaceKey key = Inr (namespace, name)" "set_option newObj \<subseteq> V"
      using gc_invD(4) [OF inv] unfolding workers_ok_def by blast+
    then have "pred_option valid newObj" using srv by (cases newObj) (auto simp: serves_def)
    from records [OF r looked(1,2) this] have rec: "ok r'" "\<And>k. wf_key k \<Longrightarrow> book r' k = (if k = key then map_option spec newObj else book r k)"
      using reconcile c by auto
    have "gc_inv c V spec H s' (book r')"
      unfolding reconcile(1) using inv_reconcile [OF inv reconcile(2,3) rec(2)] .
    then show ?thesis using rec(1) gc_inv_seen [OF _ ext] by blast
  next
    case (inform informer)
    then show ?thesis using inv_inform [OF srv inv inform(3)] ext r by simp
  next
    case (deliver p n ns)
    then show ?thesis using inv_deliver [OF srv inv deliver(3-5)] seen by simp
  next
    case (cancel err)
    have "gc_inv c V spec H s' (book r)" using inv unfolding cancel by (simp add: gc_inv_def queue_ok_def phases_ok_def ready_ok_def owed_def)
    then show ?thesis using seen cancel by simp
  next
    case (requeue i key err now)
    then show ?thesis using inv_requeue [OF inv requeue(2-4)] seen by simp
  qed (rule seen; simp add: inv_count [OF inv] inv_delay [OF inv] inv_run_start [OF inv] inv_sync_done [OF inv] inv_return [OF inv]
      inv_start [OF inv] inv_get_item [OF inv] inv_get_shutdown [OF inv] inv_look_up [OF inv] inv_track [OF inv]
      inv_done [OF inv] inv_ctx_done [OF inv])+
qed

text \<open>What is recorded stays a value that was seen.\<close>

lemma gc_step_recorded:
  assumes step: "gc_step c V (s, r) (s', r')" and c: "gc_reconciler c = reconciler" and srv: "serves (gc_objects c) valid spec V"
    and r: "ok r" and inv: "gc_inv c V spec H s (book r)" and ext: "extends H s' H'"
    and k: "wf_key k" "recorded spec H (book r) k"
  shows "recorded spec H' (book r') k"
  using step
proof cases
  case (reconcile i key namespace name newObj err)
  have mem: "GLooked key namespace name newObj \<in> set (gs_workers s)" using reconcile nth_mem by metis
  then have looked: "wf_key key" "SplitMetaNamespaceKey key = Inr (namespace, name)" "H key newObj" "set_option newObj \<subseteq> V"
    using gc_invD(4) [OF inv] unfolding workers_ok_def by blast+
  then have "pred_option valid newObj" using srv by (cases newObj) (auto simp: serves_def)
  from records [OF r looked(1,2) this] have "book r' k = (if k = key then map_option spec newObj else book r k)"
    using reconcile c k(1) by auto
  then have "recorded spec H (book r') k" using k(2) looked(3) by (auto simp: recorded_def)
  then show ?thesis by (rule recorded_seen [OF ext])
qed (use k(2) recorded_seen [OF ext] in auto)

text \<open>The reconciler of a reachable state does not panic.\<close>

lemma gc_step_reconciles:
  assumes inv: "gc_inv c V spec H s (book r)" and r: "ok r" and srv: "serves (gc_objects c) valid spec V"
    and i: "i < length (gs_workers s)" "gs_workers s ! i = GLooked key namespace name newObj"
  shows "\<exists>err r'. reconciler namespace name newObj r = Ret (err, r')"
proof -
  have "GLooked key namespace name newObj \<in> set (gs_workers s)" using i nth_mem by metis
  then have looked: "wf_key key" "SplitMetaNamespaceKey key = Inr (namespace, name)" "set_option newObj \<subseteq> V"
    using gc_invD(4) [OF inv] unfolding workers_ok_def by blast+
  then have "pred_option valid newObj" using srv by (cases newObj) (auto simp: serves_def)
  from records [OF r looked(1,2) this] show ?thesis by blast
qed

end

end
