(* ===== verification/Matching.thy ===== *)
theory Matching
  imports ApiTypes
begin

text \<open>
  Which requests a policy or a binding is about: label selectors (vendored
  \<^verbatim>\<open>apimachinery/pkg/labels\<close>), the rule, namespace and object predicates of the webhook packages, and
  \<^verbatim>\<open>plugin/validatingadmissionpolicy/matching/matching.go\<close> with \<^verbatim>\<open>matcher.go\<close>. The checks of label
  syntax, the metadata accessor, the namespace lister and the client are arguments; what they
  answer is fixed for one request. The webhook of this repository calls the evaluator with an
  empty registry of equivalent resources (\<^verbatim>\<open>NewObjectInterfacesFromScheme\<close> in \<^verbatim>\<open>pkg/webhook/server.go\<close>).
\<close>

section \<open>Label selectors\<close>

datatype operator = OpDoesNotExist | OpEquals | OpDoubleEquals | OpIn | OpNotEquals | OpNotIn | OpExists
  | OpGreaterThan | OpLessThan | OpOther string

record Requirement =
  rq_key :: string
  rq_operator :: operator
  rq_strValues :: "string list"

datatype labels_selector = NothingSelector | InternalSelector "Requirement list"

type_synonym labels = "string \<rightharpoonup> string"

text \<open>The syntax checks of keys and values, with the texts of their errors.\<close>

record label_checks =
  lc_validateLabelKey :: "string \<Rightarrow> string option"
  lc_validateLabelValue :: "string \<Rightarrow> nat \<Rightarrow> string \<Rightarrow> string option"
  lc_Invalid :: "string list \<Rightarrow> string \<Rightarrow> string"
  lc_InvalidValue :: "nat \<Rightarrow> string \<Rightarrow> string \<Rightarrow> string"
  lc_NotSupported :: "string \<Rightarrow> string"

fun bind_sum :: "'e + 'a \<Rightarrow> ('a \<Rightarrow> 'e + 'b) \<Rightarrow> 'e + 'b" where
  "bind_sum (Inl e) f = Inl e"
| "bind_sum (Inr a) f = f a"

definition option_list :: "'a option \<Rightarrow> 'a list" where
  "option_list x = (case x of None \<Rightarrow> [] | Some y \<Rightarrow> [y])"

definition fmt_aggregate :: "string list \<Rightarrow> string" where
  "fmt_aggregate msgs =
     (let ms = rev (remdups (rev msgs)) in
      if length ms = 1 then hd ms
      else ''['' @ concat (map (\<lambda>m. m @ '', '') (butlast ms)) @ last ms @ '']'')"

text \<open>\<^verbatim>\<open>strconv.ParseInt\<close> of a decimal number with 64 bits.\<close>

definition ParseInt64 :: "string \<Rightarrow> int option" where
  "ParseInt64 s =
     (let (neg, ds) = (if s \<noteq> [] \<and> hd s = CHR ''-'' then (True, tl s)
            else if s \<noteq> [] \<and> hd s = CHR ''+'' then (False, tl s) else (False, s));
          n = foldl (\<lambda>n c. 10 * n + (int (of_char c) - 48)) 0 ds;
          v = (if neg then - n else n)
      in if ds = [] \<or> (\<exists>c \<in> set ds. (of_char c :: nat) < 48 \<or> 57 < (of_char c :: nat)) then None
         else if - (2 ^ 63) \<le> v \<and> v < 2 ^ 63 then Some v else None)"

definition operator_errors :: "label_checks \<Rightarrow> operator \<Rightarrow> string list \<Rightarrow> string list" where
  "operator_errors lc op vals =
     (if op = OpIn \<or> op = OpNotIn then
        if length vals = 0 then [lc_Invalid lc vals ''for 'in', 'notin' operators, values set can't be empty''] else []
      else if op = OpEquals \<or> op = OpDoubleEquals \<or> op = OpNotEquals then
        if length vals \<noteq> 1 then [lc_Invalid lc vals ''exact-match compatibility requires one single value''] else []
      else if op = OpExists \<or> op = OpDoesNotExist then
        if length vals \<noteq> 0 then [lc_Invalid lc vals ''values set must be empty for exists and does not exist''] else []
      else if op = OpGreaterThan \<or> op = OpLessThan then
        (if length vals \<noteq> 1 then [lc_Invalid lc vals ''for 'Gt', 'Lt' operators, exactly one value is required''] else []) @
        concat (map (\<lambda>(i, v). if ParseInt64 v = None
          then [lc_InvalidValue lc i v ''for 'Gt', 'Lt' operators, the value must be an integer''] else []) (enumerate 0 vals))
      else case op of OpOther s \<Rightarrow> [lc_NotSupported lc s] | _ \<Rightarrow> [])"

definition NewRequirement :: "label_checks \<Rightarrow> string \<Rightarrow> operator \<Rightarrow> string list \<Rightarrow> goerror + Requirement" where
  "NewRequirement lc key op vals =
     (let allErrs = option_list (lc_validateLabelKey lc key) @ operator_errors lc op vals @
        concat (map (\<lambda>(i, v). option_list (lc_validateLabelValue lc key i v)) (enumerate 0 vals))
      in if allErrs = [] then Inr \<lparr>rq_key = key, rq_operator = op, rq_strValues = vals\<rparr>
         else Inl (ErrorString (fmt_aggregate allErrs)))"

definition compare_values :: "Requirement \<Rightarrow> string \<Rightarrow> (int \<Rightarrow> int \<Rightarrow> bool) \<Rightarrow> bool" where
  "compare_values r v cmp =
     (case ParseInt64 v of
        None \<Rightarrow> False
      | Some lsValue \<Rightarrow>
          (case rq_strValues r of
             [s] \<Rightarrow> (case ParseInt64 s of None \<Rightarrow> False | Some rValue \<Rightarrow> cmp lsValue rValue)
           | _ \<Rightarrow> False))"

definition requirement_Matches :: "Requirement \<Rightarrow> labels \<Rightarrow> bool" where
  "requirement_Matches r ls =
     (let has = ls (rq_key r) \<noteq> None; v = the (ls (rq_key r)); hasValue = v \<in> set (rq_strValues r) in
      case rq_operator r of
        OpIn \<Rightarrow> if \<not> has then False else hasValue
      | OpEquals \<Rightarrow> if \<not> has then False else hasValue
      | OpDoubleEquals \<Rightarrow> if \<not> has then False else hasValue
      | OpNotIn \<Rightarrow> if \<not> has then True else \<not> hasValue
      | OpNotEquals \<Rightarrow> if \<not> has then True else \<not> hasValue
      | OpExists \<Rightarrow> has
      | OpDoesNotExist \<Rightarrow> \<not> has
      | OpGreaterThan \<Rightarrow> if \<not> has then False else compare_values r v (>)
      | OpLessThan \<Rightarrow> if \<not> has then False else compare_values r v (<)
      | OpOther s \<Rightarrow> False)"

fun selector_Matches :: "labels_selector \<Rightarrow> labels \<Rightarrow> bool" where
  "selector_Matches NothingSelector ls = False"
| "selector_Matches (InternalSelector rs) ls = (\<forall>r \<in> set rs. requirement_Matches r ls)"

fun selector_Empty :: "labels_selector \<Rightarrow> bool" where
  "selector_Empty NothingSelector = False"
| "selector_Empty (InternalSelector rs) = (rs = [])"

definition selector_op :: "string \<Rightarrow> goerror + operator" where
  "selector_op op =
     (if op = ''In'' then Inr OpIn
      else if op = ''NotIn'' then Inr OpNotIn
      else if op = ''Exists'' then Inr OpExists
      else if op = ''DoesNotExist'' then Inr OpDoesNotExist
      else Inl (ErrorString (go_quote op @ '' is not a valid label selector operator'')))"

fun labelRequirements :: "label_checks \<Rightarrow> (string \<times> string) list \<Rightarrow> goerror + Requirement list" where
  "labelRequirements lc [] = Inr []"
| "labelRequirements lc ((k, v) # kvs) =
     bind_sum (NewRequirement lc k OpEquals [v]) (\<lambda>r.
     bind_sum (labelRequirements lc kvs) (\<lambda>rs. Inr (r # rs)))"

fun exprRequirements :: "label_checks \<Rightarrow> LabelSelectorRequirement list \<Rightarrow> goerror + Requirement list" where
  "exprRequirements lc [] = Inr []"
| "exprRequirements lc (e # es) =
     bind_sum (selector_op (lr_Operator e)) (\<lambda>op.
     bind_sum (NewRequirement lc (lr_Key e) op (lr_Values e)) (\<lambda>r.
     bind_sum (exprRequirements lc es) (\<lambda>rs. Inr (r # rs))))"

definition LabelSelectorAsSelector :: "label_checks \<Rightarrow> LabelSelector option \<Rightarrow> goerror + labels_selector" where
  "LabelSelectorAsSelector lc ps =
     (case ps of
        None \<Rightarrow> Inr NothingSelector
      | Some s \<Rightarrow>
          if length (ls_MatchLabels s) + length (ls_MatchExpressions s) = 0 then Inr (InternalSelector [])
          else
            bind_sum (labelRequirements lc (ls_MatchLabels s)) (\<lambda>rs1.
            bind_sum (exprRequirements lc (ls_MatchExpressions s)) (\<lambda>rs2. Inr (InternalSelector (rs1 @ rs2)))))"

section \<open>Equivalent resources\<close>

record equivalentResourceRegistry =
  eq_resources :: "string \<Rightarrow> string \<Rightarrow> GroupVersionResource list"
  eq_kinds :: "GroupVersionResource \<Rightarrow> string \<Rightarrow> GroupVersionKind"
  eq_keys :: "GroupResource \<Rightarrow> string"

definition emptyGVK :: GroupVersionKind where
  "emptyGVK = \<lparr>gvk_Group = '''', gvk_Version = '''', gvk_Kind = ''''\<rparr>"

text \<open>Reading a nil map gives zero values.\<close>

definition NewEquivalentResourceRegistry :: equivalentResourceRegistry where
  "NewEquivalentResourceRegistry = \<lparr>eq_resources = (\<lambda>key sub. []), eq_kinds = (\<lambda>r sub. emptyGVK), eq_keys = (\<lambda>gr. '''')\<rparr>"

definition EquivalentResourcesFor ::
  "equivalentResourceRegistry \<Rightarrow> GroupVersionResource \<Rightarrow> string \<Rightarrow> GroupVersionResource list" where
  "EquivalentResourcesFor r resource subresource = eq_resources r (eq_keys r (gvr_GroupResource resource)) subresource"

definition KindFor :: "equivalentResourceRegistry \<Rightarrow> GroupVersionResource \<Rightarrow> string \<Rightarrow> GroupVersionKind" where
  "KindFor r resource subresource = eq_kinds r resource subresource"

section \<open>Predicates on a request\<close>

record 'obj match_env =
  me_checks :: label_checks
  me_Accessor :: "'obj \<Rightarrow> goerror + accessor"
  me_NamespaceLister :: "string \<Rightarrow> goerror + labels"
  me_Client :: "string \<Rightarrow> goerror + labels"
  me_registry :: equivalentResourceRegistry

subsection \<open>Rules\<close>

definition exactOrWildcard :: "string list \<Rightarrow> string \<Rightarrow> bool" where
  "exactOrWildcard items requested = (\<exists>item \<in> set items. item = ''*'' \<or> item = requested)"

definition namespaceResource :: GroupVersionResource where
  "namespaceResource = \<lparr>gvr_Group = '''', gvr_Version = ''v1'', gvr_Resource = ''namespaces''\<rparr>"

definition rule_scope :: "NamedRuleWithOperations \<Rightarrow> 'obj Attributes \<Rightarrow> bool" where
  "rule_scope rule a =
     (case nr_Scope rule of
        None \<Rightarrow> True
      | Some scope \<Rightarrow>
          if scope = ''*'' then True
          else if scope = ''Namespaced'' then attr_resource a \<noteq> namespaceResource \<and> attr_namespace a \<noteq> ''''
          else if scope = ''Cluster'' then attr_resource a = namespaceResource \<or> attr_namespace a = ''''
          else False)"

definition rule_operation :: "NamedRuleWithOperations \<Rightarrow> 'obj Attributes \<Rightarrow> bool" where
  "rule_operation rule a = (\<exists>op \<in> set (nr_Operations rule). op = ''*'' \<or> op = attr_operation a)"

definition splitResource :: "string \<Rightarrow> string \<times> string" where
  "splitResource resSub =
     (takeWhile (\<lambda>c. c \<noteq> CHR ''/'') resSub, drop 1 (dropWhile (\<lambda>c. c \<noteq> CHR ''/'') resSub))"

definition rule_resource :: "NamedRuleWithOperations \<Rightarrow> 'obj Attributes \<Rightarrow> bool" where
  "rule_resource rule a =
     (\<exists>r \<in> set (nr_Resources rule).
        let (res, sub) = splitResource r in
        (res = ''*'' \<or> res = gvr_Resource (attr_resource a)) \<and> (sub = ''*'' \<or> sub = attr_subresource a))"

definition rule_Matches :: "NamedRuleWithOperations \<Rightarrow> 'obj Attributes \<Rightarrow> bool" where
  "rule_Matches rule a \<longleftrightarrow>
     rule_scope rule a \<and> rule_operation rule a \<and>
     exactOrWildcard (nr_APIGroups rule) (gvr_Group (attr_resource a)) \<and>
     exactOrWildcard (nr_APIVersions rule) (gvr_Version (attr_resource a)) \<and> rule_resource rule a"

definition name_listed :: "NamedRuleWithOperations \<Rightarrow> 'obj Attributes \<Rightarrow> bool" where
  "name_listed rule a \<longleftrightarrow> length (nr_ResourceNames rule) = 0 \<or> attr_name a \<in> set (nr_ResourceNames rule)"

text \<open>The second loop of \<^verbatim>\<open>matchesResourceRules\<close>, over the rules and for each over the equivalents.\<close>

fun equivalentLoop ::
  "equivalentResourceRegistry \<Rightarrow> 'obj Attributes \<Rightarrow> (NamedRuleWithOperations \<times> GroupVersionResource) list \<Rightarrow>
   goerror + bool \<times> GroupVersionKind" where
  "equivalentLoop reg a [] = Inr (False, emptyGVK)"
| "equivalentLoop reg a ((rule, equivalent) # rest) =
     (if equivalent = attr_resource a then equivalentLoop reg a rest
      else if \<not> rule_Matches rule (a\<lparr>attr_resource := equivalent\<rparr>) then equivalentLoop reg a rest
      else
        let matchKind = KindFor reg equivalent (attr_subresource a) in
        if matchKind = emptyGVK then
          Inl (ErrorString (''unable to convert to '' @ gvr_Group equivalent @ ''/'' @ gvr_Version equivalent @
            '', Resource='' @ gvr_Resource equivalent @ '': unknown kind''))
        else if name_listed rule a then Inr (True, matchKind)
        else equivalentLoop reg a rest)"

definition matchesResourceRules ::
  "equivalentResourceRegistry \<Rightarrow> NamedRuleWithOperations list \<Rightarrow> string option \<Rightarrow> 'obj Attributes \<Rightarrow>
   goerror + bool \<times> GroupVersionKind" where
  "matchesResourceRules reg namedRules matchPolicy a =
     (if \<exists>rule \<in> set namedRules. rule_Matches rule a \<and> name_listed rule a then Inr (True, attr_kind a)
      else if matchPolicy = None \<or> matchPolicy = Some ''Exact'' then Inr (False, emptyGVK)
      else equivalentLoop reg a
        (List.product namedRules (EquivalentResourcesFor reg (attr_resource a) (attr_subresource a))))"

subsection \<open>Selectors\<close>

definition NewInternalError :: "goerror \<Rightarrow> goerror" where
  "NewInternalError err = StatusError
     \<lparr>status_Status = ''Failure'', status_Message = ''Internal error occurred: '' @ error_Error err,
      status_Reason = ''InternalError'',
      status_Details = Some \<lparr>details_Name = '''', details_Group = '''', details_Kind = '''', details_UID = '''',
        details_Causes = [\<lparr>cause_Type = '''', cause_Message = error_Error err, cause_Field = ''''\<rparr>], details_RetryAfterSeconds = 0\<rparr>,
      status_Code = 500\<rparr>"

definition GetNamespaceLabels :: "'obj match_env \<Rightarrow> 'obj Attributes \<Rightarrow> goerror + labels" where
  "GetNamespaceLabels env a =
     (if gvr_Resource (attr_resource a) = ''namespaces'' \<and> length (attr_subresource a) = 0 \<and>
         (attr_operation a = ''CREATE'' \<or> attr_operation a = ''UPDATE'') then
        (case attr_object a of
           None \<Rightarrow> Inl (ErrorString ''object does not implement the Object interfaces'')
         | Some obj \<Rightarrow> bind_sum (me_Accessor env obj) (\<lambda>acc. Inr (acc_Labels acc)))
      else
        case me_NamespaceLister env (attr_namespace a) of
          Inl err \<Rightarrow> if IsNotFound (Some err) then me_Client env (attr_namespace a) else Inl err
        | r \<Rightarrow> r)"

text \<open>Whether the selector selects, and the \<^verbatim>\<open>*StatusError\<close>, which may be nil.\<close>

definition MatchNamespaceSelector ::
  "'obj match_env \<Rightarrow> LabelSelector option \<Rightarrow> 'obj Attributes \<Rightarrow> bool \<times> goerror option" where
  "MatchNamespaceSelector env ps a =
     (if length (attr_namespace a) = 0 \<and> gvr_Resource (attr_resource a) \<noteq> ''namespaces'' then (True, None)
      else
        case LabelSelectorAsSelector (me_checks env) ps of
          Inr selector \<Rightarrow>
            if selector_Empty selector then (True, None)
            else
              (case GetNamespaceLabels env a of
                 Inr ls \<Rightarrow> (selector_Matches selector ls, None)
               | Inl err \<Rightarrow>
                   if IsNotFound (Some err) then
                     (case err of StatusError st \<Rightarrow> (False, Some (StatusError st)) | _ \<Rightarrow> (False, Some (NewInternalError err)))
                   else (False, Some (NewInternalError err)))
        | Inl err \<Rightarrow> (False, Some (NewInternalError err)))"

definition matchObject :: "'obj match_env \<Rightarrow> 'obj option \<Rightarrow> labels_selector \<Rightarrow> bool" where
  "matchObject env obj selector =
     (case obj of
        None \<Rightarrow> False
      | Some x \<Rightarrow> (case me_Accessor env x of Inr acc \<Rightarrow> selector_Matches selector (acc_Labels acc) | Inl err \<Rightarrow> False))"

definition MatchObjectSelector ::
  "'obj match_env \<Rightarrow> LabelSelector option \<Rightarrow> 'obj Attributes \<Rightarrow> bool \<times> goerror option" where
  "MatchObjectSelector env ps a =
     (case LabelSelectorAsSelector (me_checks env) ps of
        Inr selector \<Rightarrow>
          if selector_Empty selector then (True, None)
          else (matchObject env (attr_object a) selector \<or> matchObject env (attr_oldObject a) selector, None)
      | Inl err \<Rightarrow> (False, Some (NewInternalError err)))"

subsection \<open>Match criteria\<close>

definition criteria_Matches :: "'obj match_env \<Rightarrow> 'obj Attributes \<Rightarrow> MatchResources \<Rightarrow> goerror + bool \<times> GroupVersionKind" where
  "criteria_Matches env a mr =
     (let (matches, matchNsErr) = MatchNamespaceSelector env (mr_NamespaceSelector mr) a in
      if \<not> matches \<and> matchNsErr = None then Inr (False, emptyGVK)
      else
        let (matches, matchObjErr) = MatchObjectSelector env (mr_ObjectSelector mr) a in
        if \<not> matches \<and> matchObjErr = None then Inr (False, emptyGVK)
        else
          bind_sum (matchesResourceRules (me_registry env) (mr_ExcludeResourceRules mr) (mr_MatchPolicy mr) a) (\<lambda>(isExcluded, k).
          if isExcluded then Inr (False, emptyGVK)
          else
            bind_sum
              (if length (mr_ResourceRules mr) = 0 then Inr (True, attr_kind a)
               else matchesResourceRules (me_registry env) (mr_ResourceRules mr) (mr_MatchPolicy mr) a) (\<lambda>(isMatch, matchKind).
            if \<not> isMatch then Inr (False, emptyGVK)
            else case matchNsErr of
              Some err \<Rightarrow> Inl err
            | None \<Rightarrow> (case matchObjErr of Some err \<Rightarrow> Inl err | None \<Rightarrow> Inr (True, matchKind)))))"

text \<open>A policy without constraints is a nil pointer that is dereferenced.\<close>

definition DefinitionMatches ::
  "'obj match_env \<Rightarrow> 'obj Attributes \<Rightarrow> ValidatingAdmissionPolicy \<Rightarrow> (bool \<times> GroupVersionKind) result" where
  "DefinitionMatches env a definition0 =
     (case ps_MatchConstraints (vp_Spec definition0) of
        None \<Rightarrow> Panic ''invalid memory address or nil pointer dereference''
      | Some constraints \<Rightarrow>
          (case criteria_Matches env a constraints of Inr m \<Rightarrow> Ret m | Inl err \<Rightarrow> Err err))"

definition BindingMatches ::
  "'obj match_env \<Rightarrow> 'obj Attributes \<Rightarrow> ValidatingAdmissionPolicyBinding \<Rightarrow> goerror + bool" where
  "BindingMatches env a binding =
     (case bs_MatchResources (vb_Spec binding) of
        None \<Rightarrow> Inr True
      | Some constraints \<Rightarrow> bind_sum (criteria_Matches env a constraints) (\<lambda>(isMatch, k). Inr isMatch))"

section \<open>What a selector and a rule select\<close>

text \<open>The meaning of a label selector, as its documentation states it.\<close>

definition expr_selects :: "LabelSelectorRequirement \<Rightarrow> labels \<Rightarrow> bool" where
  "expr_selects e ls =
     (case ls (lr_Key e) of
        Some v \<Rightarrow> lr_Operator e = ''In'' \<and> v \<in> set (lr_Values e) \<or>
          lr_Operator e = ''NotIn'' \<and> v \<notin> set (lr_Values e) \<or> lr_Operator e = ''Exists''
      | None \<Rightarrow> lr_Operator e = ''NotIn'' \<or> lr_Operator e = ''DoesNotExist'')"

definition label_selects :: "LabelSelector \<Rightarrow> labels \<Rightarrow> bool" where
  "label_selects s ls \<longleftrightarrow>
     (\<forall>(k, v) \<in> set (ls_MatchLabels s). ls k = Some v) \<and> (\<forall>e \<in> set (ls_MatchExpressions s). expr_selects e ls)"

definition rule_selects :: "NamedRuleWithOperations list \<Rightarrow> 'obj Attributes \<Rightarrow> bool" where
  "rule_selects rs a \<longleftrightarrow> (\<exists>rule \<in> set rs. rule_Matches rule a \<and> name_listed rule a)"

lemma bind_sum_Inr: "bind_sum x f = Inr y \<longleftrightarrow> (\<exists>z. x = Inr z \<and> f z = Inr y)"
  by (cases x) auto

lemma NewRequirement_Inr:
  "NewRequirement lc k op vs = Inr r \<Longrightarrow> r = \<lparr>rq_key = k, rq_operator = op, rq_strValues = vs\<rparr>"
  by (auto simp: NewRequirement_def Let_def split: if_splits)

lemma labelRequirements_selects:
  "labelRequirements lc kvs = Inr rs \<Longrightarrow>
     (\<forall>r \<in> set rs. requirement_Matches r ls) \<longleftrightarrow> (\<forall>(k, v) \<in> set kvs. ls k = Some v)"
proof (induction kvs arbitrary: rs)
  case (Cons kv kvs)
  obtain k v where kv: "kv = (k, v)" by (cases kv)
  with Cons.prems obtain rs' where rs: "rs = \<lparr>rq_key = k, rq_operator = OpEquals, rq_strValues = [v]\<rparr> # rs'"
    and rs': "labelRequirements lc kvs = Inr rs'"
    by (auto simp: bind_sum_Inr dest!: NewRequirement_Inr)
  show ?case using Cons.IH [OF rs'] by (auto simp: rs kv requirement_Matches_def)
qed simp

lemma exprRequirements_selects:
  "exprRequirements lc es = Inr rs \<Longrightarrow>
     (\<forall>r \<in> set rs. requirement_Matches r ls) \<longleftrightarrow> (\<forall>e \<in> set es. expr_selects e ls)"
proof (induction es arbitrary: rs)
  case (Cons e es)
  then obtain op rs' where op: "selector_op (lr_Operator e) = Inr op"
    and rs: "rs = \<lparr>rq_key = lr_Key e, rq_operator = op, rq_strValues = lr_Values e\<rparr> # rs'"
    and rs': "exprRequirements lc es = Inr rs'"
    by (auto simp: bind_sum_Inr dest!: NewRequirement_Inr)
  have "requirement_Matches \<lparr>rq_key = lr_Key e, rq_operator = op, rq_strValues = lr_Values e\<rparr> ls \<longleftrightarrow> expr_selects e ls"
    using op by (auto simp: requirement_Matches_def expr_selects_def selector_op_def split: if_splits option.split)
  with Cons.IH [OF rs'] show ?case by (simp add: rs)
qed simp

lemma selector_Matches_iff:
  assumes "LabelSelectorAsSelector lc (Some s) = Inr sel"
  shows "selector_Matches sel ls \<longleftrightarrow> label_selects s ls"
proof (cases "length (ls_MatchLabels s) + length (ls_MatchExpressions s) = 0")
  case True
  with assms have "sel = InternalSelector []" by (auto simp: LabelSelectorAsSelector_def split: if_splits)
  moreover have "ls_MatchLabels s = []" "ls_MatchExpressions s = []" using True by simp_all
  ultimately show ?thesis by (simp add: label_selects_def)
next
  case False
  with assms obtain rs1 rs2 where sel: "sel = InternalSelector (rs1 @ rs2)"
    and "labelRequirements lc (ls_MatchLabels s) = Inr rs1" "exprRequirements lc (ls_MatchExpressions s) = Inr rs2"
    by (auto simp: LabelSelectorAsSelector_def bind_sum_Inr)
  then show ?thesis
    using labelRequirements_selects [of lc "ls_MatchLabels s" rs1 ls] exprRequirements_selects [of lc "ls_MatchExpressions s" rs2 ls]
    by (simp add: label_selects_def ball_Un)
qed

lemma length_labelRequirements: "labelRequirements lc kvs = Inr rs \<Longrightarrow> length rs = length kvs"
  by (induction kvs arbitrary: rs) (auto simp: bind_sum_Inr)

lemma length_exprRequirements: "exprRequirements lc es = Inr rs \<Longrightarrow> length rs = length es"
  by (induction es arbitrary: rs) (auto simp: bind_sum_Inr)

lemma selector_Empty_iff:
  assumes "LabelSelectorAsSelector lc (Some s) = Inr sel"
  shows "selector_Empty sel \<longleftrightarrow> ls_MatchLabels s = [] \<and> ls_MatchExpressions s = []"
proof (cases "length (ls_MatchLabels s) + length (ls_MatchExpressions s) = 0")
  case True
  with assms show ?thesis by (auto simp: LabelSelectorAsSelector_def split: if_splits)
next
  case False
  with assms obtain rs1 rs2 where sel: "sel = InternalSelector (rs1 @ rs2)"
    and "labelRequirements lc (ls_MatchLabels s) = Inr rs1" "exprRequirements lc (ls_MatchExpressions s) = Inr rs2"
    by (auto simp: LabelSelectorAsSelector_def bind_sum_Inr)
  then have "length rs1 = length (ls_MatchLabels s)" "length rs2 = length (ls_MatchExpressions s)"
    by (simp_all add: length_labelRequirements length_exprRequirements)
  with sel show ?thesis by (simp flip: length_0_conv)
qed

text \<open>
  What the two selectors of match criteria say of a request: they select it, they do not, or it
  cannot be told. A nil selector selects nothing, an empty one everything, and one that cannot be read is an
  error. The namespace selector is not asked about cluster-scoped requests, except for namespaces themselves.
\<close>

definition empty_selector :: "LabelSelector \<Rightarrow> bool" where
  "empty_selector s \<longleftrightarrow> ls_MatchLabels s = [] \<and> ls_MatchExpressions s = []"

definition selector_error :: "goerror \<Rightarrow> goerror" where
  "selector_error err =
     (case err of StatusError st \<Rightarrow> if IsNotFound (Some err) then err else NewInternalError err | _ \<Rightarrow> NewInternalError err)"

definition namespace_verdict :: "'obj match_env \<Rightarrow> LabelSelector option \<Rightarrow> 'obj Attributes \<Rightarrow> goerror + bool" where
  "namespace_verdict env ps a =
     (if attr_namespace a = '''' \<and> gvr_Resource (attr_resource a) \<noteq> ''namespaces'' then Inr True
      else case LabelSelectorAsSelector (me_checks env) ps of
        Inl err \<Rightarrow> Inl (NewInternalError err)
      | Inr parsed \<Rightarrow>
          if pred_option (\<lambda>s. \<not> empty_selector s) ps then
            (case GetNamespaceLabels env a of
               Inl err \<Rightarrow> Inl (selector_error err)
             | Inr ls \<Rightarrow> Inr (\<exists>s. ps = Some s \<and> label_selects s ls))
          else Inr True)"

definition object_selected :: "'obj match_env \<Rightarrow> LabelSelector \<Rightarrow> 'obj Attributes \<Rightarrow> bool" where
  "object_selected env s a \<longleftrightarrow> empty_selector s \<or>
     (\<exists>obj \<in> set_option (attr_object a) \<union> set_option (attr_oldObject a).
        case me_Accessor env obj of Inr acc \<Rightarrow> label_selects s (acc_Labels acc) | Inl err \<Rightarrow> False)"

definition object_verdict :: "'obj match_env \<Rightarrow> LabelSelector option \<Rightarrow> 'obj Attributes \<Rightarrow> goerror + bool" where
  "object_verdict env ps a =
     (case LabelSelectorAsSelector (me_checks env) ps of
        Inl err \<Rightarrow> Inl (NewInternalError err)
      | Inr parsed \<Rightarrow> Inr (\<exists>s. ps = Some s \<and> object_selected env s a))"

text \<open>The rules select a request: no exclusion does, and a resource rule does unless there are none.\<close>

definition rules_select :: "MatchResources \<Rightarrow> 'obj Attributes \<Rightarrow> bool" where
  "rules_select mr a \<longleftrightarrow> \<not> rule_selects (mr_ExcludeResourceRules mr) a \<and>
     (mr_ResourceRules mr = [] \<or> rule_selects (mr_ResourceRules mr) a)"

lemma matchObject_iff:
  assumes "LabelSelectorAsSelector lc (Some s) = Inr sel"
  shows "matchObject env obj sel \<longleftrightarrow> (\<exists>x \<in> set_option obj.
    case me_Accessor env x of Inr acc \<Rightarrow> label_selects s (acc_Labels acc) | Inl err \<Rightarrow> False)"
  by (auto simp: matchObject_def selector_Matches_iff [OF assms] split: option.split sum.split)

text \<open>The pair of a match and an error that the code passes around, as a verdict.\<close>

definition verdict :: "bool \<times> goerror option \<Rightarrow> goerror + bool" where
  "verdict r = (case snd r of Some err \<Rightarrow> Inl err | None \<Rightarrow> Inr (fst r))"

lemma MatchObjectSelector_verdict: "verdict (MatchObjectSelector env ps a) = object_verdict env ps a"
proof (cases ps)
  case None
  then show ?thesis
    by (auto simp: verdict_def MatchObjectSelector_def object_verdict_def LabelSelectorAsSelector_def matchObject_def split: option.split sum.split)
next
  case (Some s)
  show ?thesis
  proof (cases "LabelSelectorAsSelector (me_checks env) (Some s)")
    case (Inr sel)
    then show ?thesis
      using matchObject_iff [OF Inr, of env "attr_object a"] matchObject_iff [OF Inr, of env "attr_oldObject a"]
      by (auto simp: Some verdict_def MatchObjectSelector_def object_verdict_def selector_Empty_iff [OF Inr] object_selected_def empty_selector_def)
  qed (simp add: Some verdict_def MatchObjectSelector_def object_verdict_def)
qed

lemma MatchNamespaceSelector_verdict: "verdict (MatchNamespaceSelector env ps a) = namespace_verdict env ps a"
proof (cases ps)
  case None
  then show ?thesis
    by (auto simp: verdict_def MatchNamespaceSelector_def namespace_verdict_def LabelSelectorAsSelector_def selector_error_def
        split: sum.split goerror.split)
next
  case (Some s)
  show ?thesis
  proof (cases "LabelSelectorAsSelector (me_checks env) (Some s)")
    case (Inr sel)
    then show ?thesis
      by (auto simp: Some verdict_def MatchNamespaceSelector_def namespace_verdict_def selector_Empty_iff [OF Inr] selector_Matches_iff [OF Inr]
          empty_selector_def selector_error_def split: sum.split goerror.split)
  qed (simp add: Some verdict_def MatchNamespaceSelector_def namespace_verdict_def)
qed

lemma selector_pairs:
  "fst (MatchNamespaceSelector env ps a) \<Longrightarrow> snd (MatchNamespaceSelector env ps a) = None"
  "fst (MatchObjectSelector env ps a) \<Longrightarrow> snd (MatchObjectSelector env ps a) = None"
  by (auto simp: MatchNamespaceSelector_def MatchObjectSelector_def split: if_splits sum.splits goerror.splits)

lemma product_none: "List.product xs [] = []"
  by (induction xs) auto

lemma matchesResourceRules_new:
  "matchesResourceRules NewEquivalentResourceRegistry rs matchPolicy a =
     Inr (if rule_selects rs a then (True, attr_kind a) else (False, emptyGVK))"
  by (auto simp: matchesResourceRules_def rule_selects_def EquivalentResourcesFor_def NewEquivalentResourceRegistry_def product_none)

text \<open>
  C12. What a policy or binding of the webhook is about, for every request. The webhook hands the evaluator an empty
  registry of equivalent resources. The criteria select a request, under the kind it has, exactly if both selectors
  select it, no exclusion rule applies to it and, unless there are none, a resource rule does, for the
  resource exactly as requested. If a selector does not select it or the rules do not, it is not selected, whatever
  else fails; if all that can be told speaks for the request and a selector cannot be read or the namespace cannot be
  found, that is an error, that of the namespace first. The match policy has no influence: "Equivalent", which the resource definitions set
  by default, does not match other versions of the resource.
\<close>

theorem webhook_criteria:
  assumes registry: "me_registry env = NewEquivalentResourceRegistry"
  shows "criteria_Matches env a mr =
    (if \<not> rules_select mr a \<or> namespace_verdict env (mr_NamespaceSelector mr) a = Inr False \<or>
        object_verdict env (mr_ObjectSelector mr) a = Inr False
     then Inr (False, emptyGVK)
     else case (namespace_verdict env (mr_NamespaceSelector mr) a, object_verdict env (mr_ObjectSelector mr) a) of
       (Inl err, _) \<Rightarrow> Inl err
     | (_, Inl err) \<Rightarrow> Inl err
     | (Inr _, Inr _) \<Rightarrow> Inr (True, attr_kind a))"
proof -
  obtain m e where ns: "MatchNamespaceSelector env (mr_NamespaceSelector mr) a = (m, e)" by (rule prod.exhaust)
  obtain m' e' where ob: "MatchObjectSelector env (mr_ObjectSelector mr) a = (m', e')" by (rule prod.exhaust)
  show ?thesis
    using selector_pairs(1) [of env "mr_NamespaceSelector mr" a] selector_pairs(2) [of env "mr_ObjectSelector mr" a]
    by (auto simp: criteria_Matches_def registry matchesResourceRules_new rules_select_def ns ob verdict_def
        simp flip: MatchNamespaceSelector_verdict MatchObjectSelector_verdict split: option.split)
qed

text \<open>A policy for pods and a request to create a pod in a namespace with a label.\<close>

definition example_match_env :: "labels match_env" where
  "example_match_env =
     \<lparr>me_checks = \<lparr>lc_validateLabelKey = (\<lambda>k. None), lc_validateLabelValue = (\<lambda>k i v. None), lc_Invalid = (\<lambda>v m. m),
        lc_InvalidValue = (\<lambda>i v m. m), lc_NotSupported = (\<lambda>op. op)\<rparr>,
      me_Accessor = (\<lambda>ls. Inr \<lparr>acc_Name = ''p'', acc_GenerateName = '''', acc_Namespace = ''ns'',
        acc_ResourceVersion = '''', acc_Labels = ls\<rparr>),
      me_NamespaceLister = (\<lambda>ns. Inr [''env'' \<mapsto> ''prod'']), me_Client = (\<lambda>ns. Inr Map.empty),
      me_registry = NewEquivalentResourceRegistry\<rparr>"

definition example_pods :: MatchResources where
  "example_pods =
     \<lparr>mr_NamespaceSelector = Some \<lparr>ls_MatchLabels = [(''env'', ''prod'')], ls_MatchExpressions = []\<rparr>,
      mr_ObjectSelector = Some \<lparr>ls_MatchLabels = [], ls_MatchExpressions = []\<rparr>,
      mr_ResourceRules = [\<lparr>nr_ResourceNames = [], nr_Operations = [''CREATE''], nr_APIGroups = [''''],
        nr_APIVersions = [''v1''], nr_Resources = [''pods''], nr_Scope = None\<rparr>],
      mr_ExcludeResourceRules = [], mr_MatchPolicy = Some ''Equivalent''\<rparr>"

definition example_pod_request :: "string \<Rightarrow> labels Attributes" where
  "example_pod_request version = NewAttributesRecord (Some Map.empty) None
     \<lparr>gvk_Group = '''', gvk_Version = version, gvk_Kind = ''Pod''\<rparr> ''ns'' ''p''
     \<lparr>gvr_Group = '''', gvr_Version = version, gvr_Resource = ''pods''\<rparr> '''' ''CREATE'' None False
     \<lparr>user_Name = ''u'', user_UID = '''', user_Groups = [], user_Extra = None\<rparr>"

lemmas example_match_simps = example_match_env_def example_pods_def example_pod_request_def NewAttributesRecord_def

theorem webhook_criteria_witness:
  "criteria_Matches example_match_env (example_pod_request ''v1'') example_pods = Inr (True, attr_kind (example_pod_request ''v1'')) \<and>
   criteria_Matches example_match_env (example_pod_request ''v2'') example_pods = Inr (False, emptyGVK) \<and>
   criteria_Matches example_match_env (example_pod_request ''v1'') (example_pods\<lparr>mr_ObjectSelector := None\<rparr>) = Inr (False, emptyGVK) \<and>
   criteria_Matches (example_match_env\<lparr>me_NamespaceLister := (\<lambda>ns. Inl (ErrorString ''x''))\<rparr>) (example_pod_request ''v1'') example_pods =
     Inl (NewInternalError (ErrorString ''x''))"
proof -
  have eq: "criteria_Matches env a mr = (if \<not> rules_select mr a \<or> namespace_verdict env (mr_NamespaceSelector mr) a = Inr False \<or>
        object_verdict env (mr_ObjectSelector mr) a = Inr False
     then Inr (False, emptyGVK)
     else case (namespace_verdict env (mr_NamespaceSelector mr) a, object_verdict env (mr_ObjectSelector mr) a) of
       (Inl err, _) \<Rightarrow> Inl err | (_, Inl err) \<Rightarrow> Inl err | (Inr _, Inr _) \<Rightarrow> Inr (True, attr_kind a))"
    if "me_registry env = NewEquivalentResourceRegistry" for env :: "labels match_env" and a mr
    by (rule webhook_criteria [OF that])
  show ?thesis
    by (intro conjI; subst eq)
      (simp_all add: example_match_simps rules_select_def namespace_verdict_def object_verdict_def empty_selector_def
        LabelSelectorAsSelector_def NewRequirement_def operator_errors_def option_list_def GetNamespaceLabels_def selector_error_def
        label_selects_def object_selected_def rule_selects_def rule_Matches_def name_listed_def rule_scope_def IsNotFound_ErrorString
        rule_operation_def exactOrWildcard_def rule_resource_def splitResource_def)
qed

end
