(* ===== verification/CelFilter.thy ===== *)
theory CelFilter
  imports Matching "HOL-Library.Word"
begin

text \<open>
  The evaluation of the compiled CEL expressions of a policy, from the vendored
  \<^verbatim>\<open>k8s.io/apiserver/pkg/admission/plugin\<close>: \<^verbatim>\<open>cel/filter.go\<close> evaluates a list of expressions under a
  cost budget, \<^verbatim>\<open>webhook/matchconditions/matcher.go\<close> decides by it whether a policy is to be applied,
  and \<^verbatim>\<open>validatingadmissionpolicy/validator.go\<close> turns the results into decisions. A compiled
  program is a function of the activation, an argument of the model, as are the conversions of
  objects to unstructured values. Budgets are \<^verbatim>\<open>int64\<close> and costs \<^verbatim>\<open>uint64\<close>, kept as words. The lemmas
  show the accounting of the budget and which decisions let a request pass.
\<close>

section \<open>Values, errors and expressions\<close>

datatype celval = CelBool bool | CelString string | CelNull | CelOther string

fun celval_Type :: "celval \<Rightarrow> string" where
  "celval_Type (CelBool b) = ''bool''"
| "celval_Type (CelString s) = ''string''"
| "celval_Type CelNull = ''null_type''"
| "celval_Type (CelOther t) = t"

record cel_Error =
  ce_Type :: string
  ce_Detail :: string

definition ErrorTypeInvalid :: string where "ErrorTypeInvalid = ''RuleInvalid''"
definition ErrorTypeInternal :: string where "ErrorTypeInternal = ''InternalError''"

text \<open>An error of a filter: a \<^verbatim>\<open>*cel.Error\<close>, or another one.\<close>

datatype filter_error = CelError cel_Error | OtherError goerror

fun filter_Error :: "filter_error \<Rightarrow> string" where
  "filter_Error (CelError e) = ce_Detail e"
| "filter_Error (OtherError e) = error_Error e"

text \<open>The dynamic type of an \<^verbatim>\<open>ExpressionAccessor\<close>.\<close>

datatype ExpressionAccessor =
    ValidationCondition string string "string option"
  | MessageExpressionCondition string
  | AuditAnnotationCondition string string
  | MatchConditionAccessor MatchCondition

fun GetExpression :: "ExpressionAccessor \<Rightarrow> string" where
  "GetExpression (ValidationCondition Expression Message Reason) = Expression"
| "GetExpression (MessageExpressionCondition MessageExpression) = MessageExpression"
| "GetExpression (AuditAnnotationCondition Key ValueExpression) = ValueExpression"
| "GetExpression (MatchConditionAccessor m) = mc_Expression m"

section \<open>The filter\<close>

text \<open>
  What \<^verbatim>\<open>ContextEval\<close> returns: a value, the details of the evaluation, which may be nil, with the
  actual cost, which may be nil, and an error. The time an evaluation takes is left out.
\<close>

type_synonym 'act celProgram = "'act \<Rightarrow> celval option \<times> 64 word option option \<times> goerror option"

record 'act CompilationResult =
  cr_Program :: "'act celProgram option"
  cr_Error :: "cel_Error option"
  cr_ExpressionAccessor :: "ExpressionAccessor option"

record EvaluationResult =
  er_EvalResult :: "celval option"
  er_ExpressionAccessor :: "ExpressionAccessor option"
  er_Error :: "cel_Error option"

definition zero_EvaluationResult :: EvaluationResult where
  "zero_EvaluationResult = \<lparr>er_EvalResult = None, er_ExpressionAccessor = None, er_Error = None\<rparr>"

definition MaxInt64 :: nat where "MaxInt64 = 2 ^ 63 - 1"

text \<open>
  The program the loop of \<^verbatim>\<open>ForInput\<close> runs for an expression: none for a placeholder, after an error
  of the compilation, or if there is no program.
\<close>

definition runnable :: "'act CompilationResult \<Rightarrow> 'act celProgram option" where
  "runnable r =
     (if cr_ExpressionAccessor r = None then None
      else if cr_Error r \<noteq> None then None
      else cr_Program r)"

text \<open>What it writes to the element of \<^verbatim>\<open>evaluations\<close> for the expression.\<close>

definition evaluation_of :: "'act \<Rightarrow> 'act CompilationResult \<Rightarrow> EvaluationResult" where
  "evaluation_of va r =
     (case cr_ExpressionAccessor r of
        None \<Rightarrow> zero_EvaluationResult
      | Some acc \<Rightarrow>
          let evaluation = zero_EvaluationResult\<lparr>er_ExpressionAccessor := Some acc\<rparr> in
          (case cr_Error r of
             Some err \<Rightarrow>
               evaluation\<lparr>er_Error := Some \<lparr>ce_Type = ErrorTypeInvalid, ce_Detail = ''compilation error: '' @ ce_Detail err\<rparr>\<rparr>
           | None \<Rightarrow>
             (case cr_Program r of
                None \<Rightarrow>
                  evaluation\<lparr>er_Error := Some \<lparr>ce_Type = ErrorTypeInternal, ce_Detail = ''unexpected internal error compiling expression''\<rparr>\<rparr>
              | Some program \<Rightarrow>
                (case program va of
                   (evalResult, evalDetails, Some e) \<Rightarrow>
                     evaluation\<lparr>er_Error := Some \<lparr>ce_Type = ErrorTypeInvalid,
                       ce_Detail = ''expression '' @ [CHR 0x27] @ GetExpression acc @ [CHR 0x27] @ '' resulted in error: '' @ error_Error e\<rparr>\<rparr>
                 | (evalResult, evalDetails, None) \<Rightarrow> evaluation\<lparr>er_EvalResult := evalResult\<rparr>))))"

definition uncalculated :: "string \<Rightarrow> 'act CompilationResult \<Rightarrow> cel_Error" where
  "uncalculated ty r =
     \<lparr>ce_Type = ty, ce_Detail = ''runtime cost could not be calculated for expression: '' @
        (case cr_ExpressionAccessor r of Some acc \<Rightarrow> GetExpression acc | None \<Rightarrow> '''') @ '', no further expression will be run''\<rparr>"

definition out_of_budget :: cel_Error where
  "out_of_budget = \<lparr>ce_Type = ErrorTypeInvalid,
     ce_Detail = ''validation failed due to running out of cost budget, no further validation rules will be run''\<rparr>"

definition append_evaluation ::
  "EvaluationResult \<Rightarrow> cel_Error + EvaluationResult list \<times> 64 word \<Rightarrow> cel_Error + EvaluationResult list \<times> 64 word" where
  "append_evaluation e rest = bind_sum rest (\<lambda>(es, remaining). Inr (e # es, remaining))"

text \<open>The loop of \<^verbatim>\<open>ForInput\<close>. The costs are checked before the error of the evaluation is recorded.\<close>

fun evaluations ::
  "'act \<Rightarrow> 'act CompilationResult list \<Rightarrow> 64 word \<Rightarrow> cel_Error + EvaluationResult list \<times> 64 word" where
  "evaluations va [] remainingBudget = Inr ([], remainingBudget)"
| "evaluations va (r # rs) remainingBudget =
     (case runnable r of
        None \<Rightarrow> append_evaluation (evaluation_of va r) (evaluations va rs remainingBudget)
      | Some program \<Rightarrow>
          (case fst (snd (program va)) of
             None \<Rightarrow> Inl (uncalculated ErrorTypeInternal r)
           | Some None \<Rightarrow> Inl (uncalculated ErrorTypeInvalid r)
           | Some (Some rtCost) \<Rightarrow>
               if unat rtCost > MaxInt64 \<or> sint rtCost > sint remainingBudget then Inl out_of_budget
               else append_evaluation (evaluation_of va r) (evaluations va rs (remainingBudget - rtCost))))"

subsection \<open>The input of an evaluation\<close>

record 'obj VersionedAttributes =
  va_Attributes :: "'obj Attributes"
  va_VersionedOldObject :: "'obj option"
  va_VersionedObject :: "'obj option"
  va_VersionedKind :: GroupVersionKind
  va_Dirty :: bool

text \<open>The creater and the convertor of a scheme, and the kind an object carries.\<close>

record 'obj ObjectInterfaces =
  oi_GroupVersionKind :: "'obj \<Rightarrow> GroupVersionKind"
  oi_New :: "GroupVersionKind \<Rightarrow> goerror + 'obj"
  oi_Convert :: "'obj \<Rightarrow> 'obj \<Rightarrow> goerror + 'obj"
  oi_SetGroupVersionKind :: "GroupVersionKind \<Rightarrow> 'obj \<Rightarrow> 'obj"

definition ConvertToGVK :: "'obj ObjectInterfaces \<Rightarrow> 'obj \<Rightarrow> GroupVersionKind \<Rightarrow> goerror + 'obj" where
  "ConvertToGVK oi obj gvk =
     (if oi_GroupVersionKind oi obj = gvk then Inr obj
      else bind_sum (oi_New oi gvk) (\<lambda>out. bind_sum (oi_Convert oi obj out) (\<lambda>out. Inr (oi_SetGroupVersionKind oi gvk out))))"

fun convert_object :: "'obj ObjectInterfaces \<Rightarrow> 'obj option \<Rightarrow> GroupVersionKind \<Rightarrow> goerror + 'obj option" where
  "convert_object oi None gvk = Inr None"
| "convert_object oi (Some obj) gvk = bind_sum (ConvertToGVK oi obj gvk) (\<lambda>out. Inr (Some out))"

definition NewVersionedAttributes ::
  "'obj ObjectInterfaces \<Rightarrow> 'obj Attributes \<Rightarrow> GroupVersionKind \<Rightarrow> goerror + 'obj VersionedAttributes" where
  "NewVersionedAttributes oi attr gvk =
     bind_sum (convert_object oi (attr_oldObject attr) gvk) (\<lambda>oldObj.
     bind_sum (convert_object oi (attr_object attr) gvk) (\<lambda>obj.
       Inr \<lparr>va_Attributes = attr, va_VersionedOldObject = oldObj, va_VersionedObject = obj, va_VersionedKind = gvk, va_Dirty = False\<rparr>))"

record 'obj cel_Request =
  cq_Kind :: GroupVersionKind
  cq_Resource :: GroupVersionResource
  cq_SubResource :: string
  cq_RequestKind :: GroupVersionKind
  cq_RequestResource :: GroupVersionResource
  cq_RequestSubResource :: string
  cq_Name :: string
  cq_Namespace :: string
  cq_Operation :: string
  cq_UserInfo :: UserInfo
  cq_DryRun :: bool
  cq_Options :: "'obj option"

definition CreateAdmissionRequest :: "'obj Attributes \<Rightarrow> 'obj cel_Request" where
  "CreateAdmissionRequest attr =
     \<lparr>cq_Kind = attr_kind attr, cq_Resource = attr_resource attr, cq_SubResource = attr_subresource attr,
      cq_RequestKind = attr_kind attr, cq_RequestResource = attr_resource attr,
      cq_RequestSubResource = attr_subresource attr, cq_Name = attr_name attr, cq_Namespace = attr_namespace attr,
      cq_Operation = attr_operation attr,
      cq_UserInfo = (attr_userInfo attr)\<lparr>user_Extra :=
        Some (case user_Extra (attr_userInfo attr) of None \<Rightarrow> Map.empty | Some extra \<Rightarrow> extra)\<rparr>,
      cq_DryRun = attr_dryRun attr, cq_Options = attr_options attr\<rparr>"

record ('u, 'z) evaluationActivation =
  ea_object :: "'u option"
  ea_oldObject :: "'u option"
  ea_params :: "'u option"
  ea_request :: 'u
  ea_authorizer :: "'z option"
  ea_requestResourceAuthorizer :: "'z option"

text \<open>The conversions to unstructured values, and the values that stand for an authorizer.\<close>

record ('obj, 'u, 'z) filter_env =
  fe_ToUnstructured :: "'obj \<Rightarrow> goerror + 'u"
  fe_RequestToUnstructured :: "'obj cel_Request \<Rightarrow> goerror + 'u"
  fe_NewAuthorizerVal :: "UserInfo \<Rightarrow> 'z"
  fe_NewResourceAuthorizerVal :: "UserInfo \<Rightarrow> 'obj Attributes \<Rightarrow> 'z"

fun objectToResolveVal :: "('obj, 'u, 'z) filter_env \<Rightarrow> 'obj option \<Rightarrow> goerror + 'u option" where
  "objectToResolveVal fe None = Inr None"
| "objectToResolveVal fe (Some r) = bind_sum (fe_ToUnstructured fe r) (\<lambda>v. Inr (Some v))"

type_synonym ('u, 'z) celFilter = "('u, 'z) evaluationActivation CompilationResult list"

text \<open>\<open>authorizer\<close> says whether the optional variables have one.\<close>

definition activation ::
  "('obj, 'u, 'z) filter_env \<Rightarrow> 'obj VersionedAttributes \<Rightarrow> 'obj cel_Request \<Rightarrow> 'obj option \<Rightarrow> bool \<Rightarrow>
   goerror + ('u, 'z) evaluationActivation" where
  "activation fe va request versionedParams authorizer =
     bind_sum (objectToResolveVal fe (va_VersionedOldObject va)) (\<lambda>oldObjectVal.
     bind_sum (objectToResolveVal fe (va_VersionedObject va)) (\<lambda>objectVal.
     bind_sum (objectToResolveVal fe versionedParams) (\<lambda>paramsVal.
     bind_sum (fe_RequestToUnstructured fe request) (\<lambda>requestVal.
       Inr \<lparr>ea_object = objectVal, ea_oldObject = oldObjectVal, ea_params = paramsVal, ea_request = requestVal,
         ea_authorizer = (if authorizer then Some (fe_NewAuthorizerVal fe (attr_userInfo (va_Attributes va))) else None),
         ea_requestResourceAuthorizer =
           (if authorizer then Some (fe_NewResourceAuthorizerVal fe (attr_userInfo (va_Attributes va)) (va_Attributes va)) else None)\<rparr>))))"

text \<open>On an error the source returns no evaluations and the budget \<open>-1\<close>, which its callers do not read.\<close>

definition ForInput ::
  "('obj, 'u, 'z) filter_env \<Rightarrow> ('u, 'z) celFilter \<Rightarrow> 'obj VersionedAttributes \<Rightarrow> 'obj cel_Request \<Rightarrow> 'obj option \<Rightarrow> bool \<Rightarrow>
   64 word \<Rightarrow> filter_error + EvaluationResult list \<times> 64 word" where
  "ForInput fe f va request versionedParams authorizer runtimeCELCostBudget =
     (case activation fe va request versionedParams authorizer of
        Inl err \<Rightarrow> Inl (OtherError err)
      | Inr act \<Rightarrow>
          (case evaluations act f runtimeCELCostBudget of
             Inl err \<Rightarrow> Inl (CelError err)
           | Inr r \<Rightarrow> Inr r))"

definition PerCallLimit :: nat where "PerCallLimit = 1000000"
definition RuntimeCELCostBudget :: "64 word" where "RuntimeCELCostBudget = 10000000"
definition RuntimeCELCostBudgetMatchConditions :: "64 word" where "RuntimeCELCostBudgetMatchConditions = 2500000"
definition MaxEvaluatedMessageExpressionSizeBytes :: nat where "MaxEvaluatedMessageExpressionSizeBytes = 5 * 1024"

section \<open>The budget\<close>

text \<open>The cost of evaluating one expression, if the runtime reports it.\<close>

definition cost_of :: "'act \<Rightarrow> 'act CompilationResult \<Rightarrow> nat option" where
  "cost_of va r =
     (case runnable r of
        None \<Rightarrow> Some 0
      | Some program \<Rightarrow> (case fst (snd (program va)) of Some (Some c) \<Rightarrow> Some (unat c) | _ \<Rightarrow> None))"

definition costs :: "'act \<Rightarrow> 'act CompilationResult list \<Rightarrow> nat" where
  "costs va rs = sum_list (map (\<lambda>r. case cost_of va r of Some c \<Rightarrow> c | None \<Rightarrow> 0) rs)"

lemma sint_unat64: "unat (c :: 64 word) \<le> MaxInt64 \<Longrightarrow> sint c = int (unat c)"
proof -
  assume "unat c \<le> MaxInt64"
  then have "int (unat c) \<le> int MaxInt64" unfolding of_nat_le_iff .
  then have "uint c < 2 ^ 63" by (simp add: MaxInt64_def)
  moreover have "- (2 ^ 63) \<le> uint c" by (rule order_trans [OF _ uint_ge_0]) simp
  ultimately have "signed_take_bit 63 (uint c) = uint c" by (rule signed_take_bit_int_eq_self [rotated])
  then show ?thesis by (simp add: sint_uint)
qed

lemma sint_diff64:
  assumes "0 \<le> sint c" "sint c \<le> sint (b :: 64 word)"
  shows "sint (b - c) = sint b - sint c"
proof -
  have "sint b < 2 ^ 63" using sint_lt [of b] by simp
  with assms show ?thesis by (simp add: sint_word_ariths signed_take_bit_int_eq_self)
qed

lemma append_evaluation_Inr:
  "append_evaluation e rest = Inr (es, rem) \<longleftrightarrow> (\<exists>es'. rest = Inr (es', rem) \<and> es = e # es')"
  by (auto simp: append_evaluation_def bind_sum_Inr)

lemma within_budget:
  assumes "0 \<le> sint (b :: 64 word)"
  shows "unat (c :: 64 word) > MaxInt64 \<or> sint c > sint b \<longleftrightarrow> sint b < int (unat c)"
proof -
  have b: "sint b \<le> int MaxInt64" using sint_lt [of b] by (simp add: MaxInt64_def)
  show ?thesis
  proof (cases "unat c > MaxInt64")
    case True
    then have "int MaxInt64 < int (unat c)" unfolding of_nat_less_iff .
    with b True show ?thesis by linarith
  next
    case False
    then show ?thesis by (simp add: sint_unat64)
  qed
qed

lemma evaluations_Cons:
  assumes "0 \<le> sint b"
  shows "evaluations va (r # rs) b = Inr (es, rem) \<longleftrightarrow>
    (\<exists>c es'. cost_of va r = Some c \<and> int c \<le> sint b \<and> evaluations va rs (b - of_nat c) = Inr (es', rem) \<and>
       es = evaluation_of va r # es')"
proof (cases "runnable r")
  case None
  with assms show ?thesis by (simp add: cost_of_def append_evaluation_Inr)
next
  case (Some program)
  then show ?thesis
    by (simp add: cost_of_def within_budget [OF assms] append_evaluation_Inr not_less split: option.split)
qed

declare evaluations.simps(2) [simp del]

lemma costs_simps [simp]: "costs va [] = 0"
  "costs va (r # rs) = (case cost_of va r of Some c \<Rightarrow> c | None \<Rightarrow> 0) + costs va rs"
  by (simp_all add: costs_def)

lemma sint_diff_of_nat64:
  assumes "0 \<le> sint (b :: 64 word)" "int c \<le> sint b"
  shows "sint (b - of_nat c) = sint b - int c"
proof -
  have "int c < 2 ^ 63" using assms(2) sint_lt [of b] by simp
  moreover have "- (2 ^ 63) \<le> int c" by simp
  ultimately have "signed_take_bit 63 (int c) = int c" by (rule signed_take_bit_int_eq_self [rotated])
  then have "sint (word_of_int (int c) :: 64 word) = int c" by (simp only: sint_sbintrunc') simp
  then have "sint (of_nat c :: 64 word) = int c" by simp
  with sint_diff64 [of "of_nat c" b] assms show ?thesis by simp
qed

text \<open>The evaluation goes through exactly within the budget, and the budget that remains is exact.\<close>

lemma evaluations_iff:
  assumes "0 \<le> sint b"
  shows "evaluations va rs b = Inr (es, rem) \<longleftrightarrow>
    (\<forall>r \<in> set rs. cost_of va r \<noteq> None) \<and> int (costs va rs) \<le> sint b \<and>
    es = map (evaluation_of va) rs \<and> rem = b - of_nat (costs va rs)"
  using assms
proof (induction rs arbitrary: b es)
  case (Cons r rs)
  show ?case
  proof (cases "cost_of va r")
    case None
    then show ?thesis by (simp add: evaluations_Cons [OF Cons.prems])
  next
    case (Some c)
    show ?thesis
    proof (cases "int c \<le> sint b")
      case True
      have "sint (b - of_nat c) = sint b - int c" by (rule sint_diff_of_nat64 [OF Cons.prems True])
      with Cons.IH [of "b - of_nat c"] Some True show ?thesis
        by (auto simp: evaluations_Cons [OF Cons.prems])
    next
      case False
      with Some show ?thesis by (simp add: evaluations_Cons [OF Cons.prems])
    qed
  qed
qed auto

text \<open>
  C16. The cost budget of a filter. With a budget that is not negative, a filter returns the
  results of all its expressions or an error: it succeeds exactly when the runtime reports every cost and the
  sum of the costs is at most the budget. Then every expression has its result, in order, and what
  is left is the budget less the costs, with no wrap-around of the machine integers.
\<close>

theorem filter_budget:
  assumes "0 \<le> sint budget" and "activation fe va request params authorizer = Inr act"
  shows "(ForInput fe f va request params authorizer budget = Inr (es, remaining) \<longleftrightarrow>
      (\<forall>r \<in> set f. cost_of act r \<noteq> None) \<and> int (costs act f) \<le> sint budget \<and>
      es = map (evaluation_of act) f \<and> remaining = budget - of_nat (costs act f)) \<and>
    (ForInput fe f va request params authorizer budget = Inr (es, remaining) \<longrightarrow>
      sint remaining = sint budget - int (costs act f) \<and> 0 \<le> sint remaining)"
proof -
  have iff: "ForInput fe f va request params authorizer budget = Inr (es, remaining) \<longleftrightarrow>
      evaluations act f budget = Inr (es, remaining)"
    by (simp add: ForInput_def assms split: sum.split)
  show ?thesis
    unfolding iff evaluations_iff [OF assms(1)] using sint_diff_of_nat64 [OF assms(1)] by auto
qed

text \<open>Two expressions of cost 3 and 4, with a budget of 10 and of 6.\<close>

definition example_expression :: "string \<Rightarrow> 64 word \<Rightarrow> 'act CompilationResult" where
  "example_expression e c = \<lparr>cr_Program = Some (\<lambda>act. (Some (CelBool True), Some (Some c), None)), cr_Error = None,
     cr_ExpressionAccessor = Some (ValidationCondition e '''' None)\<rparr>"

definition example_filter_env :: "(labels, nat, nat) filter_env" where
  "example_filter_env = \<lparr>fe_ToUnstructured = (\<lambda>ls. Inr 1), fe_RequestToUnstructured = (\<lambda>r. Inr 2),
     fe_NewAuthorizerVal = (\<lambda>u. 3), fe_NewResourceAuthorizerVal = (\<lambda>u a. 4)\<rparr>"

definition example_versioned :: "labels VersionedAttributes" where
  "example_versioned = \<lparr>va_Attributes = example_pod_request ''v1'', va_VersionedOldObject = None,
     va_VersionedObject = Some Map.empty, va_VersionedKind = emptyGVK, va_Dirty = False\<rparr>"

definition example_activation :: "(nat, nat) evaluationActivation" where
  "example_activation = \<lparr>ea_object = Some 1, ea_oldObject = None, ea_params = None, ea_request = 2,
     ea_authorizer = None, ea_requestResourceAuthorizer = None\<rparr>"

lemma example_activation_eq:
  "activation example_filter_env example_versioned (CreateAdmissionRequest (va_Attributes example_versioned)) None False =
     Inr example_activation"
  by (simp add: activation_def example_filter_env_def example_versioned_def example_activation_def)

theorem filter_budget_witness:
  "(\<exists>es. ForInput example_filter_env [example_expression ''a'' 3, example_expression ''b'' 4] example_versioned
      (CreateAdmissionRequest (va_Attributes example_versioned)) None False 10 = Inr (es, 3)) \<and>
   (\<nexists>es rem. ForInput example_filter_env [example_expression ''a'' 3, example_expression ''b'' 4] example_versioned
      (CreateAdmissionRequest (va_Attributes example_versioned)) None False 6 = Inr (es, rem))"
proof -
  have cost: "cost_of act (example_expression e c) = Some (unat c)" for act :: "(nat, nat) evaluationActivation" and e c
    by (simp add: cost_of_def runnable_def example_expression_def)
  show ?thesis
    using filter_budget [of 10, OF _ example_activation_eq, of "[example_expression ''a'' 3, example_expression ''b'' 4]"]
      filter_budget [of 6, OF _ example_activation_eq, of "[example_expression ''a'' 3, example_expression ''b'' 4]"]
    by (simp add: cost)
qed

end
