(* ===== verification/PolicyValidator.thy ===== *)
theory PolicyValidator
  imports CelFilter
begin

text \<open>
  The decisions of one policy about one request, from the vendored
  \<^verbatim>\<open>webhook/matchconditions/matcher.go\<close> and \<^verbatim>\<open>validatingadmissionpolicy/validator.go\<close> of
  \<^verbatim>\<open>k8s.io/apiserver/pkg/admission/plugin\<close>: the match conditions of the policy, its validations
  with their messages, and its audit annotations. The lemmas say exactly when all decisions
  admit the request.
\<close>

section \<open>White space\<close>

text \<open>The UTF-8 forms of the characters for which \<^verbatim>\<open>unicode.IsSpace\<close> holds.\<close>

definition unicode_spaces :: "string list" where
  "unicode_spaces =
     map (\<lambda>n. [char_of n]) [9, 10, 11, 12, 13, 32 :: nat] @
     map (map char_of) [[0xC2, 0x85], [0xC2, 0xA0], [0xE1, 0x9A, 0x80], [0xE2, 0x80, 0xA8], [0xE2, 0x80, 0xA9],
       [0xE2, 0x80, 0xAF], [0xE2, 0x81, 0x9F], [0xE3, 0x80, 0x80 :: nat]] @
     map (\<lambda>n. map char_of [0xE2, 0x80, 0x80 + n]) [0..<11]"

function trim_prefixes :: "string list \<Rightarrow> string \<Rightarrow> string" where
  "trim_prefixes ps s =
     (case find (\<lambda>p. p \<noteq> [] \<and> has_prefix s p) ps of
        None \<Rightarrow> s
      | Some p \<Rightarrow> trim_prefixes ps (drop (length p) s))"
  by pat_completeness auto
termination
proof (relation "measure (\<lambda>(ps, s). length s)")
  fix ps s p
  assume "find (\<lambda>p. p \<noteq> [] \<and> has_prefix s p) ps = Some p"
  then have "p \<noteq> []" "has_prefix s p" by (auto simp: find_Some_iff)
  then show "((ps, drop (length p) s), (ps, s)) \<in> measure (\<lambda>(ps, s). length s)"
    by (auto simp: has_prefix_iff)
qed simp

declare trim_prefixes.simps [simp del]

definition TrimSpace :: "string \<Rightarrow> string" where
  "TrimSpace s = rev (trim_prefixes (map rev unicode_spaces) (rev (trim_prefixes unicode_spaces s)))"

section \<open>Match conditions\<close>

record ('u, 'z) matcher =
  mt_filter :: "('u, 'z) celFilter"
  mt_authorizer :: bool
  mt_failPolicy :: string
  mt_matcherType :: string
  mt_objectName :: string

text \<open>Only the text of the error is read.\<close>

record MatchResult =
  ma_Matches :: bool
  ma_Error :: "string option"
  ma_FailedConditionName :: string

definition NewMatcher :: "('u, 'z) celFilter \<Rightarrow> bool \<Rightarrow> string option \<Rightarrow> string \<Rightarrow> string \<Rightarrow> ('u, 'z) matcher" where
  "NewMatcher f authorizer failPolicy matcherType objectName =
     \<lparr>mt_filter = f, mt_authorizer = authorizer,
      mt_failPolicy = (case failPolicy of None \<Rightarrow> ''Fail'' | Some p \<Rightarrow> p),
      mt_matcherType = matcherType, mt_objectName = objectName\<rparr>"

text \<open>The loop over the results: the name of a condition that is false, or the errors.\<close>

fun matchLoop :: "EvaluationResult list \<Rightarrow> string list \<Rightarrow> string + string list" where
  "matchLoop [] errorList = Inr errorList"
| "matchLoop (e # es) errorList =
     (case er_ExpressionAccessor e of
        Some (MatchConditionAccessor matchCondition) \<Rightarrow>
          let errorList = errorList @ (case er_Error e of Some err \<Rightarrow> [ce_Detail err] | None \<Rightarrow> []) in
          if er_EvalResult e = Some (CelBool False) then Inl (mc_Name matchCondition)
          else matchLoop es errorList
      | _ \<Rightarrow> matchLoop es (errorList @ [''internal error converting ExpressionAccessor to MatchCondition'']))"

definition matcher_Match ::
  "('obj, 'u, 'z) filter_env \<Rightarrow> ('u, 'z) matcher \<Rightarrow> 'obj VersionedAttributes \<Rightarrow> 'obj option \<Rightarrow> MatchResult" where
  "matcher_Match fe m va versionedParams =
     (let afterLoop = (\<lambda>evalResults.
        (case matchLoop evalResults [] of
           Inl name \<Rightarrow> \<lparr>ma_Matches = False, ma_Error = None, ma_FailedConditionName = name\<rparr>
         | Inr errorList \<Rightarrow>
             if errorList \<noteq> [] \<and> mt_failPolicy m = ''Fail'' then
               \<lparr>ma_Matches = False, ma_Error = Some (fmt_aggregate errorList), ma_FailedConditionName = ''''\<rparr>
             else if errorList \<noteq> [] \<and> mt_failPolicy m = ''Ignore'' then
               \<lparr>ma_Matches = False, ma_Error = None, ma_FailedConditionName = ''''\<rparr>
             else \<lparr>ma_Matches = True, ma_Error = None, ma_FailedConditionName = ''''\<rparr>))
      in case ForInput fe (mt_filter m) va (CreateAdmissionRequest (va_Attributes va)) versionedParams
            (mt_authorizer m) RuntimeCELCostBudgetMatchConditions of
        Inl err \<Rightarrow>
          if mt_failPolicy m = ''Fail'' then \<lparr>ma_Matches = False, ma_Error = Some (filter_Error err), ma_FailedConditionName = ''''\<rparr>
          else if mt_failPolicy m = ''Ignore'' then \<lparr>ma_Matches = False, ma_Error = None, ma_FailedConditionName = ''''\<rparr>
          else afterLoop []
      | Inr (evalResults, remaining) \<Rightarrow> afterLoop evalResults)"

section \<open>The validator\<close>

record PolicyDecision =
  pd_Action :: string
  pd_Evaluation :: string
  pd_Message :: string
  pd_Reason :: string

record PolicyAuditAnnotation =
  pa_Key :: string
  pa_Value :: string
  pa_Action :: string
  pa_Error :: string

record ValidateResult =
  vr_Decisions :: "PolicyDecision list"
  vr_AuditAnnotations :: "PolicyAuditAnnotation list"

definition ActionAdmit :: string where "ActionAdmit = ''admit''"
definition ActionDeny :: string where "ActionDeny = ''deny''"
definition EvalAdmit :: string where "EvalAdmit = ''admit''"
definition EvalError :: string where "EvalError = ''error''"
definition AuditAnnotationActionPublish :: string where "AuditAnnotationActionPublish = ''publish''"
definition AuditAnnotationActionError :: string where "AuditAnnotationActionError = ''error''"
definition AuditAnnotationActionExclude :: string where "AuditAnnotationActionExclude = ''exclude''"

record ('u, 'z) validator =
  v_celMatcher :: "('u, 'z) matcher option"
  v_validationFilter :: "('u, 'z) celFilter"
  v_auditAnnotationFilter :: "('u, 'z) celFilter"
  v_messageFilter :: "('u, 'z) celFilter"
  v_failPolicy :: "string option"
  v_authorizer :: bool

definition policyDecisionActionForError :: "string \<Rightarrow> string" where
  "policyDecisionActionForError f = (if f = ''Ignore'' then ActionAdmit else ActionDeny)"

definition auditAnnotationEvaluationForError :: "string \<Rightarrow> string" where
  "auditAnnotationEvaluationForError f = (if f = ''Ignore'' then AuditAnnotationActionExclude else AuditAnnotationActionError)"

definition error_decision :: "string \<Rightarrow> string \<Rightarrow> PolicyDecision" where
  "error_decision f message =
     \<lparr>pd_Action = policyDecisionActionForError f, pd_Evaluation = EvalError, pd_Message = message, pd_Reason = ''''\<rparr>"

text \<open>The message of a failed validation.\<close>

definition failure_message :: "EvaluationResult option \<Rightarrow> string \<Rightarrow> string \<Rightarrow> string" where
  "failure_message messageResult Message Expression =
     (let message =
        (case messageResult of
           None \<Rightarrow> ''''
         | Some r \<Rightarrow>
             if er_Error r \<noteq> None then ''''
             else case er_EvalResult r of
               Some (CelString s) \<Rightarrow>
                 let message = TrimSpace s;
                     message = (if length message > MaxEvaluatedMessageExpressionSizeBytes then '''' else message)
                 in if CHR 0x0A \<in> set message then '''' else message
             | _ \<Rightarrow> '''');
        message = (if message = '''' \<and> length Message > 0 then TrimSpace Message else message)
      in if message = '''' then ''failed expression: '' @ TrimSpace Expression else message)"

text \<open>Whether the error of the message filter makes every decision an error.\<close>

definition message_error_counts :: "filter_error option \<Rightarrow> bool" where
  "message_error_counts err =
     (case err of
        Some (CelError e) \<Rightarrow> ce_Type e = ErrorTypeInternal \<or>
          ce_Type e = ErrorTypeInvalid \<and> has_prefix (ce_Detail e) ''validation failed due to running out of cost budget''
      | _ \<Rightarrow> False)"

definition decide ::
  "string \<Rightarrow> filter_error option \<Rightarrow> EvaluationResult option \<Rightarrow> EvaluationResult \<Rightarrow> PolicyDecision" where
  "decide f messageErr messageResult evalResult =
     (case er_ExpressionAccessor evalResult of
        Some (ValidationCondition Expression Message Reason) \<Rightarrow>
          (case er_Error evalResult of
             Some e \<Rightarrow> error_decision f (ce_Detail e)
           | None \<Rightarrow>
               if message_error_counts messageErr then
                 error_decision f (''failed messageExpression: '' @ (case messageErr of Some e \<Rightarrow> filter_Error e | None \<Rightarrow> ''''))
               else if er_EvalResult evalResult \<noteq> Some (CelBool True) then
                 \<lparr>pd_Action = ActionDeny, pd_Evaluation = '''', pd_Message = failure_message messageResult Message Expression,
                  pd_Reason = (case Reason of None \<Rightarrow> StatusReasonInvalid | Some r \<Rightarrow> r)\<rparr>
               else \<lparr>pd_Action = ActionAdmit, pd_Evaluation = EvalAdmit, pd_Message = '''', pd_Reason = ''''\<rparr>)
      | _ \<Rightarrow> error_decision f ''Invalid type sent to validator, expected ValidationCondition'')"

fun accessor_type :: "ExpressionAccessor \<Rightarrow> string" where
  "accessor_type (ValidationCondition e m r) = ''*validatingadmissionpolicy.ValidationCondition''"
| "accessor_type (MessageExpressionCondition e) = ''*validatingadmissionpolicy.MessageExpressionCondition''"
| "accessor_type (AuditAnnotationCondition k e) = ''*validatingadmissionpolicy.AuditAnnotationCondition''"
| "accessor_type (MatchConditionAccessor m) = ''*matchconditions.MatchCondition''"

definition audit_annotation :: "string \<Rightarrow> EvaluationResult \<Rightarrow> PolicyAuditAnnotation result" where
  "audit_annotation f evalResult =
     (let zero = \<lparr>pa_Key = '''', pa_Value = '''', pa_Action = '''', pa_Error = ''''\<rparr> in
      case er_ExpressionAccessor evalResult of
        None \<Rightarrow> Ret zero
      | Some (AuditAnnotationCondition Key ValueExpression) \<Rightarrow>
          let r = zero\<lparr>pa_Key := Key\<rparr> in
          (case er_Error evalResult of
             Some e \<Rightarrow> Ret (r\<lparr>pa_Action := auditAnnotationEvaluationForError f, pa_Error := ce_Detail e\<rparr>)
           | None \<Rightarrow>
             (case er_EvalResult evalResult of
                None \<Rightarrow> Panic ''invalid memory address or nil pointer dereference''
              | Some (CelString s) \<Rightarrow>
                  let v = TrimSpace s in
                  Ret (if length v = 0 then r\<lparr>pa_Action := AuditAnnotationActionExclude\<rparr>
                       else r\<lparr>pa_Action := AuditAnnotationActionPublish, pa_Value := v\<rparr>)
              | Some CelNull \<Rightarrow> Ret (r\<lparr>pa_Action := AuditAnnotationActionExclude\<rparr>)
              | Some v \<Rightarrow> Ret (r\<lparr>pa_Action := AuditAnnotationActionError,
                  pa_Error := ''valueExpression '' @ [CHR 0x27] @ ValueExpression @ [CHR 0x27] @ '' resulted in unsupported return type: '' @
                    celval_Type v @ ''. Return type must be either string or null.''\<rparr>)))
      | Some acc \<Rightarrow> Ret (zero\<lparr>pa_Action := auditAnnotationEvaluationForError f,
          pa_Error := ''Invalid type sent to validator, expected AuditAnnotationCondition but got '' @ accessor_type acc\<rparr>))"

fun outcomes :: "('a \<Rightarrow> ('e, 'b) outcome) \<Rightarrow> 'a list \<Rightarrow> ('e, 'b list) outcome" where
  "outcomes g [] = Ret []"
| "outcomes g (x # xs) = bind_outcome (g x) (\<lambda>y. bind_outcome (outcomes g xs) (\<lambda>ys. Ret (y # ys)))"

definition decisions ::
  "string \<Rightarrow> filter_error + EvaluationResult list \<times> 64 word \<Rightarrow> EvaluationResult list \<Rightarrow> PolicyDecision list" where
  "decisions f messageResults evalResults =
     (let (results, err) = (case messageResults of Inl err \<Rightarrow> ([], Some err) | Inr (rs, remaining) \<Rightarrow> (rs, None)) in
      map (\<lambda>i. decide f err (if i < length results then Some (results ! i) else None) (evalResults ! i)) [0..<length evalResults])"

definition single_decision :: "PolicyDecision \<Rightarrow> ValidateResult" where
  "single_decision d = \<lparr>vr_Decisions = [d], vr_AuditAnnotations = []\<rparr>"

definition evaluate_policy ::
  "('obj, 'u, 'z) filter_env \<Rightarrow> ('u, 'z) validator \<Rightarrow> string \<Rightarrow> 'obj VersionedAttributes \<Rightarrow> 'obj option \<Rightarrow> 64 word \<Rightarrow>
   ValidateResult result" where
  "evaluate_policy fe v f va versionedParams runtimeCELCostBudget =
     (let admissionRequest = CreateAdmissionRequest (va_Attributes va) in
      case ForInput fe (v_validationFilter v) va admissionRequest versionedParams (v_authorizer v) runtimeCELCostBudget of
        Inl err \<Rightarrow> Ret (single_decision (error_decision f (filter_Error err)))
      | Inr (evalResults, remainingBudget) \<Rightarrow>
          let messageResults = ForInput fe (v_messageFilter v) va admissionRequest versionedParams False remainingBudget;
              ds = decisions f messageResults evalResults
          in (case ForInput fe (v_auditAnnotationFilter v) va (CreateAdmissionRequest (va_Attributes va)) versionedParams False runtimeCELCostBudget of
                Inl err \<Rightarrow> Ret (single_decision (error_decision f (filter_Error err)))
              | Inr (auditAnnotationEvalResults, remaining) \<Rightarrow>
                  bind_outcome (outcomes (audit_annotation f) auditAnnotationEvalResults) (\<lambda>as.
                    Ret \<lparr>vr_Decisions = ds, vr_AuditAnnotations = as\<rparr>)))"

definition failPolicy_of :: "('u, 'z) validator \<Rightarrow> string" where
  "failPolicy_of v = (case v_failPolicy v of None \<Rightarrow> ''Fail'' | Some f \<Rightarrow> f)"

definition validator_Validate ::
  "('obj, 'u, 'z) filter_env \<Rightarrow> ('u, 'z) validator \<Rightarrow> 'obj VersionedAttributes \<Rightarrow> 'obj option \<Rightarrow> 64 word \<Rightarrow>
   ValidateResult result" where
  "validator_Validate fe v va versionedParams runtimeCELCostBudget =
     (let f = failPolicy_of v in
      case v_celMatcher v of
        None \<Rightarrow> evaluate_policy fe v f va versionedParams runtimeCELCostBudget
      | Some m \<Rightarrow>
          let matchResults = matcher_Match fe m va versionedParams in
          (case ma_Error matchResults of
             Some err \<Rightarrow> Ret (single_decision (error_decision f err))
           | None \<Rightarrow>
               if \<not> ma_Matches matchResults then Ret \<lparr>vr_Decisions = [], vr_AuditAnnotations = []\<rparr>
               else evaluate_policy fe v f va versionedParams runtimeCELCostBudget))"

section \<open>Lemmas\<close>

text \<open>An expression ran and evaluated to a value, without an error.\<close>

definition evaluates_to :: "'act \<Rightarrow> 'act CompilationResult \<Rightarrow> celval \<Rightarrow> bool" where
  "evaluates_to act r v =
     (case runnable r of
        None \<Rightarrow> False
      | Some program \<Rightarrow> (case program act of (result, details, err) \<Rightarrow> result = Some v \<and> err = None))"

lemma evaluation_evaluates_to:
  "er_EvalResult (evaluation_of act r) = Some v \<Longrightarrow> evaluates_to act r v"
  by (auto simp: evaluation_of_def evaluates_to_def runnable_def zero_EvaluationResult_def Let_def
    split: option.splits prod.splits)

lemma evaluation_accessor [simp]: "er_ExpressionAccessor (evaluation_of act r) = cr_ExpressionAccessor r"
  by (auto simp: evaluation_of_def zero_EvaluationResult_def Let_def split: option.split prod.split)

lemma ForInput_Inr:
  assumes "ForInput fe f va request params authorizer budget = Inr (es, remaining)" and "0 \<le> sint budget"
  obtains act where "activation fe va request params authorizer = Inr act" "es = map (evaluation_of act) f"
    "int (costs act f) \<le> sint budget" "sint remaining = sint budget - int (costs act f)"
proof -
  obtain act where act: "activation fe va request params authorizer = Inr act"
    and ev: "evaluations act f budget = Inr (es, remaining)"
    using assms(1) by (auto simp: ForInput_def split: sum.splits)
  show ?thesis
    using that [OF act] ev sint_diff_of_nat64 [OF assms(2)] by (simp add: evaluations_iff [OF assms(2)])
qed

text \<open>A decision does not deny only for a true validation, or an error that is to be ignored.\<close>

lemma decide_denies_iff:
  assumes "f \<noteq> ''Ignore''"
  shows "pd_Action (decide f me mr e) = ActionDeny \<longleftrightarrow>
    \<not> (er_EvalResult e = Some (CelBool True) \<and> er_Error e = None \<and> \<not> message_error_counts me \<and>
       (\<exists>x m r. er_ExpressionAccessor e = Some (ValidationCondition x m r)))"
  using assms
  by (auto simp: decide_def error_decision_def policyDecisionActionForError_def ActionDeny_def ActionAdmit_def
    split: option.split ExpressionAccessor.split)

lemma matchLoop_Inl:
  "matchLoop es errs = Inl name \<Longrightarrow> \<exists>e \<in> set es. er_EvalResult e = Some (CelBool False)"
  by (induction es errs rule: matchLoop.induct)
    (auto simp: Let_def split: option.splits ExpressionAccessor.splits if_splits)

text \<open>With the failure policy "Fail", a matcher skips a policy only for a condition that is false.\<close>

lemma matcher_skips:
  assumes "mt_failPolicy m = ''Fail''" "ma_Error (matcher_Match fe m va params) = None"
    "\<not> ma_Matches (matcher_Match fe m va params)"
  shows "\<exists>act r. activation fe va (CreateAdmissionRequest (va_Attributes va)) params (mt_authorizer m) = Inr act \<and>
    r \<in> set (mt_filter m) \<and> evaluates_to act r (CelBool False)"
proof -
  obtain es rem where es: "ForInput fe (mt_filter m) va (CreateAdmissionRequest (va_Attributes va)) params
      (mt_authorizer m) RuntimeCELCostBudgetMatchConditions = Inr (es, rem)"
    and "\<exists>name. matchLoop es [] = Inl name"
    using assms by (auto simp: matcher_Match_def Let_def split: sum.splits if_splits)
  then obtain e where e: "e \<in> set es" "er_EvalResult e = Some (CelBool False)" by (blast dest: matchLoop_Inl)
  have "0 \<le> sint RuntimeCELCostBudgetMatchConditions" by (simp add: RuntimeCELCostBudgetMatchConditions_def)
  from ForInput_Inr [OF es this] obtain act where
    "activation fe va (CreateAdmissionRequest (va_Attributes va)) params (mt_authorizer m) = Inr act"
    "es = map (evaluation_of act) (mt_filter m)" .
  with e show ?thesis by (auto dest!: evaluation_evaluates_to)
qed

lemma decisions_set:
  "set (decisions f mres es) = (\<lambda>i. decide f (case mres of Inl err \<Rightarrow> Some err | Inr r \<Rightarrow> None)
     (case mres of Inl err \<Rightarrow> None | Inr (rs, rem) \<Rightarrow> if i < length rs then Some (rs ! i) else None) (es ! i)) ` {..<length es}"
  by (auto simp: decisions_def split: sum.split)

definition no_denial :: "ValidateResult \<Rightarrow> bool" where
  "no_denial r \<longleftrightarrow> (\<forall>d \<in> set (vr_Decisions r). pd_Action d \<noteq> ActionDeny)"

lemma error_decision_denies: "f \<noteq> ''Ignore'' \<Longrightarrow> \<not> no_denial (single_decision (error_decision f m))"
  by (simp add: no_denial_def single_decision_def error_decision_def policyDecisionActionForError_def)

lemma evaluate_policy_admits:
  assumes "f \<noteq> ''Ignore''" "0 \<le> sint budget"
    and "evaluate_policy fe v f va params budget = Ret r" "no_denial r"
  shows "\<exists>act. activation fe va (CreateAdmissionRequest (va_Attributes va)) params (v_authorizer v) = Inr act \<and>
    int (costs act (v_validationFilter v)) \<le> sint budget \<and>
    (\<forall>e \<in> set (v_validationFilter v). evaluates_to act e (CelBool True))"
proof -
  obtain es rem where es: "ForInput fe (v_validationFilter v) va (CreateAdmissionRequest (va_Attributes va)) params
      (v_authorizer v) budget = Inr (es, rem)"
    and ds: "vr_Decisions r =
      decisions f (ForInput fe (v_messageFilter v) va (CreateAdmissionRequest (va_Attributes va)) params False rem) es"
    using assms(3,4) error_decision_denies [OF assms(1)]
    by (auto simp: evaluate_policy_def Let_def bind_outcome_Ret split: sum.splits)
  from ForInput_Inr [OF es assms(2)] obtain act where
    act: "activation fe va (CreateAdmissionRequest (va_Attributes va)) params (v_authorizer v) = Inr act"
    and es_eq: "es = map (evaluation_of act) (v_validationFilter v)"
    and "int (costs act (v_validationFilter v)) \<le> sint budget" .
  moreover have "er_EvalResult e = Some (CelBool True)" if e: "e \<in> set es" for e
  proof -
    obtain i where "i < length es" "e = es ! i" using e by (auto simp: in_set_conv_nth)
    with ds assms(4) obtain me mr where "pd_Action (decide f me mr e) \<noteq> ActionDeny"
      by (auto simp: no_denial_def decisions_set)
    then show ?thesis using decide_denies_iff [OF assms(1)] by blast
  qed
  ultimately show ?thesis by (auto dest!: evaluation_evaluates_to)
qed

lemma validator_admits:
  assumes "failPolicy_of v = ''Fail''" and "0 \<le> sint budget"
    and "\<And>m. v_celMatcher v = Some m \<Longrightarrow> mt_failPolicy m = ''Fail'' \<and> mt_authorizer m = v_authorizer v"
    and "validator_Validate fe v va params budget = Ret r" "no_denial r"
  shows "\<exists>act. activation fe va (CreateAdmissionRequest (va_Attributes va)) params (v_authorizer v) = Inr act \<and>
    ((\<exists>m. v_celMatcher v = Some m \<and> (\<exists>c \<in> set (mt_filter m). evaluates_to act c (CelBool False))) \<or>
     int (costs act (v_validationFilter v)) \<le> sint budget \<and>
       (\<forall>e \<in> set (v_validationFilter v). evaluates_to act e (CelBool True)))"
proof -
  have f: "failPolicy_of v \<noteq> ''Ignore''" using assms(1) by simp
  consider m where "v_celMatcher v = Some m" "ma_Error (matcher_Match fe m va params) = None"
      "\<not> ma_Matches (matcher_Match fe m va params)"
    | "evaluate_policy fe v (failPolicy_of v) va params budget = Ret r"
    using assms(4,5) error_decision_denies [OF f]
    by (auto simp: validator_Validate_def Let_def split: option.splits if_splits)
  then show ?thesis
  proof cases
    case 1
    with assms(3) matcher_skips [of m fe va params] show ?thesis by auto
  next
    case 2
    from evaluate_policy_admits [OF f assms(2) this assms(5)] show ?thesis by blast
  qed
qed

text \<open>
  C8. One policy decides soundly. If a policy whose errors count as failures has decided and denies
  nothing, then either one of its match conditions is false of the request, or every one of its
  validations ran to its end within the cost budget and evaluated to true.
\<close>

theorem policy_decides_soundly:
  assumes "failPolicy_of v = ''Fail''" and "0 \<le> sint budget"
    and "\<And>m. v_celMatcher v = Some m \<Longrightarrow> mt_failPolicy m = ''Fail'' \<and> mt_authorizer m = v_authorizer v"
    and "validator_Validate fe v va params budget = Ret r" "no_denial r"
  shows "\<exists>act. activation fe va (CreateAdmissionRequest (va_Attributes va)) params (v_authorizer v) = Inr act \<and>
    ((\<exists>m. v_celMatcher v = Some m \<and> (\<exists>c \<in> set (mt_filter m). evaluates_to act c (CelBool False))) \<or>
     int (costs act (v_validationFilter v)) \<le> sint budget \<and>
       (\<forall>e \<in> set (v_validationFilter v). evaluates_to act e (CelBool True)))"
  by (rule validator_admits [OF assms])

text \<open>Once the error of the messages counts, the decision is an error, whatever the validation evaluated to.\<close>

lemma decide_error: "message_error_counts me \<Longrightarrow> \<exists>m. decide f me mr e = error_decision f m"
  unfolding decide_def by (auto split: option.split ExpressionAccessor.split)

lemma error_action: "pd_Action (error_decision f m) = ActionDeny \<longleftrightarrow> f \<noteq> ''Ignore''"
  by (simp add: error_decision_def policyDecisionActionForError_def ActionDeny_def ActionAdmit_def)

lemma error_decisions:
  assumes "message_error_counts (Some err)" "es \<noteq> []"
  shows "no_denial \<lparr>vr_Decisions = decisions f (Inl err) es, vr_AuditAnnotations = as\<rparr> \<longleftrightarrow> f = ''Ignore''"
proof -
  have "pd_Action d = ActionDeny \<longleftrightarrow> f \<noteq> ''Ignore''" if d: "d \<in> set (decisions f (Inl err) es)" for d
  proof -
    obtain i where "d = decide f (Some err) None (es ! i)" using d by (auto simp: decisions_set)
    with decide_error [OF assms(1), of f None "es ! i"] show ?thesis by (metis error_action)
  qed
  moreover have "decisions f (Inl err) es \<noteq> []" using assms(2) by (simp add: decisions_def)
  then obtain d where "d \<in> set (decisions f (Inl err) es)" by (metis list.set_intros(1) neq_Nil_conv)
  ultimately show ?thesis by (auto simp: no_denial_def)
qed

text \<open>
  C40. Messages decide in place of validations. All message expressions are evaluated for every request,
  with the budget the validations left, and running out of it is an error of every validation of
  the policy. So when the match conditions of a policy with at least one validation hold and its validations ran, the
  exhaustion of that budget alone decides: the request is denied if the failure policy is not "Ignore", also
  when all validations are true, and nothing is denied if it is "Ignore", also when validations are false.
  The documentation says that a failing message expression is only logged.
\<close>

theorem message_budget_decides:
  assumes "case v_celMatcher v of None \<Rightarrow> True
      | Some m \<Rightarrow> ma_Error (matcher_Match fe m va params) = None \<and> ma_Matches (matcher_Match fe m va params)"
    and "ForInput fe (v_validationFilter v) va (CreateAdmissionRequest (va_Attributes va)) params (v_authorizer v) budget = Inr (es, rem)"
    and "ForInput fe (v_messageFilter v) va (CreateAdmissionRequest (va_Attributes va)) params False rem = Inl (CelError out_of_budget)"
    and "v_validationFilter v \<noteq> []" "0 \<le> sint budget" "validator_Validate fe v va params budget = Ret r"
  shows "no_denial r \<longleftrightarrow> failPolicy_of v = ''Ignore''"
proof -
  let ?f = "failPolicy_of v"
  obtain act where "es = map (evaluation_of act) (v_validationFilter v)"
    by (rule ForInput_Inr [OF assms(2,5)])
  with assms(4) have es: "es \<noteq> []" by simp
  have counts: "message_error_counts (Some (CelError out_of_budget))"
    by (simp add: message_error_counts_def out_of_budget_def)
  have "evaluate_policy fe v ?f va params budget = Ret r"
    using assms(1,6) by (auto simp: validator_Validate_def Let_def split: option.splits)
  then consider as where "r = \<lparr>vr_Decisions = decisions ?f (Inl (CelError out_of_budget)) es, vr_AuditAnnotations = as\<rparr>"
    | m where "r = single_decision (error_decision ?f m)"
    by (auto simp: evaluate_policy_def assms(2,3) Let_def bind_outcome_Ret split: sum.splits)
  then show ?thesis
  proof cases
    case 1
    then show ?thesis using error_decisions [OF counts es] by simp
  next
    case 2
    then show ?thesis using error_action [of ?f m] by (auto simp: no_denial_def single_decision_def)
  qed
qed

text \<open>A policy with one validation, which is true at a cost of 3, and a message expression.\<close>

definition example_validator :: "64 word \<Rightarrow> (nat, nat) validator" where
  "example_validator c =
     \<lparr>v_celMatcher = None, v_validationFilter = [example_expression ''e'' 3], v_auditAnnotationFilter = [],
      v_messageFilter = [\<lparr>cr_Program = Some (\<lambda>act. (Some (CelString ''m''), Some (Some c), None)), cr_Error = None,
        cr_ExpressionAccessor = Some (MessageExpressionCondition ''m'')\<rparr>],
      v_failPolicy = Some ''Fail'', v_authorizer = False\<rparr>"

lemmas example_validator_simps = example_validator_def validator_Validate_def evaluate_policy_def ForInput_def
  example_activation_eq evaluations.simps runnable_def evaluation_of_def zero_EvaluationResult_def
  example_expression_def append_evaluation_def MaxInt64_def out_of_budget_def failPolicy_of_def
  decisions_def decide_def message_error_counts_def error_decision_def policyDecisionActionForError_def

theorem policy_decides_soundly_witness:
  "\<exists>r. validator_Validate example_filter_env (example_validator 2) example_versioned None 10 = Ret r \<and> no_denial r \<and>
    (\<exists>act. \<forall>e \<in> set (v_validationFilter (example_validator 2)). evaluates_to act e (CelBool True))"
proof -
  let ?r = "\<lparr>vr_Decisions = [\<lparr>pd_Action = ActionAdmit, pd_Evaluation = EvalAdmit, pd_Message = '''', pd_Reason = ''''\<rparr>],
    vr_AuditAnnotations = []\<rparr>"
  have run: "validator_Validate example_filter_env (example_validator 2) example_versioned None 10 = Ret ?r"
    by (simp add: example_validator_simps)
  have "no_denial ?r" by (simp add: no_denial_def ActionAdmit_def ActionDeny_def)
  with run policy_decides_soundly [OF _ _ _ run] show ?thesis
    by (simp add: failPolicy_of_def) (auto simp: example_validator_def)
qed

theorem message_budget_decides_witness:
  "(\<exists>r. validator_Validate example_filter_env (example_validator 8) example_versioned None 10 = Ret r \<and> \<not> no_denial r) \<and>
   (\<exists>r. validator_Validate example_filter_env ((example_validator 8)\<lparr>v_failPolicy := Some ''Ignore''\<rparr>) example_versioned None 10 = Ret r \<and> no_denial r)"
proof -
  have run: "\<exists>r. validator_Validate example_filter_env v example_versioned None 10 = Ret r \<and> (no_denial r \<longleftrightarrow> failPolicy_of v = ''Ignore'')"
    if v: "v = (example_validator 8)\<lparr>v_failPolicy := Some f\<rparr>" for v f
  proof -
    have "\<exists>r. validator_Validate example_filter_env v example_versioned None 10 = Ret r"
      by (simp add: v example_validator_simps)
    then obtain r where r: "validator_Validate example_filter_env v example_versioned None 10 = Ret r" ..
    have "\<exists>es. ForInput example_filter_env (v_validationFilter v) example_versioned
        (CreateAdmissionRequest (va_Attributes example_versioned)) None (v_authorizer v) 10 = Inr (es, 7)"
      by (simp add: v example_validator_simps)
    then obtain es where es: "ForInput example_filter_env (v_validationFilter v) example_versioned
        (CreateAdmissionRequest (va_Attributes example_versioned)) None (v_authorizer v) 10 = Inr (es, 7)" ..
    have "no_denial r \<longleftrightarrow> failPolicy_of v = ''Ignore''"
      by (rule message_budget_decides [OF _ es _ _ _ r]) (simp_all add: v example_validator_simps)
    with r show ?thesis by blast
  qed
  have "example_validator 8 = (example_validator 8)\<lparr>v_failPolicy := Some ''Fail''\<rparr>" by (simp add: example_validator_def)
  from run [OF this] run [OF refl, of "''Ignore''"] show ?thesis by (simp add: failPolicy_of_def example_validator_def)
qed

end
