(* ===== verification/PolicyController.thy ===== *)
theory PolicyController
  imports PolicyValidator "HOL-Library.Char_ord" "HOL-Library.List_Lexorder" "HOL-Library.Product_Lexorder"
begin

text \<open>
  The book-keeping of the policy evaluator, from the vendored
  \<^verbatim>\<open>validatingadmissionpolicy/controller_reconcile.go\<close>: the policies and bindings that were
  reconciled, which bindings belong to which policy, the compiled validators, the watchers of
  parameter resources, and the snapshot that requests are validated against. Every operation runs
  under the mutex of the controller, so it is a function on the state. The REST mapper, the
  type checker, the CEL compiler and the client for the status are arguments that may depend on
  the state of the server; a controller of parameters is an address, with the set of those that
  run. Ranging over a Go map takes its order from an argument. The lemmas show the invariant the
  comments of the source state, and that a snapshot is what the reconciled objects say.
\<close>

section \<open>State\<close>

record namespacedName =
  nn_namespace :: string
  nn_name :: string

record definitionInfo =
  di_configurationError :: "goerror option"
  di_lastReconciledValue :: "ValidatingAdmissionPolicy option"

record ('u, 'z) bindingInfo =
  bi_validator :: "('u, 'z) validator option"
  bi_lastReconciledValue :: "ValidatingAdmissionPolicyBinding option"

record paramInfo =
  pi_controller :: nat
  pi_dependentDefinitions :: "namespacedName set"

record ('u, 'z) policyData =
  pdt_definitionInfo :: definitionInfo
  pdt_paramController :: "nat option"
  pdt_bindings :: "('u, 'z) bindingInfo list"

record ('u, 'z, 'srv) policyController =
  pc_cachedPolicies :: "('u, 'z) policyData list option"
  pc_paramsCRDControllers :: "ParamKind \<rightharpoonup> paramInfo"
  pc_definitionInfo :: "namespacedName \<rightharpoonup> definitionInfo"
  pc_bindingInfos :: "namespacedName \<rightharpoonup> ('u, 'z) bindingInfo"
  pc_definitionsToBindings :: "namespacedName \<rightharpoonup> namespacedName set"
  pc_running :: "nat set"
  pc_next :: nat
  pc_server :: 'srv

record OptionalVariableDeclarations =
  ov_HasParams :: bool
  ov_HasAuthorizer :: bool

record ('u, 'z, 'srv) policy_env =
  pe_CompileCELExpression :: "ExpressionAccessor \<Rightarrow> OptionalVariableDeclarations \<Rightarrow> nat \<Rightarrow> ('u, 'z) evaluationActivation CompilationResult"
  pe_authorizer :: bool
  pe_RESTMapping :: "'srv \<Rightarrow> GroupKind \<Rightarrow> string \<Rightarrow> goerror + GroupVersionResource"
  pe_typeChecker :: "(ValidatingAdmissionPolicy \<Rightarrow> 'srv \<Rightarrow> ExpressionWarning list) option"
  pe_UpdateStatus :: "ValidatingAdmissionPolicy \<Rightarrow> 'srv \<Rightarrow> goerror option \<times> 'srv"

definition newPolicyController :: "'srv \<Rightarrow> ('u, 'z, 'srv) policyController" where
  "newPolicyController srv =
     \<lparr>pc_cachedPolicies = None, pc_paramsCRDControllers = Map.empty, pc_definitionInfo = Map.empty,
      pc_bindingInfos = Map.empty, pc_definitionsToBindings = Map.empty, pc_running = {}, pc_next = 0, pc_server = srv\<rparr>"

definition getNamespaceName :: "string \<Rightarrow> string \<Rightarrow> namespacedName" where
  "getNamespaceName namespace name = \<lparr>nn_namespace = namespace, nn_name = name\<rparr>"

definition nilPointer :: string where
  "nilPointer = ''invalid memory address or nil pointer dereference''"

section \<open>Compilation\<close>

definition zero_CompilationResult :: "'act CompilationResult" where
  "zero_CompilationResult = \<lparr>cr_Program = None, cr_Error = None, cr_ExpressionAccessor = None\<rparr>"

definition Compile ::
  "('u, 'z, 'srv) policy_env \<Rightarrow> ExpressionAccessor option list \<Rightarrow> OptionalVariableDeclarations \<Rightarrow> nat \<Rightarrow> ('u, 'z) celFilter" where
  "Compile env expressionAccessors options perCallLimit =
     map (\<lambda>a. case a of
        None \<Rightarrow> zero_CompilationResult
      | Some acc \<Rightarrow> pe_CompileCELExpression env acc options perCallLimit) expressionAccessors"

definition convertv1alpha1FailurePolicyTypeTov1FailurePolicyType :: "string option \<Rightarrow> string option" where
  "convertv1alpha1FailurePolicyTypeTov1FailurePolicyType policyType =
     (case policyType of
        None \<Rightarrow> None
      | Some p \<Rightarrow> Some (if p = ''Fail'' then ''Fail'' else if p = ''Ignore'' then ''Ignore'' else ''''))"

definition validation_accessor :: "Validation \<Rightarrow> ExpressionAccessor" where
  "validation_accessor v = ValidationCondition (vd_Expression v) (vd_Message v) (vd_Reason v)"

definition convertv1alpha1Validations :: "Validation list \<Rightarrow> ExpressionAccessor option list" where
  "convertv1alpha1Validations inputValidations = map (\<lambda>v. Some (validation_accessor v)) inputValidations"

definition convertV1Alpha1MessageExpressions :: "Validation list \<Rightarrow> ExpressionAccessor option list" where
  "convertV1Alpha1MessageExpressions inputValidations =
     map (\<lambda>v. if vd_MessageExpression v \<noteq> '''' then Some (MessageExpressionCondition (vd_MessageExpression v)) else None) inputValidations"

definition convertv1alpha1AuditAnnotations :: "AuditAnnotation list \<Rightarrow> ExpressionAccessor option list" where
  "convertv1alpha1AuditAnnotations inputValidations =
     map (\<lambda>v. Some (AuditAnnotationCondition (aa_Key v) (aa_ValueExpression v))) inputValidations"

definition NewValidator ::
  "('u, 'z) celFilter \<Rightarrow> ('u, 'z) matcher option \<Rightarrow> ('u, 'z) celFilter \<Rightarrow> ('u, 'z) celFilter \<Rightarrow> string option \<Rightarrow> bool \<Rightarrow> ('u, 'z) validator" where
  "NewValidator validationFilter celMatcher auditAnnotationFilter messageFilter failPolicy authorizer =
     \<lparr>v_celMatcher = celMatcher, v_validationFilter = validationFilter, v_auditAnnotationFilter = auditAnnotationFilter,
      v_messageFilter = messageFilter, v_failPolicy = failPolicy, v_authorizer = authorizer\<rparr>"

text \<open>The validator that \<^verbatim>\<open>latestPolicyData\<close> compiles for a policy.\<close>

definition compile_policy :: "('u, 'z, 'srv) policy_env \<Rightarrow> ValidatingAdmissionPolicy \<Rightarrow> ('u, 'z) validator" where
  "compile_policy env definition0 =
     (let spec = vp_Spec definition0;
          hasParam = ps_ParamKind spec \<noteq> None;
          optionalVars = \<lparr>ov_HasParams = hasParam, ov_HasAuthorizer = True\<rparr>;
          expressionOptionalVars = \<lparr>ov_HasParams = hasParam, ov_HasAuthorizer = False\<rparr>;
          failurePolicy = convertv1alpha1FailurePolicyTypeTov1FailurePolicyType (ps_FailurePolicy spec);
          matchConditions = ps_MatchConditions spec;
          matcher0 = (if length matchConditions > 0 then
            Some (NewMatcher (Compile env (map (\<lambda>m. Some (MatchConditionAccessor m)) matchConditions) optionalVars PerCallLimit)
              (pe_authorizer env) failurePolicy ''validatingadmissionpolicy'' (om_Name (vp_ObjectMeta definition0))) else None)
      in NewValidator (Compile env (convertv1alpha1Validations (ps_Validations spec)) optionalVars PerCallLimit) matcher0
           (Compile env (convertv1alpha1AuditAnnotations (ps_AuditAnnotations spec)) optionalVars PerCallLimit)
           (Compile env (convertV1Alpha1MessageExpressions (ps_Validations spec)) expressionOptionalVars PerCallLimit)
           failurePolicy (pe_authorizer env))"

section \<open>Reconciling a policy\<close>

definition ParamKind_String :: "ParamKind \<Rightarrow> string" where
  "ParamKind_String p = ''&ParamKind{APIVersion:'' @ pk_APIVersion p @ '',Kind:'' @ pk_Kind p @ '',}''"

definition ParseGroupVersion :: "string \<Rightarrow> goerror + string \<times> string" where
  "ParseGroupVersion gv =
     (if length gv = 0 \<or> gv = ''/'' then Inr ('''', '''')
      else if count_list gv (CHR ''/'') = 0 then Inr ('''', gv)
      else if count_list gv (CHR ''/'') = 1 then
        Inr (takeWhile (\<lambda>c. c \<noteq> CHR ''/'') gv, drop 1 (dropWhile (\<lambda>c. c \<noteq> CHR ''/'') gv))
      else Inl (ErrorString (''unexpected GroupVersion string: '' @ gv)))"

text \<open>Removing a definition from the dependents of its former parameters.\<close>

definition release_params ::
  "namespacedName \<Rightarrow> ParamKind \<Rightarrow> ('u, 'z, 'srv) policyController \<Rightarrow> ('u, 'z, 'srv) policyController" where
  "release_params nn oldParamSource s =
     (case pc_paramsCRDControllers s oldParamSource of
        None \<Rightarrow> s
      | Some oldParamInfo \<Rightarrow>
          let dependents = pi_dependentDefinitions oldParamInfo - {nn} in
          if dependents = {} then
            s\<lparr>pc_running := pc_running s - {pi_controller oldParamInfo},
              pc_paramsCRDControllers := (pc_paramsCRDControllers s)(oldParamSource := None)\<rparr>
          else
            s\<lparr>pc_paramsCRDControllers := (pc_paramsCRDControllers s)
                (oldParamSource \<mapsto> oldParamInfo\<lparr>pi_dependentDefinitions := dependents\<rparr>)\<rparr>)"

definition reset_validators ::
  "namespacedName \<Rightarrow> ('u, 'z, 'srv) policyController \<Rightarrow> ('u, 'z, 'srv) policyController result" where
  "reset_validators nn s =
     (case pc_definitionsToBindings s nn of
        None \<Rightarrow> Ret s
      | Some keys \<Rightarrow>
          if \<exists>k \<in> keys. pc_bindingInfos s k = None then Panic nilPointer
          else Ret (s\<lparr>pc_bindingInfos := (\<lambda>k. if k \<in> keys then map_option (\<lambda>b. b\<lparr>bi_validator := None\<rparr>) (pc_bindingInfos s k)
                   else pc_bindingInfos s k)\<rparr>))"

text \<open>
  A new controller of parameters has its own informer, either typed or dynamic, and both are
  started; \<^verbatim>\<open>stop\<close> stops them. Their address stands for both.
\<close>

definition watch_params ::
  "namespacedName \<Rightarrow> ParamKind \<Rightarrow> ('u, 'z, 'srv) policyController \<Rightarrow> ('u, 'z, 'srv) policyController" where
  "watch_params nn paramSource s =
     (case pc_paramsCRDControllers s paramSource of
        Some info \<Rightarrow>
          s\<lparr>pc_paramsCRDControllers := (pc_paramsCRDControllers s)
              (paramSource \<mapsto> info\<lparr>pi_dependentDefinitions := insert nn (pi_dependentDefinitions info)\<rparr>)\<rparr>
      | None \<Rightarrow>
          s\<lparr>pc_paramsCRDControllers := (pc_paramsCRDControllers s)
              (paramSource \<mapsto> \<lparr>pi_controller = pc_next s, pi_dependentDefinitions = {nn}\<rparr>),
            pc_running := insert (pc_next s) (pc_running s), pc_next := Suc (pc_next s)\<rparr>)"

definition set_definition ::
  "namespacedName \<Rightarrow> definitionInfo \<Rightarrow> ('u, 'z, 'srv) policyController \<Rightarrow> ('u, 'z, 'srv) policyController" where
  "set_definition nn info s = s\<lparr>pc_definitionInfo := (pc_definitionInfo s)(nn \<mapsto> info)\<rparr>"

definition reconcilePolicyDefinitionSpec ::
  "('u, 'z, 'srv) policy_env \<Rightarrow> string \<Rightarrow> string \<Rightarrow> ValidatingAdmissionPolicy option \<Rightarrow> ('u, 'z, 'srv) policyController \<Rightarrow>
   (goerror option \<times> ('u, 'z, 'srv) policyController) result" where
  "reconcilePolicyDefinitionSpec env namespace name definition0 s0 =
     (let nn = getNamespaceName namespace name;
          info = (case pc_definitionInfo s0 nn of Some i \<Rightarrow> i | None \<Rightarrow> \<lparr>di_configurationError = None, di_lastReconciledValue = None\<rparr>);
          s = set_definition nn info (s0\<lparr>pc_cachedPolicies := None\<rparr>)
      in if di_lastReconciledValue info \<noteq> None \<and> definition0 \<noteq> None \<and>
            vp_Spec (the (di_lastReconciledValue info)) = vp_Spec (the definition0) then Ret (None, s)
      else
        let paramSource = (case definition0 of None \<Rightarrow> None | Some d \<Rightarrow> ps_ParamKind (vp_Spec d));
            oldParamSource = (case di_lastReconciledValue info of None \<Rightarrow> None | Some d \<Rightarrow> ps_ParamKind (vp_Spec d));
            s = (case oldParamSource of
                   None \<Rightarrow> s
                 | Some old \<Rightarrow> if paramSource = None \<or> paramSource \<noteq> Some old then release_params nn old s else s)
        in bind_outcome (reset_validators nn s) (\<lambda>s.
          case definition0 of
            None \<Rightarrow> Ret (None, s\<lparr>pc_definitionInfo := (pc_definitionInfo s)(nn := None)\<rparr>)
          | Some d \<Rightarrow>
              let info = \<lparr>di_configurationError = None, di_lastReconciledValue = Some d\<rparr> in
              (case paramSource of
                 None \<Rightarrow> Ret (None, set_definition nn info s)
               | Some p \<Rightarrow>
                 (case ParseGroupVersion (pk_APIVersion p) of
                    Inl err \<Rightarrow>
                      Ret (None, set_definition nn (info\<lparr>di_configurationError := Some (WrapError
                        (''failed to parse apiVersion of paramKind '' @ [CHR 0x27] @ ParamKind_String p @ [CHR 0x27] @ '' with error: '' @ error_Error err) err)\<rparr>) s)
                  | Inr (group0, version) \<Rightarrow>
                    (case pe_RESTMapping env (pc_server s) \<lparr>gk_Group = group0, gk_Kind = pk_Kind p\<rparr> version of
                       Inl err \<Rightarrow>
                         let e = ErrorString (''failed to find resource referenced by paramKind: '' @ [CHR 0x27] @ group0 @ ''/'' @ version @
                           '', Kind='' @ pk_Kind p @ [CHR 0x27])
                         in Ret (Some e, set_definition nn (info\<lparr>di_configurationError := Some e\<rparr>) s)
                     | Inr gvr \<Rightarrow> Ret (None, watch_params nn p (set_definition nn info s)))))))"

definition calculatePolicyStatus ::
  "(ValidatingAdmissionPolicy \<Rightarrow> 'srv \<Rightarrow> ExpressionWarning list) \<Rightarrow> ValidatingAdmissionPolicy \<Rightarrow> 'srv \<Rightarrow> ValidatingAdmissionPolicyStatus" where
  "calculatePolicyStatus Check definition0 srv =
     (vp_Status definition0)\<lparr>pt_ObservedGeneration := om_Generation (vp_ObjectMeta definition0),
       pt_TypeChecking := Some \<lparr>tc_ExpressionWarnings = Check definition0 srv\<rparr>\<rparr>"

text \<open>The error of the update is logged only.\<close>

definition reconcilePolicyStatus ::
  "('u, 'z, 'srv) policy_env \<Rightarrow> (ValidatingAdmissionPolicy \<Rightarrow> 'srv \<Rightarrow> ExpressionWarning list) \<Rightarrow> ValidatingAdmissionPolicy option \<Rightarrow> 'srv \<Rightarrow> 'srv" where
  "reconcilePolicyStatus env Check definition0 srv =
     (case definition0 of
        None \<Rightarrow> srv
      | Some d \<Rightarrow>
          if sint (pt_ObservedGeneration (vp_Status d)) < sint (om_Generation (vp_ObjectMeta d)) then
            snd (pe_UpdateStatus env (d\<lparr>vp_Status := calculatePolicyStatus Check d srv\<rparr>) srv)
          else srv)"

definition reconcilePolicyDefinition ::
  "('u, 'z, 'srv) policy_env \<Rightarrow> string \<Rightarrow> string \<Rightarrow> ValidatingAdmissionPolicy option \<Rightarrow> ('u, 'z, 'srv) policyController \<Rightarrow>
   (goerror option \<times> ('u, 'z, 'srv) policyController) result" where
  "reconcilePolicyDefinition env namespace name definition0 s =
     bind_outcome (reconcilePolicyDefinitionSpec env namespace name definition0 s) (\<lambda>(err, s).
       case err of
         Some e \<Rightarrow> Ret (Some e, s)
       | None \<Rightarrow>
           (case pe_typeChecker env of
              None \<Rightarrow> Ret (None, s)
            | Some Check \<Rightarrow> Ret (None, s\<lparr>pc_server := reconcilePolicyStatus env Check definition0 (pc_server s)\<rparr>)))"

section \<open>Reconciling a binding\<close>

definition binding_policy :: "ValidatingAdmissionPolicyBinding option \<Rightarrow> namespacedName" where
  "binding_policy b = (case b of None \<Rightarrow> getNamespaceName '''' '''' | Some v \<Rightarrow> getNamespaceName '''' (bs_PolicyName (vb_Spec v)))"

text \<open>Removing a binding from the policy it referred to before.\<close>

definition unlink_binding ::
  "namespacedName \<Rightarrow> namespacedName \<Rightarrow> namespacedName \<Rightarrow> ('u, 'z, 'srv) policyController \<Rightarrow> ('u, 'z, 'srv) policyController" where
  "unlink_binding nn oldName newName s =
     (if oldName \<noteq> newName then
        (case pc_definitionsToBindings s oldName of
           None \<Rightarrow> s
         | Some dependentBindings \<Rightarrow>
             s\<lparr>pc_definitionsToBindings := (pc_definitionsToBindings s)
               (oldName := (if dependentBindings - {nn} = {} then None else Some (dependentBindings - {nn})))\<rparr>)
      else s)"

definition reconcilePolicyBinding ::
  "string \<Rightarrow> string \<Rightarrow> ValidatingAdmissionPolicyBinding option \<Rightarrow> ('u, 'z, 'srv) policyController \<Rightarrow>
   goerror option \<times> ('u, 'z, 'srv) policyController" where
  "reconcilePolicyBinding namespace name binding s0 =
     (let nn = getNamespaceName namespace name;
          info = (case pc_bindingInfos s0 nn of Some i \<Rightarrow> i | None \<Rightarrow> \<lparr>bi_validator = None, bi_lastReconciledValue = None\<rparr>);
          s = s0\<lparr>pc_cachedPolicies := None, pc_bindingInfos := (pc_bindingInfos s0)(nn \<mapsto> info)\<rparr>
      in if bi_lastReconciledValue info \<noteq> None \<and> binding \<noteq> None \<and>
            vb_Spec (the (bi_lastReconciledValue info)) = vb_Spec (the binding) then (None, s)
      else
        let oldName = binding_policy (bi_lastReconciledValue info);
            newName = binding_policy binding;
            s = unlink_binding nn oldName newName s
        in case binding of
          None \<Rightarrow> (None, s\<lparr>pc_bindingInfos := (pc_bindingInfos s)(nn := None)\<rparr>)
        | Some b \<Rightarrow>
            (None, s\<lparr>pc_definitionsToBindings := (pc_definitionsToBindings s)
                (newName \<mapsto> insert nn (case pc_definitionsToBindings s newName of None \<Rightarrow> {} | Some d \<Rightarrow> d)),
              pc_bindingInfos := (pc_bindingInfos s)(nn \<mapsto> \<lparr>bi_validator = None, bi_lastReconciledValue = Some b\<rparr>)\<rparr>))"

section \<open>The snapshot\<close>

type_synonym go_order = "namespacedName set \<Rightarrow> namespacedName list"

fun latestBindings ::
  "('u, 'z, 'srv) policy_env \<Rightarrow> definitionInfo \<Rightarrow> namespacedName list \<Rightarrow> (namespacedName \<rightharpoonup> ('u, 'z) bindingInfo) \<Rightarrow>
   (('u, 'z) bindingInfo list \<times> (namespacedName \<rightharpoonup> ('u, 'z) bindingInfo)) result" where
  "latestBindings env info [] m = Ret ([], m)"
| "latestBindings env info (bindingNN # nns) m =
     (case m bindingNN of
        None \<Rightarrow> Panic nilPointer
      | Some b \<Rightarrow>
          bind_outcome
            (if bi_validator b = None \<and> di_configurationError info = None then
               (case di_lastReconciledValue info of
                  None \<Rightarrow> Panic nilPointer
                | Some d \<Rightarrow> Ret (b\<lparr>bi_validator := Some (compile_policy env d)\<rparr>))
             else Ret b) (\<lambda>b.
          bind_outcome (latestBindings env info nns (m(bindingNN \<mapsto> b))) (\<lambda>(bs, m). Ret (b # bs, m))))"

fun latestLoop ::
  "('u, 'z, 'srv) policy_env \<Rightarrow> go_order \<Rightarrow> ('u, 'z, 'srv) policyController \<Rightarrow> namespacedName list \<Rightarrow>
   (namespacedName \<rightharpoonup> ('u, 'z) bindingInfo) \<Rightarrow> (('u, 'z) policyData list \<times> (namespacedName \<rightharpoonup> ('u, 'z) bindingInfo)) result" where
  "latestLoop env order s [] m = Ret ([], m)"
| "latestLoop env order s (definitionNN # nns) m =
     (case pc_definitionInfo s definitionNN of
        None \<Rightarrow> latestLoop env order s nns m
      | Some info \<Rightarrow>
          bind_outcome (latestBindings env info
            (order (case pc_definitionsToBindings s definitionNN of None \<Rightarrow> {} | Some keys \<Rightarrow> keys)) m) (\<lambda>(bindings, m).
          bind_outcome
            (case di_lastReconciledValue info of
               None \<Rightarrow> Panic nilPointer
             | Some d \<Rightarrow> Ret (case ps_ParamKind (vp_Spec d) of
                 None \<Rightarrow> None
               | Some paramKind \<Rightarrow> map_option pi_controller (pc_paramsCRDControllers s paramKind))) (\<lambda>paramController.
          bind_outcome (latestLoop env order s nns m) (\<lambda>(res, m).
            Ret (\<lparr>pdt_definitionInfo = info, pdt_paramController = paramController, pdt_bindings = bindings\<rparr> # res, m)))))"

text \<open>A nil slice stands for no cached policies, so an empty result is computed again.\<close>

definition latestPolicyData ::
  "('u, 'z, 'srv) policy_env \<Rightarrow> go_order \<Rightarrow> ('u, 'z, 'srv) policyController \<Rightarrow>
   (('u, 'z) policyData list \<times> ('u, 'z, 'srv) policyController) result" where
  "latestPolicyData env order s =
     (case pc_cachedPolicies s of
        Some existing \<Rightarrow> Ret (existing, s)
      | None \<Rightarrow>
          bind_outcome (latestLoop env order s (order (dom (pc_definitionInfo s))) (pc_bindingInfos s)) (\<lambda>(res, m).
            Ret (res, s\<lparr>pc_bindingInfos := m, pc_cachedPolicies := (if res = [] then None else Some res)\<rparr>)))"

section \<open>The invariant\<close>

text \<open>A known binding names a policy.\<close>

definition refers :: "('u, 'z, 'srv) policyController \<Rightarrow> namespacedName \<Rightarrow> namespacedName \<Rightarrow> bool" where
  "refers s bn nn \<longleftrightarrow> (\<exists>b v. pc_bindingInfos s bn = Some b \<and> bi_lastReconciledValue b = Some v \<and> binding_policy (Some v) = nn)"

text \<open>The entry of a snapshot for a policy.\<close>

definition entry :: "('u, 'z, 'srv) policy_env \<Rightarrow> ('u, 'z, 'srv) policyController \<Rightarrow> namespacedName \<Rightarrow> ('u, 'z) policyData \<Rightarrow> bool" where
  "entry env s nn p \<longleftrightarrow>
     (\<exists>info d. pc_definitionInfo s nn = Some info \<and> di_lastReconciledValue info = Some d \<and> pdt_definitionInfo p = info \<and>
        pdt_paramController p = (case ps_ParamKind (vp_Spec d) of None \<Rightarrow> None
          | Some k \<Rightarrow> map_option pi_controller (pc_paramsCRDControllers s k)) \<and>
        set (pdt_bindings p) = {b. \<exists>bn. pc_bindingInfos s bn = Some b \<and> refers s bn nn} \<and>
        (di_configurationError info = None \<longrightarrow> (\<forall>b \<in> set (pdt_bindings p). bi_validator b = Some (compile_policy env d))))"

definition snapshot_of :: "('u, 'z, 'srv) policy_env \<Rightarrow> ('u, 'z, 'srv) policyController \<Rightarrow> ('u, 'z) policyData list \<Rightarrow> bool" where
  "snapshot_of env s ps \<longleftrightarrow>
     (\<forall>nn \<in> dom (pc_definitionInfo s). \<exists>p \<in> set ps. entry env s nn p) \<and> (\<forall>p \<in> set ps. \<exists>nn. entry env s nn p)"

definition policies_known :: "('u, 'z, 'srv) policyController \<Rightarrow> bool" where
  "policies_known s \<longleftrightarrow> finite (dom (pc_definitionInfo s)) \<and>
     (\<forall>nn info. pc_definitionInfo s nn = Some info \<longrightarrow> di_lastReconciledValue info \<noteq> None)"

definition bindings_known :: "('u, 'z, 'srv) policyController \<Rightarrow> bool" where
  "bindings_known s \<longleftrightarrow> finite (dom (pc_bindingInfos s)) \<and>
     (\<forall>bn b. pc_bindingInfos s bn = Some b \<longrightarrow> (\<exists>v. bi_lastReconciledValue b = Some v \<and> bs_PolicyName (vb_Spec v) \<noteq> ''''))"

definition indexed :: "('u, 'z, 'srv) policyController \<Rightarrow> bool" where
  "indexed s \<longleftrightarrow> (\<forall>nn. pc_definitionsToBindings s nn =
     (if {bn. refers s bn nn} = {} then None else Some {bn. refers s bn nn}))"

definition current :: "('u, 'z, 'srv) policy_env \<Rightarrow> ('u, 'z, 'srv) policyController \<Rightarrow> bool" where
  "current env s \<longleftrightarrow> (\<forall>bn b v w. pc_bindingInfos s bn = Some b \<longrightarrow> bi_lastReconciledValue b = Some v \<longrightarrow> bi_validator b = Some w \<longrightarrow>
     (\<exists>info d. pc_definitionInfo s (binding_policy (Some v)) = Some info \<and> di_lastReconciledValue info = Some d \<and> w = compile_policy env d))"

definition cached :: "('u, 'z, 'srv) policy_env \<Rightarrow> ('u, 'z, 'srv) policyController \<Rightarrow> bool" where
  "cached env s \<longleftrightarrow> (\<forall>ps. pc_cachedPolicies s = Some ps \<longrightarrow> snapshot_of env s ps)"

definition pc_inv :: "('u, 'z, 'srv) policy_env \<Rightarrow> ('u, 'z, 'srv) policyController \<Rightarrow> bool" where
  "pc_inv env s \<longleftrightarrow> policies_known s \<and> bindings_known s \<and> indexed s \<and> current env s \<and> cached env s"

lemma pc_inv_init: "pc_inv env (newPolicyController srv)"
  by (simp add: pc_inv_def policies_known_def bindings_known_def indexed_def current_def cached_def refers_def newPolicyController_def)

text \<open>Changing a policy and resetting the validators of its bindings.\<close>

lemma refers_iff:
  "refers s bn nn \<longleftrightarrow> (\<exists>v. map_option bi_lastReconciledValue (pc_bindingInfos s bn) = Some (Some v) \<and> binding_policy (Some v) = nn)"
  by (auto simp: refers_def)

lemma refers_cong:
  assumes "map_option bi_lastReconciledValue (pc_bindingInfos s' bn) = map_option bi_lastReconciledValue (pc_bindingInfos s bn)"
  shows "refers s' bn nn \<longleftrightarrow> refers s bn nn"
  unfolding refers_iff assms ..

lemma currentD:
  "current env s \<Longrightarrow> pc_bindingInfos s bn = Some b \<Longrightarrow> bi_lastReconciledValue b = Some v \<Longrightarrow> bi_validator b = Some w \<Longrightarrow>
     \<exists>info d. pc_definitionInfo s (binding_policy (Some v)) = Some info \<and> di_lastReconciledValue info = Some d \<and> w = compile_policy env d"
  unfolding current_def by blast

definition reset_bindings ::
  "('u, 'z, 'srv) policyController \<Rightarrow> namespacedName \<Rightarrow> namespacedName \<rightharpoonup> ('u, 'z) bindingInfo" where
  "reset_bindings s nn = (\<lambda>k. if refers s k nn then map_option (\<lambda>b. b\<lparr>bi_validator := None\<rparr>) (pc_bindingInfos s k) else pc_bindingInfos s k)"

lemma inv_policy_changed:
  assumes inv: "pc_inv env s"
    and bs: "pc_bindingInfos s' = reset_bindings s nn"
    and ds: "pc_definitionInfo s' = (pc_definitionInfo s)(nn := x)" "\<And>i. x = Some i \<Longrightarrow> di_lastReconciledValue i \<noteq> None"
    and idx: "pc_definitionsToBindings s' = pc_definitionsToBindings s"
    and c: "pc_cachedPolicies s' = None"
  shows "pc_inv env s'"
proof -
  have lasts: "map_option bi_lastReconciledValue (pc_bindingInfos s' bn) = map_option bi_lastReconciledValue (pc_bindingInfos s bn)" for bn
    by (simp add: bs reset_bindings_def option.map_comp comp_def)
  have refers: "refers s' = refers s" using refers_cong [OF lasts] by (intro ext) blast
  have "policies_known s'" using inv ds by (auto simp: pc_inv_def policies_known_def)
  moreover have "dom (pc_bindingInfos s') = dom (pc_bindingInfos s)" by (auto simp: bs reset_bindings_def split: if_splits)
  then have "bindings_known s'" using inv by (auto simp: pc_inv_def bindings_known_def bs reset_bindings_def split: if_splits)
  moreover have "indexed s'" using inv by (simp add: pc_inv_def indexed_def refers idx)
  moreover have "current env s'" unfolding current_def
  proof (intro allI impI)
    fix bn b v w
    assume b: "pc_bindingInfos s' bn = Some b" "bi_lastReconciledValue b = Some v" "bi_validator b = Some w"
    then have same: "pc_bindingInfos s bn = Some b" "\<not> refers s bn nn"
      by (auto simp: bs reset_bindings_def split: if_splits)
    with b(2) have "binding_policy (Some v) \<noteq> nn" by (auto simp: refers_def)
    with currentD [OF _ same(1) b(2,3), of env] inv show "\<exists>info d. pc_definitionInfo s' (binding_policy (Some v)) = Some info \<and>
        di_lastReconciledValue info = Some d \<and> w = compile_policy env d"
      by (simp add: pc_inv_def ds)
  qed
  moreover have "cached env s'" by (simp add: cached_def c)
  ultimately show ?thesis by (simp add: pc_inv_def)
qed

lemma release_params_simps [simp]:
  "pc_bindingInfos (release_params nn k s) = pc_bindingInfos s" "pc_definitionInfo (release_params nn k s) = pc_definitionInfo s"
  "pc_definitionsToBindings (release_params nn k s) = pc_definitionsToBindings s"
  "pc_cachedPolicies (release_params nn k s) = pc_cachedPolicies s" "pc_server (release_params nn k s) = pc_server s"
  by (simp_all add: release_params_def Let_def split: option.split)

lemma watch_params_simps [simp]:
  "pc_bindingInfos (watch_params nn k s) = pc_bindingInfos s" "pc_definitionInfo (watch_params nn k s) = pc_definitionInfo s"
  "pc_definitionsToBindings (watch_params nn k s) = pc_definitionsToBindings s"
  "pc_cachedPolicies (watch_params nn k s) = pc_cachedPolicies s" "pc_server (watch_params nn k s) = pc_server s"
  by (simp_all add: watch_params_def split: option.split)

lemma set_definition_simps [simp]:
  "pc_bindingInfos (set_definition nn i s) = pc_bindingInfos s" "pc_definitionInfo (set_definition nn i s) = (pc_definitionInfo s)(nn \<mapsto> i)"
  "pc_definitionsToBindings (set_definition nn i s) = pc_definitionsToBindings s" "pc_paramsCRDControllers (set_definition nn i s) = pc_paramsCRDControllers s"
  "pc_cachedPolicies (set_definition nn i s) = pc_cachedPolicies s" "pc_server (set_definition nn i s) = pc_server s"
  "pc_running (set_definition nn i s) = pc_running s" "pc_next (set_definition nn i s) = pc_next s"
  by (simp_all add: set_definition_def)

lemma indexedD:
  "indexed s \<Longrightarrow> pc_definitionsToBindings s nn = (if {bn. refers s bn nn} = {} then None else Some {bn. refers s bn nn})"
  unfolding indexed_def by blast

lemma reset_validators_indexed:
  assumes "indexed s" "pc_definitionsToBindings t = pc_definitionsToBindings s" "pc_bindingInfos t = pc_bindingInfos s"
  shows "reset_validators nn t = Ret (t\<lparr>pc_bindingInfos := reset_bindings s nn\<rparr>)"
proof (cases "{bn. refers s bn nn} = {}")
  case True
  then have "reset_bindings s nn = pc_bindingInfos t" using assms(3) by (auto simp: reset_bindings_def)
  moreover have "pc_definitionsToBindings t nn = None" using indexedD [OF assms(1), of nn] True assms(2) by simp
  ultimately show ?thesis by (simp add: reset_validators_def)
next
  case False
  then have keys: "pc_definitionsToBindings t nn = Some {bn. refers s bn nn}"
    using indexedD [OF assms(1), of nn] assms(2) by simp
  have "\<not> (\<exists>k \<in> {bn. refers s bn nn}. pc_bindingInfos s k = None)" by (auto simp: refers_def)
  then show ?thesis unfolding reset_validators_def keys reset_bindings_def assms(3) by simp
qed

text \<open>What the controller knows, as plain maps from names to specifications.\<close>

definition abs_policies :: "('u, 'z, 'srv) policyController \<Rightarrow> namespacedName \<rightharpoonup> ValidatingAdmissionPolicySpec" where
  "abs_policies s = (\<lambda>nn. map_option (\<lambda>i. vp_Spec (the (di_lastReconciledValue i))) (pc_definitionInfo s nn))"

definition abs_bindings :: "('u, 'z, 'srv) policyController \<Rightarrow> namespacedName \<rightharpoonup> ValidatingAdmissionPolicyBindingSpec" where
  "abs_bindings s = (\<lambda>bn. map_option (\<lambda>b. vb_Spec (the (bi_lastReconciledValue b))) (pc_bindingInfos s bn))"

lemma abs_bindings_reset: "pc_bindingInfos s' = reset_bindings s nn \<Longrightarrow> abs_bindings s' = abs_bindings s"
  by (auto simp: abs_bindings_def reset_bindings_def option.map_comp comp_def)

lemma inv_uncached: "pc_inv env s \<Longrightarrow> pc_inv env (s\<lparr>pc_cachedPolicies := None\<rparr>)"
  by (simp add: pc_inv_def policies_known_def bindings_known_def indexed_def current_def cached_def refers_def)

text \<open>What reconciling a policy changes, apart from the watchers of parameters.\<close>

definition policy_changed ::
  "namespacedName \<Rightarrow> ValidatingAdmissionPolicy option \<Rightarrow> ('u, 'z, 'srv) policyController \<Rightarrow> ('u, 'z, 'srv) policyController \<Rightarrow> bool" where
  "policy_changed nn definition0 s s' \<longleftrightarrow>
     pc_bindingInfos s' = reset_bindings s nn \<and> pc_definitionsToBindings s' = pc_definitionsToBindings s \<and>
     pc_cachedPolicies s' = None \<and> pc_server s' = pc_server s \<and>
     pc_definitionInfo s' = (pc_definitionInfo s)(nn := pc_definitionInfo s' nn) \<and>
     map_option di_lastReconciledValue (pc_definitionInfo s' nn) = map_option Some definition0"

definition unchanged_spec :: "definitionInfo option \<Rightarrow> ValidatingAdmissionPolicy option \<Rightarrow> bool" where
  "unchanged_spec i definition0 =
     (case (i, definition0) of
        (Some i, Some d) \<Rightarrow> (case di_lastReconciledValue i of None \<Rightarrow> False | Some d0 \<Rightarrow> vp_Spec d0 = vp_Spec d)
      | _ \<Rightarrow> False)"

lemma reconcilePolicyDefinitionSpec_changed:
  assumes inv: "pc_inv env s" and new: "\<not> unchanged_spec (pc_definitionInfo s (getNamespaceName ns name)) definition0"
  shows "case reconcilePolicyDefinitionSpec env ns name definition0 s of
    Ret (err, s') \<Rightarrow> policy_changed (getNamespaceName ns name) definition0 s s' | _ \<Rightarrow> False"
proof -
  have idx: "indexed s" using inv by (simp add: pc_inv_def)
  note reset = reset_validators_indexed [OF idx, of _ "(getNamespaceName ns name)"]
  show ?thesis
  proof (cases definition0)
    case None
    then show ?thesis
      by (auto simp: reconcilePolicyDefinitionSpec_def Let_def reset policy_changed_def split: option.split)
  next
    case (Some d)
    define i0 where "i0 = (case pc_definitionInfo s (getNamespaceName ns name) of Some i \<Rightarrow> i | None \<Rightarrow> \<lparr>di_configurationError = None, di_lastReconciledValue = None\<rparr>)"
    have old: "di_lastReconciledValue i0 = None \<or> vp_Spec (the (di_lastReconciledValue i0)) \<noteq> vp_Spec d"
      using new by (auto simp: i0_def Some unchanged_spec_def split: option.splits)
    show ?thesis
      using old unfolding Some reconcilePolicyDefinitionSpec_def Let_def i0_def [symmetric]
      by (auto simp: reset policy_changed_def split: option.split sum.split)
  qed
qed

lemma refers_upd [simp]:
  "refers (s\<lparr>pc_server := srv\<rparr>) = refers s" "refers (s\<lparr>pc_cachedPolicies := c\<rparr>) = refers s"
  by (intro ext, simp add: refers_def)+

lemma entry_server [simp]: "entry env (s\<lparr>pc_server := srv\<rparr>) = entry env s"
  by (intro ext) (simp add: entry_def cong: option.case_cong)

lemma inv_server: "pc_inv env (s\<lparr>pc_server := srv\<rparr>) = pc_inv env s"
proof -
  let ?s = "s\<lparr>pc_server := srv\<rparr>"
  have "policies_known ?s = policies_known s" by (simp add: policies_known_def)
  moreover have "bindings_known ?s = bindings_known s" by (simp add: bindings_known_def)
  moreover have "indexed ?s = indexed s" by (simp add: indexed_def)
  moreover have "current env ?s = current env s" by (simp add: current_def)
  moreover have "cached env ?s = cached env s" by (simp add: cached_def snapshot_of_def)
  ultimately show ?thesis by (simp add: pc_inv_def)
qed

lemma abs_server [simp]: "abs_policies (s\<lparr>pc_server := srv\<rparr>) = abs_policies s" "abs_bindings (s\<lparr>pc_server := srv\<rparr>) = abs_bindings s"
  "abs_policies (s\<lparr>pc_cachedPolicies := c\<rparr>) = abs_policies s" "abs_bindings (s\<lparr>pc_cachedPolicies := c\<rparr>) = abs_bindings s"
  by (simp_all add: abs_policies_def abs_bindings_def)

lemma reconcilePolicyDefinitionSpec_unchanged:
  assumes "unchanged_spec (pc_definitionInfo s (getNamespaceName ns name)) definition0"
  shows "reconcilePolicyDefinitionSpec env ns name definition0 s = Ret (None, s\<lparr>pc_cachedPolicies := None\<rparr>)"
proof -
  obtain i d0 d where i: "pc_definitionInfo s (getNamespaceName ns name) = Some i" "di_lastReconciledValue i = Some d0" "definition0 = Some d" "vp_Spec d0 = vp_Spec d"
    using assms by (auto simp: unchanged_spec_def split: option.splits)
  have "set_definition (getNamespaceName ns name) i (s\<lparr>pc_cachedPolicies := None\<rparr>) = s\<lparr>pc_cachedPolicies := None\<rparr>"
    using i(1) by (cases s) (simp add: set_definition_def map_upd_triv)
  with i show ?thesis by (simp add: reconcilePolicyDefinitionSpec_def Let_def)
qed

lemma reconcilePolicyDefinitionSpec_inv:
  assumes inv: "pc_inv env s"
  shows "\<exists>err s'. reconcilePolicyDefinitionSpec env ns name definition0 s = Ret (err, s') \<and> pc_inv env s' \<and>
    abs_policies s' = (abs_policies s)(getNamespaceName ns name := map_option vp_Spec definition0) \<and> abs_bindings s' = abs_bindings s"
proof (cases "unchanged_spec (pc_definitionInfo s (getNamespaceName ns name)) definition0")
  case True
  then have "abs_policies s (getNamespaceName ns name) = map_option vp_Spec definition0"
    by (auto simp: unchanged_spec_def abs_policies_def split: option.splits)
  then have "(abs_policies s)(getNamespaceName ns name := map_option vp_Spec definition0) = abs_policies s" by (simp add: fun_upd_idem)
  with reconcilePolicyDefinitionSpec_unchanged [OF True] inv_uncached [OF inv] show ?thesis by simp
next
  case False
  from reconcilePolicyDefinitionSpec_changed [OF inv this] obtain err s'
    where r: "reconcilePolicyDefinitionSpec env ns name definition0 s = Ret (err, s')" and ch: "policy_changed (getNamespaceName ns name) definition0 s s'"
    by (auto split: outcome.splits)
  have last: "map_option di_lastReconciledValue (pc_definitionInfo s' (getNamespaceName ns name)) = map_option Some definition0"
    using ch by (simp add: policy_changed_def)
  have "pc_inv env s'"
    using last ch by (intro inv_policy_changed [OF inv, of s' "(getNamespaceName ns name)" "pc_definitionInfo s' (getNamespaceName ns name)"])
      (cases definition0; auto simp: policy_changed_def)+
  moreover have "abs_policies s' = (abs_policies s)(getNamespaceName ns name := map_option vp_Spec definition0)"
  proof (rule ext)
    fix nn
    have "pc_definitionInfo s' nn = (if nn = (getNamespaceName ns name) then pc_definitionInfo s' (getNamespaceName ns name) else pc_definitionInfo s nn)"
      using ch unfolding policy_changed_def by (metis fun_upd_apply)
    then show "abs_policies s' nn = ((abs_policies s)(getNamespaceName ns name := map_option vp_Spec definition0)) nn"
      using last by (cases definition0) (auto simp: abs_policies_def)
  qed
  moreover have "abs_bindings s' = abs_bindings s" using ch by (auto simp: policy_changed_def intro: abs_bindings_reset)
  ultimately show ?thesis using r by blast
qed

lemma reconcilePolicyDefinition_inv:
  assumes "pc_inv env s"
  shows "\<exists>err s'. reconcilePolicyDefinition env ns name definition0 s = Ret (err, s') \<and> pc_inv env s' \<and>
    abs_policies s' = (abs_policies s)(getNamespaceName ns name := map_option vp_Spec definition0) \<and> abs_bindings s' = abs_bindings s"
  using reconcilePolicyDefinitionSpec_inv [OF assms, of ns name definition0]
  by (auto simp: reconcilePolicyDefinition_def inv_server split: option.split)

definition nonempty :: "'a set \<Rightarrow> 'a set option" where
  "nonempty S = (if S = {} then None else Some S)"

text \<open>What reconciling a changed binding does.\<close>

definition binding_changed ::
  "namespacedName \<Rightarrow> ValidatingAdmissionPolicyBinding option \<Rightarrow> ('u, 'z, 'srv) policyController \<Rightarrow> ('u, 'z, 'srv) policyController \<Rightarrow> bool" where
  "binding_changed nn binding s s' \<longleftrightarrow>
     pc_bindingInfos s' = (pc_bindingInfos s)(nn := map_option (\<lambda>b. \<lparr>bi_validator = None, bi_lastReconciledValue = Some b\<rparr>) binding) \<and>
     pc_definitionInfo s' = pc_definitionInfo s \<and> pc_cachedPolicies s' = None \<and>
     pc_paramsCRDControllers s' = pc_paramsCRDControllers s \<and> pc_running s' = pc_running s \<and> pc_next s' = pc_next s \<and>
     (\<forall>dn. pc_definitionsToBindings s' dn =
        nonempty ({bn. refers s bn dn} - {nn} \<union> (if binding \<noteq> None \<and> binding_policy binding = dn then {nn} else {})))"

definition unchanged_binding :: "('u, 'z) bindingInfo option \<Rightarrow> ValidatingAdmissionPolicyBinding option \<Rightarrow> bool" where
  "unchanged_binding i binding =
     (case (i, binding) of
        (Some i, Some b) \<Rightarrow> (case bi_lastReconciledValue i of None \<Rightarrow> False | Some b0 \<Rightarrow> vb_Spec b0 = vb_Spec b)
      | _ \<Rightarrow> False)"

lemma indexed_nonempty: "indexed s \<Longrightarrow> pc_definitionsToBindings s dn = nonempty {bn. refers s bn dn}"
  unfolding nonempty_def by (rule indexedD)

lemma bindings_knownD:
  "bindings_known s \<Longrightarrow> pc_bindingInfos s bn = Some b \<Longrightarrow> \<exists>v. bi_lastReconciledValue b = Some v \<and> bs_PolicyName (vb_Spec v) \<noteq> ''''"
  unfolding bindings_known_def by blast

lemma no_nameless_policy: "bindings_known s \<Longrightarrow> \<not> refers s bn (getNamespaceName '''' '''')"
  by (auto simp: refers_def binding_policy_def getNamespaceName_def dest: bindings_knownD)

lemma unlink_fields [simp]:
  "pc_bindingInfos (unlink_binding nn old new s) = pc_bindingInfos s"
  "pc_definitionInfo (unlink_binding nn old new s) = pc_definitionInfo s"
  "pc_cachedPolicies (unlink_binding nn old new s) = pc_cachedPolicies s"
  "pc_paramsCRDControllers (unlink_binding nn old new s) = pc_paramsCRDControllers s"
  "pc_running (unlink_binding nn old new s) = pc_running s"
  "pc_next (unlink_binding nn old new s) = pc_next s"
  by (simp_all add: unlink_binding_def split: option.split)

lemma unlink_index:
  assumes idx: "\<And>dn. pc_definitionsToBindings s dn = nonempty (R dn)" and only: "\<And>dn. nn \<in> R dn \<Longrightarrow> dn = old"
  shows "pc_definitionsToBindings (unlink_binding nn old new s) dn = nonempty (R dn - (if old \<noteq> new then {nn} else {}))"
proof (cases "old \<noteq> new \<and> dn = old")
  case True
  then show ?thesis by (simp add: unlink_binding_def idx) (simp add: nonempty_def idx)
next
  case False
  then have "R dn - (if old \<noteq> new then {nn} else {}) = R dn" using only [of dn] by auto
  with False show ?thesis by (simp add: unlink_binding_def idx) (auto simp: nonempty_def idx)
qed

lemma reconcilePolicyBinding_run:
  assumes "\<not> unchanged_binding (pc_bindingInfos s (getNamespaceName ns name)) binding"
    and "i0 = (case pc_bindingInfos s (getNamespaceName ns name) of Some i \<Rightarrow> i | None \<Rightarrow> \<lparr>bi_validator = None, bi_lastReconciledValue = None\<rparr>)"
    and "s2 = unlink_binding (getNamespaceName ns name) (binding_policy (bi_lastReconciledValue i0)) (binding_policy binding)
      (s\<lparr>pc_cachedPolicies := None, pc_bindingInfos := (pc_bindingInfos s)(getNamespaceName ns name \<mapsto> i0)\<rparr>)"
  shows "reconcilePolicyBinding ns name binding s =
    (case binding of
       None \<Rightarrow> (None, s2\<lparr>pc_bindingInfos := (pc_bindingInfos s2)(getNamespaceName ns name := None)\<rparr>)
     | Some b \<Rightarrow> (None, s2\<lparr>pc_definitionsToBindings := (pc_definitionsToBindings s2)
           (binding_policy binding \<mapsto> insert (getNamespaceName ns name)
              (case pc_definitionsToBindings s2 (binding_policy binding) of None \<Rightarrow> {} | Some d \<Rightarrow> d)),
         pc_bindingInfos := (pc_bindingInfos s2)(getNamespaceName ns name \<mapsto> \<lparr>bi_validator = None, bi_lastReconciledValue = Some b\<rparr>)\<rparr>))"
proof -
  have "bi_lastReconciledValue i0 = None \<or> binding = None \<or> vb_Spec (the (bi_lastReconciledValue i0)) \<noteq> vb_Spec (the binding)"
    using assms(1) by (auto simp: assms(2) unchanged_binding_def split: option.splits)
  then show ?thesis
    unfolding reconcilePolicyBinding_def Let_def assms(2) [symmetric] assms(3) [symmetric] by auto
qed

lemma reconcilePolicyBinding_changed:
  assumes inv: "pc_inv env s" and new: "\<not> unchanged_binding (pc_bindingInfos s (getNamespaceName ns name)) binding"
  shows "binding_changed (getNamespaceName ns name) binding s (snd (reconcilePolicyBinding ns name binding s))"
proof -
  let ?nn = "getNamespaceName ns name" and ?new = "binding_policy binding"
  define i0 where "i0 = (case pc_bindingInfos s ?nn of Some i \<Rightarrow> i | None \<Rightarrow> \<lparr>bi_validator = None, bi_lastReconciledValue = None\<rparr>)"
  define old where "old = binding_policy (bi_lastReconciledValue i0)"
  let ?s1 = "s\<lparr>pc_cachedPolicies := None, pc_bindingInfos := (pc_bindingInfos s)(?nn \<mapsto> i0)\<rparr>"
  define s2 where "s2 = unlink_binding ?nn old ?new ?s1"
  have idx: "pc_definitionsToBindings ?s1 dn = nonempty {bn. refers s bn dn}" for dn
    using inv by (simp add: pc_inv_def indexed_nonempty)
  have only: "dn = old" if "?nn \<in> {bn. refers s bn dn}" for dn
    using that by (auto simp: refers_def old_def i0_def)
  have nameless: "\<not> refers s bn (getNamespaceName '''' '''')" for bn
    using inv by (simp add: pc_inv_def no_nameless_policy)
  have s2_idx: "pc_definitionsToBindings s2 dn = nonempty ({bn. refers s bn dn} - (if old \<noteq> ?new then {?nn} else {}))" for dn
    unfolding s2_def by (rule unlink_index [OF idx only])
  note run = reconcilePolicyBinding_run [OF new i0_def s2_def [unfolded old_def]]
  have final: "{bn. refers s bn dn} - (if old \<noteq> ?new then {?nn} else {}) = {bn. refers s bn dn} - {?nn}"
    if "binding = None \<or> dn \<noteq> ?new" for dn
    using only [of dn] nameless that by (auto simp: binding_policy_def)
  show ?thesis
  proof (cases binding)
    case None
    then show ?thesis using final unfolding run binding_changed_def by (simp add: s2_idx) (simp add: s2_def)
  next
    case (Some b)
    have "pc_definitionsToBindings (snd (reconcilePolicyBinding ns name binding s)) dn =
        nonempty ({bn. refers s bn dn} - {?nn} \<union> (if ?new = dn then {?nn} else {}))" for dn
    proof (cases "dn = ?new")
      case True
      then show ?thesis unfolding run by (auto simp: Some s2_idx nonempty_def)
    next
      case False
      then show ?thesis using final [of dn] unfolding run by (auto simp: Some s2_idx)
    qed
    then show ?thesis unfolding binding_changed_def by (simp add: run) (simp add: Some s2_def)
  qed
qed

lemma inv_binding_changed:
  assumes inv: "pc_inv env s" and ch: "binding_changed nn binding s s'"
    and named: "\<And>b. binding = Some b \<Longrightarrow> bs_PolicyName (vb_Spec b) \<noteq> ''''"
  shows "pc_inv env s'"
proof -
  have bs: "pc_bindingInfos s' = (pc_bindingInfos s)(nn := map_option (\<lambda>b. \<lparr>bi_validator = None, bi_lastReconciledValue = Some b\<rparr>) binding)"
    and ds: "pc_definitionInfo s' = pc_definitionInfo s" and c: "pc_cachedPolicies s' = None"
    and idx: "\<And>dn. pc_definitionsToBindings s' dn =
        nonempty ({bn. refers s bn dn} - {nn} \<union> (if binding \<noteq> None \<and> binding_policy binding = dn then {nn} else {}))"
    using ch by (simp_all add: binding_changed_def)
  have refers: "refers s' bn dn \<longleftrightarrow> (if bn = nn then binding \<noteq> None \<and> binding_policy binding = dn else refers s bn dn)" for bn dn
    by (cases binding) (auto simp: refers_def bs)
  have "policies_known s'" using inv ds by (simp add: pc_inv_def policies_known_def)
  moreover have "bindings_known s'" unfolding bindings_known_def
  proof (intro conjI allI impI)
    show "finite (dom (pc_bindingInfos s'))" using inv by (simp add: bs pc_inv_def bindings_known_def)
  next
    fix bn b
    assume b: "pc_bindingInfos s' bn = Some b"
    show "\<exists>v. bi_lastReconciledValue b = Some v \<and> bs_PolicyName (vb_Spec v) \<noteq> ''''"
    proof (cases "bn = nn")
      case True
      with b named show ?thesis by (auto simp: bs)
    next
      case False
      with b inv bindings_knownD [of s bn b] show ?thesis by (simp add: bs pc_inv_def)
    qed
  qed
  moreover have "indexed s'" unfolding indexed_def
  proof
    fix dn
    have "{bn. refers s' bn dn} = {bn. refers s bn dn} - {nn} \<union> (if binding \<noteq> None \<and> binding_policy binding = dn then {nn} else {})"
      by (auto simp: refers)
    then show "pc_definitionsToBindings s' dn = (if {bn. refers s' bn dn} = {} then None else Some {bn. refers s' bn dn})"
      using idx [of dn] by (simp add: nonempty_def)
  qed
  moreover have "current env s'" unfolding current_def
  proof (intro allI impI)
    fix bn b v w
    assume b: "pc_bindingInfos s' bn = Some b" "bi_lastReconciledValue b = Some v" "bi_validator b = Some w"
    then have "pc_bindingInfos s bn = Some b" by (auto simp: bs split: if_splits)
    with currentD [OF _ this b(2,3), of env] inv
    show "\<exists>info d. pc_definitionInfo s' (binding_policy (Some v)) = Some info \<and> di_lastReconciledValue info = Some d \<and> w = compile_policy env d"
      by (simp add: ds pc_inv_def)
  qed
  moreover have "cached env s'" by (simp add: cached_def c)
  ultimately show ?thesis by (simp add: pc_inv_def)
qed

lemma reconcilePolicyBinding_unchanged:
  assumes "unchanged_binding (pc_bindingInfos s (getNamespaceName ns name)) binding"
  shows "reconcilePolicyBinding ns name binding s = (None, s\<lparr>pc_cachedPolicies := None\<rparr>)"
proof -
  obtain i b0 b where i: "pc_bindingInfos s (getNamespaceName ns name) = Some i" "bi_lastReconciledValue i = Some b0" "binding = Some b" "vb_Spec b0 = vb_Spec b"
    using assms by (auto simp: unchanged_binding_def split: option.splits)
  then show ?thesis by (cases s) (simp add: reconcilePolicyBinding_def Let_def map_upd_triv)
qed

lemma reconcilePolicyBinding_inv:
  assumes inv: "pc_inv env s" and named: "\<And>b. binding = Some b \<Longrightarrow> bs_PolicyName (vb_Spec b) \<noteq> ''''"
  shows "pc_inv env (snd (reconcilePolicyBinding ns name binding s)) \<and>
    abs_policies (snd (reconcilePolicyBinding ns name binding s)) = abs_policies s \<and>
    abs_bindings (snd (reconcilePolicyBinding ns name binding s)) = (abs_bindings s)(getNamespaceName ns name := map_option vb_Spec binding)"
proof (cases "unchanged_binding (pc_bindingInfos s (getNamespaceName ns name)) binding")
  case True
  then have "abs_bindings s (getNamespaceName ns name) = map_option vb_Spec binding"
    by (auto simp: unchanged_binding_def abs_bindings_def split: option.splits)
  then have "(abs_bindings s)(getNamespaceName ns name := map_option vb_Spec binding) = abs_bindings s" by (simp add: fun_upd_idem)
  with reconcilePolicyBinding_unchanged [OF True] inv_uncached [OF inv] show ?thesis by simp
next
  case False
  note ch = reconcilePolicyBinding_changed [OF inv False]
  have "abs_policies (snd (reconcilePolicyBinding ns name binding s)) = abs_policies s"
    using ch by (simp add: binding_changed_def abs_policies_def)
  moreover have "abs_bindings (snd (reconcilePolicyBinding ns name binding s)) = (abs_bindings s)(getNamespaceName ns name := map_option vb_Spec binding)"
    using ch by (auto simp: binding_changed_def abs_bindings_def option.map_comp comp_def)
  ultimately show ?thesis using inv_binding_changed [OF inv ch named] by blast
qed

subsection \<open>The snapshot\<close>

definition enumerates :: "go_order \<Rightarrow> bool" where
  "enumerates order \<longleftrightarrow> (\<forall>S. finite S \<longrightarrow> set (order S) = S \<and> distinct (order S))"

text \<open>Compiling the validator of a binding, if it has none and its policy has no error.\<close>

definition with_validator :: "('u, 'z, 'srv) policy_env \<Rightarrow> definitionInfo \<Rightarrow> ('u, 'z) bindingInfo \<Rightarrow> ('u, 'z) bindingInfo" where
  "with_validator env info b =
     (if bi_validator b = None \<and> di_configurationError info = None then b\<lparr>bi_validator := Some (compile_policy env (the (di_lastReconciledValue info)))\<rparr> else b)"

lemma with_validator_idem [simp]: "with_validator env info (with_validator env info b) = with_validator env info b"
  by (simp add: with_validator_def)

lemma with_validator_last [simp]: "bi_lastReconciledValue (with_validator env info b) = bi_lastReconciledValue b"
  by (simp add: with_validator_def)

lemma latestBindings_run:
  assumes "di_lastReconciledValue info \<noteq> None" "\<And>n. n \<in> set nns \<Longrightarrow> m n \<noteq> None"
  shows "latestBindings env info nns m =
    Ret (map (\<lambda>n. with_validator env info (the (m n))) nns, \<lambda>k. if k \<in> set nns then map_option (with_validator env info) (m k) else m k)"
  using assms(2)
proof (induction nns arbitrary: m)
  case (Cons n nns)
  then obtain b where b: "m n = Some b" by fastforce
  let ?b = "with_validator env info b"
  have ih: "latestBindings env info nns (m(n \<mapsto> ?b)) =
    Ret (map (\<lambda>k. with_validator env info (the ((m(n \<mapsto> ?b)) k))) nns,
      \<lambda>k. if k \<in> set nns then map_option (with_validator env info) ((m(n \<mapsto> ?b)) k) else (m(n \<mapsto> ?b)) k)"
    by (rule Cons.IH) (use Cons.prems in auto)
  have "latestBindings env info (n # nns) m = bind_outcome (latestBindings env info nns (m(n \<mapsto> ?b))) (\<lambda>(bs, m). Ret (?b # bs, m))"
    using assms(1) by (auto simp: b with_validator_def)
  also have "\<dots> = Ret (map (\<lambda>n. with_validator env info (the (m n))) (n # nns),
      \<lambda>k. if k \<in> set (n # nns) then map_option (with_validator env info) (m k) else m k)"
    unfolding ih by (auto simp: b)
  finally show ?case .
qed simp

text \<open>The bindings after those of the policies in \<open>P\<close> were compiled.\<close>

definition compiled ::
  "('u, 'z, 'srv) policy_env \<Rightarrow> ('u, 'z, 'srv) policyController \<Rightarrow> namespacedName set \<Rightarrow> namespacedName \<rightharpoonup> ('u, 'z) bindingInfo" where
  "compiled env s P = (\<lambda>bn. map_option (\<lambda>b. if binding_policy (bi_lastReconciledValue b) \<in> P
     then with_validator env (the (pc_definitionInfo s (binding_policy (bi_lastReconciledValue b)))) b else b) (pc_bindingInfos s bn))"

definition data_of ::
  "('u, 'z, 'srv) policy_env \<Rightarrow> go_order \<Rightarrow> ('u, 'z, 'srv) policyController \<Rightarrow> namespacedName \<Rightarrow> ('u, 'z) policyData" where
  "data_of env order s nn =
     (let info = the (pc_definitionInfo s nn) in
      \<lparr>pdt_definitionInfo = info,
       pdt_paramController = (case ps_ParamKind (vp_Spec (the (di_lastReconciledValue info))) of None \<Rightarrow> None
         | Some k \<Rightarrow> map_option pi_controller (pc_paramsCRDControllers s k)),
       pdt_bindings = map (\<lambda>bn. with_validator env info (the (pc_bindingInfos s bn))) (order {bn. refers s bn nn})\<rparr>)"

lemma finite_refers: "bindings_known s \<Longrightarrow> finite {bn. refers s bn nn}"
  by (rule finite_subset [of _ "dom (pc_bindingInfos s)"]) (auto simp: bindings_known_def refers_def)

lemma latestBindings_compiled:
  assumes "bindings_known s" "pc_definitionInfo s nn = Some info" "di_lastReconciledValue info \<noteq> None"
    and "set ns = {bn. refers s bn nn}"
  shows "latestBindings env info ns (compiled env s P) =
    Ret (map (\<lambda>bn. with_validator env info (the (pc_bindingInfos s bn))) ns, compiled env s (insert nn P))"
proof -
  have in_ns: "bn \<in> set ns \<Longrightarrow> \<exists>b. pc_bindingInfos s bn = Some b \<and> binding_policy (bi_lastReconciledValue b) = nn" for bn
    by (auto simp: assms(4) refers_def)
  have "latestBindings env info ns (compiled env s P) =
      Ret (map (\<lambda>n. with_validator env info (the (compiled env s P n))) ns,
        \<lambda>k. if k \<in> set ns then map_option (with_validator env info) (compiled env s P k) else compiled env s P k)"
    by (rule latestBindings_run [OF assms(3)]) (auto simp: compiled_def dest: in_ns)
  moreover have "with_validator env info (the (compiled env s P bn)) = with_validator env info (the (pc_bindingInfos s bn))" if "bn \<in> set ns" for bn
    using in_ns [OF that] assms(2) by (auto simp: compiled_def)
  moreover have "(if k \<in> set ns then map_option (with_validator env info) (compiled env s P k) else compiled env s P k) = compiled env s (insert nn P) k" for k
  proof (cases "pc_bindingInfos s k")
    case (Some b)
    have "k \<in> set ns \<longleftrightarrow> binding_policy (bi_lastReconciledValue b) = nn"
      using bindings_knownD [OF assms(1) Some] by (auto simp: assms(4) refers_def Some)
    then show ?thesis using assms(2) Some by (auto simp: compiled_def)
  qed (simp add: compiled_def)
  ultimately show ?thesis by simp
qed

lemma latestLoop_run:
  assumes inv: "pc_inv env s" and order: "enumerates order" and "set nns \<subseteq> dom (pc_definitionInfo s)"
  shows "latestLoop env order s nns (compiled env s P) = Ret (map (data_of env order s) nns, compiled env s (P \<union> set nns))"
  using assms(3)
proof (induction nns arbitrary: P)
  case (Cons nn nns)
  have bk: "bindings_known s" and idx: "indexed s" using inv by (simp_all add: pc_inv_def)
  obtain info where info: "pc_definitionInfo s nn = Some info" using Cons.prems by auto
  obtain d where d: "di_lastReconciledValue info = Some d"
    using inv info by (auto simp: pc_inv_def policies_known_def)
  have keys: "(case pc_definitionsToBindings s nn of None \<Rightarrow> {} | Some keys \<Rightarrow> keys) = {bn. refers s bn nn}"
    using indexedD [OF idx, of nn] by (auto split: option.splits if_splits)
  have "set (order {bn. refers s bn nn}) = {bn. refers s bn nn}"
    using order finite_refers [OF bk] by (simp add: enumerates_def)
  note bs = latestBindings_compiled [OF bk info _ this, of env P]
  show ?case using Cons.IH [of "insert nn P"] Cons.prems by (simp add: info keys bs d data_of_def)
qed simp

lemma refers_compiled:
  assumes "pc_bindingInfos s' = compiled env s P"
  shows "refers s' bn nn \<longleftrightarrow> refers s bn nn"
  by (rule refers_cong) (simp add: assms compiled_def option.map_comp comp_def if_distrib cong: if_cong)

lemma entry_data_of:
  assumes inv: "pc_inv env s" and order: "enumerates order"
    and s': "pc_bindingInfos s' = compiled env s (dom (pc_definitionInfo s))" "pc_definitionInfo s' = pc_definitionInfo s"
      "pc_paramsCRDControllers s' = pc_paramsCRDControllers s"
    and nn: "nn \<in> dom (pc_definitionInfo s)"
  shows "entry env s' nn (data_of env order s nn)"
proof -
  obtain info where info: "pc_definitionInfo s nn = Some info" using nn by auto
  obtain d where d: "di_lastReconciledValue info = Some d" using inv info by (auto simp: pc_inv_def policies_known_def)
  have "set (order {bn. refers s bn nn}) = {bn. refers s bn nn}"
    using order inv finite_refers [of s nn] by (simp add: enumerates_def pc_inv_def)
  then have bs: "set (pdt_bindings (data_of env order s nn)) =
      (\<lambda>bn. with_validator env info (the (pc_bindingInfos s bn))) ` {bn. refers s bn nn}"
    by (simp add: data_of_def info)
  have at: "pc_bindingInfos s' bn = Some (with_validator env info (the (pc_bindingInfos s bn)))" if ref: "refers s bn nn" for bn
  proof -
    obtain b v where "pc_bindingInfos s bn = Some b" "bi_lastReconciledValue b = Some v" "binding_policy (Some v) = nn"
      using ref by (auto simp: refers_def)
    with nn info show ?thesis by (simp add: s' compiled_def)
  qed
  have "set (pdt_bindings (data_of env order s nn)) = {b. \<exists>bn. pc_bindingInfos s' bn = Some b \<and> refers s' bn nn}"
    unfolding bs refers_compiled [OF s'(1)] using at by (auto 4 3)
  moreover have "bi_validator (with_validator env info (the (pc_bindingInfos s bn))) = Some (compile_policy env d)"
    if ref: "refers s bn nn" and ok: "di_configurationError info = None" for bn
  proof -
    obtain b v where b: "pc_bindingInfos s bn = Some b" "bi_lastReconciledValue b = Some v" "binding_policy (Some v) = nn"
      using ref by (auto simp: refers_def)
    show ?thesis
    proof (cases "bi_validator b")
      case None
      then show ?thesis by (simp add: with_validator_def b ok d)
    next
      case (Some w)
      with currentD [OF _ b(1,2) Some, of env] inv info d b(3) show ?thesis by (simp add: with_validator_def b pc_inv_def)
    qed
  qed
  ultimately show ?thesis unfolding entry_def using bs d info by (auto simp: s' data_of_def cong: option.case_cong)
qed

lemma inv_compiled:
  assumes inv: "pc_inv env s"
    and s': "pc_bindingInfos s' = compiled env s (dom (pc_definitionInfo s))" "pc_definitionInfo s' = pc_definitionInfo s"
      "pc_definitionsToBindings s' = pc_definitionsToBindings s" and c: "cached env s'"
  shows "pc_inv env s'"
proof -
  have pk: "policies_known s'" using inv by (simp add: pc_inv_def policies_known_def s')
  have "dom (pc_bindingInfos s') = dom (pc_bindingInfos s)" by (auto simp: s' compiled_def)
  moreover have last: "\<exists>b0. pc_bindingInfos s bn = Some b0 \<and> bi_lastReconciledValue b = bi_lastReconciledValue b0"
    if "pc_bindingInfos s' bn = Some b" for bn b using that by (auto simp: s' compiled_def split: if_splits)
  ultimately have "bindings_known s'" unfolding bindings_known_def
    using inv by (metis bindings_knownD bindings_known_def pc_inv_def)
  moreover have "indexed s'" using inv by (simp add: pc_inv_def indexed_def s' refers_compiled [OF s'(1)])
  moreover have "current env s'" unfolding current_def
  proof (intro allI impI)
    fix bn b v w
    assume b: "pc_bindingInfos s' bn = Some b" "bi_lastReconciledValue b = Some v" "bi_validator b = Some w"
    obtain b0 where b0: "pc_bindingInfos s bn = Some b0" "bi_lastReconciledValue b0 = Some v" using last [OF b(1)] b(2) by auto
    show "\<exists>info d. pc_definitionInfo s' (binding_policy (Some v)) = Some info \<and> di_lastReconciledValue info = Some d \<and> w = compile_policy env d"
    proof (cases "bi_validator b0")
      case None
      with b b0 obtain info where info: "pc_definitionInfo s (binding_policy (Some v)) = Some info" "b = with_validator env info b0"
        by (auto simp: s' compiled_def split: if_splits)
      then obtain d where "di_lastReconciledValue info = Some d" using inv by (auto simp: pc_inv_def policies_known_def)
      with info b(3) None show ?thesis by (auto simp: s' with_validator_def split: if_splits)
    next
      case (Some w0)
      then have "b = b0" using b(1) b0 by (auto simp: s' compiled_def with_validator_def split: if_splits)
      with currentD [OF _ b0 Some, of env] inv b(3) Some show ?thesis by (simp add: s' pc_inv_def)
    qed
  qed
  ultimately show ?thesis using c pk by (simp add: pc_inv_def)
qed

lemma latestPolicyData_inv:
  assumes inv: "pc_inv env s" and order: "enumerates order"
  shows "\<exists>ps s'. latestPolicyData env order s = Ret (ps, s') \<and> pc_inv env s' \<and> snapshot_of env s' ps \<and>
    abs_policies s' = abs_policies s \<and> abs_bindings s' = abs_bindings s \<and> pc_definitionInfo s' = pc_definitionInfo s"
proof (cases "pc_cachedPolicies s")
  case None
  let ?D = "dom (pc_definitionInfo s)"
  have D: "set (order ?D) = ?D" using order inv by (simp add: enumerates_def pc_inv_def policies_known_def)
  have none: "compiled env s {} = pc_bindingInfos s" by (rule ext) (simp add: compiled_def option.map_ident)
  define ps where "ps = map (data_of env order s) (order ?D)"
  define s' where "s' = s\<lparr>pc_bindingInfos := compiled env s ?D, pc_cachedPolicies := (if ps = [] then None else Some ps)\<rparr>"
  have run: "latestPolicyData env order s = Ret (ps, s')"
    using latestLoop_run [OF inv order, of "order ?D" "{}"] D by (simp add: latestPolicyData_def None none ps_def s'_def)
  have ent: "entry env s' nn (data_of env order s nn)" if "nn \<in> ?D" for nn
    by (rule entry_data_of [OF inv order]) (simp_all add: s'_def that)
  have snap: "snapshot_of env s' ps"
    unfolding snapshot_of_def
  proof (intro conjI ballI)
    fix nn
    assume "nn \<in> dom (pc_definitionInfo s')"
    then have nn: "nn \<in> ?D" by (simp add: s'_def)
    then have "data_of env order s nn \<in> set ps" using D by (simp add: ps_def)
    with ent [OF nn] show "\<exists>p \<in> set ps. entry env s' nn p" by (rule bexI)
  next
    fix p
    assume "p \<in> set ps"
    then obtain nn where "nn \<in> ?D" "p = data_of env order s nn" using D by (auto simp: ps_def)
    with ent show "\<exists>nn. entry env s' nn p" by metis
  qed
  moreover have "pc_inv env s'"
    using snap by (intro inv_compiled [OF inv]) (auto simp: s'_def cached_def split: if_splits)
  moreover have "abs_policies s' = abs_policies s" by (simp add: s'_def abs_policies_def)
  moreover have "abs_bindings s' = abs_bindings s"
    by (simp add: s'_def abs_bindings_def compiled_def option.map_comp comp_def if_distrib cong: if_cong)
  moreover have "pc_definitionInfo s' = pc_definitionInfo s" by (simp add: s'_def)
  ultimately show ?thesis using run by blast
next
  case (Some ps)
  then show ?thesis using inv by (simp add: latestPolicyData_def pc_inv_def cached_def)
qed

section \<open>Runs of the controller\<close>

text \<open>A change of a policy or a binding that a worker reconciles, a refresh of the snapshot, or a change of the server.\<close>

datatype 'srv pc_event =
    PolicyEvent string string "ValidatingAdmissionPolicy option"
  | BindingEvent string string "ValidatingAdmissionPolicyBinding option"
  | SnapshotEvent go_order
  | ServerEvent 'srv

fun pc_exec :: "('u, 'z, 'srv) policy_env \<Rightarrow> 'srv pc_event \<Rightarrow> ('u, 'z, 'srv) policyController \<Rightarrow> ('u, 'z, 'srv) policyController result" where
  "pc_exec env (PolicyEvent ns name d) s = bind_outcome (reconcilePolicyDefinition env ns name d s) (\<lambda>(err, s). Ret s)"
| "pc_exec env (BindingEvent ns name b) s = Ret (snd (reconcilePolicyBinding ns name b s))"
| "pc_exec env (SnapshotEvent order) s = bind_outcome (latestPolicyData env order s) (\<lambda>(ps, s). Ret s)"
| "pc_exec env (ServerEvent srv) s = Ret (s\<lparr>pc_server := srv\<rparr>)"

fun pc_run :: "('u, 'z, 'srv) policy_env \<Rightarrow> 'srv pc_event list \<Rightarrow> ('u, 'z, 'srv) policyController \<Rightarrow> ('u, 'z, 'srv) policyController result" where
  "pc_run env [] s = Ret s"
| "pc_run env (ev # evs) s = bind_outcome (pc_exec env ev s) (pc_run env evs)"

text \<open>The specification: the policies and bindings are what the last change of each name says.\<close>

fun policies_after :: "'srv pc_event list \<Rightarrow> (namespacedName \<rightharpoonup> ValidatingAdmissionPolicySpec) \<Rightarrow> namespacedName \<rightharpoonup> ValidatingAdmissionPolicySpec" where
  "policies_after [] m = m"
| "policies_after (PolicyEvent ns name d # evs) m = policies_after evs (m(getNamespaceName ns name := map_option vp_Spec d))"
| "policies_after (ev # evs) m = policies_after evs m"

fun bindings_after :: "'srv pc_event list \<Rightarrow> (namespacedName \<rightharpoonup> ValidatingAdmissionPolicyBindingSpec) \<Rightarrow> namespacedName \<rightharpoonup> ValidatingAdmissionPolicyBindingSpec" where
  "bindings_after [] m = m"
| "bindings_after (BindingEvent ns name b # evs) m = bindings_after evs (m(getNamespaceName ns name := map_option vb_Spec b))"
| "bindings_after (ev # evs) m = bindings_after evs m"

fun valid_event :: "'srv pc_event \<Rightarrow> bool" where
  "valid_event (BindingEvent ns name (Some b)) = (bs_PolicyName (vb_Spec b) \<noteq> '''')"
| "valid_event (SnapshotEvent order) = enumerates order"
| "valid_event ev = True"

lemma pc_exec_inv:
  assumes inv: "pc_inv env s" and "valid_event ev"
  shows "\<exists>s'. pc_exec env ev s = Ret s' \<and> pc_inv env s' \<and> abs_policies s' = policies_after [ev] (abs_policies s) \<and>
    abs_bindings s' = bindings_after [ev] (abs_bindings s)"
proof (cases ev)
  case (PolicyEvent ns name d)
  with reconcilePolicyDefinition_inv [OF inv, of ns name d] show ?thesis by auto
next
  case (BindingEvent ns name b)
  with reconcilePolicyBinding_inv [OF inv, of b ns name] assms(2) show ?thesis by (cases b) auto
next
  case (SnapshotEvent order)
  with latestPolicyData_inv [OF inv, of order] assms(2) show ?thesis by auto
next
  case (ServerEvent srv)
  with inv show ?thesis by (simp add: inv_server)
qed

lemma after_Cons:
  "policies_after (ev # evs) m = policies_after evs (policies_after [ev] m)"
  "bindings_after (ev # evs) m' = bindings_after evs (bindings_after [ev] m')"
  by (cases ev; simp)+

lemma pc_run_inv:
  assumes "pc_inv env s" and "\<forall>ev \<in> set evs. valid_event ev"
  shows "\<exists>s'. pc_run env evs s = Ret s' \<and> pc_inv env s' \<and> abs_policies s' = policies_after evs (abs_policies s) \<and>
    abs_bindings s' = bindings_after evs (abs_bindings s)"
  using assms
proof (induction evs arbitrary: s)
  case (Cons ev evs)
  then obtain s1 where s1: "pc_exec env ev s = Ret s1" "pc_inv env s1" "abs_policies s1 = policies_after [ev] (abs_policies s)"
    "abs_bindings s1 = bindings_after [ev] (abs_bindings s)" using pc_exec_inv [of env s ev] by auto
  from Cons.IH [OF s1(2)] Cons.prems(2) s1 show ?case
    by (simp only: pc_run.simps bind_outcome.simps after_Cons [of ev evs]) simp
qed simp

text \<open>An entry of a snapshot describes a policy, its bindings and their validators.\<close>

definition describes ::
  "('u, 'z, 'srv) policy_env \<Rightarrow> (namespacedName \<rightharpoonup> ValidatingAdmissionPolicyBindingSpec) \<Rightarrow> namespacedName \<Rightarrow>
   ValidatingAdmissionPolicySpec \<Rightarrow> ('u, 'z) policyData \<Rightarrow> bool" where
  "describes env bindings nn spec p \<longleftrightarrow>
     (\<exists>d. di_lastReconciledValue (pdt_definitionInfo p) = Some d \<and> vp_Spec d = spec \<and>
        (\<lambda>b. map_option vb_Spec (bi_lastReconciledValue b)) ` set (pdt_bindings p) =
          Some ` {bspec. bspec \<in> ran bindings \<and> getNamespaceName '''' (bs_PolicyName bspec) = nn} \<and>
        (di_configurationError (pdt_definitionInfo p) = None \<longrightarrow>
          (\<forall>b \<in> set (pdt_bindings p). bi_validator b = Some (compile_policy env d))))"

lemma entry_describes:
  assumes inv: "pc_inv env s" and "entry env s nn p"
  shows "\<exists>spec. abs_policies s nn = Some spec \<and> describes env (abs_bindings s) nn spec p"
proof -
  obtain info d where info: "pc_definitionInfo s nn = Some info" "di_lastReconciledValue info = Some d" "pdt_definitionInfo p = info"
    and bs: "set (pdt_bindings p) = {b. \<exists>bn. pc_bindingInfos s bn = Some b \<and> refers s bn nn}"
    and v: "di_configurationError info = None \<longrightarrow> (\<forall>b \<in> set (pdt_bindings p). bi_validator b = Some (compile_policy env d))"
    using assms(2) by (auto simp: entry_def)
  have bk: "bindings_known s" using inv by (simp add: pc_inv_def)
  have "(\<lambda>b. map_option vb_Spec (bi_lastReconciledValue b)) ` set (pdt_bindings p) =
      Some ` {bspec. bspec \<in> ran (abs_bindings s) \<and> getNamespaceName '''' (bs_PolicyName bspec) = nn}" (is "?L = ?R")
  proof
    show "?L \<subseteq> ?R"
    proof
      fix x
      assume "x \<in> ?L"
      then obtain bn b v where b: "pc_bindingInfos s bn = Some b" "bi_lastReconciledValue b = Some v" "binding_policy (Some v) = nn" "x = Some (vb_Spec v)"
        by (auto simp: bs refers_def)
      then have "abs_bindings s bn = Some (vb_Spec v)" by (simp add: abs_bindings_def)
      with b show "x \<in> ?R" by (auto simp: binding_policy_def intro: ranI)
    qed
    show "?R \<subseteq> ?L"
    proof
      fix x
      assume "x \<in> ?R"
      then obtain bn b where b: "pc_bindingInfos s bn = Some b" "x = Some (vb_Spec (the (bi_lastReconciledValue b)))"
        "getNamespaceName '''' (bs_PolicyName (vb_Spec (the (bi_lastReconciledValue b)))) = nn"
        by (auto simp: abs_bindings_def ran_def)
      with bindings_knownD [OF bk b(1)] have "refers s bn nn" "x = map_option vb_Spec (bi_lastReconciledValue b)"
        by (auto simp: refers_def binding_policy_def)
      then show "x \<in> ?L" unfolding bs using b(1) by blast
    qed
  qed
  with info v show ?thesis by (simp add: describes_def abs_policies_def)
qed

lemma abs_init: "abs_policies (newPolicyController srv) = Map.empty" "abs_bindings (newPolicyController srv) = Map.empty"
  by (simp_all add: abs_policies_def abs_bindings_def newPolicyController_def)

lemma snapshot_describes:
  assumes inv: "pc_inv env s" and snap: "snapshot_of env s ps"
  shows "(\<forall>nn spec. abs_policies s nn = Some spec \<longrightarrow> (\<exists>p \<in> set ps. describes env (abs_bindings s) nn spec p)) \<and>
    (\<forall>p \<in> set ps. \<exists>nn spec. abs_policies s nn = Some spec \<and> describes env (abs_bindings s) nn spec p)"
proof (intro conjI allI impI ballI)
  fix nn spec
  assume spec: "abs_policies s nn = Some spec"
  then have "nn \<in> dom (pc_definitionInfo s)" by (auto simp: abs_policies_def)
  then obtain p where p: "p \<in> set ps" "entry env s nn p" using snap by (auto simp: snapshot_of_def)
  with entry_describes [OF inv p(2)] spec have "describes env (abs_bindings s) nn spec p" by simp
  then show "\<exists>p \<in> set ps. describes env (abs_bindings s) nn spec p" using p(1) by (rule bexI)
next
  fix p
  assume "p \<in> set ps"
  then obtain nn where "entry env s nn p" using snap by (auto simp: snapshot_of_def)
  with entry_describes [OF inv] show "\<exists>nn spec. abs_policies s nn = Some spec \<and> describes env (abs_bindings s) nn spec p" by blast
qed

text \<open>
  C5. The snapshot that requests are validated against is exact. After any sequence of reconciled
  changes of policies and bindings, in any order and with snapshots and changes of the server in
  between, the controller has not panicked and a snapshot has an entry for exactly the policies
  that exist, with the specification of their last change, exactly the bindings whose last change
  names the policy, whichever of the two came first, and, unless the policy has a configuration error,
  for each of them a validator compiled from the current specification of the policy: no stale
  validator survives a change.
\<close>

theorem snapshot_exact:
  assumes "\<forall>ev \<in> set evs. valid_event ev" and "enumerates order"
  shows "\<exists>s ps s'. pc_run env evs (newPolicyController srv) = Ret s \<and> latestPolicyData env order s = Ret (ps, s') \<and>
    (\<forall>nn spec. policies_after evs Map.empty nn = Some spec \<longrightarrow>
       (\<exists>p \<in> set ps. describes env (bindings_after evs Map.empty) nn spec p)) \<and>
    (\<forall>p \<in> set ps. \<exists>nn spec. policies_after evs Map.empty nn = Some spec \<and>
       describes env (bindings_after evs Map.empty) nn spec p)"
proof -
  obtain s where s: "pc_run env evs (newPolicyController srv) = Ret s" "pc_inv env s"
    "abs_policies s = policies_after evs Map.empty" "abs_bindings s = bindings_after evs Map.empty"
    using pc_run_inv [OF pc_inv_init assms(1), of env srv] by (auto simp: abs_init)
  obtain ps s' where s': "latestPolicyData env order s = Ret (ps, s')" "pc_inv env s'" "snapshot_of env s' ps"
    "abs_policies s' = abs_policies s" "abs_bindings s' = abs_bindings s"
    using latestPolicyData_inv [OF s(2) assms(2)] by blast
  from snapshot_describes [OF s'(2,3)] s s' show ?thesis by (simp add: s'(4,5))
qed

subsection \<open>Watchers of parameters\<close>

definition uses :: "('u, 'z, 'srv) policyController \<Rightarrow> namespacedName \<Rightarrow> ParamKind \<Rightarrow> bool" where
  "uses s nn k \<longleftrightarrow> (\<exists>info d. pc_definitionInfo s nn = Some info \<and> di_lastReconciledValue info = Some d \<and> ps_ParamKind (vp_Spec d) = Some k)"

definition addresses :: "('u, 'z, 'srv) policyController \<Rightarrow> ParamKind \<rightharpoonup> nat" where
  "addresses s = (\<lambda>k. map_option pi_controller (pc_paramsCRDControllers s k))"

definition allocated :: "('k \<rightharpoonup> nat) \<Rightarrow> nat set \<Rightarrow> nat \<Rightarrow> bool" where
  "allocated C running next \<longleftrightarrow> (\<forall>k c. C k = Some c \<longrightarrow> c < next) \<and>
     (\<forall>k k' c. C k = Some c \<longrightarrow> C k' = Some c \<longrightarrow> k = k') \<and> (\<forall>c. c \<in> running \<longleftrightarrow> (\<exists>k. C k = Some c))"

definition depended :: "('u, 'z, 'srv) policyController \<Rightarrow> (namespacedName \<Rightarrow> ParamKind \<Rightarrow> bool) \<Rightarrow> bool" where
  "depended s U \<longleftrightarrow> (\<forall>k i. pc_paramsCRDControllers s k = Some i \<longrightarrow>
     pi_dependentDefinitions i \<noteq> {} \<and> (\<forall>nn \<in> pi_dependentDefinitions i. U nn k))"

definition watched :: "('u, 'z, 'srv) policyController \<Rightarrow> (namespacedName \<Rightarrow> ParamKind \<Rightarrow> bool) \<Rightarrow> bool" where
  "watched s U \<longleftrightarrow> allocated (addresses s) (pc_running s) (pc_next s) \<and> depended s U"

lemma allocated_delete: "allocated C running next \<Longrightarrow> C k = Some c \<Longrightarrow> allocated (C(k := None)) (running - {c}) next"
  by (auto simp: allocated_def split: if_splits) (metis option.inject)

lemma allocated_add: "allocated C running next \<Longrightarrow> C k = None \<Longrightarrow> allocated (C(k \<mapsto> next)) (insert next running) (Suc next)"
  by (auto simp: allocated_def less_Suc_eq split: if_splits) (metis option.discI)

lemma dependedD: "depended s U \<Longrightarrow> pc_paramsCRDControllers s k = Some i \<Longrightarrow>
    pi_dependentDefinitions i \<noteq> {} \<and> (\<forall>nn \<in> pi_dependentDefinitions i. U nn k)"
  unfolding depended_def by blast

lemma watched_mono:
  assumes "watched s U" "\<And>k i nn. pc_paramsCRDControllers s k = Some i \<Longrightarrow> nn \<in> pi_dependentDefinitions i \<Longrightarrow> U nn k \<Longrightarrow> V nn k"
  shows "watched s V"
  using assms unfolding watched_def depended_def by metis

lemma watched_cong:
  assumes "pc_paramsCRDControllers s' = pc_paramsCRDControllers s" "pc_running s' = pc_running s" "pc_next s' = pc_next s"
  shows "watched s' U = watched s U"
  by (simp add: watched_def addresses_def depended_def assms)

lemma release_params_watched:
  assumes w: "watched s U" and only: "\<And>k. U nn k \<Longrightarrow> k = old"
  shows "watched (release_params nn old s) (\<lambda>m k. U m k \<and> m \<noteq> nn)"
proof (cases "pc_paramsCRDControllers s old")
  case None
  then have "release_params nn old s = s" by (simp add: release_params_def)
  moreover have "watched s (\<lambda>m k. U m k \<and> m \<noteq> nn)"
    by (rule watched_mono [OF w]) (use None only in auto)
  ultimately show ?thesis by simp
next
  case (Some i)
  let ?dep = "pi_dependentDefinitions i - {nn}"
  let ?P = "(pc_paramsCRDControllers s)(old := (if ?dep = {} then None else Some (i\<lparr>pi_dependentDefinitions := ?dep\<rparr>)))"
  have P: "pc_paramsCRDControllers (release_params nn old s) = ?P" by (simp add: release_params_def Some Let_def)
  have al: "allocated (addresses s) (pc_running s) (pc_next s)" and de: "depended s U" using w by (simp_all add: watched_def)
  have "allocated (addresses (release_params nn old s)) (pc_running (release_params nn old s)) (pc_next (release_params nn old s))"
  proof (cases "?dep = {}")
    case True
    have "addresses (release_params nn old s) = (addresses s)(old := None)" unfolding addresses_def P using True by auto
    with allocated_delete [OF al, of old] True Some show ?thesis by (simp add: release_params_def addresses_def)
  next
    case False
    have "addresses (release_params nn old s) = addresses s" unfolding addresses_def P using False Some by auto
    with al False Some show ?thesis by (simp add: release_params_def)
  qed
  moreover have "depended (release_params nn old s) (\<lambda>m k. U m k \<and> m \<noteq> nn)" unfolding depended_def P
  proof (intro allI impI)
    fix k j
    assume j: "?P k = Some j"
    show "pi_dependentDefinitions j \<noteq> {} \<and> (\<forall>m \<in> pi_dependentDefinitions j. U m k \<and> m \<noteq> nn)"
    proof (cases "k = old")
      case True
      with j dependedD [OF de Some] show ?thesis by (auto split: if_splits)
    next
      case False
      with j have "pc_paramsCRDControllers s k = Some j" by simp
      from dependedD [OF de this] only [of k] False show ?thesis by blast
    qed
  qed
  ultimately show ?thesis by (simp add: watched_def)
qed

lemma watch_params_watched:
  assumes w: "watched s U"
  shows "watched (watch_params nn k0 s) (\<lambda>m k. U m k \<or> m = nn \<and> k = k0)"
proof -
  have al: "allocated (addresses s) (pc_running s) (pc_next s)" and de: "depended s U" using w by (simp_all add: watched_def)
  let ?i = "case pc_paramsCRDControllers s k0 of
      Some info \<Rightarrow> info\<lparr>pi_dependentDefinitions := insert nn (pi_dependentDefinitions info)\<rparr>
    | None \<Rightarrow> \<lparr>pi_controller = pc_next s, pi_dependentDefinitions = {nn}\<rparr>"
  have P: "pc_paramsCRDControllers (watch_params nn k0 s) = (pc_paramsCRDControllers s)(k0 \<mapsto> ?i)"
    by (simp add: watch_params_def split: option.split)
  have "allocated (addresses (watch_params nn k0 s)) (pc_running (watch_params nn k0 s)) (pc_next (watch_params nn k0 s))"
  proof (cases "pc_paramsCRDControllers s k0")
    case None
    then have "addresses (watch_params nn k0 s) = (addresses s)(k0 \<mapsto> pc_next s)" unfolding addresses_def P by auto
    with allocated_add [OF al, of k0] None show ?thesis by (simp add: watch_params_def addresses_def)
  next
    case (Some i)
    then have "addresses (watch_params nn k0 s) = addresses s" unfolding addresses_def P by auto
    with al Some show ?thesis by (simp add: watch_params_def)
  qed
  moreover have "depended (watch_params nn k0 s) (\<lambda>m k. U m k \<or> m = nn \<and> k = k0)" unfolding depended_def P
  proof (intro allI impI)
    fix k j
    assume j: "((pc_paramsCRDControllers s)(k0 \<mapsto> ?i)) k = Some j"
    show "pi_dependentDefinitions j \<noteq> {} \<and> (\<forall>m \<in> pi_dependentDefinitions j. U m k \<or> m = nn \<and> k = k0)"
    proof (cases "k = k0")
      case True
      with j dependedD [OF de, of k0] show ?thesis by (auto split: option.splits)
    next
      case False
      with j dependedD [OF de, of k j] show ?thesis by simp
    qed
  qed
  ultimately show ?thesis by (simp add: watched_def)
qed

lemma uses_upd:
  assumes "pc_definitionInfo s' = (pc_definitionInfo s)(nn := x)"
  shows "uses s' m k \<longleftrightarrow> (if m = nn then (\<exists>info d. x = Some info \<and> di_lastReconciledValue info = Some d \<and> ps_ParamKind (vp_Spec d) = Some k) else uses s m k)"
  by (simp add: uses_def assms)

text \<open>A policy whose parameter kind was resolved: it has no configuration error.\<close>

definition resolved :: "('u, 'z, 'srv) policyController \<Rightarrow> namespacedName \<Rightarrow> ParamKind \<Rightarrow> bool" where
  "resolved s nn k \<longleftrightarrow> (\<exists>info d. pc_definitionInfo s nn = Some info \<and> di_lastReconciledValue info = Some d \<and>
     ps_ParamKind (vp_Spec d) = Some k \<and> di_configurationError info = None)"

definition attended :: "('u, 'z, 'srv) policyController \<Rightarrow> (namespacedName \<Rightarrow> ParamKind \<Rightarrow> bool) \<Rightarrow> bool" where
  "attended s R \<longleftrightarrow> (\<forall>nn k. R nn k \<longrightarrow> (\<exists>i. pc_paramsCRDControllers s k = Some i \<and> nn \<in> pi_dependentDefinitions i))"

lemma attended_mono: "attended s R \<Longrightarrow> (\<And>nn k. Q nn k \<Longrightarrow> R nn k) \<Longrightarrow> attended s Q"
  unfolding attended_def by blast

lemma attended_cong: "pc_paramsCRDControllers s' = pc_paramsCRDControllers s \<Longrightarrow> attended s' R = attended s R"
  by (simp add: attended_def)

lemma release_params_attended:
  assumes "attended s R"
  shows "attended (release_params nn old s) (\<lambda>m k. R m k \<and> m \<noteq> nn)"
  unfolding attended_def
proof (intro allI impI)
  fix m k
  assume m: "R m k \<and> m \<noteq> nn"
  then obtain i where i: "pc_paramsCRDControllers s k = Some i" "m \<in> pi_dependentDefinitions i"
    using assms unfolding attended_def by blast
  then have "m \<in> pi_dependentDefinitions i - {nn}" using m by simp
  then show "\<exists>i. pc_paramsCRDControllers (release_params nn old s) k = Some i \<and> m \<in> pi_dependentDefinitions i"
    using i by (cases "k = old") (auto simp: release_params_def Let_def split: option.split)
qed

lemma watch_params_attended: "attended s R \<Longrightarrow> attended (watch_params nn p s) (\<lambda>m k. R m k \<or> m = nn \<and> k = p)"
  unfolding attended_def by (fastforce simp: watch_params_def split: option.split)

text \<open>Recording a policy whose parameters are not resolved, and one whose parameters are.\<close>

lemma attended_unresolved:
  assumes "attended t (\<lambda>m k. resolved s m k \<and> m \<noteq> nn)"
    and "pc_definitionInfo t' = (pc_definitionInfo s)(nn := pc_definitionInfo t' nn)" "pc_paramsCRDControllers t' = pc_paramsCRDControllers t"
    and "\<And>k. \<not> resolved t' nn k"
  shows "attended t' (resolved t')"
proof -
  have "resolved s m k \<and> m \<noteq> nn" if "resolved t' m k" for m k
    using that assms(4) [of k] fun_cong [OF assms(2), of m] by (cases "m = nn") (auto simp: resolved_def)
  then show ?thesis unfolding attended_cong [OF assms(3)] by (rule attended_mono [OF assms(1)])
qed

lemma attended_resolved:
  assumes "attended t (\<lambda>m k. resolved s m k \<and> m \<noteq> nn)"
    and "pc_definitionInfo t' = (pc_definitionInfo s)(nn := pc_definitionInfo t' nn)" "pc_paramsCRDControllers t' = pc_paramsCRDControllers t"
    and "\<And>k. resolved t' nn k \<Longrightarrow> k = p"
  shows "attended (watch_params nn p t') (resolved (watch_params nn p t'))"
proof -
  have "attended (watch_params nn p t') (\<lambda>m k. (resolved s m k \<and> m \<noteq> nn) \<or> m = nn \<and> k = p)"
    using assms(1) unfolding attended_cong [OF assms(3), symmetric] by (rule watch_params_attended)
  moreover have "(resolved s m k \<and> m \<noteq> nn) \<or> m = nn \<and> k = p" if "resolved (watch_params nn p t') m k" for m k
    using that assms(4) [of k] fun_cong [OF assms(2), of m] by (cases "m = nn") (auto simp: resolved_def)
  ultimately show ?thesis by (rule attended_mono)
qed

definition params_inv :: "('u, 'z, 'srv) policyController \<Rightarrow> bool" where
  "params_inv s \<longleftrightarrow> watched s (uses s) \<and> attended s (resolved s)"

lemma params_inv_cong:
  assumes "pc_paramsCRDControllers s' = pc_paramsCRDControllers s" "pc_running s' = pc_running s" "pc_next s' = pc_next s"
    "pc_definitionInfo s' = pc_definitionInfo s"
  shows "params_inv s' = params_inv s"
proof -
  have "uses s' = uses s" "resolved s' = resolved s" by (intro ext, simp add: uses_def resolved_def assms(4))+
  then show ?thesis by (simp add: params_inv_def watched_cong [OF assms(1-3)] attended_cong [OF assms(1)])
qed

text \<open>The watchers after a policy released its former parameters, and as long as it has none.\<close>

lemma released_watched:
  assumes w': "watched s (uses s)"
    and old: "old = (case pc_definitionInfo s nn of None \<Rightarrow> None | Some i \<Rightarrow> (case di_lastReconciledValue i of None \<Rightarrow> None | Some d \<Rightarrow> ps_ParamKind (vp_Spec d)))"
  shows "watched (case old of None \<Rightarrow> s | Some k \<Rightarrow> if new = None \<or> new \<noteq> Some k then release_params nn k s else s)
    (\<lambda>m k. (uses s m k \<and> m \<noteq> nn) \<or> (m = nn \<and> new = Some k))"
proof -
  have only: "uses s nn k \<Longrightarrow> old = Some k" for k by (auto simp: uses_def old)
  show ?thesis
  proof (cases old)
    case None
    then show ?thesis using only by (auto intro: watched_mono [OF w'])
  next
    case (Some k0)
    show ?thesis
    proof (cases "new = Some k0")
      case True
      then show ?thesis using only Some by (auto intro: watched_mono [OF w'])
    next
      case False
      have "watched (release_params nn k0 s) (\<lambda>m k. uses s m k \<and> m \<noteq> nn)"
        by (rule release_params_watched [OF w']) (use only Some in auto)
      then have "watched (release_params nn k0 s) (\<lambda>m k. (uses s m k \<and> m \<noteq> nn) \<or> (m = nn \<and> new = Some k))"
        by (rule watched_mono) blast
      with False Some show ?thesis by simp
    qed
  qed
qed

lemma watched_upd [simp]:
  "watched (s\<lparr>pc_bindingInfos := x\<rparr>) U = watched s U" "watched (s\<lparr>pc_definitionInfo := y\<rparr>) U = watched s U"
  "watched (s\<lparr>pc_cachedPolicies := c\<rparr>) U = watched s U" "watched (set_definition nn i s) U = watched s U"
  "watched (s\<lparr>pc_server := srv\<rparr>) U = watched s U" "watched (s\<lparr>pc_definitionsToBindings := dd\<rparr>) U = watched s U"
  by (rule watched_cong; simp)+

lemma reconcilePolicyDefinitionSpec_watched:
  assumes inv: "pc_inv env s" and w: "watched s (uses s)" and new: "\<not> unchanged_spec (pc_definitionInfo s (getNamespaceName ns name)) definition0"
  shows "case reconcilePolicyDefinitionSpec env ns name definition0 s of
    Ret (err, s') \<Rightarrow> watched s' (\<lambda>m k. (uses s m k \<and> m \<noteq> getNamespaceName ns name) \<or>
       (m = getNamespaceName ns name \<and> (\<exists>d. definition0 = Some d \<and> ps_ParamKind (vp_Spec d) = Some k))) | _ \<Rightarrow> False"
proof -
  let ?nn = "getNamespaceName ns name"
  define i0 where "i0 = (case pc_definitionInfo s ?nn of Some i \<Rightarrow> i | None \<Rightarrow> \<lparr>di_configurationError = None, di_lastReconciledValue = None\<rparr>)"
  define s0 where "s0 = set_definition ?nn i0 (s\<lparr>pc_cachedPolicies := None\<rparr>)"
  define paramSource where "paramSource = (case definition0 of None \<Rightarrow> None | Some d \<Rightarrow> ps_ParamKind (vp_Spec d))"
  define old where "old = (case di_lastReconciledValue i0 of None \<Rightarrow> None | Some d \<Rightarrow> ps_ParamKind (vp_Spec d))"
  define s1 where "s1 = (case old of None \<Rightarrow> s0 | Some k \<Rightarrow> if paramSource = None \<or> paramSource \<noteq> Some k then release_params ?nn k s0 else s0)"
  define V where "V = (\<lambda>m k. (uses s m k \<and> m \<noteq> ?nn) \<or> (m = ?nn \<and> paramSource = Some k))"
  have uses0: "uses s0 = uses s"
    by (intro ext) (auto simp: uses_def s0_def i0_def split: option.splits)
  have "watched s0 (uses s)" using w by (simp add: s0_def)
  then have "watched s0 (uses s0)" by (simp add: uses0)
  then have w1: "watched s1 V"
    using released_watched [of s0 old ?nn paramSource] unfolding s1_def uses0 V_def by (simp add: s0_def old_def)
  have s1: "pc_definitionsToBindings s1 = pc_definitionsToBindings s" "pc_bindingInfos s1 = pc_bindingInfos s" "pc_server s1 = pc_server s"
    by (simp_all add: s1_def s0_def split: option.split)
  have reset: "reset_validators ?nn s1 = Ret (s1\<lparr>pc_bindingInfos := reset_bindings s ?nn\<rparr>)"
    using inv s1 by (intro reset_validators_indexed) (simp_all add: pc_inv_def)
  have changed: "\<not> (di_lastReconciledValue i0 \<noteq> None \<and> definition0 \<noteq> None \<and> vp_Spec (the (di_lastReconciledValue i0)) = vp_Spec (the definition0))"
    using new by (auto simp: i0_def unchanged_spec_def split: option.splits)
  have watch: "watched (watch_params ?nn p t) V" if t: "watched t V" "paramSource = Some p" for t :: "('a, 'b, 'c) policyController" and p
    by (rule watched_mono [OF watch_params_watched [OF t(1), of ?nn p]]) (use t(2) in \<open>auto simp: V_def\<close>)
  have V: "V = (\<lambda>m k. (uses s m k \<and> m \<noteq> ?nn) \<or> (m = ?nn \<and> (\<exists>d. definition0 = Some d \<and> ps_ParamKind (vp_Spec d) = Some k)))"
    by (intro ext) (auto simp: V_def paramSource_def split: option.splits)
  have "case reconcilePolicyDefinitionSpec env ns name definition0 s of Ret (err, s') \<Rightarrow> watched s' V | _ \<Rightarrow> False"
    unfolding reconcilePolicyDefinitionSpec_def Let_def i0_def [symmetric] s0_def [symmetric] old_def [symmetric] paramSource_def [symmetric] s1_def [symmetric]
    using changed w1 by (auto simp: reset intro: watch split: option.split sum.split)
  then show ?thesis unfolding V .
qed

lemma reconcilePolicyDefinitionSpec_attended:
  assumes inv: "pc_inv env s" and w: "attended s (resolved s)" and new: "\<not> unchanged_spec (pc_definitionInfo s (getNamespaceName ns name)) definition0"
    and run: "reconcilePolicyDefinitionSpec env ns name definition0 s = Ret (err, s')"
  shows "attended s' (resolved s')"
proof -
  let ?nn = "getNamespaceName ns name"
  define i0 where "i0 = (case pc_definitionInfo s ?nn of Some i \<Rightarrow> i | None \<Rightarrow> \<lparr>di_configurationError = None, di_lastReconciledValue = None\<rparr>)"
  define s0 where "s0 = set_definition ?nn i0 (s\<lparr>pc_cachedPolicies := None\<rparr>)"
  define paramSource where "paramSource = (case definition0 of None \<Rightarrow> None | Some d \<Rightarrow> ps_ParamKind (vp_Spec d))"
  define old where "old = (case di_lastReconciledValue i0 of None \<Rightarrow> None | Some d \<Rightarrow> ps_ParamKind (vp_Spec d))"
  define s1 where "s1 = (case old of None \<Rightarrow> s0 | Some k \<Rightarrow> if paramSource = None \<or> paramSource \<noteq> Some k then release_params ?nn k s0 else s0)"
  have a0: "attended s0 (resolved s)" using w by (subst attended_cong [of s0 s]) (simp_all add: s0_def)
  have "attended s0 (\<lambda>m k. resolved s m k \<and> m \<noteq> ?nn)" by (rule attended_mono [OF a0]) blast
  then have a1: "attended s1 (\<lambda>m k. resolved s m k \<and> m \<noteq> ?nn)"
    using release_params_attended [OF a0] by (simp add: s1_def split: option.split)
  have s1: "pc_definitionsToBindings s1 = pc_definitionsToBindings s" "pc_bindingInfos s1 = pc_bindingInfos s" "pc_server s1 = pc_server s"
      "pc_definitionInfo s1 = (pc_definitionInfo s)(?nn \<mapsto> i0)"
    by (simp_all add: s1_def s0_def split: option.split)
  have reset: "reset_validators ?nn s1 = Ret (s1\<lparr>pc_bindingInfos := reset_bindings s ?nn\<rparr>)"
    using inv s1 by (intro reset_validators_indexed) (simp_all add: pc_inv_def)
  have changed: "\<not> (di_lastReconciledValue i0 \<noteq> None \<and> definition0 \<noteq> None \<and> vp_Spec (the (di_lastReconciledValue i0)) = vp_Spec (the definition0))"
    using new by (auto simp: i0_def unchanged_spec_def split: option.splits)
  show ?thesis
    using run changed unfolding reconcilePolicyDefinitionSpec_def Let_def i0_def [symmetric] s0_def [symmetric] old_def [symmetric] paramSource_def [symmetric] s1_def [symmetric]
    by (auto simp: reset s1 paramSource_def resolved_def intro!: attended_resolved [OF a1] split: option.splits sum.splits)
      (rule attended_unresolved [OF a1], simp_all add: s1 resolved_def)+
qed

lemma reconcilePolicyDefinitionSpec_params:
  assumes inv: "pc_inv env s" and w: "params_inv s" and run: "reconcilePolicyDefinitionSpec env ns name definition0 s = Ret (err, s')"
  shows "params_inv s'"
proof (cases "unchanged_spec (pc_definitionInfo s (getNamespaceName ns name)) definition0")
  case True
  from reconcilePolicyDefinitionSpec_unchanged [OF True, of env] run have s': "s' = s\<lparr>pc_cachedPolicies := None\<rparr>" by simp
  have "params_inv s' = params_inv s" by (rule params_inv_cong) (simp_all add: s')
  with w show ?thesis by simp
next
  case False
  let ?nn = "getNamespaceName ns name"
  have ch: "policy_changed ?nn definition0 s s'" using reconcilePolicyDefinitionSpec_changed [OF inv False] run by simp
  have last: "map_option di_lastReconciledValue (pc_definitionInfo s' ?nn) = map_option Some definition0"
    using ch by (simp add: policy_changed_def)
  have upd: "pc_definitionInfo s' = (pc_definitionInfo s)(?nn := pc_definitionInfo s' ?nn)" using ch by (simp add: policy_changed_def)
  have "watched s' (\<lambda>m k. (uses s m k \<and> m \<noteq> ?nn) \<or> (m = ?nn \<and> (\<exists>d. definition0 = Some d \<and> ps_ParamKind (vp_Spec d) = Some k)))"
    using reconcilePolicyDefinitionSpec_watched [OF inv _ False] w run by (simp add: params_inv_def)
  then have "watched s' (uses s')" by (rule watched_mono) (use last in \<open>auto simp: uses_upd [OF upd]\<close>)
  moreover have "attended s' (resolved s')"
    using reconcilePolicyDefinitionSpec_attended [OF inv _ False run] w by (simp add: params_inv_def)
  ultimately show ?thesis by (simp add: params_inv_def)
qed

lemma reconcilePolicyBinding_params:
  assumes inv: "pc_inv env s" and w: "params_inv s" and named: "\<And>v. b = Some v \<Longrightarrow> bs_PolicyName (vb_Spec v) \<noteq> ''''"
  shows "params_inv (snd (reconcilePolicyBinding ns name b s))"
proof (cases "unchanged_binding (pc_bindingInfos s (getNamespaceName ns name)) b")
  case True
  have "params_inv (s\<lparr>pc_cachedPolicies := None\<rparr>) = params_inv s" by (rule params_inv_cong) simp_all
  with reconcilePolicyBinding_unchanged [OF True] w show ?thesis by simp
next
  case False
  from reconcilePolicyBinding_changed [OF inv False]
  have "params_inv (snd (reconcilePolicyBinding ns name b s)) = params_inv s"
    by (intro params_inv_cong) (simp_all add: binding_changed_def)
  with w show ?thesis by simp
qed

lemma latestPolicyData_params:
  assumes "params_inv s" "latestPolicyData env order s = Ret (ps, s')"
  shows "params_inv s'"
proof -
  have "params_inv s' = params_inv s"
    using assms(2) by (intro params_inv_cong) (auto simp: latestPolicyData_def bind_outcome_Ret split: option.splits)
  with assms(1) show ?thesis by simp
qed

lemma reconcilePolicyDefinition_params:
  assumes "pc_inv env s" "params_inv s" "reconcilePolicyDefinition env ns name d s = Ret (err, s')"
  shows "params_inv s'"
proof -
  obtain err1 s1 where s1: "reconcilePolicyDefinitionSpec env ns name d s = Ret (err1, s1)"
    and s': "s' = s1 \<or> (\<exists>srv. s' = s1\<lparr>pc_server := srv\<rparr>)"
    using assms(3) by (auto simp: reconcilePolicyDefinition_def bind_outcome_Ret split: option.splits)
  have "params_inv s' = params_inv s1" using s' by (intro params_inv_cong) auto
  with reconcilePolicyDefinitionSpec_params [OF assms(1,2) s1] show ?thesis by simp
qed

lemma pc_exec_params:
  assumes "pc_inv env s" "params_inv s" "pc_exec env ev s = Ret s'" "valid_event ev"
  shows "params_inv s'"
proof (cases ev)
  case (BindingEvent ns name b)
  then show ?thesis using assms reconcilePolicyBinding_params [OF assms(1,2), of b ns name] by (cases b) auto
next
  case (ServerEvent srv)
  have "params_inv (s\<lparr>pc_server := srv\<rparr>) = params_inv s" by (rule params_inv_cong) simp_all
  with ServerEvent assms show ?thesis by simp
qed (use assms in \<open>auto simp: bind_outcome_Ret intro: reconcilePolicyDefinition_params latestPolicyData_params\<close>)

inductive pc_step :: "('u, 'z, 'srv) policy_env \<Rightarrow> ('u, 'z, 'srv) policyController \<Rightarrow> ('u, 'z, 'srv) policyController \<Rightarrow> bool" for env where
  pc_event: "valid_event ev \<Longrightarrow> pc_exec env ev s = Ret s' \<Longrightarrow> pc_step env s s'"

inductive_cases pc_stepE: "pc_step env s s'"

interpretation policy_book: step_invariant "pc_step env" "\<lambda>s. pc_inv env s \<and> params_inv s" for env
proof
  fix s t
  assume step: "pc_step env s t" and inv: "pc_inv env s \<and> params_inv s"
  obtain ev where ev: "valid_event ev" "pc_exec env ev s = Ret t" by (rule pc_stepE [OF step])
  with pc_exec_inv [of env s ev] pc_exec_params [of env s ev t] inv show "pc_inv env t \<and> params_inv t" by auto
qed

lemma params_inv_init: "params_inv (newPolicyController srv)"
  by (simp add: params_inv_def watched_def allocated_def addresses_def depended_def attended_def resolved_def newPolicyController_def)

text \<open>
  C15. The parameter resources that are watched are those the policies need. In every reachable state of the controller the
  running watchers are exactly those it has on its books, one per kind of parameters. The kind of parameters that a
  policy names and that was resolved, that is every policy without a configuration error, is watched by a running
  watcher which has the policy among its dependents. Conversely a kind is only watched while a policy that exists names it in its
  current specification: when the last one is deleted or changed, its watcher has been stopped.
\<close>

theorem param_watchers_needed:
  assumes "(pc_step env)\<^sup>*\<^sup>* (newPolicyController srv) s"
  shows "(\<forall>c. c \<in> pc_running s \<longleftrightarrow> (\<exists>k i. pc_paramsCRDControllers s k = Some i \<and> pi_controller i = c)) \<and>
    (\<forall>k k' i i'. pc_paramsCRDControllers s k = Some i \<longrightarrow> pc_paramsCRDControllers s k' = Some i' \<longrightarrow>
       pi_controller i = pi_controller i' \<longrightarrow> k = k') \<and>
    (\<forall>nn info d k. pc_definitionInfo s nn = Some info \<longrightarrow> di_lastReconciledValue info = Some d \<longrightarrow>
       ps_ParamKind (vp_Spec d) = Some k \<longrightarrow> di_configurationError info = None \<longrightarrow>
       (\<exists>i. pc_paramsCRDControllers s k = Some i \<and> pi_controller i \<in> pc_running s \<and> nn \<in> pi_dependentDefinitions i)) \<and>
    (\<forall>k i. pc_paramsCRDControllers s k = Some i \<longrightarrow> pi_dependentDefinitions i \<noteq> {} \<and>
       (\<forall>nn \<in> pi_dependentDefinitions i. \<exists>spec. abs_policies s nn = Some spec \<and> ps_ParamKind spec = Some k))"
proof -
  have inv: "params_inv s" using policy_book.steps_inv [OF assms] by (simp add: pc_inv_init params_inv_init)
  then have al: "allocated (addresses s) (pc_running s) (pc_next s)" and de: "depended s (uses s)"
    and at: "attended s (resolved s)"
    by (simp_all add: params_inv_def watched_def)
  have "\<exists>spec. abs_policies s nn = Some spec \<and> ps_ParamKind spec = Some k" if "uses s nn k" for nn k
    using that by (auto simp: uses_def abs_policies_def)
  then have needed: "pi_dependentDefinitions i \<noteq> {} \<and>
      (\<forall>nn \<in> pi_dependentDefinitions i. \<exists>spec. abs_policies s nn = Some spec \<and> ps_ParamKind spec = Some k)"
    if k: "pc_paramsCRDControllers s k = Some i" for k i
    using dependedD [OF de k] by blast
  have one: "pc_paramsCRDControllers s k = Some i \<Longrightarrow> pc_paramsCRDControllers s k' = Some i' \<Longrightarrow>
       pi_controller i = pi_controller i' \<Longrightarrow> k = k'" for k k' i i'
    using al unfolding allocated_def addresses_def by (metis option.map(2))
  have running: "c \<in> pc_running s \<longleftrightarrow> (\<exists>k i. pc_paramsCRDControllers s k = Some i \<and> pi_controller i = c)" for c
    using al by (simp add: allocated_def addresses_def)
  have "\<exists>i. pc_paramsCRDControllers s k = Some i \<and> pi_controller i \<in> pc_running s \<and> nn \<in> pi_dependentDefinitions i"
    if "resolved s nn k" for nn k
    using at that running unfolding attended_def by blast
  then show ?thesis using needed one running unfolding resolved_def by blast
qed

subsection \<open>Configuration errors\<close>

lemma reconcilePolicyDefinition_Spec:
  assumes "reconcilePolicyDefinition env ns name d s = Ret (err, s')"
  obtains err1 s1 where "reconcilePolicyDefinitionSpec env ns name d s = Ret (err1, s1)" "pc_definitionInfo s' = pc_definitionInfo s1"
  using assms by (auto simp: reconcilePolicyDefinition_def bind_outcome_Ret split: option.splits)

text \<open>Which events leave the record of a policy as it is: those of other objects, and retries.\<close>

fun retry_or_other :: "namespacedName \<Rightarrow> ValidatingAdmissionPolicySpec \<Rightarrow> 'srv pc_event \<Rightarrow> bool" where
  "retry_or_other nn spec (PolicyEvent ns name d) = (getNamespaceName ns name = nn \<longrightarrow> map_option vp_Spec d = Some spec)"
| "retry_or_other nn spec ev = True"

lemma pc_exec_keeps_record:
  assumes inv: "pc_inv env s" and ev: "valid_event ev" "retry_or_other nn spec ev" "pc_exec env ev s = Ret s'"
    and info: "pc_definitionInfo s nn = Some info" "di_lastReconciledValue info = Some d0" "vp_Spec d0 = spec"
  shows "pc_definitionInfo s' nn = Some info"
proof (cases ev)
  case (PolicyEvent ns name d)
  with ev obtain err where "reconcilePolicyDefinition env ns name d s = Ret (err, s')" by (auto simp: bind_outcome_Ret)
  then obtain err1 s1 where s1: "reconcilePolicyDefinitionSpec env ns name d s = Ret (err1, s1)" "pc_definitionInfo s' = pc_definitionInfo s1"
    by (rule reconcilePolicyDefinition_Spec)
  show ?thesis
  proof (cases "unchanged_spec (pc_definitionInfo s (getNamespaceName ns name)) d")
    case True
    with s1 info(1) reconcilePolicyDefinitionSpec_unchanged [OF True, of env] show ?thesis by auto
  next
    case False
    then have "getNamespaceName ns name \<noteq> nn" using ev(2) info PolicyEvent by (auto simp: unchanged_spec_def)
    moreover have "policy_changed (getNamespaceName ns name) d s s1"
      using reconcilePolicyDefinitionSpec_changed [OF inv False] s1 by simp
    ultimately show ?thesis using s1(2) info(1) by (metis fun_upd_apply policy_changed_def)
  qed
next
  case (BindingEvent ns name b)
  have "pc_definitionInfo (snd (reconcilePolicyBinding ns name b s)) = pc_definitionInfo s"
    using reconcilePolicyBinding_unchanged [of s ns name b] reconcilePolicyBinding_changed [OF inv, of ns name b] ev(1) BindingEvent
    by (cases "unchanged_binding (pc_bindingInfos s (getNamespaceName ns name)) b"; cases b) (auto simp: binding_changed_def)
  with BindingEvent ev(3) info(1) show ?thesis by auto
next
  case (SnapshotEvent order)
  with ev(1,3) latestPolicyData_inv [OF inv, of order] info(1) show ?thesis by (auto simp: bind_outcome_Ret)
next
  case (ServerEvent srv)
  with ev(3) info(1) show ?thesis by auto
qed

lemma pc_run_keeps_record:
  assumes "pc_inv env s" "\<forall>ev \<in> set evs. valid_event ev \<and> retry_or_other nn spec ev"
    and "pc_definitionInfo s nn = Some info" "di_lastReconciledValue info = Some d0" "vp_Spec d0 = spec"
  shows "\<exists>s'. pc_run env evs s = Ret s' \<and> pc_definitionInfo s' nn = Some info"
  using assms
proof (induction evs arbitrary: s)
  case (Cons ev evs)
  then obtain s1 where s1: "pc_exec env ev s = Ret s1" "pc_inv env s1" using pc_exec_inv [of env s ev] by auto
  with pc_exec_keeps_record [OF Cons.prems(1) _ _ s1(1) Cons.prems(3-5)] Cons.prems(2) have "pc_definitionInfo s1 nn = Some info" by simp
  with Cons.IH [OF s1(2)] Cons.prems s1(1) show ?case by simp
qed simp

lemma unmapped_params_error:
  assumes inv: "pc_inv env s" and new: "\<not> unchanged_spec (pc_definitionInfo s (getNamespaceName ns name)) (Some d)"
    and p: "ps_ParamKind (vp_Spec d) = Some p" "ParseGroupVersion (pk_APIVersion p) = Inr (g, v)"
      "pe_RESTMapping env (pc_server s) \<lparr>gk_Group = g, gk_Kind = pk_Kind p\<rparr> v = Inl e"
  shows "case reconcilePolicyDefinitionSpec env ns name (Some d) s of
    Ret (err, s') \<Rightarrow> err \<noteq> None \<and> (\<exists>info. pc_definitionInfo s' (getNamespaceName ns name) = Some info \<and>
       di_configurationError info \<noteq> None \<and> di_lastReconciledValue info = Some d) | _ \<Rightarrow> False"
proof -
  have idx: "indexed s" using inv by (simp add: pc_inv_def)
  note reset = reset_validators_indexed [OF idx, of _ "getNamespaceName ns name"]
  define i0 where "i0 = (case pc_definitionInfo s (getNamespaceName ns name) of Some i \<Rightarrow> i | None \<Rightarrow> \<lparr>di_configurationError = None, di_lastReconciledValue = None\<rparr>)"
  have old: "di_lastReconciledValue i0 = None \<or> vp_Spec (the (di_lastReconciledValue i0)) \<noteq> vp_Spec d"
    using new by (auto simp: i0_def unchanged_spec_def split: option.splits)
  show ?thesis
    using old p unfolding reconcilePolicyDefinitionSpec_def Let_def i0_def [symmetric]
    by (auto simp: reset split: option.split)
qed

text \<open>
  C39. A configuration error is never cleared by waiting. When a policy is reconciled whose parameter kind
  the REST mapper does not know yet, the controller records an error and asks for a retry. But the
  retries find the specification unchanged and return at once: whatever else happens, and in
  particular once the REST mapper has been refreshed and knows the kind, the error stays until the
  specification of the policy changes, and the failure policy is applied to every matching request.
\<close>

theorem configuration_error_sticks:
  assumes "\<forall>ev \<in> set evs0. valid_event ev" "\<forall>ev \<in> set evs. valid_event ev \<and> retry_or_other (getNamespaceName ns name) (vp_Spec d) ev"
    and run: "pc_run env evs0 (newPolicyController srv) = Ret s"
    and new: "policies_after evs0 Map.empty (getNamespaceName ns name) \<noteq> Some (vp_Spec d)"
    and p: "ps_ParamKind (vp_Spec d) = Some p" "ParseGroupVersion (pk_APIVersion p) = Inr (g, v)"
      "pe_RESTMapping env (pc_server s) \<lparr>gk_Group = g, gk_Kind = pk_Kind p\<rparr> v = Inl e"
  shows "\<exists>s' info. pc_run env (PolicyEvent ns name (Some d) # evs) s = Ret s' \<and>
    pc_definitionInfo s' (getNamespaceName ns name) = Some info \<and> di_configurationError info \<noteq> None"
proof -
  let ?nn = "getNamespaceName ns name"
  have inv: "pc_inv env s" and abs: "abs_policies s = policies_after evs0 Map.empty"
    using pc_run_inv [OF pc_inv_init assms(1), of env srv] run by (auto simp: abs_init)
  have "\<not> unchanged_spec (pc_definitionInfo s ?nn) (Some d)"
    using new unfolding abs [symmetric] by (auto simp: unchanged_spec_def abs_policies_def split: option.splits)
  from unmapped_params_error [OF inv this p] obtain err s1 info where
    s1: "reconcilePolicyDefinitionSpec env ns name (Some d) s = Ret (Some err, s1)" and
    info: "pc_definitionInfo s1 ?nn = Some info" "di_configurationError info \<noteq> None" "di_lastReconciledValue info = Some d"
    by (auto split: outcome.splits)
  have "pc_inv env s1" using reconcilePolicyDefinitionSpec_inv [OF inv, of ns name "Some d"] s1 by auto
  from pc_run_keeps_record [OF this assms(2) info(1,3) refl] obtain s' where
    "pc_run env evs s1 = Ret s'" "pc_definitionInfo s' ?nn = Some info" by blast
  with s1 info(2) show ?thesis by (simp add: reconcilePolicyDefinition_def)
qed

subsection \<open>Examples\<close>

text \<open>A policy with parameters and a binding of it; the server is a flag that says whether the kind of the parameters is known.\<close>

definition example_order :: go_order where
  "example_order S = map (\<lambda>(ns, name). getNamespaceName ns name) (sorted_list_of_set ((\<lambda>n. (nn_namespace n, nn_name n)) ` S))"

definition example_policy_env :: "(nat, nat, bool) policy_env" where
  "example_policy_env =
     \<lparr>pe_CompileCELExpression = (\<lambda>acc opts limit. \<lparr>cr_Program = Some (\<lambda>act. (Some (CelBool True), Some (Some 1), None)),
        cr_Error = None, cr_ExpressionAccessor = Some acc\<rparr>),
      pe_authorizer = False,
      pe_RESTMapping = (\<lambda>srv gk version. if srv then Inr \<lparr>gvr_Group = '''', gvr_Version = version, gvr_Resource = ''configmaps''\<rparr>
        else Inl (ErrorString ''no match'')),
      pe_typeChecker = None, pe_UpdateStatus = (\<lambda>d srv. (None, srv))\<rparr>"

definition example_paramKind :: ParamKind where
  "example_paramKind = \<lparr>pk_APIVersion = ''v1'', pk_Kind = ''ConfigMap''\<rparr>"

definition example_param_policy :: ValidatingAdmissionPolicy where
  "example_param_policy =
     \<lparr>vp_Kind = '''', vp_APIVersion = '''', vp_ObjectMeta = zero_ObjectMeta\<lparr>om_Name := ''p''\<rparr>,
      vp_Spec = zero_ValidatingAdmissionPolicySpec\<lparr>ps_ParamKind := Some example_paramKind, ps_MatchConstraints := Some example_pods,
        ps_Validations := [\<lparr>vd_Expression = ''true'', vd_Message = '''', vd_Reason = None, vd_MessageExpression = ''''\<rparr>],
        ps_FailurePolicy := Some ''Fail''\<rparr>,
      vp_Status = zero_ValidatingAdmissionPolicyStatus\<rparr>"

definition example_param_binding :: ValidatingAdmissionPolicyBinding where
  "example_param_binding =
     \<lparr>vb_Kind = '''', vb_APIVersion = '''', vb_ObjectMeta = zero_ObjectMeta\<lparr>om_Name := ''b''\<rparr>,
      vb_Spec = zero_ValidatingAdmissionPolicyBindingSpec\<lparr>bs_PolicyName := ''p'', bs_ValidationActions := [''Deny'']\<rparr>\<rparr>"

lemma example_order_enumerates: "enumerates example_order"
proof -
  let ?f = "\<lambda>n. (nn_namespace n, nn_name n)" and ?g = "\<lambda>(ns, name). getNamespaceName ns name"
  have gf: "?g (?f n) = n" for n by (simp add: getNamespaceName_def)
  have inj: "inj ?g" by (auto simp: inj_def getNamespaceName_def)
  show ?thesis unfolding enumerates_def example_order_def
  proof (intro allI impI)
    fix S :: "namespacedName set"
    assume "finite S"
    then have "set (sorted_list_of_set (?f ` S)) = ?f ` S" by simp
    moreover have "?g ` ?f ` S = S" using gf by (simp add: image_comp comp_def)
    ultimately show "set (map ?g (sorted_list_of_set (?f ` S))) = S \<and> distinct (map ?g (sorted_list_of_set (?f ` S)))"
      by (simp add: distinct_map inj_on_subset [OF inj subset_UNIV])
  qed
qed

lemma example_param_kind: "ps_ParamKind (vp_Spec example_param_policy) = Some example_paramKind"
  by (simp add: example_param_policy_def)

lemma example_ParseGroupVersion: "ParseGroupVersion (pk_APIVersion example_paramKind) = Inr ('''', ''v1'')"
  by (simp add: ParseGroupVersion_def example_paramKind_def)

theorem snapshot_exact_witness:
  "\<exists>s ps s'. pc_run example_policy_env [BindingEvent '''' ''b'' (Some example_param_binding), PolicyEvent '''' ''p'' (Some example_param_policy)]
      (newPolicyController True) = Ret s \<and> latestPolicyData example_policy_env example_order s = Ret (ps, s') \<and>
    (\<exists>p \<in> set ps. describes example_policy_env [getNamespaceName '''' ''b'' \<mapsto> vb_Spec example_param_binding] (getNamespaceName '''' ''p'')
       (vp_Spec example_param_policy) p)"
proof -
  let ?evs = "[BindingEvent '''' ''b'' (Some example_param_binding), PolicyEvent '''' ''p'' (Some example_param_policy)] :: bool pc_event list"
  have valid: "\<forall>ev \<in> set ?evs. valid_event ev" by (simp add: example_param_binding_def)
  from snapshot_exact [OF valid example_order_enumerates, of example_policy_env True]
  obtain s ps s' where s: "pc_run example_policy_env ?evs (newPolicyController True) = Ret s"
    "latestPolicyData example_policy_env example_order s = Ret (ps, s')"
    and all: "\<forall>nn spec. policies_after ?evs Map.empty nn = Some spec \<longrightarrow>
      (\<exists>p \<in> set ps. describes example_policy_env (bindings_after ?evs Map.empty) nn spec p)"
    by blast
  have "policies_after ?evs Map.empty (getNamespaceName '''' ''p'') = Some (vp_Spec example_param_policy)"
    "bindings_after ?evs Map.empty = [getNamespaceName '''' ''b'' \<mapsto> vb_Spec example_param_binding]" by simp_all
  with s all show ?thesis by metis
qed

theorem param_watchers_needed_witness:
  "\<exists>s i nn spec. (pc_step example_policy_env)\<^sup>*\<^sup>* (newPolicyController True) s \<and> pc_running s = {0} \<and>
    pc_paramsCRDControllers s example_paramKind = Some i \<and> nn \<in> pi_dependentDefinitions i \<and>
    abs_policies s nn = Some spec \<and> ps_ParamKind spec = Some example_paramKind"
proof -
  have "\<exists>s i. pc_exec example_policy_env (PolicyEvent '''' ''p'' (Some example_param_policy)) (newPolicyController True) = Ret s \<and>
      pc_running s = {0} \<and> pc_paramsCRDControllers s example_paramKind = Some i"
    by (simp add: reconcilePolicyDefinition_def reconcilePolicyDefinitionSpec_def example_policy_env_def newPolicyController_def
      reset_validators_def example_param_kind example_ParseGroupVersion watch_params_def set_definition_def Let_def)
  then obtain s i where s: "pc_exec example_policy_env (PolicyEvent '''' ''p'' (Some example_param_policy)) (newPolicyController True) = Ret s"
    "pc_running s = {0}" "pc_paramsCRDControllers s example_paramKind = Some i" by blast
  have "(pc_step example_policy_env)\<^sup>*\<^sup>* (newPolicyController True) s"
    by (rule r_into_rtranclp, rule pc_event [OF _ s(1)]) simp
  with param_watchers_needed [OF this] s show ?thesis by blast
qed

theorem configuration_error_sticks_witness:
  "\<exists>s' info. pc_run example_policy_env [PolicyEvent '''' ''p'' (Some example_param_policy), ServerEvent True, PolicyEvent '''' ''p'' (Some example_param_policy)]
      (newPolicyController False) = Ret s' \<and> pc_definitionInfo s' (getNamespaceName '''' ''p'') = Some info \<and> di_configurationError info \<noteq> None"
  by (rule configuration_error_sticks [of "[]" _ _ _ _ _ False _ example_paramKind _ _ "ErrorString ''no match''"])
    (simp_all add: example_param_kind example_ParseGroupVersion example_policy_env_def newPolicyController_def)

end
