(* ===== verification/Evaluator.thy ===== *)
theory Evaluator
  imports PolicyController
begin

text \<open>
  The policy evaluator that the plugin calls, from the vendored
  \<^verbatim>\<open>validatingadmissionpolicy/controller.go\<close> and \<^verbatim>\<open>policy_decision.go\<close>: a request is validated against a
  snapshot of all policies, their bindings and parameters, and the first denial becomes the error.
  The informers of parameters are arguments, each with what it answers during the request; the
  metrics are left out. Annotations of the audit event and warnings are outputs. The lemmas show
  that nothing is admitted past a policy that was not evaluated to true.
\<close>

section \<open>Results of a request\<close>

record policyDecisionWithMetadata =
  dm_PolicyDecision :: PolicyDecision
  dm_Definition :: ValidatingAdmissionPolicy
  dm_Binding :: "ValidatingAdmissionPolicyBinding option"

text \<open>What a request accumulates: the denials, the annotations, the warnings, and the annotations collected for a policy.\<close>

record eval_state =
  es_denied :: "policyDecisionWithMetadata list"
  es_annotations :: "string \<rightharpoonup> string"
  es_warnings :: "string list"
  es_collector :: "(string \<times> string list) list"

record validationFailureValue =
  fv_Message :: string
  fv_Policy :: string
  fv_Binding :: string
  fv_ExpressionIndex :: nat
  fv_ValidationActions :: "string list"

text \<open>The controller of a kind of parameters: whether it syncs within a second, and its lister.\<close>

record 'obj param_controller =
  pm_WaitForCacheSync :: bool
  pm_Get :: "string \<Rightarrow> goerror + 'obj"
  pm_NamespacedGet :: "string \<Rightarrow> string \<Rightarrow> goerror + 'obj"

record ('obj, 'u, 'z) evaluator_env =
  ee_match :: "'obj match_env"
  ee_interfaces :: "'obj ObjectInterfaces"
  ee_filter :: "('obj, 'u, 'z) filter_env"
  ee_param :: "nat \<Rightarrow> 'obj param_controller"
  ee_IsQualifiedName :: "string \<Rightarrow> bool"
  ee_Marshal :: "validationFailureValue list \<Rightarrow> string"

definition checkKeyFormat :: "('obj, 'u, 'z) evaluator_env \<Rightarrow> string \<Rightarrow> bool" where
  "checkKeyFormat env key \<longleftrightarrow> length (go_split (CHR ''/'') key) = 2 \<and> ee_IsQualifiedName env key"

text \<open>An annotation is never overwritten; the error of the attempt is only logged.\<close>

definition AddAnnotation :: "('obj, 'u, 'z) evaluator_env \<Rightarrow> string \<Rightarrow> string \<Rightarrow> eval_state \<Rightarrow> eval_state" where
  "AddAnnotation env key val0 st =
     (if \<not> checkKeyFormat env key then st
      else case es_annotations st key of
        Some v \<Rightarrow> st
      | None \<Rightarrow> st\<lparr>es_annotations := (es_annotations st)(key \<mapsto> val0)\<rparr>)"

definition collector_add :: "string \<Rightarrow> string \<Rightarrow> eval_state \<Rightarrow> eval_state" where
  "collector_add key val0 st =
     (case map_of (es_collector st) key of
        None \<Rightarrow> st\<lparr>es_collector := es_collector st @ [(key, [val0])]\<rparr>
      | Some vs \<Rightarrow>
          if val0 \<in> set vs then st
          else st\<lparr>es_collector := map (\<lambda>(k, ws). if k = key then (k, ws @ [val0]) else (k, ws)) (es_collector st)\<rparr>)"

fun join_comma :: "string list \<Rightarrow> string" where
  "join_comma [] = ''''"
| "join_comma [v] = v"
| "join_comma (v # vs) = v @ '', '' @ join_comma vs"

text \<open>The keys of the collector are distinct, so the order of the iteration does not matter.\<close>

definition collector_publish :: "('obj, 'u, 'z) evaluator_env \<Rightarrow> string \<Rightarrow> eval_state \<Rightarrow> eval_state" where
  "collector_publish env policyName st =
     fold (\<lambda>(key, vs). AddAnnotation env (policyName @ ''/'' @ key) (join_comma vs)) (es_collector st) st"

definition publishValidationFailureAnnotation ::
  "('obj, 'u, 'z) evaluator_env \<Rightarrow> ValidatingAdmissionPolicyBinding \<Rightarrow> nat \<Rightarrow> PolicyDecision \<Rightarrow> eval_state \<Rightarrow> eval_state" where
  "publishValidationFailureAnnotation env binding expressionIndex decision st =
     AddAnnotation env ''validation.policy.admission.k8s.io/validation_failure''
       (ee_Marshal env [\<lparr>fv_Message = pd_Message decision, fv_Policy = bs_PolicyName (vb_Spec binding),
          fv_Binding = om_Name (vb_ObjectMeta binding), fv_ExpressionIndex = expressionIndex,
          fv_ValidationActions = bs_ValidationActions (vb_Spec binding)\<rparr>]) st"

definition deny ::
  "ValidatingAdmissionPolicy \<Rightarrow> ValidatingAdmissionPolicyBinding option \<Rightarrow> PolicyDecision \<Rightarrow> eval_state \<Rightarrow> eval_state" where
  "deny definition0 binding decision st =
     st\<lparr>es_denied := es_denied st @ [\<lparr>dm_PolicyDecision = decision, dm_Definition = definition0, dm_Binding = binding\<rparr>]\<rparr>"

definition quoted :: "string \<Rightarrow> string" where
  "quoted s = [CHR 0x27] @ s @ [CHR 0x27]"

definition addConfigError ::
  "goerror \<Rightarrow> ValidatingAdmissionPolicy \<Rightarrow> ValidatingAdmissionPolicyBinding option \<Rightarrow> eval_state \<Rightarrow> eval_state" where
  "addConfigError err definition0 binding st =
     (let policy = (case ps_FailurePolicy (vp_Spec definition0) of None \<Rightarrow> ''Fail'' | Some p \<Rightarrow> p) in
      if policy = ''Ignore'' then st
      else if policy = ''Fail'' then
        deny definition0 binding \<lparr>pd_Action = ActionDeny, pd_Evaluation = '''',
          pd_Message = (if binding = None then ''failed to configure policy: '' else ''failed to configure binding: '') @ error_Error err,
          pd_Reason = ''''\<rparr> st
      else deny definition0 binding \<lparr>pd_Action = ActionDeny, pd_Evaluation = '''',
          pd_Message = ''unrecognized failure policy: '' @ quoted policy, pd_Reason = ''''\<rparr> st)"

definition reasonToCode :: "string \<Rightarrow> 32 word" where
  "reasonToCode r =
     (if r = ''Forbidden'' then 403
      else if r = ''Unauthorized'' then 401
      else if r = ''RequestEntityTooLarge'' then 413
      else if r = ''Invalid'' then 422
      else 422)"

section \<open>The loops of Validate\<close>

text \<open>A loop whose body may return an error from the whole function, or panic.\<close>

fun each :: "('a \<Rightarrow> 's \<Rightarrow> (goerror option \<times> 's) result) \<Rightarrow> 'a list \<Rightarrow> 's \<Rightarrow> (goerror option \<times> 's) result" where
  "each f [] s = Ret (None, s)"
| "each f (x # xs) s =
     bind_outcome (f x s) (\<lambda>(err, s). case err of Some e \<Rightarrow> Ret (Some e, s) | None \<Rightarrow> each f xs s)"

definition validationAction ::
  "('obj, 'u, 'z) evaluator_env \<Rightarrow> ValidatingAdmissionPolicy \<Rightarrow> ValidatingAdmissionPolicyBinding \<Rightarrow> nat \<Rightarrow> PolicyDecision \<Rightarrow> string \<Rightarrow> eval_state \<Rightarrow> eval_state" where
  "validationAction env definition0 binding i decision action st =
     (if action = ''Deny'' then deny definition0 (Some binding) decision st
      else if action = ''Audit'' then publishValidationFailureAnnotation env binding i decision st
      else if action = ''Warn'' then
        st\<lparr>es_warnings := es_warnings st @ [''Validation failed for ValidatingAdmissionPolicy '' @ quoted (om_Name (vp_ObjectMeta definition0)) @
          '' with binding '' @ quoted (om_Name (vb_ObjectMeta binding)) @ '': '' @ pd_Message decision]\<rparr>
      else st)"

definition decisionStep ::
  "('obj, 'u, 'z) evaluator_env \<Rightarrow> ValidatingAdmissionPolicy \<Rightarrow> ValidatingAdmissionPolicyBinding \<Rightarrow> nat \<times> PolicyDecision \<Rightarrow> eval_state \<Rightarrow>
   (goerror option \<times> eval_state) result" where
  "decisionStep env definition0 binding ix st =
     (let (i, decision) = ix in
      if pd_Action decision = ActionAdmit then Ret (None, st)
      else if pd_Action decision = ActionDeny then
        Ret (None, fold (validationAction env definition0 binding i decision) (bs_ValidationActions (vb_Spec binding)) st)
      else Ret (Some (ErrorString (''unrecognized evaluation decision '' @ quoted (pd_Action decision) @
        '' for ValidatingAdmissionPolicyBinding '' @ quoted (om_Name (vb_ObjectMeta binding)) @
        '' with ValidatingAdmissionPolicy '' @ quoted (om_Name (vp_ObjectMeta definition0)))), st))"

definition maxAuditAnnotationValueLength :: nat where
  "maxAuditAnnotationValueLength = 10 * 1024"

definition annotationStep ::
  "ValidatingAdmissionPolicy \<Rightarrow> ValidatingAdmissionPolicyBinding \<Rightarrow> PolicyAuditAnnotation \<Rightarrow> eval_state \<Rightarrow> (goerror option \<times> eval_state) result" where
  "annotationStep definition0 binding aa st =
     (if pa_Action aa = AuditAnnotationActionPublish then
        Ret (None, collector_add (pa_Key aa)
          (if length (pa_Value aa) > maxAuditAnnotationValueLength then take maxAuditAnnotationValueLength (pa_Value aa) else pa_Value aa) st)
      else if pa_Action aa = AuditAnnotationActionError then
        Ret (None, deny definition0 (Some binding) \<lparr>pd_Action = ActionDeny, pd_Evaluation = EvalError, pd_Message = pa_Error aa, pd_Reason = ''''\<rparr> st)
      else if pa_Action aa = AuditAnnotationActionExclude then Ret (None, st)
      else Ret (Some (ErrorString (''unsupported AuditAnnotation Action: '' @ pa_Action aa)), st))"

text \<open>The parameter of a binding, or the configuration error.\<close>

definition bindingParam ::
  "('obj, 'u, 'z) evaluator_env \<Rightarrow> ValidatingAdmissionPolicy \<Rightarrow> nat option \<Rightarrow> ValidatingAdmissionPolicyBinding \<Rightarrow> goerror + 'obj option" where
  "bindingParam env definition0 paramController binding =
     (case (ps_ParamKind (vp_Spec definition0), bs_ParamRef (vb_Spec binding)) of
        (Some paramKind, Some paramRef) \<Rightarrow>
          (case paramController of
             None \<Rightarrow> Inl (ErrorString (''paramKind kind `'' @ ParamKind_String paramKind @ ''` not known''))
           | Some c \<Rightarrow>
               if \<not> pm_WaitForCacheSync (ee_param env c) then
                 Inl (ErrorString (''paramKind kind `'' @ ParamKind_String paramKind @ ''` not yet synced to use for admission''))
               else if length (pr_Namespace paramRef) = 0 then bind_sum (pm_Get (ee_param env c) (pr_Name paramRef)) (\<lambda>p. Inr (Some p))
               else bind_sum (pm_NamespacedGet (ee_param env c) (pr_Namespace paramRef) (pr_Name paramRef)) (\<lambda>p. Inr (Some p)))
      | _ \<Rightarrow> Inr None)"

definition bindingStep ::
  "('obj, 'u, 'z) evaluator_env \<Rightarrow> 'obj Attributes \<Rightarrow> ValidatingAdmissionPolicy \<Rightarrow> nat option \<Rightarrow> GroupVersionKind \<Rightarrow> ('u, 'z) bindingInfo \<Rightarrow> eval_state \<Rightarrow>
   (goerror option \<times> eval_state) result" where
  "bindingStep env a definition0 paramController matchKind info st =
     (case bi_lastReconciledValue info of
        None \<Rightarrow> Panic nilPointer
      | Some binding \<Rightarrow>
        (case BindingMatches (ee_match env) a binding of
           Inl err \<Rightarrow> Ret (None, addConfigError err definition0 (Some binding) st)
         | Inr False \<Rightarrow> Ret (None, st)
         | Inr True \<Rightarrow>
           (case bindingParam env definition0 paramController binding of
              Inl err \<Rightarrow> Ret (None, addConfigError err definition0 (Some binding) st)
            | Inr param \<Rightarrow>
              (case NewVersionedAttributes (ee_interfaces env) a matchKind of
                 Inl err \<Rightarrow> Ret (None, addConfigError (WrapError (''failed to convert object version: '' @ error_Error err) err)
                   definition0 (Some binding) st)
               | Inr versionedAttr \<Rightarrow>
                 (case bi_validator info of
                    None \<Rightarrow> Panic nilPointer
                  | Some validator0 \<Rightarrow>
                      bind_outcome (validator_Validate (ee_filter env) validator0 versionedAttr param RuntimeCELCostBudget) (\<lambda>validationResult.
                      bind_outcome (each (decisionStep env definition0 binding) (enumerate 0 (vr_Decisions validationResult)) st) (\<lambda>(err, st).
                        case err of
                          Some e \<Rightarrow> Ret (Some e, st)
                        | None \<Rightarrow> each (annotationStep definition0 binding) (vr_AuditAnnotations validationResult) st)))))))"

definition definitionStep ::
  "('obj, 'u, 'z) evaluator_env \<Rightarrow> 'obj Attributes \<Rightarrow> ('u, 'z) policyData \<Rightarrow> eval_state \<Rightarrow> (goerror option \<times> eval_state) result" where
  "definitionStep env a data st =
     (case di_lastReconciledValue (pdt_definitionInfo data) of
        None \<Rightarrow> Panic nilPointer
      | Some definition0 \<Rightarrow>
        (case DefinitionMatches (ee_match env) a definition0 of
           Panic m \<Rightarrow> Panic m
         | Err err \<Rightarrow> Ret (None, addConfigError err definition0 None st)
         | Ret (matches, matchKind) \<Rightarrow>
             if \<not> matches then Ret (None, st)
             else case di_configurationError (pdt_definitionInfo data) of
               Some err \<Rightarrow> Ret (None, addConfigError err definition0 None st)
             | None \<Rightarrow>
                 bind_outcome (each (bindingStep env a definition0 (pdt_paramController data) matchKind) (pdt_bindings data)
                   (st\<lparr>es_collector := []\<rparr>)) (\<lambda>(err, st).
                   case err of
                     Some e \<Rightarrow> Ret (Some e, st)
                   | None \<Rightarrow> Ret (None, collector_publish env (om_Name (vp_ObjectMeta definition0)) st))))"

definition denied_error :: "('obj, 'u, 'z) evaluator_env \<Rightarrow> 'obj Attributes \<Rightarrow> policyDecisionWithMetadata \<Rightarrow> goerror result" where
  "denied_error env a dd =
     (let message = (case dm_Binding dd of
            Some binding \<Rightarrow> ''ValidatingAdmissionPolicy '' @ quoted (om_Name (vp_ObjectMeta (dm_Definition dd))) @ '' with binding '' @
              quoted (om_Name (vb_ObjectMeta binding)) @ '' denied request: '' @ pd_Message (dm_PolicyDecision dd)
          | None \<Rightarrow> ''ValidatingAdmissionPolicy '' @ quoted (om_Name (vp_ObjectMeta (dm_Definition dd))) @ '' denied request: '' @
              pd_Message (dm_PolicyDecision dd));
          reason = (if length (pd_Reason (dm_PolicyDecision dd)) = 0 then StatusReasonInvalid else pd_Reason (dm_PolicyDecision dd))
      in case NewForbidden (me_Accessor (ee_match env)) a (ErrorString message) of
           StatusError st \<Rightarrow> Ret (StatusError (st\<lparr>status_Reason := reason, status_Code := reasonToCode reason,
             status_Details := map_option (\<lambda>d. d\<lparr>details_Causes := details_Causes d @
               [\<lparr>cause_Type = '''', cause_Message = message, cause_Field = ''''\<rparr>]\<rparr>) (status_Details st)\<rparr>))
         | e \<Rightarrow> Panic ''interface conversion'')"

section \<open>The evaluator\<close>

record ('u, 'z, 'srv) celAdmissionController =
  ce_policyController :: "('u, 'z, 'srv) policyController"
  ce_definitionsSynced :: bool
  ce_bindingsSynced :: bool
  ce_definitions :: "('u, 'z) policyData list option"

definition evaluator_HasSynced :: "('u, 'z, 'srv) celAdmissionController \<Rightarrow> bool" where
  "evaluator_HasSynced c \<longleftrightarrow> (ce_definitionsSynced c \<and> ce_bindingsSynced c) \<and> ce_definitions c \<noteq> None"

definition refreshPolicies ::
  "('u, 'z, 'srv) policy_env \<Rightarrow> go_order \<Rightarrow> ('u, 'z, 'srv) celAdmissionController \<Rightarrow> ('u, 'z, 'srv) celAdmissionController result" where
  "refreshPolicies env order c =
     bind_outcome (latestPolicyData env order (ce_policyController c)) (\<lambda>(ps, s).
       Ret (c\<lparr>ce_policyController := s, ce_definitions := Some ps\<rparr>))"

definition new_eval_state :: eval_state where
  "new_eval_state = \<lparr>es_denied = [], es_annotations = Map.empty, es_warnings = [], es_collector = []\<rparr>"

definition evaluator_Validate ::
  "('obj, 'u, 'z) evaluator_env \<Rightarrow> 'obj Attributes \<Rightarrow> ('u, 'z, 'srv) celAdmissionController \<Rightarrow> (goerror option \<times> eval_state) result" where
  "evaluator_Validate env a c =
     (if \<not> evaluator_HasSynced c then
        Ret (Some (NewForbidden (me_Accessor (ee_match env)) a (ErrorString ''not yet ready to handle request'')), new_eval_state)
      else case ce_definitions c of
        None \<Rightarrow> Panic ''interface conversion: interface is nil''
      | Some policyDatas \<Rightarrow>
          bind_outcome (each (definitionStep env a) policyDatas new_eval_state) (\<lambda>(err, st).
            case err of
              Some e \<Rightarrow> Ret (Some e, st)
            | None \<Rightarrow>
                (case es_denied st of
                   [] \<Rightarrow> Ret (None, st)
                 | dd # dds \<Rightarrow> bind_outcome (denied_error env a dd) (\<lambda>e. Ret (Some e, st)))))"

section \<open>Denials are kept\<close>

text \<open>The contract of the body of a loop: it only adds to the denials.\<close>

locale denial_loop =
  fixes body :: "'a \<Rightarrow> eval_state \<Rightarrow> (goerror option \<times> eval_state) result"
  assumes keeps: "body x st = Ret (err, st') \<Longrightarrow> \<exists>ds. es_denied st' = es_denied st @ ds"
begin

lemma each_keeps: "each body xs st = Ret (err, st') \<Longrightarrow> \<exists>ds. es_denied st' = es_denied st @ ds"
proof (induction xs arbitrary: st)
  case (Cons x xs)
  then obtain err1 st1 where b: "body x st = Ret (err1, st1)"
    and rest: "(case err1 of Some e \<Rightarrow> Ret (Some e, st1) | None \<Rightarrow> each body xs st1) = Ret (err, st')"
    by (auto simp: bind_outcome_Ret)
  obtain ds where ds: "es_denied st1 = es_denied st @ ds" using keeps [OF b] by blast
  show ?case
  proof (cases err1)
    case None
    with rest Cons.IH [of st1] ds show ?thesis by auto
  next
    case (Some e)
    with rest ds show ?thesis by auto
  qed
qed simp

lemma each_clean:
  assumes "each body xs st = Ret (None, st')" "es_denied st' = []" "x \<in> set xs"
  shows "\<exists>s1 s2. body x s1 = Ret (None, s2) \<and> es_denied s2 = []"
  using assms
proof (induction xs arbitrary: st)
  case (Cons y ys)
  then obtain st1 where b: "body y st = Ret (None, st1)" and rest: "each body ys st1 = Ret (None, st')"
    by (auto simp: bind_outcome_Ret split: option.splits)
  have "es_denied st1 = []" using each_keeps [OF rest] Cons.prems(2) by auto
  with b Cons.IH [OF rest Cons.prems(2)] Cons.prems(3) show ?case by auto
qed simp

end

lemma AddAnnotation_denied [simp]: "es_denied (AddAnnotation env key v st) = es_denied st"
  by (simp add: AddAnnotation_def split: option.split)

lemma collector_add_denied [simp]: "es_denied (collector_add key v st) = es_denied st"
  by (simp add: collector_add_def split: option.split)

lemma collector_publish_denied [simp]: "es_denied (collector_publish env name st) = es_denied st"
proof -
  have "es_denied (fold (\<lambda>(key, vs). AddAnnotation env (name @ ''/'' @ key) (join_comma vs)) kvs t) = es_denied t" for kvs t
    by (induction kvs arbitrary: t) auto
  then show ?thesis by (simp add: collector_publish_def)
qed

lemma deny_denied [simp]: "\<exists>ds. es_denied (deny d b dec st) = es_denied st @ ds" "es_denied (deny d b dec st) \<noteq> []"
  by (simp_all add: deny_def)

lemma addConfigError_keeps [simp]: "\<exists>ds. es_denied (addConfigError err d b st) = es_denied st @ ds"
  by (simp add: addConfigError_def Let_def deny_def)

lemma addConfigError_denies:
  "ps_FailurePolicy (vp_Spec d) \<noteq> Some ''Ignore'' \<Longrightarrow> es_denied (addConfigError err d b st) \<noteq> []"
  by (auto simp: addConfigError_def Let_def deny_def split: option.splits)

lemma actions_keep: "\<exists>ds. es_denied (fold (validationAction env d b i dec) acts st) = es_denied st @ ds"
proof (induction acts arbitrary: st)
  case (Cons act acts)
  have "\<exists>ds. es_denied (validationAction env d b i dec act st) = es_denied st @ ds"
    by (simp add: validationAction_def publishValidationFailureAnnotation_def)
  with Cons [of "validationAction env d b i dec act st"] show ?case by auto
qed simp

lemma actions_deny: "''Deny'' \<in> set acts \<Longrightarrow> es_denied (fold (validationAction env d b i dec) acts st) \<noteq> []"
proof (induction acts arbitrary: st)
  case (Cons act acts)
  show ?case
  proof (cases "act = ''Deny''")
    case True
    then have "es_denied (validationAction env d b i dec act st) \<noteq> []" by (simp add: validationAction_def)
    with actions_keep [of env d b i dec acts "validationAction env d b i dec act st"] show ?thesis by auto
  next
    case False
    with Cons show ?thesis by simp
  qed
qed simp

interpretation decision_loop: denial_loop "decisionStep env definition0 binding" for env definition0 binding
proof
  fix x st err st'
  assume "decisionStep env definition0 binding x st = Ret (err, st')"
  then show "\<exists>ds. es_denied st' = es_denied st @ ds"
    using actions_keep [of env definition0 binding] by (auto simp: decisionStep_def Let_def split: prod.splits if_splits)
qed

interpretation annotation_loop: denial_loop "annotationStep definition0 binding" for definition0 binding
proof
  fix x st err st'
  assume "annotationStep definition0 binding x st = Ret (err, st')"
  then show "\<exists>ds. es_denied st' = es_denied st @ ds" by (auto simp: annotationStep_def split: if_splits)
qed

text \<open>What a binding that enforces its policy has established when no denial was added.\<close>

definition binding_satisfied ::
  "('obj, 'u, 'z) evaluator_env \<Rightarrow> 'obj Attributes \<Rightarrow> ValidatingAdmissionPolicy \<Rightarrow> nat option \<Rightarrow> GroupVersionKind \<Rightarrow> ('u, 'z) bindingInfo \<Rightarrow>
   ValidatingAdmissionPolicyBinding \<Rightarrow> bool" where
  "binding_satisfied env a definition0 paramController matchKind info binding \<longleftrightarrow>
     (\<exists>param versionedAttr v r. bindingParam env definition0 paramController binding = Inr param \<and>
        NewVersionedAttributes (ee_interfaces env) a matchKind = Inr versionedAttr \<and> bi_validator info = Some v \<and>
        validator_Validate (ee_filter env) v versionedAttr param RuntimeCELCostBudget = Ret r \<and> no_denial r)"

lemma decisions_clean:
  assumes "each (decisionStep env d b) (enumerate 0 ds) st = Ret (None, st')" "es_denied st' = []" "''Deny'' \<in> set (bs_ValidationActions (vb_Spec b))"
  shows "\<forall>dec \<in> set ds. pd_Action dec \<noteq> ActionDeny"
proof
  fix dec
  assume "dec \<in> set ds"
  then obtain i where "i < length ds" "dec = ds ! i" by (auto simp: in_set_conv_nth)
  then have "(i, dec) \<in> set (enumerate 0 ds)" by (simp add: in_set_enumerate_eq)
  from decision_loop.each_clean [OF assms(1,2) this] obtain s1 s2 where
    "decisionStep env d b (i, dec) s1 = Ret (None, s2)" "es_denied s2 = []" by blast
  then show "pd_Action dec \<noteq> ActionDeny"
    using actions_deny [OF assms(3), of env d b i dec s1] by (auto simp: decisionStep_def ActionDeny_def ActionAdmit_def split: if_splits)
qed

text \<open>The ways a step for a binding can end without an error.\<close>

lemma bindingStep_cases:
  assumes "bindingStep env a d pc k info st = Ret (err, st')"
  obtains (config) e b where "bi_lastReconciledValue info = Some b" "BindingMatches (ee_match env) a b \<noteq> Inr False" "st' = addConfigError e d (Some b) st"
    | (skip) b where "bi_lastReconciledValue info = Some b" "BindingMatches (ee_match env) a b = Inr False" "st' = st"
    | (run) b param va v r err1 st1 where "bi_lastReconciledValue info = Some b" "BindingMatches (ee_match env) a b = Inr True"
      "bindingParam env d pc b = Inr param" "NewVersionedAttributes (ee_interfaces env) a k = Inr va" "bi_validator info = Some v"
      "validator_Validate (ee_filter env) v va param RuntimeCELCostBudget = Ret r"
      "each (decisionStep env d b) (enumerate 0 (vr_Decisions r)) st = Ret (err1, st1)"
      "(case err1 of Some e \<Rightarrow> Ret (Some e, st1) | None \<Rightarrow> each (annotationStep d b) (vr_AuditAnnotations r) st1) = Ret (err, st')"
  using assms
  by (auto simp: bindingStep_def bind_outcome_Ret split: option.splits sum.splits bool.splits)

interpretation binding_loop: denial_loop "bindingStep env a definition0 paramController matchKind" for env a definition0 paramController matchKind
proof
  fix info st err st'
  assume step: "bindingStep env a definition0 paramController matchKind info st = Ret (err, st')"
  show "\<exists>ds. es_denied st' = es_denied st @ ds"
  proof (rule bindingStep_cases [OF step])
    fix b param va v r err1 st1
    assume ds: "each (decisionStep env definition0 b) (enumerate 0 (vr_Decisions r)) st = Ret (err1, st1)"
      and as: "(case err1 of Some e \<Rightarrow> Ret (Some e, st1) | None \<Rightarrow> each (annotationStep definition0 b) (vr_AuditAnnotations r) st1) = Ret (err, st')"
    obtain xs where "es_denied st1 = es_denied st @ xs" using decision_loop.each_keeps [OF ds] by blast
    moreover have "\<exists>ys. es_denied st' = es_denied st1 @ ys"
      using as annotation_loop.each_keeps [of definition0 b "vr_AuditAnnotations r" st1 err st'] by (cases err1) auto
    ultimately show ?thesis by auto
  qed auto
qed

lemma binding_clean:
  assumes step: "bindingStep env a d pc k info st = Ret (None, st')" and clean: "es_denied st' = []"
    and fail: "ps_FailurePolicy (vp_Spec d) \<noteq> Some ''Ignore''"
    and b: "bi_lastReconciledValue info = Some b" "BindingMatches (ee_match env) a b \<noteq> Inr False" "''Deny'' \<in> set (bs_ValidationActions (vb_Spec b))"
  shows "binding_satisfied env a d pc k info b"
proof (rule bindingStep_cases [OF step])
  fix e b'
  assume "st' = addConfigError e d (Some b') st"
  with clean addConfigError_denies [OF fail] show ?thesis by simp
next
  fix b'
  assume "bi_lastReconciledValue info = Some b'" "BindingMatches (ee_match env) a b' = Inr False"
  with b show ?thesis by simp
next
  fix b' param va v r err1 st1
  assume r: "bi_lastReconciledValue info = Some b'" "bindingParam env d pc b' = Inr param"
      "NewVersionedAttributes (ee_interfaces env) a k = Inr va" "bi_validator info = Some v"
      "validator_Validate (ee_filter env) v va param RuntimeCELCostBudget = Ret r"
    and ds: "each (decisionStep env d b') (enumerate 0 (vr_Decisions r)) st = Ret (err1, st1)"
    and as: "(case err1 of Some e \<Rightarrow> Ret (Some e, st1) | None \<Rightarrow> each (annotationStep d b') (vr_AuditAnnotations r) st1) = Ret (None, st')"
  have b': "b' = b" using b(1) r(1) by simp
  have err1: "err1 = None" using as by (cases err1) auto
  have "es_denied st1 = []"
    using as annotation_loop.each_keeps [of d b' "vr_AuditAnnotations r" st1 None st'] clean by (auto simp: err1)
  with decisions_clean [OF ds [unfolded err1 b'] _ b(3)] have "no_denial r" by (simp add: no_denial_def)
  with r b' show ?thesis unfolding binding_satisfied_def by blast
qed

interpretation definition_loop: denial_loop "definitionStep env a" for env a
proof
  fix data st err st'
  assume "definitionStep env a data st = Ret (err, st')"
  then show "\<exists>ds. es_denied st' = es_denied st @ ds"
    by (auto simp: definitionStep_def bind_outcome_Ret split: option.splits outcome.splits if_splits
      dest!: binding_loop.each_keeps)
qed

text \<open>What the evaluator has established of one policy when it admits a request.\<close>

definition policy_satisfied ::
  "('obj, 'u, 'z) evaluator_env \<Rightarrow> 'obj Attributes \<Rightarrow> ('u, 'z) policyData \<Rightarrow> ValidatingAdmissionPolicy \<Rightarrow> bool" where
  "policy_satisfied env a data d \<longleftrightarrow>
     (\<exists>k. DefinitionMatches (ee_match env) a d = Ret (False, k)) \<or>
     (\<exists>k. DefinitionMatches (ee_match env) a d = Ret (True, k) \<and> di_configurationError (pdt_definitionInfo data) = None \<and>
        (\<forall>info \<in> set (pdt_bindings data). \<forall>b. bi_lastReconciledValue info = Some b \<longrightarrow> BindingMatches (ee_match env) a b \<noteq> Inr False \<longrightarrow>
           ''Deny'' \<in> set (bs_ValidationActions (vb_Spec b)) \<longrightarrow> binding_satisfied env a d (pdt_paramController data) k info b))"

lemma definition_clean:
  assumes step: "definitionStep env a data st = Ret (None, st')" and clean: "es_denied st' = []"
    and d: "di_lastReconciledValue (pdt_definitionInfo data) = Some d" "ps_FailurePolicy (vp_Spec d) \<noteq> Some ''Ignore''"
  shows "policy_satisfied env a data d"
proof -
  have no_error: "es_denied (addConfigError e d None st) \<noteq> []" for e by (rule addConfigError_denies [OF d(2)])
  show ?thesis
  proof (cases "DefinitionMatches (ee_match env) a d")
    case (Ret mk)
    obtain matches k where mk: "mk = (matches, k)" by (cases mk)
    show ?thesis
    proof (cases "matches \<and> di_configurationError (pdt_definitionInfo data) = None")
      case True
      then obtain st1 where each: "each (bindingStep env a d (pdt_paramController data) k) (pdt_bindings data) (st\<lparr>es_collector := []\<rparr>) = Ret (None, st1)"
        and "es_denied st1 = []"
        using step clean by (auto simp: definitionStep_def d Ret mk bind_outcome_Ret split: option.splits)
      then have "binding_satisfied env a d (pdt_paramController data) k info b"
        if "info \<in> set (pdt_bindings data)" "bi_lastReconciledValue info = Some b" "BindingMatches (ee_match env) a b \<noteq> Inr False"
          "''Deny'' \<in> set (bs_ValidationActions (vb_Spec b))" for info b
        using binding_loop.each_clean [OF each _ that(1)] binding_clean [OF _ _ d(2) that(2-4)] by blast
      with True Ret mk show ?thesis by (simp add: policy_satisfied_def)
    next
      case False
      with step clean no_error Ret mk show ?thesis by (auto simp: definitionStep_def d policy_satisfied_def split: option.splits)
    qed
  next
    case (Err e)
    with step clean no_error [of e] show ?thesis by (simp add: definitionStep_def d)
  next
    case (Panic m)
    with step show ?thesis by (simp add: definitionStep_def d)
  qed
qed

lemma evaluator_Validate_admits:
  assumes "evaluator_Validate env a c = Ret (None, st)"
  shows "evaluator_HasSynced c" "\<exists>ps. ce_definitions c = Some ps \<and> each (definitionStep env a) ps new_eval_state = Ret (None, st) \<and> es_denied st = []"
  using assms by (auto simp: evaluator_Validate_def bind_outcome_Ret split: if_splits option.splits list.splits)

text \<open>
  C4. The evaluator admits nothing unexamined. If it admits a request, it has synced, and for every policy
  of its snapshot whose failures are not to be ignored, either the policy does not match the
  request, or it has no configuration error and each of its bindings with the action "Deny" that is not
  positively unmatched has found its parameters, converted the objects, and evaluated to no denial.
  Errors of matching, of configuration or of parameters never let a request pass.
\<close>

theorem evaluator_admits_soundly:
  assumes "evaluator_Validate env a c = Ret (None, st)"
  shows "evaluator_HasSynced c \<and> (\<exists>ps. ce_definitions c = Some ps \<and>
    (\<forall>data \<in> set ps. \<forall>d. di_lastReconciledValue (pdt_definitionInfo data) = Some d \<longrightarrow>
       ps_FailurePolicy (vp_Spec d) \<noteq> Some ''Ignore'' \<longrightarrow> policy_satisfied env a data d))"
proof -
  obtain ps where ps: "ce_definitions c = Some ps" and loop: "each (definitionStep env a) ps new_eval_state = Ret (None, st)" "es_denied st = []"
    using evaluator_Validate_admits(2) [OF assms] by blast
  have "policy_satisfied env a data d" if "data \<in> set ps" "di_lastReconciledValue (pdt_definitionInfo data) = Some d"
    "ps_FailurePolicy (vp_Spec d) \<noteq> Some ''Ignore''" for data d
    using definition_loop.each_clean [OF loop that(1)] definition_clean [OF _ _ that(2,3)] by blast
  with ps evaluator_Validate_admits(1) [OF assms] show ?thesis by blast
qed

section \<open>Policies are enforced\<close>

definition expression_vars :: "ValidatingAdmissionPolicySpec \<Rightarrow> OptionalVariableDeclarations" where
  "expression_vars spec = \<lparr>ov_HasParams = ps_ParamKind spec \<noteq> None, ov_HasAuthorizer = True\<rparr>"

text \<open>The compiled validations and match conditions of a policy.\<close>

definition compiled_validation ::
  "('u, 'z, 'srv) policy_env \<Rightarrow> ValidatingAdmissionPolicySpec \<Rightarrow> Validation \<Rightarrow> ('u, 'z) evaluationActivation CompilationResult" where
  "compiled_validation penv spec v = pe_CompileCELExpression penv (validation_accessor v) (expression_vars spec) PerCallLimit"

definition compiled_condition ::
  "('u, 'z, 'srv) policy_env \<Rightarrow> ValidatingAdmissionPolicySpec \<Rightarrow> MatchCondition \<Rightarrow> ('u, 'z) evaluationActivation CompilationResult" where
  "compiled_condition penv spec m = pe_CompileCELExpression penv (MatchConditionAccessor m) (expression_vars spec) PerCallLimit"

text \<open>A request with these objects and this parameter satisfies a policy.\<close>

definition spec_satisfied ::
  "('u, 'z, 'srv) policy_env \<Rightarrow> ('obj, 'u, 'z) filter_env \<Rightarrow> 'obj VersionedAttributes \<Rightarrow> 'obj option \<Rightarrow> ValidatingAdmissionPolicySpec \<Rightarrow> bool" where
  "spec_satisfied penv fe va param spec \<longleftrightarrow>
     (\<exists>act. activation fe va (CreateAdmissionRequest (va_Attributes va)) param (pe_authorizer penv) = Inr act \<and>
        ((\<exists>m \<in> set (ps_MatchConditions spec). evaluates_to act (compiled_condition penv spec m) (CelBool False)) \<or>
         (\<forall>v \<in> set (ps_Validations spec). evaluates_to act (compiled_validation penv spec v) (CelBool True))))"

lemma compile_policy_parts:
  "v_validationFilter (compile_policy penv d) = map (compiled_validation penv (vp_Spec d)) (ps_Validations (vp_Spec d))"
  "v_authorizer (compile_policy penv d) = pe_authorizer penv"
  "v_celMatcher (compile_policy penv d) = Some m \<Longrightarrow> mt_filter m = map (compiled_condition penv (vp_Spec d)) (ps_MatchConditions (vp_Spec d)) \<and>
     mt_authorizer m = pe_authorizer penv \<and> mt_failPolicy m = failPolicy_of (compile_policy penv d)"
  by (auto simp: compile_policy_def Let_def NewValidator_def NewMatcher_def Compile_def convertv1alpha1Validations_def
    compiled_validation_def compiled_condition_def expression_vars_def comp_def failPolicy_of_def split: if_splits)

lemma compile_policy_fails:
  "ps_FailurePolicy (vp_Spec d) = None \<or> ps_FailurePolicy (vp_Spec d) = Some ''Fail'' \<Longrightarrow> failPolicy_of (compile_policy penv d) = ''Fail''"
  by (auto simp: compile_policy_def Let_def NewValidator_def failPolicy_of_def convertv1alpha1FailurePolicyTypeTov1FailurePolicyType_def)

lemma compile_policy_sound:
  assumes "ps_FailurePolicy (vp_Spec d) = None \<or> ps_FailurePolicy (vp_Spec d) = Some ''Fail''"
    and "validator_Validate fe (compile_policy penv d) va param RuntimeCELCostBudget = Ret r" "no_denial r"
  shows "spec_satisfied penv fe va param (vp_Spec d)"
proof -
  let ?v = "compile_policy penv d"
  have budget: "0 \<le> sint RuntimeCELCostBudget" by (simp add: RuntimeCELCostBudget_def)
  have f: "failPolicy_of ?v = ''Fail''" by (rule compile_policy_fails [OF assms(1)])
  obtain act where act: "activation fe va (CreateAdmissionRequest (va_Attributes va)) param (pe_authorizer penv) = Inr act"
    and or: "(\<exists>m. v_celMatcher ?v = Some m \<and> (\<exists>c \<in> set (mt_filter m). evaluates_to act c (CelBool False))) \<or>
      (\<forall>e \<in> set (v_validationFilter ?v). evaluates_to act e (CelBool True))"
    using validator_admits [OF f budget _ assms(2,3)] compile_policy_parts [of penv d] f by auto
  from or show ?thesis unfolding spec_satisfied_def
    using act compile_policy_parts [of penv d] by auto
qed

text \<open>
  A binding applies a policy to a request: the binding names the policy and has the action "Deny", and
  the criteria of both match the request.
\<close>

definition applies ::
  "'obj match_env \<Rightarrow> 'obj Attributes \<Rightarrow> ValidatingAdmissionPolicySpec \<Rightarrow> ValidatingAdmissionPolicyBindingSpec \<Rightarrow> GroupVersionKind \<Rightarrow> bool" where
  "applies me a spec bspec k \<longleftrightarrow>
     (case ps_MatchConstraints spec of None \<Rightarrow> False | Some mr \<Rightarrow> criteria_Matches me a mr = Inr (True, k)) \<and>
     (case bs_MatchResources bspec of None \<Rightarrow> True
      | Some mr \<Rightarrow> (case criteria_Matches me a mr of Inl e \<Rightarrow> False | Inr (isMatch, k') \<Rightarrow> isMatch)) \<and>
     ''Deny'' \<in> set (bs_ValidationActions bspec)"

text \<open>The evaluator's snapshot is that of a controller that has reconciled these changes.\<close>

definition snapshot_after ::
  "('u, 'z, 'srv) policy_env \<Rightarrow> 'srv pc_event list \<Rightarrow> ('u, 'z, 'srv) celAdmissionController \<Rightarrow> bool" where
  "snapshot_after penv evs c \<longleftrightarrow>
     (\<exists>order srv s ps s'. enumerates order \<and> pc_run penv evs (newPolicyController srv) = Ret s \<and>
        latestPolicyData penv order s = Ret (ps, s') \<and> ce_definitions c = Some ps)"

lemma refresh_snapshot:
  assumes "enumerates order" "pc_run penv evs (newPolicyController srv) = Ret (ce_policyController c)" "refreshPolicies penv order c = Ret c'"
  shows "snapshot_after penv evs c'"
proof -
  obtain ps s' where ps: "latestPolicyData penv order (ce_policyController c) = Ret (ps, s')" and c': "ce_definitions c' = Some ps"
    using assms(3) by (auto simp: refreshPolicies_def bind_outcome_Ret)
  show ?thesis unfolding snapshot_after_def using assms(1,2) ps c' by blast
qed

lemma snapshot_entry:
  assumes valid: "\<forall>ev \<in> set evs. valid_event ev" and snap: "snapshot_after penv evs c"
    and spec: "policies_after evs Map.empty nn = Some spec"
  shows "\<exists>ps. \<exists>data \<in> set ps. ce_definitions c = Some ps \<and> describes penv (bindings_after evs Map.empty) nn spec data"
proof -
  obtain order srv s ps s' where order: "enumerates order" and run: "pc_run penv evs (newPolicyController srv) = Ret s"
    and latest: "latestPolicyData penv order s = Ret (ps, s')" and c: "ce_definitions c = Some ps"
    using snap unfolding snapshot_after_def by blast
  have s: "pc_inv penv s" "abs_policies s = policies_after evs Map.empty" "abs_bindings s = bindings_after evs Map.empty"
    using pc_run_inv [OF pc_inv_init valid, of penv srv] run by (auto simp: abs_init)
  have s': "pc_inv penv s'" "snapshot_of penv s' ps" "abs_policies s' = abs_policies s" "abs_bindings s' = abs_bindings s"
    using latestPolicyData_inv [OF s(1) order] latest by auto
  have "\<forall>nn spec. abs_policies s' nn = Some spec \<longrightarrow> (\<exists>p \<in> set ps. describes penv (abs_bindings s') nn spec p)"
    using snapshot_describes [OF s'(1,2)] by blast
  with spec s s' obtain data where "data \<in> set ps" "describes penv (bindings_after evs Map.empty) nn spec data" by fastforce
  with c show ?thesis by blast
qed

lemma admitted_satisfies:
  assumes valid: "\<forall>ev \<in> set evs. valid_event ev" and snap: "snapshot_after penv evs c"
    and admitted: "evaluator_Validate env a c = Ret (None, st)"
    and spec: "policies_after evs Map.empty nn = Some spec" "ps_FailurePolicy spec = None \<or> ps_FailurePolicy spec = Some ''Fail''"
    and binding: "bindings_after evs Map.empty bn = Some bspec" "getNamespaceName '''' (bs_PolicyName bspec) = nn"
    and applies: "applies (ee_match env) a spec bspec k"
  shows "\<exists>param va. NewVersionedAttributes (ee_interfaces env) a k = Inr va \<and> spec_satisfied penv (ee_filter env) va param spec \<and>
    (ps_ParamKind spec \<noteq> None \<longrightarrow> bs_ParamRef bspec \<noteq> None \<longrightarrow> param \<noteq> None)"
proof -
  obtain ps data where data: "data \<in> set ps" "ce_definitions c = Some ps" "describes penv (bindings_after evs Map.empty) nn spec data"
    using snapshot_entry [OF valid snap spec(1)] by blast
  then obtain d where d: "di_lastReconciledValue (pdt_definitionInfo data) = Some d" "vp_Spec d = spec"
    and bs: "(\<lambda>b. map_option vb_Spec (bi_lastReconciledValue b)) ` set (pdt_bindings data) =
          Some ` {bspec. bspec \<in> ran (bindings_after evs Map.empty) \<and> getNamespaceName '''' (bs_PolicyName bspec) = nn}"
    and vs: "di_configurationError (pdt_definitionInfo data) = None \<longrightarrow>
          (\<forall>b \<in> set (pdt_bindings data). bi_validator b = Some (compile_policy penv d))"
    by (auto simp: describes_def)
  have "Some bspec \<in> (\<lambda>b. map_option vb_Spec (bi_lastReconciledValue b)) ` set (pdt_bindings data)"
    unfolding bs using binding by (auto intro: ranI)
  then obtain info where i: "info \<in> set (pdt_bindings data)" "map_option vb_Spec (bi_lastReconciledValue info) = Some bspec" by (metis imageE)
  then obtain b where b: "bi_lastReconciledValue info = Some b" "vb_Spec b = bspec" by auto
  note info = i(1) b
  have matches: "DefinitionMatches (ee_match env) a d = Ret (True, k)"
    using applies d(2) by (auto simp: applies_def DefinitionMatches_def split: option.splits sum.splits)
  have bmatches: "BindingMatches (ee_match env) a b \<noteq> Inr False"
    using applies info(3) by (auto simp: applies_def BindingMatches_def bind_sum_Inr split: option.splits sum.splits)
  have deny: "''Deny'' \<in> set (bs_ValidationActions (vb_Spec b))" using applies info(3) by (simp add: applies_def)
  have "ps_FailurePolicy (vp_Spec d) \<noteq> Some ''Ignore''" using spec(2) d(2) by auto
  then have "policy_satisfied env a data d"
    using definition_loop.each_clean [of env a ps new_eval_state st data] definition_clean [of env a data _ _ d]
      evaluator_Validate_admits(2) [OF admitted] data d(1) by auto
  then have ok: "di_configurationError (pdt_definitionInfo data) = None" "binding_satisfied env a d (pdt_paramController data) k info b"
    using matches info bmatches deny by (auto simp: policy_satisfied_def)
  obtain param va r where r: "bindingParam env d (pdt_paramController data) b = Inr param" "NewVersionedAttributes (ee_interfaces env) a k = Inr va"
    "validator_Validate (ee_filter env) (compile_policy penv d) va param RuntimeCELCostBudget = Ret r" "no_denial r"
    using ok vs info(1) by (auto simp: binding_satisfied_def)
  have "spec_satisfied penv (ee_filter env) va param spec"
    using compile_policy_sound [OF _ r(3,4)] spec(2) d(2) by simp
  moreover have "ps_ParamKind spec \<noteq> None \<longrightarrow> bs_ParamRef bspec \<noteq> None \<longrightarrow> param \<noteq> None"
    using r(1) d(2) info(3) by (auto simp: bindingParam_def bind_sum_Inr split: option.splits if_splits)
  ultimately show ?thesis using r(2) by blast
qed

text \<open>
  A request upholds the snapshot of an evaluator: whatever changes of policies and bindings the
  snapshot was taken after, each policy that then exists, does not ignore failures and is applied to the
  request by a binding, is satisfied by the objects of the request, converted to the kind that matched.
\<close>

definition upholds ::
  "('obj, 'u, 'z) evaluator_env \<Rightarrow> 'obj Attributes \<Rightarrow> ('u, 'z, 'srv) celAdmissionController \<Rightarrow> bool" where
  "upholds env a c \<longleftrightarrow>
     (\<forall>(penv :: ('u, 'z, 'srv) policy_env) evs nn spec bn bspec k.
        (\<forall>ev \<in> set evs. valid_event ev) \<longrightarrow> snapshot_after penv evs c \<longrightarrow>
        policies_after evs Map.empty nn = Some spec \<longrightarrow> ps_FailurePolicy spec = None \<or> ps_FailurePolicy spec = Some ''Fail'' \<longrightarrow>
        bindings_after evs Map.empty bn = Some bspec \<longrightarrow> getNamespaceName '''' (bs_PolicyName bspec) = nn \<longrightarrow>
        applies (ee_match env) a spec bspec k \<longrightarrow>
        (\<exists>param va. NewVersionedAttributes (ee_interfaces env) a k = Inr va \<and> spec_satisfied penv (ee_filter env) va param spec))"

lemma admitted_upholds:
  assumes "evaluator_Validate env a c = Ret (None, st)"
  shows "upholds env a c"
  unfolding upholds_def
proof (intro allI impI)
  fix penv :: "('b, 'c, 'd) policy_env" and evs nn spec bn bspec k
  assume "\<forall>ev \<in> set evs. valid_event ev" "snapshot_after penv evs c" "policies_after evs Map.empty nn = Some spec"
    "ps_FailurePolicy spec = None \<or> ps_FailurePolicy spec = Some ''Fail''" "bindings_after evs Map.empty bn = Some bspec"
    "getNamespaceName '''' (bs_PolicyName bspec) = nn" "applies (ee_match env) a spec bspec k"
  from admitted_satisfies [OF this(1,2) assms this(3-7)]
  show "\<exists>param va. NewVersionedAttributes (ee_interfaces env) a k = Inr va \<and> spec_satisfied penv (ee_filter env) va param spec" by blast
qed

text \<open>
  An evaluator with one policy for pods, whose validation refuses the name "bad", and a binding that
  enforces it; the labels of an object are not read.
\<close>

definition example_evaluator_env :: "(string, nat, nat) evaluator_env" where
  "example_evaluator_env =
     \<lparr>ee_match = \<lparr>me_checks = me_checks example_match_env,
        me_Accessor = (\<lambda>obj. Inr \<lparr>acc_Name = '''', acc_GenerateName = '''', acc_Namespace = '''', acc_ResourceVersion = '''', acc_Labels = Map.empty\<rparr>),
        me_NamespaceLister = (\<lambda>ns. Inr [''env'' \<mapsto> ''prod'']), me_Client = (\<lambda>ns. Inr Map.empty), me_registry = NewEquivalentResourceRegistry\<rparr>,
      ee_interfaces = \<lparr>oi_GroupVersionKind = (\<lambda>obj. \<lparr>gvk_Group = '''', gvk_Version = ''v1'', gvk_Kind = ''Pod''\<rparr>), oi_New = (\<lambda>k. Inr ''''),
        oi_Convert = (\<lambda>obj out. Inr obj), oi_SetGroupVersionKind = (\<lambda>k obj. obj)\<rparr>,
      ee_filter = \<lparr>fe_ToUnstructured = (\<lambda>obj. Inr 1), fe_RequestToUnstructured = (\<lambda>r. Inr (if cq_Name r = ''bad'' then 0 else 1)),
        fe_NewAuthorizerVal = (\<lambda>u. 3), fe_NewResourceAuthorizerVal = (\<lambda>u a. 4)\<rparr>,
      ee_param = (\<lambda>c. \<lparr>pm_WaitForCacheSync = False, pm_Get = (\<lambda>n. Inr ''''), pm_NamespacedGet = (\<lambda>ns n. Inr '''')\<rparr>),
      ee_IsQualifiedName = (\<lambda>k. True), ee_Marshal = (\<lambda>vs. '''')\<rparr>"

definition example_cel_env :: "(nat, nat, bool) policy_env" where
  "example_cel_env = example_policy_env\<lparr>pe_CompileCELExpression := (\<lambda>acc opts limit.
     \<lparr>cr_Program = Some (\<lambda>act. (Some (CelBool (ea_request act = 1)), Some (Some 1), None)), cr_Error = None, cr_ExpressionAccessor = Some acc\<rparr>)\<rparr>"

definition example_celAdmissionController :: "(nat, nat, bool) celAdmissionController" where
  "example_celAdmissionController =
     \<lparr>ce_policyController = newPolicyController True, ce_definitionsSynced = True, ce_bindingsSynced = True,
      ce_definitions = Some [\<lparr>pdt_definitionInfo = \<lparr>di_configurationError = None, di_lastReconciledValue = Some example_param_policy\<rparr>,
        pdt_paramController = Some 0, pdt_bindings = [\<lparr>bi_validator = Some (compile_policy example_cel_env example_param_policy),
          bi_lastReconciledValue = Some example_param_binding\<rparr>]\<rparr>]\<rparr>"

definition creates_pod :: "string Attributes \<Rightarrow> bool" where
  "creates_pod a \<longleftrightarrow> attr_kind a = \<lparr>gvk_Group = '''', gvk_Version = ''v1'', gvk_Kind = ''Pod''\<rparr> \<and>
     attr_resource a = \<lparr>gvr_Group = '''', gvr_Version = ''v1'', gvr_Resource = ''pods''\<rparr> \<and> attr_subresource a = '''' \<and>
     attr_operation a = ''CREATE'' \<and> attr_namespace a = ''default'' \<and> attr_oldObject a = None"

lemma example_pod_matches:
  assumes "creates_pod a"
  shows "DefinitionMatches (ee_match example_evaluator_env) a example_param_policy = Ret (True, attr_kind a)"
  using assms
  by (simp add: creates_pod_def DefinitionMatches_def example_param_policy_def criteria_Matches_def MatchNamespaceSelector_def
    MatchObjectSelector_def matchesResourceRules_def example_evaluator_env_def example_match_simps GetNamespaceLabels_def
    LabelSelectorAsSelector_def NewRequirement_def operator_errors_def option_list_def requirement_Matches_def rule_Matches_def name_listed_def rule_scope_def
        rule_operation_def exactOrWildcard_def rule_resource_def splitResource_def EquivalentResourcesFor_def NewEquivalentResourceRegistry_def)

definition example_va :: "string Attributes \<Rightarrow> string VersionedAttributes" where
  "example_va a = \<lparr>va_Attributes = a, va_VersionedOldObject = None, va_VersionedObject = attr_object a, va_VersionedKind = attr_kind a, va_Dirty = False\<rparr>"

definition example_pod_activation :: "string Attributes \<Rightarrow> (nat, nat) evaluationActivation" where
  "example_pod_activation a = \<lparr>ea_object = map_option (\<lambda>obj. 1) (attr_object a), ea_oldObject = None, ea_params = None,
     ea_request = (if attr_name a = ''bad'' then 0 else 1), ea_authorizer = None, ea_requestResourceAuthorizer = None\<rparr>"

lemma example_pod_versioned:
  assumes "creates_pod a"
  shows "NewVersionedAttributes (ee_interfaces example_evaluator_env) a (attr_kind a) = Inr (example_va a)"
  using assms by (cases "attr_object a") (simp_all add: creates_pod_def example_va_def NewVersionedAttributes_def ConvertToGVK_def example_evaluator_env_def)

lemma example_va_attributes [simp]: "va_Attributes (example_va a) = a"
  by (simp add: example_va_def)

lemma example_pod_activation_eq:
  "activation (ee_filter example_evaluator_env) (example_va a) (CreateAdmissionRequest a) None False = Inr (example_pod_activation a)"
  by (cases "attr_object a") (simp_all add: activation_def example_evaluator_env_def example_va_def CreateAdmissionRequest_def example_pod_activation_def)

lemma example_pod_decision:
  assumes "attr_name a \<noteq> ''bad''"
  shows "validator_Validate (ee_filter example_evaluator_env) (compile_policy example_cel_env example_param_policy) (example_va a) None RuntimeCELCostBudget =
   Ret \<lparr>vr_Decisions = [\<lparr>pd_Action = ActionAdmit, pd_Evaluation = EvalAdmit, pd_Message = '''', pd_Reason = ''''\<rparr>], vr_AuditAnnotations = []\<rparr>"
  using assms
  by (simp add: example_validator_simps compile_policy_def example_param_policy_def zero_ValidatingAdmissionPolicySpec_def
    Compile_def convertv1alpha1Validations_def convertV1Alpha1MessageExpressions_def convertv1alpha1AuditAnnotations_def NewValidator_def
    validation_accessor_def example_cel_env_def example_policy_env_def RuntimeCELCostBudget_def Let_def example_pod_activation_eq
    zero_CompilationResult_def convertv1alpha1FailurePolicyTypeTov1FailurePolicyType_def example_pod_activation_def)

lemma example_pod_binding:
  "BindingMatches me a example_param_binding = Inr True" "bindingParam env d c example_param_binding = Inr None"
  by (simp_all add: BindingMatches_def bindingParam_def example_param_binding_def zero_ValidatingAdmissionPolicyBindingSpec_def split: option.split)

lemma example_pod_admitted:
  assumes "creates_pod a" "attr_name a \<noteq> ''bad''"
  shows "evaluator_Validate example_evaluator_env a example_celAdmissionController = Ret (None, new_eval_state)"
proof -
  have "bindingStep example_evaluator_env a example_param_policy (Some 0) (attr_kind a)
      \<lparr>bi_validator = Some (compile_policy example_cel_env example_param_policy), bi_lastReconciledValue = Some example_param_binding\<rparr> st = Ret (None, st)" for st
    by (simp add: bindingStep_def example_pod_binding example_pod_versioned [OF assms(1)] example_pod_decision [OF assms(2)] decisionStep_def)
  then show ?thesis
    by (simp add: evaluator_Validate_def evaluator_HasSynced_def example_celAdmissionController_def definitionStep_def
      example_pod_matches [OF assms(1)] collector_publish_def new_eval_state_def)
qed

theorem evaluator_admits_soundly_witness:
  "\<exists>a. evaluator_Validate example_evaluator_env a example_celAdmissionController = Ret (None, new_eval_state) \<and>
     (\<forall>data \<in> set (the (ce_definitions example_celAdmissionController)). policy_satisfied example_evaluator_env a data example_param_policy)"
proof -
  let ?a = "NewAttributesRecord (Some ''{}'') None \<lparr>gvk_Group = '''', gvk_Version = ''v1'', gvk_Kind = ''Pod''\<rparr> ''default'' ''good''
     \<lparr>gvr_Group = '''', gvr_Version = ''v1'', gvr_Resource = ''pods''\<rparr> '''' ''CREATE'' None False
     \<lparr>user_Name = ''u'', user_UID = '''', user_Groups = [], user_Extra = None\<rparr>"
  have a: "evaluator_Validate example_evaluator_env ?a example_celAdmissionController = Ret (None, new_eval_state)"
    by (rule example_pod_admitted) (simp_all add: creates_pod_def NewAttributesRecord_def)
  have "ps_FailurePolicy (vp_Spec example_param_policy) = Some ''Fail''" by (simp add: example_param_policy_def)
  with evaluator_admits_soundly [OF a]
  have "\<forall>data \<in> set (the (ce_definitions example_celAdmissionController)). policy_satisfied example_evaluator_env ?a data example_param_policy"
    by (simp add: example_celAdmissionController_def)
  with a show ?thesis by blast
qed

end
