(* ===== verification/EvaluatorRun.thy ===== *)
theory EvaluatorRun
  imports EvaluatorController Evaluator
begin

text \<open>
  The policy evaluator at work, from the vendored \<^verbatim>\<open>validatingadmissionpolicy/controller.go\<close> and
  \<^verbatim>\<open>controller_reconcile.go\<close>: \<^verbatim>\<open>Run\<close> starts a controller for policies and one for bindings, which share the
  book-keeping, and a goroutine that waits until both have synced and then refreshes the snapshot of
  policies once a second. A run is an explicit sequence of states. The lemmas show what a snapshot of
  a running evaluator says about the informers' stores.
\<close>

section \<open>Names and keys\<close>

definition key_name :: "string \<Rightarrow> namespacedName" where
  "key_name key =
     (case SplitMetaNamespaceKey key of Inl err \<Rightarrow> getNamespaceName '''' key | Inr (namespace, name) \<Rightarrow> getNamespaceName namespace name)"

definition name_key :: "namespacedName \<Rightarrow> string" where
  "name_key nn = (if nn_namespace nn = '''' then nn_name nn else nn_namespace nn @ CHR ''/'' # nn_name nn)"

definition plain_name :: "namespacedName \<Rightarrow> bool" where
  "plain_name nn \<longleftrightarrow> CHR ''/'' \<notin> set (nn_namespace nn) \<and> CHR ''/'' \<notin> set (nn_name nn)"

lemma name_key_inverse: "plain_name nn \<Longrightarrow> wf_key (name_key nn) \<and> key_name (name_key nn) = nn"
  by (auto simp: plain_name_def wf_key_def name_key_def key_name_def getNamespaceName_def SplitMetaNamespaceKey_name SplitMetaNamespaceKey_pair)

lemma key_name_inverse:
  assumes "wf_key key"
  shows "plain_name (key_name key) \<and> name_key (key_name key) = key"
proof -
  obtain namespace name where n: "CHR ''/'' \<notin> set namespace" "CHR ''/'' \<notin> set name"
    "key = (if namespace = '''' then name else namespace @ CHR ''/'' # name)"
    using assms by (auto simp: wf_key_def)
  then have "SplitMetaNamespaceKey key = Inr (namespace, name)" by (simp add: SplitMetaNamespaceKey_name SplitMetaNamespaceKey_pair)
  then show ?thesis using n by (simp add: key_name_def getNamespaceName_def plain_name_def name_key_def)
qed

lemma key_name_inj: "wf_key k \<Longrightarrow> wf_key k' \<Longrightarrow> key_name k = key_name k' \<longleftrightarrow> k = k'"
  by (metis key_name_inverse)

lemma key_name_split: "SplitMetaNamespaceKey key = Inr (namespace, name) \<Longrightarrow> key_name key = getNamespaceName namespace name"
  by (simp add: key_name_def)

section \<open>The two controllers\<close>

definition policyDefinitionsController ::
  "('u, 'z, 'srv) policy_env \<Rightarrow> ValidatingAdmissionPolicy object_env \<Rightarrow> ('b \<Rightarrow> int \<times> 'b) \<Rightarrow>
   (ValidatingAdmissionPolicy, ('u, 'z, 'srv) policyController, 'b) gcontroller" where
  "policyDefinitionsController env oe Reserve =
     NewController ''*v1alpha1.ValidatingAdmissionPolicy'' oe Reserve (reconcilePolicyDefinition env)
       \<lparr>opt_Name = ''cel-policy-definitions'', opt_Workers = 1\<rparr>"

definition policyBindingController ::
  "ValidatingAdmissionPolicyBinding object_env \<Rightarrow> ('b \<Rightarrow> int \<times> 'b) \<Rightarrow>
   (ValidatingAdmissionPolicyBinding, ('u, 'z, 'srv) policyController, 'b) gcontroller" where
  "policyBindingController oe Reserve =
     NewController ''*v1alpha1.ValidatingAdmissionPolicyBinding'' oe Reserve
       (\<lambda>namespace name binding s. Ret (reconcilePolicyBinding namespace name binding s))
       \<lparr>opt_Name = ''cel-policy-bindings'', opt_Workers = 1\<rparr>"

lemma controllers_simps [simp]:
  "gc_reconciler (policyDefinitionsController env oe Reserve) = reconcilePolicyDefinition env"
  "gc_objects (policyDefinitionsController env oe Reserve) = oe"
  "gc_reconciler (policyBindingController oe' Reserve') = (\<lambda>namespace name binding s. Ret (reconcilePolicyBinding namespace name binding s))"
  "gc_objects (policyBindingController oe' Reserve') = oe'"
  by (simp_all add: policyDefinitionsController_def policyBindingController_def NewController_def)

definition policy_book :: "('u, 'z, 'srv) policyController \<Rightarrow> string \<rightharpoonup> ValidatingAdmissionPolicySpec" where
  "policy_book r key = abs_policies r (key_name key)"

definition binding_book :: "('u, 'z, 'srv) policyController \<Rightarrow> string \<rightharpoonup> ValidatingAdmissionPolicyBindingSpec" where
  "binding_book r key = abs_bindings r (key_name key)"

text \<open>The book-keeping was reached by events with plain names from the new controller.\<close>

fun plain_event :: "'srv pc_event \<Rightarrow> bool" where
  "plain_event (PolicyEvent namespace name d) = plain_name (getNamespaceName namespace name)"
| "plain_event (BindingEvent namespace name b) = plain_name (getNamespaceName namespace name)"
| "plain_event ev = True"

definition book_reached :: "('u, 'z, 'srv) policy_env \<Rightarrow> 'srv \<Rightarrow> ('u, 'z, 'srv) policyController \<Rightarrow> bool" where
  "book_reached env srv r \<longleftrightarrow>
     (\<exists>evs. (\<forall>ev \<in> set evs. valid_event ev \<and> plain_event ev) \<and> pc_run env evs (newPolicyController srv) = Ret r)"

lemma pc_run_snoc: "pc_run env (evs @ [ev]) s = bind_outcome (pc_run env evs s) (pc_exec env ev)"
proof (induction evs arbitrary: s)
  case (Cons e evs)
  show ?case by (cases "pc_exec env e s") (simp_all add: Cons)
next
  case Nil
  show ?case by (cases "pc_exec env ev s") simp_all
qed

lemma book_reached_exec:
  assumes "book_reached env srv r" "valid_event ev" "plain_event ev" "pc_exec env ev r = Ret r'"
  shows "book_reached env srv r'"
proof -
  obtain evs where "\<forall>ev \<in> set evs. valid_event ev \<and> plain_event ev" "pc_run env evs (newPolicyController srv) = Ret r"
    using assms(1) by (auto simp: book_reached_def)
  then show ?thesis using assms(2-4) unfolding book_reached_def by (intro exI [of _ "evs @ [ev]"]) (auto simp: pc_run_snoc)
qed

lemma book_reached_inv: "book_reached env srv r \<Longrightarrow> pc_inv env r"
  using pc_run_inv [OF pc_inv_init, of _ env srv] by (fastforce simp: book_reached_def)

lemma book_reached_init: "book_reached env srv (newPolicyController srv)"
  unfolding book_reached_def by (intro exI [of _ "[]"]) simp

interpretation policy_rec: recording_reconciler "reconcilePolicyDefinition env" "\<lambda>d. True" vp_Spec policy_book "book_reached env srv" for env srv
proof
  fix r key namespace name and obj :: "ValidatingAdmissionPolicy option"
  assume r: "book_reached env srv r" and wf: "wf_key key" and sp: "SplitMetaNamespaceKey key = Inr (namespace, name)"
  obtain err r' where run: "reconcilePolicyDefinition env namespace name obj r = Ret (err, r')"
    and abs: "abs_policies r' = (abs_policies r)(key_name key := map_option vp_Spec obj)"
    using reconcilePolicyDefinition_inv [OF book_reached_inv [OF r], of namespace name obj] key_name_split [OF sp] by auto
  have "book_reached env srv r'"
    by (rule book_reached_exec [OF r, of "PolicyEvent namespace name obj"])
      (use run key_name_inverse [OF wf] key_name_split [OF sp] in simp_all)
  moreover have "policy_book r' k = (if k = key then map_option vp_Spec obj else policy_book r k)" if "wf_key k" for k
    using key_name_inj [OF that wf] by (simp add: policy_book_def abs)
  ultimately show "\<exists>err r'. reconcilePolicyDefinition env namespace name obj r = Ret (err, r') \<and> book_reached env srv r' \<and>
      (\<forall>k. wf_key k \<longrightarrow> policy_book r' k = (if k = key then map_option vp_Spec obj else policy_book r k))"
    using run by blast
qed

interpretation binding_rec: recording_reconciler "\<lambda>namespace name binding s. Ret (reconcilePolicyBinding namespace name binding s)"
  "\<lambda>b. bs_PolicyName (vb_Spec b) \<noteq> ''''" vb_Spec binding_book "book_reached env srv" for env srv
proof
  fix r key namespace name and obj :: "ValidatingAdmissionPolicyBinding option"
  assume r: "book_reached env srv r" and wf: "wf_key key" and sp: "SplitMetaNamespaceKey key = Inr (namespace, name)"
    and obj: "pred_option (\<lambda>b. bs_PolicyName (vb_Spec b) \<noteq> '''') obj"
  obtain err r' where run: "reconcilePolicyBinding namespace name obj r = (err, r')" by (rule prod.exhaust)
  have abs: "abs_bindings r' = (abs_bindings r)(key_name key := map_option vb_Spec obj)"
    using reconcilePolicyBinding_inv [OF book_reached_inv [OF r], of obj namespace name] obj run key_name_split [OF sp] by (cases obj) auto
  have "valid_event (BindingEvent namespace name obj)" using obj by (cases obj) auto
  then have "book_reached env srv r'"
    by (rule book_reached_exec [OF r]) (use run key_name_inverse [OF wf] key_name_split [OF sp] in simp_all)
  moreover have "binding_book r' k = (if k = key then map_option vb_Spec obj else binding_book r k)" if "wf_key k" for k
    using key_name_inj [OF that wf] by (simp add: binding_book_def abs)
  ultimately show "\<exists>err r'. Ret (reconcilePolicyBinding namespace name obj r) = Ret (err, r') \<and> book_reached env srv r' \<and>
      (\<forall>k. wf_key k \<longrightarrow> binding_book r' k = (if k = key then map_option vb_Spec obj else binding_book r k))"
    using run by auto
qed

section \<open>The evaluator\<close>

text \<open>What the API server and the environment give to the two informers and their controllers.\<close>

record 'b evaluator_feed =
  ef_policyObjects :: "ValidatingAdmissionPolicy object_env"
  ef_bindingObjects :: "ValidatingAdmissionPolicyBinding object_env"
  ef_policies :: "ValidatingAdmissionPolicy set"
  ef_bindings :: "ValidatingAdmissionPolicyBinding set"
  ef_Reserve :: "'b \<Rightarrow> int \<times> 'b"

definition feed_ok :: "'b evaluator_feed \<Rightarrow> bool" where
  "feed_ok F \<longleftrightarrow> serves (ef_policyObjects F) (\<lambda>d. True) vp_Spec (ef_policies F) \<and>
     serves (ef_bindingObjects F) (\<lambda>b. bs_PolicyName (vb_Spec b) \<noteq> '''') vb_Spec (ef_bindings F)"

text \<open>
  The state of the running evaluator: the two controllers, the evaluator itself with the shared book-keeping,
  and whether its goroutine has left \<^verbatim>\<open>WaitForNamedCacheSync\<close>.
\<close>

record ('u, 'z, 'srv, 'b) evaluator_state =
  er_policies :: "(ValidatingAdmissionPolicy, 'b) gc_state"
  er_bindings :: "(ValidatingAdmissionPolicyBinding, 'b) gc_state"
  er_evaluator :: "('u, 'z, 'srv) celAdmissionController"
  er_refreshing :: bool

definition NewAdmissionController :: "'srv \<Rightarrow> ('u, 'z, 'srv) celAdmissionController" where
  "NewAdmissionController srv =
     \<lparr>ce_policyController = newPolicyController srv, ce_definitionsSynced = False, ce_bindingsSynced = False, ce_definitions = None\<rparr>"

definition evaluator_init ::
  "(string \<times> ValidatingAdmissionPolicy indexFunc) list \<Rightarrow> (string \<times> ValidatingAdmissionPolicyBinding indexFunc) list \<Rightarrow>
   'b \<Rightarrow> 'b \<Rightarrow> 'srv \<Rightarrow> ('u, 'z, 'srv, 'b) evaluator_state" where
  "evaluator_init indexers indexers' b b' srv =
     \<lparr>er_policies = gc_init indexers b, er_bindings = gc_init indexers' b', er_evaluator = NewAdmissionController srv, er_refreshing = False\<rparr>"

text \<open>\<^verbatim>\<open>policyController.HasSynced\<close>, and the evaluator as a request sees it.\<close>

definition policyController_HasSynced :: "('u, 'z, 'srv, 'b) evaluator_state \<Rightarrow> bool" where
  "policyController_HasSynced t \<longleftrightarrow> gc_HasSynced (er_policies t) \<and> gc_HasSynced (er_bindings t)"

definition evaluator_view :: "('u, 'z, 'srv, 'b) evaluator_state \<Rightarrow> ('u, 'z, 'srv) celAdmissionController" where
  "evaluator_view t =
     (er_evaluator t)\<lparr>ce_definitionsSynced := gc_HasSynced (er_policies t), ce_bindingsSynced := gc_HasSynced (er_bindings t)\<rparr>"

abbreviation er_book :: "('u, 'z, 'srv, 'b) evaluator_state \<Rightarrow> ('u, 'z, 'srv) policyController" where
  "er_book t \<equiv> ce_policyController (er_evaluator t)"

definition set_book :: "('u, 'z, 'srv) policyController \<Rightarrow> ('u, 'z, 'srv, 'b) evaluator_state \<Rightarrow> ('u, 'z, 'srv, 'b) evaluator_state" where
  "set_book r t = t\<lparr>er_evaluator := (er_evaluator t)\<lparr>ce_policyController := r\<rparr>\<rparr>"

text \<open>A step of a controller, a change of the server, the end of the wait, or a refresh.\<close>

inductive evaluator_step ::
  "('u, 'z, 'srv) policy_env \<Rightarrow> 'b evaluator_feed \<Rightarrow> ('u, 'z, 'srv, 'b) evaluator_state \<Rightarrow> ('u, 'z, 'srv, 'b) evaluator_state \<Rightarrow> bool" for env F where
  policies: "gc_step (policyDefinitionsController env (ef_policyObjects F) (ef_Reserve F)) (ef_policies F) (er_policies t, er_book t) (s, r) \<Longrightarrow>
    evaluator_step env F t (set_book r (t\<lparr>er_policies := s\<rparr>))"
| bindings: "gc_step (policyBindingController (ef_bindingObjects F) (ef_Reserve F)) (ef_bindings F) (er_bindings t, er_book t) (s, r) \<Longrightarrow>
    evaluator_step env F t (set_book r (t\<lparr>er_bindings := s\<rparr>))"
| server: "evaluator_step env F t (set_book ((er_book t)\<lparr>pc_server := srv\<rparr>) t)"
| waited: "policyController_HasSynced t \<Longrightarrow> evaluator_step env F t (t\<lparr>er_refreshing := True\<rparr>)"
| refresh: "er_refreshing t \<Longrightarrow> enumerates order \<Longrightarrow> refreshPolicies env order (er_evaluator t) = Ret c \<Longrightarrow>
    evaluator_step env F t (t\<lparr>er_evaluator := c\<rparr>)"

text \<open>A run: the states so far, the latest first.\<close>

inductive evaluator_run :: "('u, 'z, 'srv) policy_env \<Rightarrow> 'b evaluator_feed \<Rightarrow> ('u, 'z, 'srv, 'b) evaluator_state list \<Rightarrow> bool" for env F where
  start: "evaluator_run env F [evaluator_init indexers indexers' b b' srv]"
| step: "evaluator_run env F (t # ts) \<Longrightarrow> evaluator_step env F t t' \<Longrightarrow> evaluator_run env F (t' # t # ts)"

section \<open>The invariant of a run\<close>

text \<open>The values that a key has had in the store of an informer since the informer synced.\<close>

definition seen :: "('t \<Rightarrow> ('obj, 'b) gc_state) \<Rightarrow> 't list \<Rightarrow> string \<Rightarrow> 'obj option \<Rightarrow> bool" where
  "seen sel ts key v \<longleftrightarrow> (\<exists>u \<in> set ts. gc_synced (sel u) \<and> gc_items (sel u) key = v)"

lemma extends_seen: "extends (seen sel ts) (sel t) (seen sel (t # ts))"
  by (auto simp: extends_def seen_def)

definition policies_seen :: "('u, 'z, 'srv, 'b) evaluator_state list \<Rightarrow> (namespacedName \<rightharpoonup> ValidatingAdmissionPolicySpec) \<Rightarrow> bool" where
  "policies_seen ts m \<longleftrightarrow> (\<forall>key. wf_key key \<longrightarrow> recorded vp_Spec (seen er_policies ts) (\<lambda>k. m (key_name k)) key)"

definition bindings_seen :: "('u, 'z, 'srv, 'b) evaluator_state list \<Rightarrow> (namespacedName \<rightharpoonup> ValidatingAdmissionPolicyBindingSpec) \<Rightarrow> bool" where
  "bindings_seen ts m \<longleftrightarrow> (\<forall>key. wf_key key \<longrightarrow> recorded vb_Spec (seen er_bindings ts) (\<lambda>k. m (key_name k)) key)"

definition snapshot_seen :: "('u, 'z, 'srv) policy_env \<Rightarrow> ('u, 'z, 'srv, 'b) evaluator_state list \<Rightarrow> ('u, 'z, 'srv) celAdmissionController \<Rightarrow> bool" where
  "snapshot_seen env ts c \<longleftrightarrow> (ce_definitions c \<noteq> None \<longrightarrow>
     (\<exists>evs. (\<forall>ev \<in> set evs. valid_event ev) \<and> snapshot_after env evs c \<and>
        policies_seen ts (policies_after evs Map.empty) \<and> bindings_seen ts (bindings_after evs Map.empty)))"

definition steps_inv ::
  "('u, 'z, 'srv) policy_env \<Rightarrow> 'b evaluator_feed \<Rightarrow> 'srv \<Rightarrow> ('u, 'z, 'srv, 'b) evaluator_state list \<Rightarrow> ('u, 'z, 'srv, 'b) evaluator_state \<Rightarrow> bool" where
  "steps_inv env F srv ts t \<longleftrightarrow>
     book_reached env srv (er_book t) \<and>
     gc_inv (policyDefinitionsController env (ef_policyObjects F) (ef_Reserve F)) (ef_policies F) vp_Spec (seen er_policies ts) (er_policies t) (policy_book (er_book t)) \<and>
     gc_inv (policyBindingController (ef_bindingObjects F) (ef_Reserve F) :: (ValidatingAdmissionPolicyBinding, ('u, 'z, 'srv) policyController, 'b) gcontroller)
       (ef_bindings F) vb_Spec (seen er_bindings ts) (er_bindings t) (binding_book (er_book t)) \<and>
     (er_refreshing t \<longrightarrow> policies_seen ts (abs_policies (er_book t)) \<and> bindings_seen ts (abs_bindings (er_book t))) \<and>
     snapshot_seen env ts (er_evaluator t)"

lemma steps_invD:
  fixes t :: "('u, 'z, 'srv, 'b) evaluator_state"
  assumes "steps_inv env F srv ts t"
  shows "book_reached env srv (er_book t)"
    and "gc_inv (policyDefinitionsController env (ef_policyObjects F) (ef_Reserve F)) (ef_policies F) vp_Spec (seen er_policies ts) (er_policies t) (policy_book (er_book t))"
    and "gc_inv (policyBindingController (ef_bindingObjects F) (ef_Reserve F) :: (ValidatingAdmissionPolicyBinding, ('u, 'z, 'srv) policyController, 'b) gcontroller)
       (ef_bindings F) vb_Spec (seen er_bindings ts) (er_bindings t) (binding_book (er_book t))"
    and "er_refreshing t \<Longrightarrow> policies_seen ts (abs_policies (er_book t)) \<and> bindings_seen ts (abs_bindings (er_book t))"
    and "snapshot_seen env ts (er_evaluator t)"
  using assms by (auto simp: steps_inv_def)

lemma set_book_simps [simp]:
  "er_policies (set_book r t) = er_policies t" "er_bindings (set_book r t) = er_bindings t" "er_book (set_book r t) = r"
  "er_refreshing (set_book r t) = er_refreshing t" "ce_definitions (er_evaluator (set_book r t)) = ce_definitions (er_evaluator t)"
  by (simp_all add: set_book_def)

lemma seen_later: "policies_seen ts m \<Longrightarrow> policies_seen (t # ts) m" "bindings_seen ts m' \<Longrightarrow> bindings_seen (t # ts) m'"
  by (simp_all add: policies_seen_def bindings_seen_def recorded_seen [OF extends_seen])

lemma snapshot_later:
  assumes "snapshot_seen env ts c" "ce_definitions c' = ce_definitions c"
  shows "snapshot_seen env (t # ts) c'"
  using assms seen_later unfolding snapshot_seen_def snapshot_after_def by metis

lemma policies_seen_book: "policies_seen ts (abs_policies r) \<longleftrightarrow> (\<forall>key. wf_key key \<longrightarrow> recorded vp_Spec (seen er_policies ts) (policy_book r) key)"
  by (simp add: policies_seen_def policy_book_def [abs_def])

lemma bindings_seen_book: "bindings_seen ts (abs_bindings r) \<longleftrightarrow> (\<forall>key. wf_key key \<longrightarrow> recorded vb_Spec (seen er_bindings ts) (binding_book r) key)"
  by (simp add: bindings_seen_def binding_book_def [abs_def])

lemma steps_inv_init: "steps_inv env F srv [evaluator_init indexers indexers' b b' srv] (evaluator_init indexers indexers' b b' srv)"
  by (simp add: steps_inv_def evaluator_init_def NewAdmissionController_def book_reached_init snapshot_seen_def gc_inv_init
      policy_book_def binding_book_def abs_init)

lemma policy_reconciler_bindings:
  "book_reached env srv r \<Longrightarrow> reconcilePolicyDefinition env namespace name d r = Ret (err, r') \<Longrightarrow> abs_bindings r' = abs_bindings r"
  using reconcilePolicyDefinition_inv [OF book_reached_inv, of env srv r namespace name d] by auto

lemma binding_reconciler_policies:
  "reconcilePolicyBinding namespace name b r = (err, r') \<Longrightarrow> abs_policies r' = abs_policies r"
  by (auto simp: reconcilePolicyBinding_def Let_def abs_policies_def unlink_binding_def split: option.splits if_splits)

lemma gc_inv_later: "gc_inv c V spec (seen sel ts) s m \<Longrightarrow> sel t = s \<Longrightarrow> gc_inv c V spec (seen sel (t # ts)) s m"
  using extends_seen [of sel ts t] gc_inv_seen [of c V spec "seen sel ts" s m "seen sel (t # ts)"] by simp

lemma steps_inv_policies:
  assumes F: "feed_ok F" and inv: "steps_inv env F srv ts t"
    and step: "gc_step (policyDefinitionsController env (ef_policyObjects F) (ef_Reserve F)) (ef_policies F) (er_policies t, er_book t) (s, r)"
  shows "steps_inv env F srv (set_book r (t\<lparr>er_policies := s\<rparr>) # ts) (set_book r (t\<lparr>er_policies := s\<rparr>))"
proof -
  let ?t = "set_book r (t\<lparr>er_policies := s\<rparr>)" and ?c = "policyDefinitionsController env (ef_policyObjects F) (ef_Reserve F)"
  have ext: "extends (seen er_policies ts) s (seen er_policies (?t # ts))" using extends_seen [of er_policies ts ?t] by simp
  have srv: "serves (gc_objects ?c) (\<lambda>d. True) vp_Spec (ef_policies F)" using F by (simp add: feed_ok_def)
  have b: "book_reached env srv (er_book t)"
    and i: "gc_inv ?c (ef_policies F) vp_Spec (seen er_policies ts) (er_policies t) (policy_book (er_book t))"
    using inv by (auto simp: steps_inv_def)
  have r: "book_reached env srv r" "gc_inv ?c (ef_policies F) vp_Spec (seen er_policies (?t # ts)) s (policy_book r)"
    using policy_rec.gc_step_inv [OF step _ srv b i ext] by simp_all
  have ab: "abs_bindings r = abs_bindings (er_book t)"
    using gc_step_state [OF step] policy_reconciler_bindings [OF b] by auto
  then have bb: "binding_book r = binding_book (er_book t)" by (simp add: fun_eq_iff binding_book_def)
  have "policies_seen (?t # ts) (abs_policies r)" if "er_refreshing t"
    using inv that policy_rec.gc_step_recorded [OF step _ srv b i ext] by (auto simp: steps_inv_def policies_seen_book)
  moreover have "bindings_seen (?t # ts) (abs_bindings r)" if "er_refreshing t"
    using inv that seen_later(2) unfolding steps_inv_def ab by blast
  moreover have "snapshot_seen env (?t # ts) (er_evaluator ?t)"
    using inv by (intro snapshot_later [of env ts "er_evaluator t"]) (simp_all add: steps_inv_def set_book_def)
  ultimately show ?thesis using inv r unfolding steps_inv_def by (simp add: bb gc_inv_later)
qed

lemma steps_inv_bindings:
  fixes t :: "('u, 'z, 'srv, 'b) evaluator_state"
  assumes F: "feed_ok F" and inv: "steps_inv env F srv ts t"
    and step: "gc_step (policyBindingController (ef_bindingObjects F) (ef_Reserve F)) (ef_bindings F) (er_bindings t, er_book t) (s, r)"
  shows "steps_inv env F srv (set_book r (t\<lparr>er_bindings := s\<rparr>) # ts) (set_book r (t\<lparr>er_bindings := s\<rparr>))"
proof -
  let ?t = "set_book r (t\<lparr>er_bindings := s\<rparr>)"
  let ?c = "policyBindingController (ef_bindingObjects F) (ef_Reserve F) :: (ValidatingAdmissionPolicyBinding, ('u, 'z, 'srv) policyController, 'b) gcontroller"
  have ext: "extends (seen er_bindings ts) s (seen er_bindings (?t # ts))" using extends_seen [of er_bindings ts ?t] by simp
  have srv: "serves (gc_objects ?c) (\<lambda>b. bs_PolicyName (vb_Spec b) \<noteq> '''') vb_Spec (ef_bindings F)" using F by (simp add: feed_ok_def)
  have b: "book_reached env srv (er_book t)"
    and i: "gc_inv ?c (ef_bindings F) vb_Spec (seen er_bindings ts) (er_bindings t) (binding_book (er_book t))"
    using inv by (auto simp: steps_inv_def)
  have r: "book_reached env srv r" "gc_inv ?c (ef_bindings F) vb_Spec (seen er_bindings (?t # ts)) s (binding_book r)"
    using binding_rec.gc_step_inv [OF step _ srv b i ext] by simp_all
  have ap: "abs_policies r = abs_policies (er_book t)"
    using gc_step_state [OF step] binding_reconciler_policies by auto
  then have pb: "policy_book r = policy_book (er_book t)" by (simp add: fun_eq_iff policy_book_def)
  have "bindings_seen (?t # ts) (abs_bindings r)" if "er_refreshing t"
    using inv that binding_rec.gc_step_recorded [OF step _ srv b i ext] by (auto simp: steps_inv_def bindings_seen_book)
  moreover have "policies_seen (?t # ts) (abs_policies r)" if "er_refreshing t"
    using inv that seen_later(1) unfolding steps_inv_def ap by blast
  moreover have "snapshot_seen env (?t # ts) (er_evaluator ?t)"
    using inv by (intro snapshot_later [of env ts "er_evaluator t"]) (simp_all add: steps_inv_def set_book_def)
  ultimately show ?thesis using inv r unfolding steps_inv_def by (simp add: pb gc_inv_later)
qed

text \<open>A step that only changes parts of the evaluator the controllers do not see.\<close>

lemma steps_inv_keep:
  assumes inv: "steps_inv env F srv ts t" and b: "book_reached env srv (er_book t')"
    and f: "er_policies t' = er_policies t" "er_bindings t' = er_bindings t"
      "abs_policies (er_book t') = abs_policies (er_book t)" "abs_bindings (er_book t') = abs_bindings (er_book t)"
    and refresh: "er_refreshing t' \<Longrightarrow> policies_seen ts (abs_policies (er_book t)) \<and> bindings_seen ts (abs_bindings (er_book t))"
    and snap: "snapshot_seen env (t' # ts) (er_evaluator t')"
  shows "steps_inv env F srv (t' # ts) t'"
proof -
  have "policy_book (er_book t') = policy_book (er_book t)" "binding_book (er_book t') = binding_book (er_book t)"
    using f(3,4) by (simp_all add: fun_eq_iff policy_book_def binding_book_def)
  then show ?thesis
    using inv b refresh snap unfolding steps_inv_def f by (simp add: seen_later gc_inv_later f)
qed

lemma steps_inv_refresh:
  assumes inv: "steps_inv env F srv ts t" and on: "er_refreshing t" and order: "enumerates order"
    and run: "refreshPolicies env order (er_evaluator t) = Ret c"
  shows "steps_inv env F srv (t\<lparr>er_evaluator := c\<rparr> # ts) (t\<lparr>er_evaluator := c\<rparr>)"
proof -
  obtain ps r where latest: "latestPolicyData env order (er_book t) = Ret (ps, r)"
    and c: "c = (er_evaluator t)\<lparr>ce_policyController := r, ce_definitions := Some ps\<rparr>"
    using run by (auto simp: refreshPolicies_def bind_outcome_Ret)
  have b: "book_reached env srv (er_book t)" using inv by (simp add: steps_inv_def)
  have abs: "abs_policies r = abs_policies (er_book t)" "abs_bindings r = abs_bindings (er_book t)"
    using latestPolicyData_inv [OF book_reached_inv [OF b] order] latest by auto
  have b': "book_reached env srv r"
    by (rule book_reached_exec [OF b, of "SnapshotEvent order"]) (use order latest in simp_all)
  obtain evs where evs: "\<forall>ev \<in> set evs. valid_event ev" "pc_run env evs (newPolicyController srv) = Ret (er_book t)"
    using b by (auto simp: book_reached_def)
  have after: "abs_policies (er_book t) = policies_after evs Map.empty" "abs_bindings (er_book t) = bindings_after evs Map.empty"
    using pc_run_inv [OF pc_inv_init evs(1), of env srv] evs(2) by (auto simp: abs_init)
  have on': "policies_seen ts (abs_policies (er_book t)) \<and> bindings_seen ts (abs_bindings (er_book t))" using inv on by (simp add: steps_inv_def)
  then have "snapshot_seen env (t\<lparr>er_evaluator := c\<rparr> # ts) c"
    unfolding snapshot_seen_def using evs refresh_snapshot [OF order evs(2) run] seen_later [of ts] after by metis
  then show ?thesis by (intro steps_inv_keep [OF inv]) (simp_all add: c b' abs on')
qed

lemma steps_inv_step:
  assumes F: "feed_ok F" and inv: "steps_inv env F srv ts t" and step: "evaluator_step env F t t'"
  shows "steps_inv env F srv (t' # ts) t'"
  using step
proof cases
  case (policies s r)
  then show ?thesis using steps_inv_policies [OF F inv policies(2)] by simp
next
  case (bindings s r)
  then show ?thesis using steps_inv_bindings [OF F inv bindings(2)] by simp
next
  case (server srv')
  have "book_reached env srv ((er_book t)\<lparr>pc_server := srv'\<rparr>)"
    by (rule book_reached_exec [of _ _ "er_book t" "ServerEvent srv'"]) (use inv in \<open>simp_all add: steps_inv_def\<close>)
  then show ?thesis
    using inv by (intro steps_inv_keep [OF inv] snapshot_later [of env ts "er_evaluator t"]) (simp_all add: server steps_inv_def)
next
  case waited
  have "gc_HasSynced (er_policies t)" "gc_HasSynced (er_bindings t)" using waited by (simp_all add: policyController_HasSynced_def)
  then have "policies_seen ts (abs_policies (er_book t)) \<and> bindings_seen ts (abs_bindings (er_book t))"
    using synced_recorded [OF steps_invD(2) [OF inv]] synced_recorded [OF steps_invD(3) [OF inv]]
    unfolding policies_seen_book bindings_seen_book by simp
  then show ?thesis
    using inv by (intro steps_inv_keep [OF inv] snapshot_later [of env ts "er_evaluator t"]) (simp_all add: waited steps_inv_def)
next
  case (refresh order c)
  then show ?thesis using steps_inv_refresh [OF inv refresh(2-4)] by simp
qed

lemma evaluator_run_inv:
  assumes F: "feed_ok F" and run: "evaluator_run env F ts"
  shows "\<exists>t us srv. ts = t # us \<and> steps_inv env F srv ts t"
  using run
proof induction
  case (start indexers indexers' b b' srv)
  show ?case by (intro exI conjI) (rule refl, rule steps_inv_init)
next
  case (step t ts t')
  obtain srv where "steps_inv env F srv (t # ts) t" using step.IH by (elim exE conjE) simp
  from steps_inv_step [OF F this step(2)] show ?case by (intro exI conjI) (rule refl)
qed

lemma evaluator_run_invE:
  assumes "feed_ok F" "evaluator_run env F (t # ts)"
  obtains srv where "steps_inv env F srv (t # ts) t"
  using evaluator_run_inv [OF assms] that by (elim exE conjE) simp

section \<open>Properties\<close>

text \<open>Neither reconciler panics in a run, and neither does a refresh.\<close>

lemma evaluator_no_panic:
  assumes F: "feed_ok F" and run: "evaluator_run env F (t # ts)"
  shows "i < length (gs_workers (er_policies t)) \<Longrightarrow> gs_workers (er_policies t) ! i = GLooked key namespace name d \<Longrightarrow>
      \<exists>err r. reconcilePolicyDefinition env namespace name d (er_book t) = Ret (err, r)"
    and "enumerates order \<Longrightarrow> \<exists>c. refreshPolicies env order (er_evaluator t) = Ret c"
proof -
  obtain srv where inv: "steps_inv env F srv (t # ts) t" by (rule evaluator_run_invE [OF F run])
  show "\<exists>err r. reconcilePolicyDefinition env namespace name d (er_book t) = Ret (err, r)"
    if "i < length (gs_workers (er_policies t))" "gs_workers (er_policies t) ! i = GLooked key namespace name d"
    by (rule policy_rec.gc_step_reconciles [OF steps_invD(2,1) [OF inv] _ that]) (use F in \<open>simp add: feed_ok_def\<close>)
  show "\<exists>c. refreshPolicies env order (er_evaluator t) = Ret c" if "enumerates order"
    using latestPolicyData_inv [OF book_reached_inv [OF steps_invD(1) [OF inv]] that] by (auto simp: refreshPolicies_def)
qed

lemma gc_HasSynced_synced:
  assumes "gc_inv c V spec H s m" "gc_HasSynced s"
  shows "gc_synced s"
  using assms(2) registration_delivered [OF gc_invD(1) [OF assms(1)]]
  by (auto simp: gc_HasSynced_def AsyncTracker_HasSynced_def split: delivered.splits if_splits)

text \<open>A key under which the store has had the same specification ever since the informer synced.\<close>

definition since_sync ::
  "('t \<Rightarrow> ('obj, 'b) gc_state) \<Rightarrow> ('obj \<Rightarrow> 'spec) \<Rightarrow> 't list \<Rightarrow> string \<Rightarrow> 'spec \<Rightarrow> bool" where
  "since_sync sel spec ts key sp \<longleftrightarrow>
     list_all (\<lambda>u. gc_synced (sel u) \<longrightarrow> map_option spec (gc_items (sel u) key) = Some sp) ts"

lemma since_sync_recorded: "since_sync sel spec ts key sp \<Longrightarrow> recorded spec (seen sel ts) m key \<Longrightarrow> m key = Some sp"
  by (auto simp: since_sync_def recorded_def seen_def list_all_iff)

lemma since_sync_wf:
  assumes wn: "well_named (gc_objects c) V" and inv: "gc_inv c V spec (seen sel (t # ts)) (sel t) m"
    and synced: "gc_HasSynced (sel t)" and since: "since_sync sel spec (t # ts) key sp"
  shows "wf_key key"
proof -
  have "gc_synced (sel t)" by (rule gc_HasSynced_synced [OF inv synced])
  then obtain obj where "gc_items (sel t) key = Some obj" using since by (auto simp: since_sync_def)
  then have "obj \<in> V" "object_key (gc_objects c) obj = key" using gc_invD(1) [OF inv] by (auto simp: informer_ok_def items_ok_def)
  then show ?thesis using object_key_wf [OF wn] by blast
qed

text \<open>
  If the evaluator admits a request in a run, then it had synced, and a policy that has been in the
  store of its informer ever since that informer completed its initial list holds of the request, provided that it does not ignore
  failures and that a binding which has been in its store equally long applies it to the request.
\<close>

lemma admitted_since_sync:
  assumes "feed_ok F" and "evaluator_run penv F (t # ts)"
    and "evaluator_Validate env a (evaluator_view t) = Ret (None, st)"
    and "since_sync er_policies vp_Spec (t # ts) key spec"
    and "ps_FailurePolicy spec = None \<or> ps_FailurePolicy spec = Some ''Fail''"
    and "since_sync er_bindings vb_Spec (t # ts) bkey bspec"
    and "getNamespaceName '''' (bs_PolicyName bspec) = key_name key"
    and "applies (ee_match env) a spec bspec k"
  shows "policyController_HasSynced t \<and>
    (\<exists>param va. NewVersionedAttributes (ee_interfaces env) a k = Inr va \<and> spec_satisfied penv (ee_filter env) va param spec \<and>
      (ps_ParamKind spec \<noteq> None \<longrightarrow> bs_ParamRef bspec \<noteq> None \<longrightarrow> param \<noteq> None))"
proof -
  obtain srv where inv: "steps_inv penv F srv (t # ts) t" by (rule evaluator_run_invE [OF assms(1,2)])
  have synced: "evaluator_HasSynced (evaluator_view t)" by (rule evaluator_Validate_admits(1) [OF assms(3)])
  then have both: "gc_HasSynced (er_policies t)" "gc_HasSynced (er_bindings t)" and defs: "ce_definitions (er_evaluator t) \<noteq> None"
    by (auto simp: evaluator_HasSynced_def evaluator_view_def)
  obtain evs where evs: "\<forall>ev \<in> set evs. valid_event ev" "snapshot_after penv evs (er_evaluator t)"
    and pol: "policies_seen (t # ts) (policies_after evs Map.empty)" and bind: "bindings_seen (t # ts) (bindings_after evs Map.empty)"
    using steps_invD(5) [OF inv] defs by (auto simp: snapshot_seen_def)
  have snap: "snapshot_after penv evs (evaluator_view t)" using evs(2) by (simp add: snapshot_after_def evaluator_view_def)
  have wf: "wf_key key" "wf_key bkey"
    using since_sync_wf [OF _ steps_invD(2) [OF inv] both(1) assms(4)] since_sync_wf [OF _ steps_invD(3) [OF inv] both(2) assms(6)] assms(1)
    by (simp_all add: feed_ok_def serves_def)
  have "recorded vp_Spec (seen er_policies (t # ts)) (\<lambda>k. policies_after evs Map.empty (key_name k)) key" using pol wf(1) by (simp add: policies_seen_def)
  from since_sync_recorded [OF assms(4) this] have p: "policies_after evs Map.empty (key_name key) = Some spec" .
  have "recorded vb_Spec (seen er_bindings (t # ts)) (\<lambda>k. bindings_after evs Map.empty (key_name k)) bkey" using bind wf(2) by (simp add: bindings_seen_def)
  from since_sync_recorded [OF assms(6) this] have b: "bindings_after evs Map.empty (key_name bkey) = Some bspec" .
  have "\<exists>param va. NewVersionedAttributes (ee_interfaces env) a k = Inr va \<and> spec_satisfied penv (ee_filter env) va param spec \<and>
      (ps_ParamKind spec \<noteq> None \<longrightarrow> bs_ParamRef bspec \<noteq> None \<longrightarrow> param \<noteq> None)"
    by (rule admitted_satisfies [OF evs(1) snap assms(3) p assms(5) b assms(7,8)])
  with both show ?thesis by (simp add: policyController_HasSynced_def)
qed

text \<open>The specifications in the store of an informer, by name.\<close>

definition store_specs :: "('obj \<Rightarrow> 'spec) \<Rightarrow> ('obj, 'b) gc_state \<Rightarrow> namespacedName \<rightharpoonup> 'spec" where
  "store_specs spec s nn = (if plain_name nn then map_option spec (gc_items s (name_key nn)) else None)"

lemma policies_after_plain:
  "\<forall>ev \<in> set evs. plain_event ev \<Longrightarrow> \<not> plain_name nn \<Longrightarrow> policies_after evs m nn = m nn"
proof (induction evs arbitrary: m)
  case (Cons ev evs)
  then show ?case by (cases ev) auto
qed simp

lemma bindings_after_plain:
  "\<forall>ev \<in> set evs. plain_event ev \<Longrightarrow> \<not> plain_name nn \<Longrightarrow> bindings_after evs m nn = m nn"
proof (induction evs arbitrary: m)
  case (Cons ev evs)
  then show ?case by (cases ev) auto
qed simp

lemma book_plain:
  assumes "book_reached env srv r" "\<not> plain_name nn"
  shows "abs_policies r nn = None" "abs_bindings r nn = None"
proof -
  obtain evs where evs: "\<forall>ev \<in> set evs. valid_event ev \<and> plain_event ev" "pc_run env evs (newPolicyController srv) = Ret r"
    using assms(1) by (auto simp: book_reached_def)
  then have "abs_policies r = policies_after evs Map.empty" "abs_bindings r = bindings_after evs Map.empty"
    using pc_run_inv [OF pc_inv_init, of evs env srv] by (auto simp: abs_init)
  then show "abs_policies r nn = None" "abs_bindings r nn = None"
    using evs(1) assms(2) by (simp_all add: policies_after_plain bindings_after_plain)
qed

text \<open>
  C6. The evaluator converges to the stores. In any run, once nothing is on its way in either controller, that is no
  delta, notification, queued or delayed key, and no worker at work, both controllers report to have
  synced, and the next refresh takes a snapshot that has an entry for exactly the policies in the store of the
  informer, with their specifications and exactly the bindings in the other store that name them: no
  change was lost and none was overwritten by an older one, in whatever order notifications were delivered and
  keys were looked up, reconciled, failed and tried again.
\<close>

theorem evaluator_converges:
  assumes "feed_ok F" and "evaluator_run env F (t # ts)"
    and "gc_quiet (er_policies t)" and "gc_quiet (er_bindings t)" and "enumerates order"
  shows "policyController_HasSynced t \<and>
    (\<exists>c ps. refreshPolicies env order (er_evaluator t) = Ret c \<and> ce_definitions c = Some ps \<and>
      (\<forall>nn spec. store_specs vp_Spec (er_policies t) nn = Some spec \<longrightarrow>
         (\<exists>p \<in> set ps. describes env (store_specs vb_Spec (er_bindings t)) nn spec p)) \<and>
      (\<forall>p \<in> set ps. \<exists>nn spec. store_specs vp_Spec (er_policies t) nn = Some spec \<and>
         describes env (store_specs vb_Spec (er_bindings t)) nn spec p))"
proof -
  obtain srv where inv: "steps_inv env F srv (t # ts) t" by (rule evaluator_run_invE [OF assms(1,2)])
  note b = steps_invD(1) [OF inv]
  have p: "gc_HasSynced (er_policies t)" "\<And>key. wf_key key \<Longrightarrow> policy_book (er_book t) key = map_option vp_Spec (gc_items (er_policies t) key)"
    using quiet_current [OF steps_invD(2) [OF inv] assms(3)] by auto
  have q: "gc_HasSynced (er_bindings t)" "\<And>key. wf_key key \<Longrightarrow> binding_book (er_book t) key = map_option vb_Spec (gc_items (er_bindings t) key)"
    using quiet_current [OF steps_invD(3) [OF inv] assms(4)] by auto
  have "abs_policies (er_book t) nn = store_specs vp_Spec (er_policies t) nn" for nn
    using p(2) [of "name_key nn"] name_key_inverse [of nn] book_plain(1) [OF b, of nn] by (auto simp: policy_book_def store_specs_def)
  moreover have "abs_bindings (er_book t) nn = store_specs vb_Spec (er_bindings t) nn" for nn
    using q(2) [of "name_key nn"] name_key_inverse [of nn] book_plain(2) [OF b, of nn] by (auto simp: binding_book_def store_specs_def)
  ultimately have abs: "abs_policies (er_book t) = store_specs vp_Spec (er_policies t)" "abs_bindings (er_book t) = store_specs vb_Spec (er_bindings t)" by auto
  obtain ps r where latest: "latestPolicyData env order (er_book t) = Ret (ps, r)" "pc_inv env r" "snapshot_of env r ps"
    "abs_policies r = abs_policies (er_book t)" "abs_bindings r = abs_bindings (er_book t)"
    using latestPolicyData_inv [OF book_reached_inv [OF b] assms(5)] by blast
  have "refreshPolicies env order (er_evaluator t) = Ret ((er_evaluator t)\<lparr>ce_policyController := r, ce_definitions := Some ps\<rparr>)"
    using latest(1) by (simp add: refreshPolicies_def)
  moreover have "ce_definitions ((er_evaluator t)\<lparr>ce_policyController := r, ce_definitions := Some ps\<rparr>) = Some ps" by simp
  moreover note snapshot_describes [OF latest(2,3)]
  ultimately show ?thesis using p(1) q(1) unfolding latest(4,5) abs policyController_HasSynced_def by blast
qed

section \<open>Witnesses\<close>

text \<open>
  A run with one object: the informer lists it, the handler joins, the worker reconciles it. In all its
  states the store holds the object as soon as the informer has synced.
\<close>

definition holds_one :: "string \<Rightarrow> 'obj \<Rightarrow> ('obj, 'b) gc_state \<Rightarrow> bool" where
  "holds_one key obj s \<longleftrightarrow> (gc_synced s \<longrightarrow> gc_items s = [key \<mapsto> obj])"

definition gc_path ::
  "('obj, 'r, 'b) gcontroller \<Rightarrow> 'obj set \<Rightarrow> string \<Rightarrow> 'obj \<Rightarrow> ('obj, 'b) gc_state \<times> 'r \<Rightarrow> ('obj, 'b) gc_state \<times> 'r \<Rightarrow> bool" where
  "gc_path c V key obj = (\<lambda>x y. gc_step c V x y \<and> holds_one key obj (fst y))\<^sup>*\<^sup>*"

lemma gc_path_snoc: "gc_path c V key obj x y \<Longrightarrow> gc_step c V y z \<Longrightarrow> holds_one key obj (fst z) \<Longrightarrow> gc_path c V key obj x z"
  unfolding gc_path_def by (rule rtranclp.rtrancl_into_rtrancl) simp_all

definition one_listed :: "string \<Rightarrow> 'obj \<Rightarrow> 'obj sharedIndexInformer" where
  "one_listed key obj =
     \<lparr>si_indexer = \<lparr>tsm_items = [key \<mapsto> obj], tsm_indexers = [], tsm_indices = Map.empty\<rparr>, si_started = True, si_stopped = False,
      si_synced = True, si_deltas = [], si_isInInitialList = True, si_notification = None, si_listener = None\<rparr>"

lemma one_listed_path:
  fixes c :: "('obj, 'r, 'b) gcontroller" and b :: 'b and r :: 'r
  assumes key: "DeletionHandlingMetaNamespaceKeyFunc (gc_objects c) (EvObject obj) = Inr key" and V: "obj \<in> V"
  shows "gc_path c V key obj (gc_init [] b, r) ((gc_init [] b)\<lparr>gs_informer := one_listed key obj\<rparr>, r)"
proof -
  let ?oe = "gc_objects c" and ?i0 = "NewSharedIndexInformer [] :: 'obj sharedIndexInformer"
  let ?C = "\<lparr>tsm_items = [key \<mapsto> obj], tsm_indexers = [], tsm_indices = Map.empty\<rparr>"
  let ?i1 = "?i0\<lparr>si_started := True\<rparr>"
  let ?i2 = "?i1\<lparr>si_deltas := [Added obj], si_isInInitialList := True\<rparr>"
  let ?i3 = "?i1\<lparr>si_indexer := ?C, si_isInInitialList := True, si_notification := Some (addNotification obj True, False)\<rparr>"
  let ?i4 = "?i1\<lparr>si_indexer := ?C, si_isInInitialList := True\<rparr>"
  let ?s = "\<lambda>i. (gc_init [] b)\<lparr>gs_informer := i\<rparr>"
  note defs = NewSharedIndexInformer_def NewIndexer_def NewThreadSafeStore_def informer_idle_def
  have j: "informer_step ?oe V ?i0 ?i1" by (rule informer_step.start)
  have j1: "informer_step ?oe V ?i1 ?i2"
    using informer_step.pop [of ?i1 ?oe V "[Added obj]"] V by (simp add: informer_Pop_def defs)
  have "informer_next ?oe ?i2 = Ret ?i3"
    by (simp add: informer_next_def upsertDelta_def indexer_Get_def key cache_GetByKey_def tsm_Get_def indexer_Add_def cache_Add_def
        tsm_Add_def tsm_Update_def defs)
  then have j2: "informer_step ?oe V ?i2 ?i3" by (rule informer_step.next_delta [rotated]) (simp add: defs)
  have j3: "informer_step ?oe V ?i3 ?i4" using informer_step.notify [of ?oe V ?i3] by (simp add: distribute_def defs)
  have j4: "informer_step ?oe V ?i4 (one_listed key obj)" using informer_step.synced [of ?i4 ?oe V] by (simp add: one_listed_def defs)
  have 0: "gc_path c V key obj (gc_init [] b, r) (?s ?i0, r)" by (simp add: gc_path_def gc_init_def)
  have 1: "gc_path c V key obj (gc_init [] b, r) (?s ?i1, r)"
    using gc_path_snoc [OF 0 gc_step.inform [of c V "?s ?i0" ?i1 r]] j by (simp add: holds_one_def defs)
  have 2: "gc_path c V key obj (gc_init [] b, r) (?s ?i2, r)"
    using gc_path_snoc [OF 1 gc_step.inform [of c V "?s ?i1" ?i2 r]] j1 by (simp add: holds_one_def defs)
  have 3: "gc_path c V key obj (gc_init [] b, r) (?s ?i3, r)"
    using gc_path_snoc [OF 2 gc_step.inform [of c V "?s ?i2" ?i3 r]] j2 by (simp add: holds_one_def defs)
  have 4: "gc_path c V key obj (gc_init [] b, r) (?s ?i4, r)"
    using gc_path_snoc [OF 3 gc_step.inform [of c V "?s ?i3" ?i4 r]] j3 by (simp add: holds_one_def defs)
  show ?thesis
    using gc_path_snoc [OF 4 gc_step.inform [of c V "?s ?i4" "one_listed key obj" r]] j4 by (simp add: holds_one_def one_listed_def)
qed

text \<open>The controller with one object, in the stages of its life.\<close>

definition one_state ::
  "string \<Rightarrow> 'obj \<Rightarrow> 'b \<Rightarrow> 'obj processorListener \<Rightarrow> item workqueue \<Rightarrow> AsyncTracker \<Rightarrow> gphase \<Rightarrow> 'obj gworker list \<Rightarrow> ('obj, 'b) gc_state" where
  "one_state key obj b p q t ph ws =
     \<lparr>gs_informer = (one_listed key obj)\<lparr>si_listener := Some p\<rparr>, gs_queue = newDelayingQueue\<lparr>dq_q := q\<rparr>,
      gs_limiter = \<lparr>rl_failures = Map.empty, rl_bucket = b\<rparr>, gs_notificationsDelivered = DeliveredRegistration,
      gs_hasProcessed = t, gs_errors = [], gs_ctxErr = None, gs_phase = ph, gs_workers = ws\<rparr>"

definition one_listener :: "'obj notification list \<Rightarrow> bool \<Rightarrow> int \<Rightarrow> 'obj processorListener" where
  "one_listener ns h n = \<lparr>pl_pending = ns, pl_handled = h, pl_isSyncing = True, pl_count = n\<rparr>"

definition one_queue :: "string list \<Rightarrow> string list \<Rightarrow> item workqueue" where
  "one_queue dirty processing =
     \<lparr>wq_queue = map StringItem dirty, wq_dirty = set (map StringItem dirty), wq_processing = set (map StringItem processing),
      wq_shuttingDown = False, wq_drain = False\<rparr>"

lemmas one_simps = one_state_def one_listener_def one_queue_def one_listed_def newDelayingQueue_def newQueue_def wq_Add_def wq_Get_def wq_Done_def
  put_worker_def gc_set_queue_def

lemma one_holds [simp]: "holds_one key obj (one_state key obj b p q t ph ws)"
  by (simp add: holds_one_def one_state_def one_listed_def)

lemma one_joined_path:
  fixes c :: "('obj, 'r, 'b) gcontroller" and b :: 'b and r :: 'r
  assumes key: "DeletionHandlingMetaNamespaceKeyFunc (gc_objects c) (EvObject obj) = Inr key" and V: "obj \<in> V" and w: "opt_Workers (gc_options c) = 1"
  shows "gc_path c V key obj (gc_init [] b, r) (one_state key obj b (one_listener [] False 0) (one_queue [key] []) {key} GRunning [GNotStarted], r)"
proof -
  let ?n = "addNotification obj True" and ?S = "one_state key obj b"
  let ?s0 = "(gc_init [] b)\<lparr>gs_informer := one_listed key obj\<rparr>"
  let ?s1 = "?S (one_listener [?n] False 1) newQueue {} GSyncing []"
  let ?s2 = "?S (one_listener [] True 1) (one_queue [key] []) {key} GSyncing []"
  let ?s3 = "?S (one_listener [] False 0) (one_queue [key] []) {key} GSyncing []"
  have "gc_start repr [key] b ?s0 = ?s1" for repr
    by (simp add: gc_start_def gc_init_def AddEventHandler_def tsm_List_def listener_add_def newProcessListener_def SingleFileTracker_Start_def one_simps)
  then have j1: "gc_step c V (?s0, r) (?s1, r)"
    using gc_step.run_start [of ?s0 "[key]" c V r "''h''" b] by (simp add: gc_init_def one_listed_def informer_idle_def)
  have "gc_deliver c (one_listener [?n] False 1) ?n [] ?s1 = ?s2"
    by (simp add: gc_deliver_def gc_enqueue_def key AsyncTracker_Start_def one_simps)
  then have j2: "gc_step c V (?s1, r) (?s2, r)"
    using gc_step.deliver [of ?s1 "one_listener [?n] False 1" ?n "[]" c V r] by (simp add: one_simps)
  have j3: "gc_step c V (?s2, r) (?s3, r)"
    using gc_step.count [of ?s2 "one_listener [] True 1" 0 c V r] by (simp add: SingleFileTracker_Finished_def gc_count_def one_simps)
  have j4: "gc_step c V (?s3, r) (?S (one_listener [] False 0) (one_queue [key] []) {key} GRunning [GNotStarted], r)"
    using gc_step.sync_done [of ?s3 c V r] by (simp add: w one_simps)
  have "gc_path c V key obj (gc_init [] b, r) (?s1, r)"
    using gc_path_snoc [OF one_listed_path [OF key V, of b r] j1] by simp
  from gc_path_snoc [OF this j2] have "gc_path c V key obj (gc_init [] b, r) (?s2, r)" by simp
  from gc_path_snoc [OF this j3] have "gc_path c V key obj (gc_init [] b, r) (?s3, r)" by simp
  from gc_path_snoc [OF this j4] show ?thesis by simp
qed

abbreviation one_done :: "string \<Rightarrow> 'obj \<Rightarrow> 'b \<Rightarrow> ('obj, 'b) gc_state" where
  "one_done key obj b \<equiv> one_state key obj b (one_listener [] False 0) (one_queue [] []) {} GRunning [GAtGet]"

lemma one_done_path:
  fixes c :: "('obj, 'r, 'b) gcontroller" and b :: 'b and r :: 'r
  assumes key: "DeletionHandlingMetaNamespaceKeyFunc (gc_objects c) (EvObject obj) = Inr key" and V: "obj \<in> V" and w: "opt_Workers (gc_options c) = 1"
    and name: "CHR ''/'' \<notin> set key" and rec: "gc_reconciler c '''' key (Some obj) r = Ret (None, r')"
  shows "gc_path c V key obj (gc_init [] b, r) (one_done key obj b, r')"
proof -
  let ?S = "\<lambda>q t w. one_state key obj b (one_listener [] False 0) q t GRunning [w]"
  let ?q = "one_queue [key] []" and ?busy = "one_queue [] [key]" and ?l = "GLooked key '''' key (Some obj)"
  have "wf_key key" using name by (auto simp: wf_key_def intro: exI [of _ "''''"])
  then have look: "gc_lookup 0 (StringItem key) (?S ?busy {key} (GTaken (StringItem key))) = ?S ?busy {key} ?l"
    using gc_lookup_wf [of key 0 "?S ?busy {key} (GTaken (StringItem key))"] SplitMetaNamespaceKey_name [OF name] by (auto simp: one_simps)
  have j1: "gc_step c V (?S ?q {key} GNotStarted, r) (?S ?q {key} GAtGet, r)"
    using gc_step.worker_start [of 0 "?S ?q {key} GNotStarted" c V r] by (simp add: one_simps)
  have j2: "gc_step c V (?S ?q {key} GAtGet, r) (?S ?busy {key} (GTaken (StringItem key)), r)"
    using gc_step.get_item [of 0 "?S ?q {key} GAtGet" "StringItem key" ?busy c V r] by (simp add: one_simps)
  have j3: "gc_step c V (?S ?busy {key} (GTaken (StringItem key)), r) (?S ?busy {key} ?l, r)"
    using gc_step.look_up [of 0 "?S ?busy {key} (GTaken (StringItem key))" "StringItem key" c V r] look by (simp add: one_state_def)
  have f: "gc_reconciled 0 key None (?S ?busy {key} ?l) = ?S ?busy {key} (GProcessed key)"
    by (simp add: gc_reconciled_def gc_Forget_def controller_Forget_def item_Forget_def one_simps)
  have j4: "gc_step c V (?S ?busy {key} ?l, r) (?S ?busy {key} (GProcessed key), r')"
    using gc_step.reconcile [of 0 "?S ?busy {key} ?l" key "''''" key "Some obj" c r None r' V] rec unfolding f by (simp add: one_state_def)
  have j5: "gc_step c V (?S ?busy {key} (GProcessed key), r') (?S ?busy {} (GTracked (StringItem key)), r')"
    using gc_step.track [of 0 "?S ?busy {key} (GProcessed key)" key c V r'] by (simp add: AsyncTracker_Finished_def one_simps)
  have j6: "gc_step c V (?S ?busy {} (GTracked (StringItem key)), r') (one_done key obj b, r')"
    using gc_step.finish [of 0 "?S ?busy {} (GTracked (StringItem key))" "StringItem key" c V r'] by (simp add: one_simps)
  have "gc_path c V key obj (gc_init [] b, r) (?S ?q {key} GAtGet, r)"
    using gc_path_snoc [OF one_joined_path [OF key V w] j1] by simp
  from gc_path_snoc [OF this j2] have "gc_path c V key obj (gc_init [] b, r) (?S ?busy {key} (GTaken (StringItem key)), r)" by simp
  from gc_path_snoc [OF this j3] have "gc_path c V key obj (gc_init [] b, r) (?S ?busy {key} ?l, r)" by simp
  from gc_path_snoc [OF this j4] have "gc_path c V key obj (gc_init [] b, r) (?S ?busy {key} (GProcessed key), r')" by simp
  from gc_path_snoc [OF this j5] have "gc_path c V key obj (gc_init [] b, r) (?S ?busy {} (GTracked (StringItem key)), r')" by simp
  from gc_path_snoc [OF this j6] show ?thesis by simp
qed

lemma one_done_facts:
  "gc_quiet (one_done key obj b)" "gc_HasSynced (one_done key obj b)" "gc_items (one_done key obj b) = [key \<mapsto> obj]"
  by (simp_all add: gc_quiet_def informer_idle_def gc_HasSynced_def AsyncTracker_HasSynced_def registration_HasSynced_def listener_HasSynced_def
      SingleFileTracker_HasSynced_def one_simps)

text \<open>Such runs of the two controllers, one after the other, make a run of the evaluator.\<close>

definition all_hold :: "string \<Rightarrow> ValidatingAdmissionPolicy \<Rightarrow> string \<Rightarrow> ValidatingAdmissionPolicyBinding \<Rightarrow> ('u, 'z, 'srv, 'b) evaluator_state list \<Rightarrow> bool" where
  "all_hold key d bkey b ts \<longleftrightarrow> list_all (\<lambda>u. holds_one key d (er_policies u) \<and> holds_one bkey b (er_bindings u)) ts"

lemma run_policies_path:
  assumes "gc_path (policyDefinitionsController env (ef_policyObjects F) (ef_Reserve F)) (ef_policies F) key d (er_policies t, er_book t) x"
    and "evaluator_run env F (t # ts)" "all_hold key d bkey b (t # ts)"
  shows "\<exists>us. evaluator_run env F (set_book (snd x) (t\<lparr>er_policies := fst x\<rparr>) # us) \<and>
    all_hold key d bkey b (set_book (snd x) (t\<lparr>er_policies := fst x\<rparr>) # us)"
  using assms(1) unfolding gc_path_def
proof induction
  case base
  have "set_book (er_book t) (t\<lparr>er_policies := er_policies t\<rparr>) = t" by (simp add: set_book_def)
  then show ?case using assms(2,3) by (intro exI [of _ ts]) simp
next
  case (step y z)
  then obtain us where us: "evaluator_run env F (set_book (snd y) (t\<lparr>er_policies := fst y\<rparr>) # us)"
    "all_hold key d bkey b (set_book (snd y) (t\<lparr>er_policies := fst y\<rparr>) # us)" by (elim exE conjE)
  have "evaluator_step env F (set_book (snd y) (t\<lparr>er_policies := fst y\<rparr>)) (set_book (snd z) (t\<lparr>er_policies := fst z\<rparr>))"
    using evaluator_step.policies [of env F "set_book (snd y) (t\<lparr>er_policies := fst y\<rparr>)" "fst z" "snd z"] step(2) by (simp add: set_book_def)
  from evaluator_run.step [OF us(1) this] show ?case
    using us(2) step(2) by (intro exI [of _ "set_book (snd y) (t\<lparr>er_policies := fst y\<rparr>) # us"]) (simp add: all_hold_def)
qed

lemma run_bindings_path:
  assumes "gc_path (policyBindingController (ef_bindingObjects F) (ef_Reserve F)) (ef_bindings F) bkey b (er_bindings t, er_book t) x"
    and "evaluator_run env F (t # ts)" "all_hold key d bkey b (t # ts)"
  shows "\<exists>us. evaluator_run env F (set_book (snd x) (t\<lparr>er_bindings := fst x\<rparr>) # us) \<and>
    all_hold key d bkey b (set_book (snd x) (t\<lparr>er_bindings := fst x\<rparr>) # us)"
  using assms(1) unfolding gc_path_def
proof induction
  case base
  have "set_book (er_book t) (t\<lparr>er_bindings := er_bindings t\<rparr>) = t" by (simp add: set_book_def)
  then show ?case using assms(2,3) by (intro exI [of _ ts]) simp
next
  case (step y z)
  then obtain us where us: "evaluator_run env F (set_book (snd y) (t\<lparr>er_bindings := fst y\<rparr>) # us)"
    "all_hold key d bkey b (set_book (snd y) (t\<lparr>er_bindings := fst y\<rparr>) # us)" by (elim exE conjE)
  have "evaluator_step env F (set_book (snd y) (t\<lparr>er_bindings := fst y\<rparr>)) (set_book (snd z) (t\<lparr>er_bindings := fst z\<rparr>))"
    using evaluator_step.bindings [of F "set_book (snd y) (t\<lparr>er_bindings := fst y\<rparr>)" "fst z" "snd z" env] step(2) by (simp add: set_book_def)
  from evaluator_run.step [OF us(1) this] show ?case
    using us(2) step(2) by (intro exI [of _ "set_book (snd y) (t\<lparr>er_bindings := fst y\<rparr>) # us"]) (simp add: all_hold_def)
qed

text \<open>The example policy and its binding, as the API server serves them.\<close>

definition example_meta :: "ObjectMeta \<Rightarrow> accessor" where
  "example_meta m = \<lparr>acc_Name = om_Name m, acc_GenerateName = '''', acc_Namespace = '''', acc_ResourceVersion = ''1'', acc_Labels = Map.empty\<rparr>"

definition example_feed :: "unit evaluator_feed" where
  "example_feed =
     \<lparr>ef_policyObjects = \<lparr>oe_Accessor = (\<lambda>d. Inr (example_meta (vp_ObjectMeta d))), oe_render = (\<lambda>obj. '''')\<rparr>,
      ef_bindingObjects = \<lparr>oe_Accessor = (\<lambda>b. Inr (example_meta (vb_ObjectMeta b))), oe_render = (\<lambda>obj. '''')\<rparr>,
      ef_policies = {example_param_policy}, ef_bindings = {example_param_binding}, ef_Reserve = (\<lambda>b. (0, b))\<rparr>"

lemma example_feed_names: "om_Name (vp_ObjectMeta example_param_policy) = ''p''" "om_Name (vb_ObjectMeta example_param_binding) = ''b''"
  "bs_PolicyName (vb_Spec example_param_binding) = ''p''"
  by (simp_all add: example_param_policy_def example_param_binding_def)

lemma example_feed_ok: "feed_ok example_feed"
  by (simp add: feed_ok_def serves_def well_named_def example_feed_def example_meta_def example_feed_names)

definition example_book1 :: "(nat, nat, bool) policyController" where
  "example_book1 = (newPolicyController True)
     \<lparr>pc_paramsCRDControllers := [example_paramKind \<mapsto> \<lparr>pi_controller = 0, pi_dependentDefinitions = {getNamespaceName '''' ''p''}\<rparr>],
      pc_definitionInfo := [getNamespaceName '''' ''p'' \<mapsto> \<lparr>di_configurationError = None, di_lastReconciledValue = Some example_param_policy\<rparr>],
      pc_running := {0}, pc_next := 1\<rparr>"

definition example_book2 :: "(nat, nat, bool) policyController" where
  "example_book2 = example_book1
     \<lparr>pc_bindingInfos := [getNamespaceName '''' ''b'' \<mapsto> \<lparr>bi_validator = None, bi_lastReconciledValue = Some example_param_binding\<rparr>],
      pc_definitionsToBindings := [getNamespaceName '''' ''p'' \<mapsto> {getNamespaceName '''' ''b''}]\<rparr>"

lemma example_reconciled:
  "reconcilePolicyDefinition example_cel_env '''' ''p'' (Some example_param_policy) (newPolicyController True) = Ret (None, example_book1)"
  "reconcilePolicyBinding '''' ''b'' (Some example_param_binding) example_book1 = (None, example_book2)"
  by (simp_all add: reconcilePolicyDefinition_def reconcilePolicyDefinitionSpec_def example_cel_env_def example_policy_env_def newPolicyController_def
      reset_validators_def example_param_kind example_ParseGroupVersion watch_params_def set_definition_def Let_def example_book1_def example_book2_def
      reconcilePolicyBinding_def binding_policy_def unlink_binding_def example_feed_names getNamespaceName_def)

lemma example_snapshot:
  "\<exists>r. latestPolicyData example_cel_env example_order example_book2 = Ret (the (ce_definitions example_celAdmissionController), r)"
  by (simp add: latestPolicyData_def example_book2_def example_book1_def newPolicyController_def example_order_def getNamespaceName_def
      example_celAdmissionController_def example_param_kind)

text \<open>The state in which both controllers are done, and the one after the wait and a refresh.\<close>

definition example_evaluator0 :: "(nat, nat, bool, unit) evaluator_state" where
  "example_evaluator0 = evaluator_init [] [] () () True"

definition example_evaluator1 :: "(nat, nat, bool, unit) evaluator_state" where
  "example_evaluator1 = example_evaluator0\<lparr>er_policies := one_done ''p'' example_param_policy (), er_bindings := one_done ''b'' example_param_binding (),
     er_evaluator := (NewAdmissionController True)\<lparr>ce_policyController := example_book2\<rparr>\<rparr>"

lemma example_evaluator1_run:
  "\<exists>us. evaluator_run example_cel_env example_feed (example_evaluator1 # us) \<and>
     all_hold ''p'' example_param_policy ''b'' example_param_binding (example_evaluator1 # us)"
proof -
  let ?F = example_feed and ?env = example_cel_env and ?t0 = example_evaluator0
  let ?cp = "policyDefinitionsController ?env (ef_policyObjects ?F) (ef_Reserve ?F)"
  let ?cb = "policyBindingController (ef_bindingObjects ?F) (ef_Reserve ?F) :: (ValidatingAdmissionPolicyBinding, (nat, nat, bool) policyController, unit) gcontroller"
  let ?t1 = "set_book example_book1 (?t0\<lparr>er_policies := one_done ''p'' example_param_policy ()\<rparr>)"
  have f0: "er_policies ?t0 = gc_init [] ()" "er_bindings ?t0 = gc_init [] ()" "er_book ?t0 = newPolicyController True"
    by (simp_all add: example_evaluator0_def evaluator_init_def NewAdmissionController_def)
  have "evaluator_run ?env ?F [?t0]" "all_hold ''p'' example_param_policy ''b'' example_param_binding [?t0]"
    using evaluator_run.start [of ?env ?F "[]" "[]" "()" "()" True]
    by (simp_all add: all_hold_def holds_one_def f0 gc_init_def NewSharedIndexInformer_def) (simp add: example_evaluator0_def)
  moreover have "gc_path ?cp (ef_policies ?F) ''p'' example_param_policy (er_policies ?t0, er_book ?t0) (one_done ''p'' example_param_policy (), example_book1)"
    unfolding f0 by (rule one_done_path)
      (simp_all add: DeletionHandlingMetaNamespaceKeyFunc_def MetaNamespaceKeyFunc_def example_feed_def example_meta_def example_feed_names example_reconciled
        policyDefinitionsController_def NewController_def)
  ultimately obtain us where us: "evaluator_run ?env ?F (?t1 # us)" "all_hold ''p'' example_param_policy ''b'' example_param_binding (?t1 # us)"
    using run_policies_path [of ?env ?F "''p''" example_param_policy ?t0 _ "[]" "''b''" example_param_binding] by fastforce
  have "gc_path ?cb (ef_bindings ?F) ''b'' example_param_binding (er_bindings ?t1, er_book ?t1) (one_done ''b'' example_param_binding (), example_book2)"
    unfolding set_book_simps by (simp add: f0, rule one_done_path)
      (simp_all add: DeletionHandlingMetaNamespaceKeyFunc_def MetaNamespaceKeyFunc_def example_feed_def example_meta_def example_feed_names example_reconciled
        policyBindingController_def NewController_def)
  from run_bindings_path [OF this us]
  have "\<exists>us. evaluator_run ?env ?F (set_book example_book2 (?t1\<lparr>er_bindings := one_done ''b'' example_param_binding ()\<rparr>) # us) \<and>
      all_hold ''p'' example_param_policy ''b'' example_param_binding (set_book example_book2 (?t1\<lparr>er_bindings := one_done ''b'' example_param_binding ()\<rparr>) # us)"
    by simp
  moreover have "set_book example_book2 (?t1\<lparr>er_bindings := one_done ''b'' example_param_binding ()\<rparr>) = example_evaluator1"
    by (simp add: example_evaluator1_def set_book_def example_evaluator0_def evaluator_init_def)
  ultimately show ?thesis by simp
qed

theorem evaluator_converges_witness:
  "policyController_HasSynced example_evaluator1 \<and>
   (\<exists>c ps. refreshPolicies example_cel_env example_order (er_evaluator example_evaluator1) = Ret c \<and> ce_definitions c = Some ps \<and>
      (\<exists>p \<in> set ps. describes example_cel_env (store_specs vb_Spec (er_bindings example_evaluator1)) (getNamespaceName '''' ''p'')
         (vp_Spec example_param_policy) p))"
proof -
  obtain us where us: "evaluator_run example_cel_env example_feed (example_evaluator1 # us)" using example_evaluator1_run by blast
  have q: "gc_quiet (er_policies example_evaluator1)" "gc_quiet (er_bindings example_evaluator1)"
    by (simp_all add: example_evaluator1_def one_done_facts)
  have "store_specs vp_Spec (er_policies example_evaluator1) (getNamespaceName '''' ''p'') = Some (vp_Spec example_param_policy)"
    by (simp add: example_evaluator1_def store_specs_def plain_name_def getNamespaceName_def name_key_def one_done_facts)
  with evaluator_converges [OF example_feed_ok us q example_order_enumerates] show ?thesis by blast
qed

lemma since_sync_all_hold:
  assumes "all_hold key d bkey b ts"
  shows "since_sync er_policies vp_Spec ts key (vp_Spec d)" "since_sync er_bindings vb_Spec ts bkey (vb_Spec b)"
  using assms by (auto simp: since_sync_def all_hold_def holds_one_def list_all_iff)

lemma Validate_cong:
  "evaluator_HasSynced c \<Longrightarrow> evaluator_HasSynced c' \<Longrightarrow> ce_definitions c = ce_definitions c' \<Longrightarrow>
    evaluator_Validate env a c = evaluator_Validate env a c'"
  by (simp add: evaluator_Validate_def)

lemma example_refreshed_run:
  "\<exists>t us. evaluator_run example_cel_env example_feed (t # us) \<and> all_hold ''p'' example_param_policy ''b'' example_param_binding (t # us) \<and>
     evaluator_HasSynced (evaluator_view t) \<and> ce_definitions (evaluator_view t) = ce_definitions example_celAdmissionController"
proof -
  let ?t1 = example_evaluator1 and ?t2 = "example_evaluator1\<lparr>er_refreshing := True\<rparr>"
  obtain us where us: "evaluator_run example_cel_env example_feed (?t1 # us)" "all_hold ''p'' example_param_policy ''b'' example_param_binding (?t1 # us)"
    using example_evaluator1_run by (elim exE conjE)
  obtain r where latest: "latestPolicyData example_cel_env example_order example_book2 = Ret (the (ce_definitions example_celAdmissionController), r)"
    using example_snapshot by (elim exE)
  let ?c = "(er_evaluator ?t1)\<lparr>ce_policyController := r, ce_definitions := ce_definitions example_celAdmissionController\<rparr>"
  let ?t3 = "?t2\<lparr>er_evaluator := ?c\<rparr>"
  have synced: "gc_HasSynced (er_policies ?t1)" "gc_HasSynced (er_bindings ?t1)" by (simp_all add: example_evaluator1_def one_done_facts)
  have "evaluator_step example_cel_env example_feed ?t1 ?t2"
    by (rule evaluator_step.waited) (simp add: policyController_HasSynced_def synced)
  from evaluator_run.step [OF us(1) this] have 2: "evaluator_run example_cel_env example_feed (?t2 # ?t1 # us)" .
  have "refreshPolicies example_cel_env example_order (er_evaluator ?t2) = Ret ?c"
    using latest by (simp add: refreshPolicies_def example_evaluator1_def example_celAdmissionController_def)
  then have "evaluator_step example_cel_env example_feed ?t2 ?t3"
    by (rule evaluator_step.refresh [rotated 2]) (simp_all add: example_order_enumerates)
  from evaluator_run.step [OF 2 this] have 3: "evaluator_run example_cel_env example_feed (?t3 # ?t2 # ?t1 # us)" .
  moreover have "all_hold ''p'' example_param_policy ''b'' example_param_binding (?t3 # ?t2 # ?t1 # us)" using us(2) by (simp add: all_hold_def)
  moreover have "evaluator_HasSynced (evaluator_view ?t3)" "ce_definitions (evaluator_view ?t3) = ce_definitions example_celAdmissionController"
    using synced by (simp_all add: evaluator_HasSynced_def evaluator_view_def example_celAdmissionController_def)
  ultimately show ?thesis by (intro exI conjI)
qed

end
