(* ===== verification/Drain.thy ===== *)
theory Drain
  imports Controller
begin

text \<open>
  Termination of \<^verbatim>\<open>Run\<close> of the generic controller (\<^verbatim>\<open>pkg/controller/generic.go\<close>): once its context is done and
  the queue is shut down, the work that is left is bounded by a measure which no step increases and
  every step of a goroutine of the controller decreases, and until \<^verbatim>\<open>Run\<close> returns one of them can move.
  The reconciler is a function of the model, so each of its calls returns.
\<close>

section \<open>The work that is left\<close>

fun worker_work :: "worker \<Rightarrow> nat" where
  "worker_work NotStarted = 2"
| "worker_work AtGet = 1"
| "worker_work (Working item) = 3"
| "worker_work (Finishing item) = 2"
| "worker_work Exited = 0"
| "worker_work Skipped = 0"

fun phase_work :: "phase \<Rightarrow> nat" where
  "phase_work Draining = 2"
| "phase_work Joining = 1"
| "phase_work ph = 0"

definition drain_work :: "('obj, 'r, 'b) ctl_state \<Rightarrow> nat" where
  "drain_work s = 3 * card (pending s) + sum_list (map worker_work (cs_workers s)) + phase_work (cs_phase s)"

text \<open>A step of \<^verbatim>\<open>Run\<close> or of a worker, as opposed to one of the informer, the delaying queue or the context.\<close>

definition own_step :: "('obj, 'r, 'b) ctl_state \<Rightarrow> ('obj, 'r, 'b) ctl_state \<Rightarrow> bool" where
  "own_step s t \<longleftrightarrow> cs_workers t \<noteq> cs_workers s \<or> cs_phase t \<noteq> cs_phase s"

abbreviation leaving :: "('obj, 'r, 'b) ctl_state \<Rightarrow> bool" where
  "leaving s \<equiv> cs_phase s \<in> {Draining, Joining}"

definition drain_ok :: "('obj, 'r, 'b) ctl_state \<Rightarrow> bool" where
  "drain_ok s \<longleftrightarrow> ctl_inv s \<and> (leaving s \<longrightarrow> wq_shuttingDown (dq_q (cs_queue s)) \<and> cs_ctxErr s \<noteq> None)"

section \<open>A closed queue\<close>

lemma AddAfter_closed: "wq_shuttingDown (dq_q q) \<Longrightarrow> dq_AddAfter now x d q = Some q"
  by (simp add: dq_AddAfter_def wq_ShuttingDown_def)

lemma dq_step_closed: "dq_step now q q' \<Longrightarrow> wq_shuttingDown (dq_q q) \<Longrightarrow> dq_q q' = dq_q q"
  by (induction rule: dq_step.induct) (simp_all add: wq_Add_closed)

lemma notify_closed:
  assumes "wq_shuttingDown (dq_q (cs_queue s))"
  shows "dq_q (cs_queue (ctl_handle c ev s)) = dq_q (cs_queue s)"
  using ctl_handle_queue [of c ev s] assms by (auto simp: wq_Add_closed)

lemma process_closed:
  assumes "processItem c now item s = Some s'" "wq_shuttingDown (dq_q (cs_queue s))"
  shows "cs_queue s' = cs_queue s" "cs_workers s' = cs_workers s" "cs_phase s' = cs_phase s"
  using processItem_queue [OF assms(1)] assms(2) by (auto simp: AddAfter_closed)

lemma process_total:
  assumes "wq_shuttingDown (dq_q (cs_queue s))"
  shows "\<exists>s'. processItem c now item s = Some s'"
proof (cases item)
  case (StringItem key)
  obtain err s1 where r: "reconcile c key s = (err, s1)" by (rule prod.exhaust)
  have "wq_shuttingDown (dq_q (cs_queue s1))" using reconcile_frame [OF r] assms by simp
  then have "\<exists>s2. AddRateLimited c now item s1 = Some s2"
    by (simp add: AddRateLimited_def AddAfter_closed split: prod.split)
  then show ?thesis by (cases err) (auto simp: processItem_def StringItem r)
qed (simp add: processItem_def)

section \<open>Steps while Run is leaving\<close>

lemma drain_ok_step: "ctl_step c s t \<Longrightarrow> drain_ok s \<Longrightarrow> drain_ok t"
proof -
  assume step: "ctl_step c s t" and ok: "drain_ok s"
  have inv: "ctl_inv s" and closed: "leaving s \<Longrightarrow> wq_shuttingDown (dq_q (cs_queue s)) \<and> cs_ctxErr s \<noteq> None"
    using ok by (auto simp: drain_ok_def)
  have "leaving t \<longrightarrow> wq_shuttingDown (dq_q (cs_queue t)) \<and> cs_ctxErr t \<noteq> None"
    using step closed
  proof (induction rule: ctl_step.induct)
    case (notify s ev)
    then show ?case using ctl_handle_queue [of c ev s] notify_closed [of s c ev] by (auto simp: ctl_handle_ctxErr)
  next
    case (delay now s q)
    then show ?case using dq_step_closed by fastforce
  next
    case (process i s item now s1)
    then show ?case
      using processItem_queue [OF process(3)] process_closed [OF process(3)] processItem_ctxErr [OF process(3)]
      by (auto simp: set_worker_def)
  next
    case (get_item i s item q)
    then show ?case by (auto simp: set_worker_def set_queue_def wq_Get_def split: list.splits if_splits)
  next
    case (get_shutdown i s q)
    then show ?case by (auto simp: set_worker_def set_queue_def wq_Get_def split: list.splits if_splits)
  qed (auto simp: set_worker_def set_queue_def wq_fields)
  with ctl_inv_step [OF step inv] show "drain_ok t" by (simp add: drain_ok_def)
qed

interpretation drain: step_invariant "ctl_step c" drain_ok for c
  by unfold_locales (rule drain_ok_step)

lemma drain_ok_init: "drain_ok (ctl_init store r b)"
  by (simp add: drain_ok_def ctl_inv_init) (simp add: ctl_init_def)

lemma pending_finite: "ctl_inv s \<Longrightarrow> finite (pending s)"
proof -
  assume inv: "ctl_inv s"
  let ?q = "dq_q (cs_queue s)" and ?ws = "cs_workers s"
  have "x \<in> (\<lambda>i. the (held (?ws ! i))) ` {..<length ?ws}" if "x \<in> wq_processing ?q" for x
  proof -
    have "held_ok (wq_processing ?q) ?ws" using inv by (simp add: ctl_inv_def ctl_ok_def)
    with that obtain i where "i < length ?ws" "held (?ws ! i) = Some x" unfolding held_ok_def by blast
    then show ?thesis by (intro image_eqI [of _ _ i]) simp_all
  qed
  then have "wq_processing ?q \<subseteq> (\<lambda>i. the (held (?ws ! i))) ` {..<length ?ws}" by blast
  then have "finite (wq_processing ?q)" by (rule finite_subset) simp
  moreover have "pending s \<subseteq> set (wq_queue ?q) \<union> wq_processing ?q"
    using inv by (auto simp: ctl_inv_def ctl_ok_def wq_inv_def)
  ultimately show ?thesis by (meson finite_Un finite_set finite_subset)
qed

lemma worker_update:
  assumes "i < length ws"
  shows "sum_list (map worker_work (ws[i := w])) + worker_work (ws ! i) = sum_list (map worker_work ws) + worker_work w"
proof -
  have "worker_work (ws ! i) \<le> sum_list (map worker_work ws)"
    using assms by (intro member_le_sum_list) simp_all
  then show ?thesis using assms by (simp add: map_update sum_list_update)
qed

lemma drain_work_step:
  assumes "ctl_step c s t" "drain_ok s" "leaving s"
  shows "drain_work t \<le> drain_work s \<and> (own_step s t \<longrightarrow> drain_work t < drain_work s)"
proof -
  have inv: "ctl_inv s" and closed: "wq_shuttingDown (dq_q (cs_queue s))" using assms(2,3) by (auto simp: drain_ok_def)
  show ?thesis
    using assms(1,3) inv closed
  proof (induction rule: ctl_step.induct)
    case (notify s ev)
    then show ?case using ctl_handle_queue [of c ev s] notify_closed [of s c ev] by (simp add: drain_work_def own_step_def)
  next
    case (delay now s q)
    then show ?case using dq_step_closed [OF delay(1)] by (simp add: drain_work_def own_step_def)
  next
    case (process i s item now s1)
    then show ?case
      using process_closed [OF process(3)] worker_update [OF process(1), of "Finishing item"]
      by (simp add: set_worker_def drain_work_def)
  next
    case (get_item i s item q)
    have "wq_inv (dq_q (cs_queue s))" using get_item by (simp add: ctl_inv_def ctl_ok_def)
    note q = wq.take_item [OF this get_item(3)]
    have "card (pending s) = Suc (card (wq_dirty q))"
      using q card_Suc_Diff1 [OF pending_finite [OF get_item(5)], of item] by simp
    then show ?case
      using get_item worker_update [OF get_item(1), of "Working item"] by (simp add: set_worker_def set_queue_def drain_work_def)
  next
    case (get_shutdown i s q)
    then show ?case
      using wq.take_end [OF get_shutdown(3)] worker_update [OF get_shutdown(1), of Exited]
      by (simp add: set_worker_def set_queue_def drain_work_def)
  next
    case (finish i s item)
    then show ?case
      using worker_update [OF finish(1), of AtGet] by (simp add: set_worker_def set_queue_def drain_work_def wq_fields)
  next
    case (worker_start i s)
    then show ?case using worker_update [OF worker_start(1), of AtGet] by (simp add: set_worker_def drain_work_def)
  next
    case (worker_skip i s)
    then show ?case using worker_update [OF worker_skip(1), of Skipped] by (simp add: set_worker_def drain_work_def)
  qed (auto simp: drain_work_def own_step_def)
qed

text \<open>Until \<^verbatim>\<open>Run\<close> returns it is never stuck.\<close>

lemma drain_progress:
  assumes "drain_ok s" "leaving s"
  shows "\<exists>t. ctl_step c s t \<and> own_step s t"
proof (cases "set (cs_workers s) \<subseteq> {Exited, Skipped}")
  case True
  have "held (cs_workers s ! i) = None" if "i < length (cs_workers s)" for i
    using True nth_mem [OF that] by auto
  then have "wq_processing (dq_q (cs_queue s)) = {}"
    using assms(1) by (auto simp: drain_ok_def ctl_inv_def ctl_ok_def held_ok_def)
  then have "\<not> wq_draining (dq_q (cs_queue s))" by (simp add: wq_draining_def wq_isProcessing_def)
  moreover obtain err where "cs_ctxErr s = Some err" using assms by (auto simp: drain_ok_def)
  ultimately show ?thesis
    using assms(2) ctl_step.drained [of s c] ctl_step.run_return [OF _ True, of err c]
    by (cases "cs_phase s") (fastforce simp: own_step_def)+
next
  case False
  then obtain i where i: "i < length (cs_workers s)" and w: "cs_workers s ! i \<notin> {Exited, Skipped}"
    by (metis in_set_conv_nth subsetI)
  have closed: "wq_shuttingDown (dq_q (cs_queue s))" using assms by (auto simp: drain_ok_def)
  have moved: "own_step s (set_worker i w' s')" if "cs_workers s' = cs_workers s" "w' \<noteq> cs_workers s ! i" for w' s'
  proof -
    have "(cs_workers s)[i := w'] \<noteq> cs_workers s" using that(2) nth_list_update_eq [OF i, of w'] by metis
    then show ?thesis by (simp add: own_step_def set_worker_def that(1))
  qed
  show ?thesis
  proof (cases "cs_workers s ! i")
    case NotStarted
    then show ?thesis
      using ctl_step.worker_start [OF i, of c] ctl_step.worker_skip [OF i, of c] moved [of s] by (metis worker.distinct(1,9))
  next
    case AtGet
    have "\<exists>r q. wq_Get (dq_q (cs_queue s)) = Some (r, q)" using closed by (simp add: wq_Get_def split: list.split)
    then obtain r q where "wq_Get (dq_q (cs_queue s)) = Some (r, q)" by blast
    then show ?thesis
      using ctl_step.get_item [OF i AtGet, of _ q c] ctl_step.get_shutdown [OF i AtGet, of q c] moved [of "set_queue q s"] AtGet
      by (cases r) (fastforce simp: set_queue_def)+
  next
    case (Working item)
    obtain s1 where s1: "processItem c 0 item s = Some s1" using process_total [OF closed] by blast
    from ctl_step.process [OF i Working s1] moved [OF process_closed(2) [OF s1 closed]] Working show ?thesis by fastforce
  next
    case (Finishing item)
    from ctl_step.finish [OF i Finishing, of c] Finishing
      moved [of "set_queue (wq_Done item (dq_q (cs_queue s))) s" AtGet]
    show ?thesis by (fastforce simp: set_queue_def)
  qed (use w in simp_all)
qed

lemma leaving_step:
  assumes "ctl_step c s t" "leaving s"
  shows "leaving t \<or> (\<exists>err. cs_phase t = RunReturned err)"
  using assms
proof (induction rule: ctl_step.induct)
  case (notify s ev)
  then show ?case using ctl_handle_queue [of c ev s] by simp
next
  case (process i s item now s1)
  then show ?case using processItem_queue [OF process(3)] by (simp add: set_worker_def)
qed (auto simp: set_worker_def set_queue_def)

lemma returned_no_own_step:
  assumes "ctl_step c s t" "ctl_inv s" "cs_phase s = RunReturned err"
  shows "\<not> own_step s t"
proof -
  have ended: "cs_workers s ! i \<in> {Exited, Skipped}" if "i < length (cs_workers s)" for i
    using assms(2,3) nth_mem [OF that] by (auto simp: ctl_inv_def ctl_ok_def phase_ok_def)
  show ?thesis
    using assms(1) ended assms(3)
  proof (induction rule: ctl_step.induct)
    case (notify s ev)
    then show ?case using ctl_handle_queue [of c ev s] by (simp add: own_step_def)
  qed (fastforce simp: own_step_def)+
qed

lemma run_returns:
  assumes steps: "\<And>i. ctl_step c (run i) (run (Suc i))" and ok: "drain_ok (run i)" "leaving (run i)"
    and fair: "\<And>i. (\<exists>t. ctl_step c (run i) t \<and> own_step (run i) t) \<Longrightarrow> \<exists>j \<ge> i. own_step (run j) (run (Suc j))"
  shows "\<exists>k err. cs_phase (run k) = RunReturned err"
  using ok
proof (induction "drain_work (run i)" arbitrary: i rule: less_induct)
  case less
  obtain j where j: "i \<le> j" "own_step (run j) (run (Suc j))" using fair drain_progress [OF less.prems] by blast
  have until: "(drain_ok (run k) \<and> leaving (run k) \<and> drain_work (run k) \<le> drain_work (run i)) \<or> (\<exists>k err. cs_phase (run k) = RunReturned err)"
    if "i \<le> k" for k
    using that
  proof (induction k rule: dec_induct)
    case (step k)
    then show ?case
      using leaving_step [OF steps, of k] drain_ok_step [OF steps, of k] drain_work_step [OF steps, of k] by (meson order_trans)
  qed (use less.prems in simp)
  show ?case
  proof (cases "\<exists>k err. cs_phase (run k) = RunReturned err")
    case False
    with until j(1) have at: "drain_ok (run j)" "leaving (run j)" "drain_work (run j) \<le> drain_work (run i)" by blast+
    then have "drain_work (run (Suc j)) < drain_work (run i)" using drain_work_step [OF steps at(1,2)] j(2) by linarith
    moreover have "drain_ok (run (Suc j))" "leaving (run (Suc j))"
      using drain_ok_step [OF steps at(1)] leaving_step [OF steps at(2)] False by blast+
    ultimately show ?thesis by (rule less.hyps)
  qed
qed

section \<open>Properties\<close>

text \<open>
  C10. \<^verbatim>\<open>Run\<close> terminates. Take any run of the controller, with any events, store updates and firing of
  delays, from a reachable state in which \<^verbatim>\<open>Run\<close> has seen its context done. If no goroutine of the
  controller that could move is passed over for ever, \<^verbatim>\<open>Run\<close> returns: the queue accepts nothing any more,
  keys that fail are not put back, every worker leaves its loop, and the wait for the drain ends.
\<close>

theorem run_terminates:
  assumes "(ctl_step c)\<^sup>*\<^sup>* (ctl_init store r b) (run 0)" and "cs_phase (run 0) \<in> {Draining, Joining}"
    and "\<And>i. ctl_step c (run i) (run (Suc i))"
    and "\<And>i. (\<exists>t. ctl_step c (run i) t \<and> own_step (run i) t) \<Longrightarrow> \<exists>j \<ge> i. own_step (run j) (run (Suc j))"
  shows "\<exists>k err. cs_phase (run k) = RunReturned err"
  using run_returns [OF assms(3) drain.steps_inv [OF assms(1) drain_ok_init] assms(2,4)] .

text \<open>A run with one worker that waits for an item when the context is cancelled.\<close>

definition example_leaving :: "(string \<times> string, string list, unit) ctl_state" where
  "example_leaving = example_init\<lparr>cs_synced := True, cs_ctxErr := Some (ErrorString ''context canceled''),
     cs_queue := newDelayingQueue\<lparr>dq_q := wq_StartDrain newQueue\<rparr>, cs_phase := Draining, cs_workers := [AtGet]\<rparr>"

fun example_leaving_run :: "nat \<Rightarrow> (string \<times> string, string list, unit) ctl_state" where
  "example_leaving_run 0 = example_leaving"
| "example_leaving_run (Suc 0) = example_leaving\<lparr>cs_workers := [Exited]\<rparr>"
| "example_leaving_run (Suc (Suc 0)) = example_leaving\<lparr>cs_workers := [Exited], cs_phase := Joining\<rparr>"
| "example_leaving_run (Suc (Suc (Suc n))) = example_drained"

lemma example_leaving_reachable: "(ctl_step example_controller)\<^sup>*\<^sup>* example_init example_leaving"
proof -
  let ?c = example_controller and ?e = "ErrorString ''context canceled''"
  let ?s1 = "example_init\<lparr>cs_synced := True\<rparr>"
  let ?s2 = "?s1\<lparr>cs_phase := Running, cs_workers := [NotStarted]\<rparr>"
  let ?s3 = "?s2\<lparr>cs_workers := [AtGet]\<rparr>"
  let ?s4 = "?s3\<lparr>cs_ctxErr := Some ?e\<rparr>"
  have 1: "ctl_step ?c example_init ?s1" by (rule ctl_step.synced)
  have 2: "ctl_step ?c ?s1 ?s2"
    using ctl_step.sync_done [of ?s1 ?c] by (simp add: example_ctl_simps)
  have 3: "ctl_step ?c ?s2 ?s3"
    using ctl_step.worker_start [of 0 ?s2 ?c] by (simp add: example_ctl_simps)
  have 4: "ctl_step ?c ?s3 ?s4"
    using ctl_step.cancel [of ?s3 ?c ?e] by (simp add: example_ctl_simps)
  have 5: "ctl_step ?c ?s4 example_leaving"
    using ctl_step.ctx_done [of ?s4 ?c] by (simp add: example_ctl_simps example_leaving_def)
  show ?thesis using 1 2 3 4 5 by (meson converse_rtranclp_into_rtranclp rtranclp.rtrancl_refl)
qed

lemma example_leaving_step: "ctl_step example_controller (example_leaving_run i) (example_leaving_run (Suc i))"
proof (cases i rule: example_leaving_run.cases)
  case 1
  then show ?thesis
    using ctl_step.get_shutdown [of 0 example_leaving "wq_StartDrain newQueue" example_controller]
    by (simp add: example_ctl_simps example_leaving_def wq_StartDrain_def wq_shutdown_def wq_setDrain_def)
next
  case 2
  then show ?thesis
    using ctl_step.drained [of "example_leaving\<lparr>cs_workers := [Exited]\<rparr>" example_controller]
    by (simp add: example_ctl_simps example_leaving_def wq_StartDrain_def wq_shutdown_def wq_setDrain_def wq_draining_def wq_isProcessing_def)
next
  case 3
  then show ?thesis
    using ctl_step.run_return [of "example_leaving\<lparr>cs_workers := [Exited], cs_phase := Joining\<rparr>" "ErrorString ''context canceled''" example_controller]
    by (simp add: example_drained_def example_ctl_simps example_leaving_def)
next
  case (4 n)
  then show ?thesis using ctl_step.inform [of example_controller example_drained "cs_store example_drained"] by simp
qed

lemma example_leaving_fair:
  assumes "\<exists>t. ctl_step example_controller (example_leaving_run i) t \<and> own_step (example_leaving_run i) t"
  shows "\<exists>j \<ge> i. own_step (example_leaving_run j) (example_leaving_run (Suc j))"
proof (cases i rule: example_leaving_run.cases)
  case (4 n)
  have "ctl_inv example_drained" using reachable_inv [OF example_drained_reachable] .
  with 4 assms returned_no_own_step [of example_controller example_drained] show ?thesis
    by (auto simp: example_drained_def)
qed (auto intro!: exI [of _ i] simp: own_step_def example_leaving_def example_drained_def)

theorem run_terminates_witness:
  "cs_phase (example_leaving_run 0) = Draining \<and> (\<exists>k err. cs_phase (example_leaving_run k) = RunReturned err)"
proof -
  have "(ctl_step example_controller)\<^sup>*\<^sup>* example_init (example_leaving_run 0)" "cs_phase (example_leaving_run 0) = Draining"
    using example_leaving_reachable by (simp_all add: example_leaving_def)
  with run_terminates [of example_controller _ _ _ example_leaving_run, OF _ _ example_leaving_step example_leaving_fair]
  show ?thesis by auto
qed

end
