(* ===== verification/Spec2Isabelle.thy ===== *)
theory Spec2Isabelle
  imports Plugin Server SchemaResolver Controller FakeClient InformerFactory Clientset Interceptor Pki MainProcess DeepCopy Scheme EvaluatorRun Drain
begin

text \<open>
  This development models \<^verbatim>\<open>kubernetes/cel-admission-webhook\<close>: an admission webhook that enforces
  ValidatingAdmissionPolicies on clusters whose API server does not, by installing the
  policy types as custom resources and evaluating their CEL expressions in the webhook process.

  \<^bold>\<open>The program.\<close> \<^verbatim>\<open>cmd/cel-admission-webhook/main.go\<close> loads a configuration, makes the clients, the
  schema resolver and the plugin, and runs the plugin and the HTTP server until a signal. The
  server (\<^verbatim>\<open>pkg/webhook/server.go\<close>) turns an AdmissionReview into attributes, asks its validator and
  answers with the verdict. The validator is a composite (\<^verbatim>\<open>pkg/validator/multi.go\<close>) of one plugin
  (\<^verbatim>\<open>plugin.go\<close>), which exempts the policy resources, waits for the evaluator's informers and calls
  the evaluator of the vendored API server library. The evaluator watches policies and
  bindings through a wrapped client (\<^verbatim>\<open>injected_client.go\<close>, \<^verbatim>\<open>transformed_client.go\<close>) which converts
  between the native types and the custom ones, over the generated REST clients; informers fill
  indexed stores, and generic controllers (\<^verbatim>\<open>pkg/controller/generic.go\<close>) reconcile what changed through
  rate-limited work queues. Beside the webhook stand the interceptor (\<^verbatim>\<open>cmd/interceptor\<close>), a proxy
  that lets clients of the native group work on the custom resources, and \<^verbatim>\<open>cmd/gentls\<close> with
  \<^verbatim>\<open>pkg/pki\<close>, which makes the certificates.

  \<^bold>\<open>Theories and what they model.\<close>

  \<^item> \<open>Prelude\<close>: the functions of Go's string packages the program calls, the outcome type \<open>result\<close> with its
    branches for a value, an error and a panic, and the locale \<open>step_invariant\<close>, which every step
    relation below interprets with its invariant.
  \<^item> \<open>ApiMachinery\<close>, \<open>Json\<close>, \<open>ApiTypes\<close>, \<open>Scheme\<close>: status errors and attributes; \<^verbatim>\<open>encoding/json\<close> on
    structs (locale \<open>json_codec\<close>); the records of \<^verbatim>\<open>types.go\<close> with their encoding; the registry of types
    and the generated registrations (locale \<open>registration\<close>).
  \<^item> \<open>Validator\<close>, \<open>Plugin\<close>, \<open>Webhook\<close>, \<open>Server\<close>, \<open>MainProcess\<close>: the admission path and the life of the
    process. \<open>handleWebhookValidate\<close> is the whole handler; \<open>run_step\<close> is \<^verbatim>\<open>Run\<close> of the server with its
    goroutines and channels, and \<open>main_step\<close> composes it with the rest of \<^verbatim>\<open>main\<close>.
  \<^item> \<open>Matching\<close>, \<open>CelFilter\<close>, \<open>PolicyValidator\<close>, \<open>PolicyController\<close>, \<open>Evaluator\<close>: the evaluator. Which
    requests a policy is about; the evaluation of compiled expressions under a cost budget kept as a 64-bit
    word; the decision of one policy; the book-keeping of policies, bindings, parameters and compiled
    validators with the snapshot taken of it; and the loops of \<^verbatim>\<open>Validate\<close> over that snapshot (locale
    \<open>denial_loop\<close>: a loop body only adds denials).
  \<^item> \<open>Store\<close>, \<open>Lister\<close>, \<open>WorkQueue\<close>, \<open>Controller\<close>, \<open>Drain\<close>: the informer's store with its indices (locale
    \<open>indexed_store\<close>), the generic listers, the work queue with its condition variable, delays and back-off
    (locale \<open>work_queue\<close>), and the generic controller: \<open>ctl_step\<close> interleaves the event handlers, the workers,
    the delaying goroutine and \<^verbatim>\<open>Run\<close>. \<open>Drain\<close> holds its termination.
  \<^item> \<open>SharedInformer\<close>, \<open>EvaluatorController\<close>, \<open>EvaluatorRun\<close>: how changes reach the evaluator. The shared informer from
    the deltas it pops to the notifications of its listener (\<open>informer_step\<close>); the evaluator's own generic controller, which
    tracks the objects of the initial list, together with its informer (\<open>gc_step\<close>, locale
    \<open>recording_reconciler\<close> for what it asks of a reconciler, interpreted for policies and for bindings); and the evaluator's \<^verbatim>\<open>Run\<close>
    with both controllers and the goroutine that refreshes the snapshot (\<open>evaluator_step\<close>, \<open>evaluator_run\<close>).
  \<^item> \<open>SchemaResolver\<close>: the cache of OpenAPI schemas (locale \<open>schema_resolver\<close>) and its concurrent callers.
  \<^item> \<open>Client\<close>, \<open>Conversion\<close>, \<open>RestClient\<close>, \<open>Clientset\<close>, \<open>FakeClient\<close>, \<open>InformerFactory\<close>: the client interface
    and its contract (locale \<open>object_client\<close>, extended by \<open>transforming_client\<close> and, through a sublocale,
    met by the wrapped client); the conversions; the requests of the generated clients; the fake
    clientset over its object tracker (locale \<open>fake_type\<close>), on which the contract is discharged; the generated
    informers, listers and the shared informer factory.
  \<^item> \<open>GoHeap\<close>, \<open>DeepCopy\<close>: Go memory as a list of cells, and the generated deep copies on it (locale
    \<open>deep_copier\<close>, interpreted for every type).
  \<^item> \<open>Interceptor\<close>, \<open>Pki\<close>: the proxy's rewriting of requests and responses; certificates.
  \<^item> \<open>Spec2Isabelle\<close>: the properties that span components.

  \<^bold>\<open>How state and operations correspond.\<close> A struct is a record whose fields carry a prefix; a Go function
  is a definition of the same name, with the prefix of its type when the name alone would clash. State that a mutex
  guards is passed and returned; goroutines that interleave are steps of an inductive relation, one step per
  critical section or channel operation. A Go map is a partial map; where the program ranges over one, the order is an
  argument and the theorems hold for every order. Errors are values of \<open>goerror\<close>; a nil dereference, a failed type
  assertion and an explicit panic are the outcome \<open>Panic\<close>. Integers that are added or compared at
  a width are words.

  \<^bold>\<open>What the lemmas show.\<close> The admission path fails closed: an allowed answer means the request was well formed and, unless
  it was for the policies themselves, that the evaluator had synced and every policy in its snapshot that
  applies and does not ignore failures holds of the request. The snapshot is exact: it holds the policies that exist after the
  reconciled changes, with their bindings and validators compiled from their current text, whatever the
  order of events. The running evaluator follows the informers: when nothing is on its way its next snapshot is exactly what
  the stores hold, and an answer it gives enforces every policy that has been in the stores since these were first complete. A filter spends exactly the costs of its expressions. Match criteria mean what
  their documentation says, apart from equivalent resources. Controllers lose no change, never
  process a key twice at a time, retry failures, and \<^verbatim>\<open>Run\<close> ends once its context does. The store refines a map, the queue
  loses no wake-up and no delayed item. The wrapped client behaves as a client of native policies. Deep
  copies share nothing. The conversions, the interceptor and the encodings round-trip. Other theorems state
  defects the model showed: the server's \<^verbatim>\<open>Run\<close> hangs after its context is done, the process
  therefore ignores signals, cached schemas of changed CRDs stay, a policy with unknown parameters keeps its
  configuration error, and message expressions decide
  a request in place of the validations when they exhaust the budget.

  \<^bold>\<open>Bounds and termination.\<close> No definition uses fuel: loops are recursions on lists, or functions with a
  measure. Step relations run for any number of steps; where the program promises an end, the end is
  proved (\<open>Drain\<close>), under the assumption that a goroutine which can move is not passed over for
  ever.

  \<^bold>\<open>Arguments.\<close> Code that is not part of the repository and what belongs to the outside world is an argument: JSON
  reading of reviews, the codecs and the transport, the CEL compiler and the compiled programs, the type
  checker, the REST mapper, discovery, cryptographic primitives, the file system, clocks and the token bucket.
  Where a theorem needs their documented behaviour it is a hypothesis of the theorem, and the witness
  shows an instance. Of the API server \<open>feed_ok\<close> says that objects have metadata and names without a slash, that
  a changed specification has a changed resource version, and that a binding names a policy (the schema of the
  resource requires the field; that it is not empty is assumed).

  \<^bold>\<open>Granularity.\<close> In \<open>ctl_step\<close> a worker reconciles an item and puts it back in one step, so a retry that blocks while
  the queue shuts down is not seen there; \<open>gc_step\<close> separates them. \<open>main_step\<close> begins after the set-up of \<^verbatim>\<open>main\<close>, whose
  early returns are in \<open>main_setup\<close>. A send of a generated client includes the retries of \<^verbatim>\<open>client-go\<close>. A panic of the evaluator is
  an error of the request, which the server would abort; neither is an admission.

  \<^bold>\<open>Not modelled.\<close> Logging and metrics; command line flags; the caching of the HTTP
  transport and of REST mappings; the inside of the informers' reflectors and of their delta
  queues, whose output is any sequence of deltas of served objects; the type checking of expressions and their
  compilation; the build scripts and manifests, which have no behaviour at run time. The licence headers,
  imports and documentation files make up the lines no definition maps.
\<close>

section \<open>Properties that span components\<close>

lemma allowed_admitted:
  assumes validator: "wh_validator wh = NewMulti [NewPlugin c]"
    and codec: "\<And>rv out. wh_MarshalReview wh rv = Inr out \<Longrightarrow>
      read out = map_option (\<lambda>rs. (rs_UID rs, rs_Allowed rs)) (rv_Response rv)"
    and handle: "handleWebhookValidate wh req new_ResponseWriter s = (w, s')"
    and ok: "rw_status w = Some 200"
    and allowed: "read (rw_body w) = Some (uid, True)"
  shows "\<exists>r object oldObject. parseRequest wh req = Inr r \<and> rq_UID r = uid \<and>
    decodeObject wh (rq_Kind r) (rq_Object r) = Inr object \<and>
    decodeObject wh (rq_Kind r) (rq_OldObject r) = Inr oldObject \<and>
    (gvr_Group (rq_Resource r) \<in> {''admissionregistration.k8s.io'', ''admissionregistration.x-k8s.io''} \<and>
       gvr_Resource (rq_Resource r) \<in> {''validatingadmissionpolicies'', ''validatingadmissionpolicybindings''} \<and> s' = s \<or>
     (\<exists>s1. ev_HasSynced c s1 \<and> ev_Validate c (requestAttributes r object oldObject) s1 = (None, s')))"
proof -
  have handles: "vi_Handles (wh_validator wh) operation" for operation
    by (simp add: validator NewMulti_def NewPlugin_def plugin_Handles_def)
  have run: "vi_Validate (wh_validator wh) a s = vi_Validate (NewPlugin c) a s" for a
    by (simp add: validator NewMulti_def NewPlugin_def plugin_Handles_def split: prod.split option.split)
  obtain r object oldObject where r: "parseRequest wh req = Inr r" "rq_UID r = uid"
      "decodeObject wh (rq_Kind r) (rq_Object r) = Inr object"
      "decodeObject wh (rq_Kind r) (rq_OldObject r) = Inr oldObject"
    and v: "vi_Validate (NewPlugin c) (requestAttributes r object oldObject) s = (None, s')"
    using allowed_verdict [of wh read, OF codec handle ok allowed] by (auto simp: handles run)
  show ?thesis
  proof (cases "isPolicyResource (requestAttributes r object oldObject)")
    case True
    with v have "s' = s" by (simp add: NewPlugin_def)
    with r True show ?thesis by (auto simp: isPolicyResource_iff requestAttributes_def NewAttributesRecord_def)
  next
    case False
    with plugin_admits [OF False v] r show ?thesis by blast
  qed
qed

text \<open>
  C3. The admission path fails closed from end to end. \<^verbatim>\<open>main\<close> gives the webhook a composite of
  one plugin. If the body of a 200 response reads as "allowed", then the request was a
  well-formed review with that id, its objects decoded under the kind it announces, and it
  was either for the policy resources themselves, or the evaluator admitted it in a state in
  which its informers had synced.
\<close>

theorem admission_fail_closed:
  assumes validator: "wh_validator wh = NewMulti [NewPlugin c]"
    and codec: "\<And>rv out. wh_MarshalReview wh rv = Inr out \<Longrightarrow>
      read out = map_option (\<lambda>rs. (rs_UID rs, rs_Allowed rs)) (rv_Response rv)"
    and handle: "handleWebhookValidate wh req new_ResponseWriter s = (w, s')"
    and ok: "rw_status w = Some 200"
    and allowed: "read (rw_body w) = Some (uid, True)"
  shows "\<exists>r object oldObject. parseRequest wh req = Inr r \<and> rq_UID r = uid \<and>
    decodeObject wh (rq_Kind r) (rq_Object r) = Inr object \<and>
    decodeObject wh (rq_Kind r) (rq_OldObject r) = Inr oldObject \<and>
    (gvr_Group (rq_Resource r) \<in> {''admissionregistration.k8s.io'', ''admissionregistration.x-k8s.io''} \<and>
       gvr_Resource (rq_Resource r) \<in> {''validatingadmissionpolicies'', ''validatingadmissionpolicybindings''} \<and> s' = s \<or>
     (\<exists>s1. ev_HasSynced c s1 \<and> ev_Validate c (requestAttributes r object oldObject) s1 = (None, s')))"
  using assms by (rule allowed_admitted)




lemma no_slash_no_group: "CHR ''/'' \<notin> set name \<Longrightarrow> \<not> go_contains name nativeGV"
  by (induction name) (auto simp: nativeGV_def has_prefix_iff)

lemma native_path_rewritten:
  assumes "valid_name name" and "resource = ''validatingadmissionpolicies'' \<or> resource = ''validatingadmissionpolicybindings''"
  shows "replace_all (''/apis/admissionregistration.k8s.io/v1alpha1/'' @ resource @ ''/'' @ name) nativeGV customGV =
    ''/apis/admissionregistration.x-k8s.io/v1alpha1/'' @ resource @ ''/'' @ name"
proof -
  have "replace_all name nativeGV customGV = name"
    using assms(1) by (intro replace_all_no_occurrence no_slash_no_group) (simp add: valid_name_def good_segment_def)
  then show ?thesis using assms(2) by (elim disjE) (simp_all add: nativeGV_def customGV_def)
qed

text \<open>
  C20. The interceptor and the clientset of the webhook meet at the same objects. A native client's
  request for a named policy or binding, sent through the interceptor to an API server without a
  path of its own, arrives at the path at which the generated client of the custom group looks
  for the object of that name.
\<close>

theorem intercepted_object:
  assumes "valid_name name" and "resource = ''validatingadmissionpolicies'' \<or> resource = ''validatingadmissionpolicybindings''"
    and "url_Path (hm_URL (pr_In r)) = ''/apis/admissionregistration.k8s.io/v1alpha1/'' @ resource @ ''/'' @ name"
    and "hm_URL (pr_Out r) = hm_URL (pr_In r)" and "url_RawPath (hm_URL (pr_In r)) = ''''"
    and "url_Path u = ''''" and "url_RawPath u = ''''"
    and "re_pathPrefix env = versioned_path (setConfigDefaults agent c)" and "cf_basePath c = ''''"
  shows "url_Path (hm_URL (pr_Out (Rewrite EscapedPath u r))) =
    req_path (req_Name name (req_Resource resource (NewRequest env verb)))"
proof -
  let ?p = "''/apis/admissionregistration.k8s.io/v1alpha1/'' @ resource @ ''/'' @ name"
  let ?segs = "[''apis'', ''admissionregistration.x-k8s.io'', ''v1alpha1'']"
  have contains: "go_contains ?p nativeGV" by (simp add: nativeGV_def)
  have joined: "fst (joinURLPath EscapedPath u (hm_URL (pr_In r))) = ?p"
    by (simp add: joinURLPath_def singleJoiningSlash_def has_suffix_def assms(3,5-7))
  have "url_Path (hm_URL (pr_Out (Rewrite EscapedPath u r))) = replace_all ?p nativeGV customGV"
    using contains joined by (simp add: Rewrite_def SetURL_def rewriteRequestURL_def Let_def assms(3,4))
  moreover have "IsValidPathSegmentName resource = []" and "good_segment resource"
    using assms(2) by (auto simp: IsValidPathSegmentName_def good_segment_def)
  moreover have "req_path \<lparr>rr_verb = verb, rr_pathPrefix = re_pathPrefix env, rr_resource = resource,
      rr_resourceName = name, rr_subresource = '''', rr_params = [], rr_timeout = t, rr_body = None, rr_err = None\<rparr> =
    ''/apis/admissionregistration.x-k8s.io/v1alpha1/'' @ resource @ ''/'' @ name" for t
    using assms(1) calculation(3) versioned_path_default [OF assms(9), of agent]
    by (subst named_path [where segs = ?segs]) (auto simp: assms(8) valid_name_def good_segment_def)
  ultimately show ?thesis
    using native_path_rewritten [OF assms(1,2)] assms(1) by (simp add: new_request req_Name_valid)
qed

section \<open>Witnesses\<close>

text \<open>The webhook of the examples with a plugin whose evaluator refuses anything named "bad".\<close>

definition example_evaluator :: "(bytes, nat) celAdmissionPlugin" where
  "example_evaluator = example_plugin\<lparr>ev_Validate := (\<lambda>a n.
     (if attr_name a = ''bad'' then Some (ErrorString ''denied'') else None, Suc n))\<rparr>"

definition example_server :: "(bytes, nat) webhook" where
  "example_server = example_webhook\<lparr>wh_validator := NewMulti [NewPlugin example_evaluator]\<rparr>"

theorem admission_fail_closed_witness:
  "rw_body (fst (handleWebhookValidate example_server (example_post ''application/json'' ''good'')
     new_ResponseWriter 1)) = ''tu1'' \<and>
   (\<exists>s1 a. ev_HasSynced example_evaluator s1 \<and> ev_Validate example_evaluator a s1 = (None, 4))"
proof -
  let ?h = "handleWebhookValidate example_server (example_post ''application/json'' ''good'') new_ResponseWriter 1"
  have val: "wh_validator example_server = NewMulti [NewPlugin example_evaluator]"
    by (simp add: example_server_def)
  have c: "\<And>rv out. wh_MarshalReview example_server rv = Inr out \<Longrightarrow>
      example_read out = map_option (\<lambda>rs. (rs_UID rs, rs_Allowed rs)) (rv_Response rv)"
    by (simp add: example_server_def example_webhook_def example_read_marshal)
  have h: "?h = (fst ?h, 4)" and ok: "rw_status (fst ?h) = Some 200" and body: "rw_body (fst ?h) = ''tu1''"
    by (simp_all add: example_server_def example_evaluator_def example_webhook_simps example_plugin_simps
        plugin_Handles_def)
  from body have a: "example_read (rw_body (fst ?h)) = Some (''u1'', True)" by simp
  from admission_fail_closed [of example_server example_evaluator example_read, OF val c h ok a]
  obtain s1 a where "ev_HasSynced example_evaluator s1" and "ev_Validate example_evaluator a s1 = (None, 4)"
    by auto
  then show ?thesis using body by blast
qed






theorem intercepted_object_witness:
  "url_Path (hm_URL (pr_Out (Rewrite url_Path example_target
     (example_proxy_request ''/apis/admissionregistration.k8s.io/v1alpha1/validatingadmissionpolicies/p'' '''')))) =
   req_path (req_Name ''p'' (req_Resource ''validatingadmissionpolicies'' (NewRequest example_env ''GET'')))"
  by (rule intercepted_object [where agent = "''agent''" and c = example_rest_config])
    (simp_all add: valid_name_def good_segment_def example_proxy_request_def example_message_def example_target_def
      example_env_def example_rest_config_def)

end
